(* ===== verification/Prelude.thy ===== *)
theory Prelude
imports Main "HOL-Library.State_Monad" "HOL-Library.List_Lexorder" "HOL-Library.Char_ord"
begin

text \<open>
  What every component of the model shares and no component owns: the parts of Go's runtime the
  operator and the API server use (64-bit integers, instants and durations, strings, maps with a
  zero value), the effect monad in which a reconcile or a handler is written, and the rules that
  reason about it.

  An effectful function is a program in the state monad over its own call log. A call to the
  Kubernetes API server, the clock or the random source appends one event to the log, and its
  reply may depend on the whole log: the reply function is a parameter, so every interleaving
  with other writers and every injected error is one choice of that parameter.
\<close>

named_theorems wp_simps \<open>weakest-precondition equations of the effect monad\<close>
named_theorems wpe_rules \<open>introduction rules of the guarded weakest precondition\<close>
named_theorems emits_rules \<open>which events a program appends to its log\<close>
named_theorems grow_intros \<open>facts about a log that longer logs keep\<close>

section \<open>Go's 64-bit integers\<close>

text \<open>Arithmetic on \<^verbatim>\<open>int64\<close> and \<^verbatim>\<open>time.Duration\<close> wraps around modulo
  \<open>2 ^ 64\<close>; the model computes in \<open>int\<close> and wraps where the code multiplies or adds.\<close>

definition min64 :: int where "min64 = - (2 ^ 63)"
definition max64 :: int where "max64 = 2 ^ 63 - 1"

definition wrap64 :: "int \<Rightarrow> int" where
  "wrap64 x = (x + 2 ^ 63) mod 2 ^ 64 - 2 ^ 63"

lemma wrap64_id: "min64 \<le> x \<Longrightarrow> x \<le> max64 \<Longrightarrow> wrap64 x = x"
  by (simp add: wrap64_def min64_def max64_def)

lemma wrap64_range: "min64 \<le> wrap64 x \<and> wrap64 x \<le> max64"
proof -
  have "0 \<le> (x + 2 ^ 63) mod 2 ^ 64" "(x + 2 ^ 63) mod 2 ^ 64 < (2 ^ 64 :: int)"
    by (rule pos_mod_sign, simp, rule pos_mod_bound, simp)
  then show ?thesis by (simp add: wrap64_def min64_def max64_def)
qed

section \<open>Instants and durations\<close>

text \<open>An instant is a number of nanoseconds since the Unix epoch, a duration a number of
  nanoseconds. \<open>zeroTime\<close> is Go's zero \<^verbatim>\<open>time.Time\<close> (year 1), which is what
  \<^verbatim>\<open>IsZero\<close> asks for.\<close>

type_synonym Time = int
type_synonym Duration = int

definition second :: Duration where "second = 1000000000"
definition millisecond :: Duration where "millisecond = 1000000"
definition zeroTime :: Time where "zeroTime = - (62135596800 * second)"

definition isZeroTime :: "Time \<Rightarrow> bool" where
  "isZeroTime t \<longleftrightarrow> t = zeroTime"

text \<open>A \<^verbatim>\<open>*metav1.Time\<close> is zero when it is nil or holds the zero instant.\<close>

definition isZeroPtr :: "Time option \<Rightarrow> bool" where
  "isZeroPtr p = (case p of None \<Rightarrow> True | Some t \<Rightarrow> isZeroTime t)"

text \<open>\<^verbatim>\<open>t.Sub(u)\<close>, and so \<^verbatim>\<open>time.Since\<close> and \<^verbatim>\<open>time.Until\<close>, saturate.\<close>

definition timeSub :: "Time \<Rightarrow> Time \<Rightarrow> Duration" where
  "timeSub t u = max min64 (min max64 (t - u))"

text \<open>\<^verbatim>\<open>time.Duration(n) * time.Second\<close> is a wrapping 64-bit product.\<close>

definition seconds :: "int \<Rightarrow> Duration" where
  "seconds n = wrap64 (n * second)"

definition truncateSecond :: "Time \<Rightarrow> Time" where
  "truncateSecond t = t div second * second"

lemma seconds_exact:
  assumes "0 \<le> n" and "n \<le> 9223372036"
  shows "seconds n = n * second"
proof -
  have "0 \<le> n * second" "n * second \<le> 9223372036 * second"
    using assms by (simp_all add: second_def)
  then show ?thesis
    by (simp add: seconds_def wrap64_id min64_def max64_def second_def)
qed

lemma timeSub_neg_iff: "timeSub t u < 0 \<longleftrightarrow> t < u"
  by (auto simp: timeSub_def min64_def max64_def)

lemma timeSub_mono: "t \<le> t' \<Longrightarrow> timeSub t u \<le> timeSub t' u"
  by (auto simp: timeSub_def)

section \<open>Strings and maps with a zero value\<close>

text \<open>\<^verbatim>\<open>m[k]\<close> on a \<^verbatim>\<open>map[string]string\<close> reads the empty string where the key is
  missing; a nil map reads like an empty one.\<close>

type_synonym smap = "string \<rightharpoonup> string"

definition get :: "smap \<Rightarrow> string \<Rightarrow> string" where
  "get m k = (case m k of None \<Rightarrow> [] | Some v \<Rightarrow> v)"

lemma get_upd [simp]: "get (m(k \<mapsto> v)) k' = (if k' = k then v else get m k')"
  by (simp add: get_def)

lemma get_empty [simp]: "get Map.empty k = []"
  by (simp add: get_def)

definition hasPrefix :: "string \<Rightarrow> string \<Rightarrow> bool" where
  "hasPrefix p s \<longleftrightarrow> take (length p) s = p"

lemma hasPrefix_append [simp]: "hasPrefix p (p @ s)"
  by (simp add: hasPrefix_def)

text \<open>\<open>strings.Trim(s, "-")\<close>.\<close>

definition trimDashes :: "string \<Rightarrow> string" where
  "trimDashes s = rev (dropWhile (\<lambda>c. c = CHR ''-'') (rev (dropWhile (\<lambda>c. c = CHR ''-'') s)))"

lemma set_trimDashes: "set (trimDashes s) \<subseteq> set s"
  by (auto simp: trimDashes_def dest!: set_dropWhileD)

lemma length_trimDashes: "length (trimDashes s) \<le> length s"
  by (metis length_dropWhile_le length_rev le_trans trimDashes_def)

lemma dropWhile_hd: "dropWhile P s = [] \<or> \<not> P (hd (dropWhile P s))"
  using hd_dropWhile [of P s] by blast

lemma dropWhile_id: "s = [] \<or> \<not> P (hd s) \<Longrightarrow> dropWhile P s = s"
  by (cases s) auto

lemma last_dropWhile: "dropWhile P s \<noteq> [] \<Longrightarrow> last (dropWhile P s) = last s"
  by (induction s) auto

lemma trimDashes_ends:
  assumes "trimDashes s \<noteq> []"
  shows "hd (trimDashes s) \<noteq> CHR ''-''" "last (trimDashes s) \<noteq> CHR ''-''"
proof -
  let ?d = "\<lambda>c. c = CHR ''-''"
  let ?l = "dropWhile ?d s"
  let ?r = "dropWhile ?d (rev ?l)"
  have ne: "?r \<noteq> []" using assms by (simp add: trimDashes_def)
  then have ne': "?l \<noteq> []" by (cases ?l) auto
  have "\<not> ?d (hd ?r)" using dropWhile_hd [of ?d "rev ?l"] ne by blast
  then show "last (trimDashes s) \<noteq> CHR ''-''"
    unfolding trimDashes_def last_rev .
  have "hd (trimDashes s) = hd ?l"
    using last_dropWhile [OF ne] unfolding trimDashes_def hd_rev last_rev .
  moreover have "\<not> ?d (hd ?l)" using dropWhile_hd [of ?d s] ne' by blast
  ultimately show "hd (trimDashes s) \<noteq> CHR ''-''" by simp
qed

lemma trimDashes_id:
  "s = [] \<or> hd s \<noteq> CHR ''-'' \<and> last s \<noteq> CHR ''-'' \<Longrightarrow> trimDashes s = s"
  by (cases "s = []") (auto simp: trimDashes_def dropWhile_id hd_rev)

lemma trimDashes_idem [simp]: "trimDashes (trimDashes s) = trimDashes s"
  using trimDashes_ends [of s] by (intro trimDashes_id) blast

text \<open>\<open>strings.TrimSpace\<close>: the six ASCII spaces and the UTF-8 encodings of the other
  white-space runes, stripped from both ends.\<close>

definition spaceRunes :: "nat list list" where
  "spaceRunes = [[9], [10], [11], [12], [13], [32], [194, 133], [194, 160], [225, 154, 128]]
     @ map (\<lambda>n. [226, 128, n]) ([128..<139] @ [168, 169, 175]) @ [[226, 129, 159], [227, 128, 128]]"

fun stripFront :: "nat \<Rightarrow> nat list list \<Rightarrow> string \<Rightarrow> string" where
  "stripFront 0 runes s = s"
| "stripFront (Suc n) runes s =
     (case find (\<lambda>r. map of_char (take (length r) s) = r) runes of
        None \<Rightarrow> s | Some r \<Rightarrow> stripFront n runes (drop (length r) s))"

definition TrimSpace :: "string \<Rightarrow> string" where
  "TrimSpace s =
     (let left = stripFront (length s) spaceRunes s in
      rev (stripFront (length left) (map rev spaceRunes) (rev left)))"

lemma TrimSpace_examples:
  "TrimSpace ''  a b '' = ''a b''" "TrimSpace '' '' = []" "TrimSpace [] = []"
  by code_simp+

text \<open>\<open>%d\<close> and \<open>%q\<close>. Quoting keeps bytes outside ASCII as they are, which is what
  Go does for the printable part of Unicode.\<close>

fun showNat :: "nat \<Rightarrow> string" where
  "showNat n = (if n < 10 then [char_of (48 + n)] else showNat (n div 10) @ [char_of (48 + n mod 10)])"

declare showNat.simps [simp del]

definition showInt :: "int \<Rightarrow> string" where
  "showInt i = (if i < 0 then CHR ''-'' # showNat (nat (- i)) else showNat (nat i))"

definition hexDigit :: "nat \<Rightarrow> char" where
  "hexDigit n = char_of (if n < 10 then 48 + n else 87 + n)"

definition quoteChar :: "char \<Rightarrow> string" where
  "quoteChar c = (let n = of_char c :: nat in
     if n = 34 then [char_of (92 :: nat), c]
     else if n = 92 then [c, c]
     else if n = 7 then [char_of (92 :: nat), CHR ''a'']
     else if n = 8 then [char_of (92 :: nat), CHR ''b'']
     else if n = 9 then [char_of (92 :: nat), CHR ''t'']
     else if n = 10 then [char_of (92 :: nat), CHR ''n'']
     else if n = 11 then [char_of (92 :: nat), CHR ''v'']
     else if n = 12 then [char_of (92 :: nat), CHR ''f'']
     else if n = 13 then [char_of (92 :: nat), CHR ''r'']
     else if n < 32 \<or> n = 127
       then [char_of (92 :: nat), CHR ''x'', hexDigit (n div 16), hexDigit (n mod 16)]
     else [c])"

definition goQuote :: "string \<Rightarrow> string" where
  "goQuote s = [char_of (34 :: nat)] @ concat (map quoteChar s) @ [char_of (34 :: nat)]"

fun joinStr :: "string \<Rightarrow> string list \<Rightarrow> string" where
  "joinStr sep [] = []"
| "joinStr sep [x] = x"
| "joinStr sep (x # y # xs) = x @ sep @ joinStr sep (y # xs)"

section \<open>The effect monad\<close>

type_synonym ('e, 'a) prog = "('e list, 'a) state"

abbreviation give :: "'a \<Rightarrow> ('s, 'a) state" where
  "give x \<equiv> State_Monad.return x"

abbreviation ok :: "'a \<Rightarrow> ('s, 'x + 'a) state" where
  "ok x \<equiv> State_Monad.return (Inr x)"

abbreviation throw :: "'x \<Rightarrow> ('s, 'x + 'a) state" where
  "throw e \<equiv> State_Monad.return (Inl e)"

text \<open>One call: the reply is read off the log, and the call with its reply is appended.\<close>

definition perform :: "('a \<Rightarrow> 'e) \<Rightarrow> ('e list \<Rightarrow> 'a) \<Rightarrow> ('e, 'a) prog" where
  "perform mk reply = State (\<lambda>h. (reply h, h @ [mk (reply h)]))"

text \<open>\<open>if err != nil { return err }\<close>.\<close>

definition tryE :: "('s, 'x + 'a) state \<Rightarrow> ('a \<Rightarrow> ('s, 'x + 'b) state) \<Rightarrow> ('s, 'x + 'b) state" where
  "tryE m f = do { r \<leftarrow> m; case r of Inl e \<Rightarrow> throw e | Inr x \<Rightarrow> f x }"

definition returned :: "('e, 'a) prog \<Rightarrow> 'e list \<Rightarrow> 'a" where
  "returned m h = fst (run_state m h)"

definition logged :: "('e, 'a) prog \<Rightarrow> 'e list \<Rightarrow> 'e list" where
  "logged m h = snd (run_state m h)"

subsection \<open>Weakest preconditions\<close>

definition wp :: "('e, 'a) prog \<Rightarrow> ('a \<Rightarrow> 'e list \<Rightarrow> bool) \<Rightarrow> 'e list \<Rightarrow> bool" where
  "wp m Q h \<longleftrightarrow> Q (returned m h) (logged m h)"

lemma wp_return [wp_simps]: "wp (State_Monad.return x) Q h = Q x h"
  by (simp add: wp_def returned_def logged_def)

lemma wp_bind [wp_simps]: "wp (State_Monad.bind m f) Q h = wp m (\<lambda>x. wp (f x) Q) h"
  by (simp add: wp_def returned_def logged_def split: prod.split)

lemma wp_perform [wp_simps]: "wp (perform mk reply) Q h = Q (reply h) (h @ [mk (reply h)])"
  by (simp add: wp_def returned_def logged_def perform_def)

lemma wp_tryE [wp_simps]:
  "wp (tryE m f) Q h = wp m (\<lambda>r. case r of Inl e \<Rightarrow> Q (Inl e) | Inr x \<Rightarrow> wp (f x) Q) h"
proof -
  have "wp (case r of Inl e \<Rightarrow> throw e | Inr x \<Rightarrow> f x) Q
      = (case r of Inl e \<Rightarrow> Q (Inl e) | Inr x \<Rightarrow> wp (f x) Q)" for r
    by (rule ext) (simp add: wp_return split: sum.split)
  then show ?thesis by (simp add: tryE_def wp_bind)
qed

lemma wp_mono: "wp m P h \<Longrightarrow> (\<And>x h'. P x h' \<Longrightarrow> Q x h') \<Longrightarrow> wp m Q h"
  by (simp add: wp_def)

lemma wp_returned: "wp m (\<lambda>x h'. R x) h \<longleftrightarrow> R (returned m h)"
  by (simp add: wp_def)

lemma wp_logged: "wp m (\<lambda>x h'. R h') h \<longleftrightarrow> R (logged m h)"
  by (simp add: wp_def)

lemma wp_if [wp_simps]: "wp (if b then m else n) Q h = (if b then wp m Q h else wp n Q h)"
  by simp

lemma wp_case_sum [wp_simps]:
  "wp (case r of Inl e \<Rightarrow> m e | Inr x \<Rightarrow> f x) Q h
   = (case r of Inl e \<Rightarrow> wp (m e) Q h | Inr x \<Rightarrow> wp (f x) Q h)"
  by (simp split: sum.split)

lemma wp_case_option [wp_simps]:
  "wp (case r of None \<Rightarrow> m | Some x \<Rightarrow> f x) Q h
   = (case r of None \<Rightarrow> wp m Q h | Some x \<Rightarrow> wp (f x) Q h)"
  by (simp split: option.split)

lemma wp_case_prod [wp_simps]:
  "wp (case r of (x, y) \<Rightarrow> f x y) Q h = (case r of (x, y) \<Rightarrow> wp (f x y) Q h)"
  by (simp split: prod.split)

subsection \<open>Which events a program appends\<close>

text \<open>\<open>P h e\<close> may speak of the log \<open>h\<close> as it stood when \<open>e\<close> was appended, so
  \<open>emits\<close> also expresses ``only after such a call was made''.\<close>

fun all_steps :: "('e list \<Rightarrow> 'e \<Rightarrow> bool) \<Rightarrow> 'e list \<Rightarrow> 'e list \<Rightarrow> bool" where
  "all_steps P h [] = True"
| "all_steps P h (e # es) = (P h e \<and> all_steps P (h @ [e]) es)"

definition emits :: "('e list \<Rightarrow> 'e \<Rightarrow> bool) \<Rightarrow> ('e, 'a) prog \<Rightarrow> bool" where
  "emits P m \<longleftrightarrow> (\<forall>h. \<exists>es. logged m h = h @ es \<and> all_steps P h es)"

lemma all_steps_append:
  "all_steps P h (xs @ ys) \<longleftrightarrow> all_steps P h xs \<and> all_steps P (h @ xs) ys"
  by (induction xs arbitrary: h) auto

lemma all_steps_const: "all_steps (\<lambda>_. P) h es \<longleftrightarrow> (\<forall>e\<in>set es. P e)"
  by (induction es arbitrary: h) auto

lemma all_steps_mono:
  "all_steps P h es \<Longrightarrow> (\<And>h e. P h e \<Longrightarrow> Q h e) \<Longrightarrow> all_steps Q h es"
  by (induction es arbitrary: h) auto

lemma emits_return [emits_rules]: "emits P (State_Monad.return x)"
  by (simp add: emits_def logged_def)

lemma emits_perform [emits_rules]:
  "(\<And>h. P h (mk (reply h))) \<Longrightarrow> emits P (perform mk reply)"
  by (simp add: emits_def logged_def perform_def)

lemma emits_bind [emits_rules]:
  assumes "emits P m" and "\<And>x. emits P (f x)"
  shows "emits P (State_Monad.bind m f)"
  unfolding emits_def
proof
  fix h
  obtain x h' where r: "run_state m h = (x, h')" by (cases "run_state m h")
  from assms(1) obtain es where es: "h' = h @ es" "all_steps P h es"
    using r by (metis emits_def logged_def snd_conv)
  from assms(2) [of x] obtain es' where
    "logged (f x) h' = h' @ es'" "all_steps P h' es'"
    by (auto simp: emits_def)
  with es r show "\<exists>es. logged (m \<bind> f) h = h @ es \<and> all_steps P h es"
    by (intro exI [of _ "es @ es'"]) (simp add: logged_def all_steps_append)
qed

lemma emits_tryE [emits_rules]:
  assumes "emits P m" and "\<And>x. emits P (f x)"
  shows "emits P (tryE m f)"
  unfolding tryE_def
  by (intro emits_bind assms) (auto simp: emits_return assms split: sum.split)

lemma emits_mono: "emits P m \<Longrightarrow> (\<And>h e. P h e \<Longrightarrow> Q h e) \<Longrightarrow> emits Q m"
  unfolding emits_def by (meson all_steps_mono)

lemma emitsD:
  assumes "emits P m"
  obtains es where "logged m h = h @ es" and "all_steps P h es"
  using assms by (auto simp: emits_def)

lemma emits_const_nil:
  assumes "emits (\<lambda>_. P) m"
  shows "\<forall>e\<in>set (logged m []). P e"
  using assms by (metis all_steps_const append_Nil emits_def)

subsection \<open>Both at once\<close>

text \<open>\<open>wpe P m Q h\<close>: run from the log \<open>h\<close>, every event of \<open>m\<close> meets the guard \<open>P\<close> at the
  log it is appended to, and result and final log meet \<open>Q\<close>.\<close>

definition wpe :: "('e list \<Rightarrow> 'e \<Rightarrow> bool) \<Rightarrow> ('e, 'a) prog \<Rightarrow> ('a \<Rightarrow> 'e list \<Rightarrow> bool) \<Rightarrow> 'e list \<Rightarrow> bool"
  where "wpe P m Q h \<longleftrightarrow>
    (\<exists>es. logged m h = h @ es \<and> all_steps P h es \<and> Q (returned m h) (h @ es))"

lemma wpe_return [wpe_rules]: "Q x h \<Longrightarrow> wpe P (State_Monad.return x) Q h"
  by (simp add: wpe_def logged_def returned_def)

lemma wpe_perform:
  "P h (mk (reply h)) \<and> Q (reply h) (h @ [mk (reply h)]) \<Longrightarrow> wpe P (perform mk reply) Q h"
  by (simp add: wpe_def logged_def returned_def perform_def)

lemma wpe_bind [wpe_rules]:
  assumes "wpe P m (\<lambda>x. wpe P (f x) Q) h"
  shows "wpe P (State_Monad.bind m f) Q h"
proof -
  from assms obtain es where 1: "logged m h = h @ es" "all_steps P h es"
    and "wpe P (f (returned m h)) Q (h @ es)" by (auto simp: wpe_def)
  then obtain es' where 2: "logged (f (returned m h)) (h @ es) = (h @ es) @ es'"
    "all_steps P (h @ es) es'" "Q (returned (f (returned m h)) (h @ es)) ((h @ es) @ es')"
    by (auto simp: wpe_def)
  have "run_state (m \<bind> f) h = run_state (f (returned m h)) (h @ es)"
    using 1(1) by (cases "run_state m h") (simp add: logged_def returned_def)
  with 1 2 show ?thesis
    by (auto simp: wpe_def logged_def returned_def all_steps_append intro!: exI [of _ "es @ es'"])
qed

lemma wpe_mono:
  "wpe P m Q h \<Longrightarrow> (\<And>x es. Q x (h @ es) \<Longrightarrow> Q' x (h @ es)) \<Longrightarrow> wpe P m Q' h"
  by (auto simp: wpe_def)

lemma wpe_tryE [wpe_rules]:
  assumes "wpe P m (\<lambda>r h'. case r of Inl e \<Rightarrow> Q (Inl e) h' | Inr x \<Rightarrow> wpe P (f x) Q h') h"
  shows "wpe P (tryE m f) Q h"
  unfolding tryE_def
  by (intro wpe_bind wpe_mono [OF assms]) (auto intro: wpe_return split: sum.splits)

lemma wpe_emits:
  assumes "emits P m" and "\<And>x es. Q x (h @ es)"
  shows "wpe P m Q h"
  using assms unfolding wpe_def emits_def by blast

lemma all_steps_conj:
  "all_steps (\<lambda>h e. P h e \<and> N e) h es \<longleftrightarrow> all_steps P h es \<and> (\<forall>e\<in>set es. N e)"
  by (induction es arbitrary: h) auto

lemma wpe_quiet:
  assumes "emits (\<lambda>h e. P h e \<and> N e) m" and "\<And>x es. \<forall>e\<in>set es. N e \<Longrightarrow> Q x (h @ es)"
  shows "wpe P m Q h"
  using assms unfolding wpe_def emits_def all_steps_conj by blast

lemma wpe_True_emits: "(\<And>h. wpe P m (\<lambda>_ _. True) h) \<Longrightarrow> emits P m"
  by (auto simp: wpe_def emits_def)

lemma wpe_wp: "wpe P m Q h \<Longrightarrow> wp m Q h"
  by (auto simp: wpe_def wp_def)

lemma wpe_all_steps:
  "wpe P m Q [] \<Longrightarrow> all_steps P [] (logged m [])"
  by (auto simp: wpe_def)

text \<open>An event of a guarded log met the guard at the part of the log before it.\<close>

lemma all_steps_split:
  "all_steps P h (pre @ e # post) \<Longrightarrow> P (h @ pre) e"
  by (simp add: all_steps_append)

subsection \<open>The contract of a run\<close>

text \<open>What every entry point of the program promises: run from an empty log, each of its calls
  meets a guard at the log it is made at, and it ends as it should. The controllers and the API
  server are its interpretations, and the theorems about them are read off these three facts.\<close>

locale guarded_run =
  fixes prog :: "('e, 'a) prog"
    and guard :: "'e list \<Rightarrow> 'e \<Rightarrow> bool"
    and ending :: "'a \<Rightarrow> 'e list \<Rightarrow> bool"
  assumes spec: "wpe guard prog ending []"
begin

lemma steps:
  assumes "\<And>h e. guard h e \<Longrightarrow> P h e"
  shows "all_steps P [] (logged prog [])"
  using wpe_all_steps [OF spec] assms by (rule all_steps_mono)

lemma at:
  assumes "logged prog [] = h @ e # post"
  shows "guard h e"
  using wpe_all_steps [OF spec] all_steps_split [of guard "[]" h e post] assms by simp

lemma ends: "ending (returned prog []) (logged prog [])"
  using wpe_wp [OF spec] by (simp add: wp_def)

end

end
