(* ===== verification/Types.thy ===== *)
theory Types
imports Prelude
begin

text \<open>
  The API types of \<^verbatim>\<open>api/v1alpha1\<close>: one record per struct, in the field order of the
  source, and one datatype per enumerated string. The constructor \<open>\<dots>Unset\<close> is the empty
  string an omitted field decodes to. Strings that the code compares with other strings
  (reasons, labels, connection types) stay strings. Fields are prefixed with \<open>i\<close> (instance),
  \<open>c\<close> (claim), \<open>t\<close> (template) or \<open>o\<close> (operator configuration) where Go
  distinguishes them by their struct.
\<close>

section \<open>Object metadata and conditions (the part of apimachinery the code reads)\<close>

datatype ConditionStatus = CondUnset | CondTrue | CondFalse | CondUnknown

record Condition =
  condType :: string
  condStatus :: ConditionStatus
  condReason :: string
  condMessage :: string
  condObservedGeneration :: int
  condLastTransitionTime :: Time

record OwnerReference =
  refKind :: string
  refName :: string
  refUID :: string
  refController :: bool

record ObjectMeta =
  Name :: string
  GenerateName :: string
  Namespace :: string
  UID :: string
  ResourceVersion :: string
  Generation :: int
  CreationTimestamp :: Time
  DeletionTimestamp :: "Time option"
  Labels :: smap
  Annotations :: smap
  OwnerReferences :: "OwnerReference list"
  Finalizers :: "string list"

definition emptyMeta :: ObjectMeta where
  "emptyMeta = \<lparr>Name = [], GenerateName = [], Namespace = [], UID = [], ResourceVersion = [],
     Generation = 0, CreationTimestamp = zeroTime, DeletionTimestamp = None,
     Labels = Map.empty, Annotations = Map.empty, OwnerReferences = [], Finalizers = []\<rparr>"

record NamespacedName =
  nnNamespace :: string
  nnName :: string

definition objectKey :: "ObjectMeta \<Rightarrow> NamespacedName" where
  "objectKey m = \<lparr>nnNamespace = Namespace m, nnName = Name m\<rparr>"

section \<open>Label and annotation keys (labels.go)\<close>

definition LabelManaged :: string where "LabelManaged = ''dploy.dev/managed''"
definition LabelOwner :: string where "LabelOwner = ''dploy.dev/owner''"
definition LabelTemplate :: string where "LabelTemplate = ''dploy.dev/template''"
definition LabelInstance :: string where "LabelInstance = ''dploy.dev/instance''"
definition LabelPooled :: string where "LabelPooled = ''dploy.dev/pooled''"
definition LabelClaim :: string where "LabelClaim = ''dploy.dev/claim''"
definition LabelClaimUID :: string where "LabelClaimUID = ''dploy.dev/claim-uid''"
definition AnnotationBoundAt :: string where "AnnotationBoundAt = ''dploy.dev/bound-at''"

lemmas label_defs = LabelManaged_def LabelOwner_def LabelTemplate_def LabelInstance_def
  LabelPooled_def LabelClaim_def LabelClaimUID_def

lemma label_keys_distinct [simp]:
  "distinct [LabelManaged, LabelOwner, LabelTemplate, LabelInstance, LabelPooled, LabelClaim,
    LabelClaimUID]"
  by (simp add: label_defs)

lemma label_neq [simp]:
  "LabelManaged \<noteq> LabelClaimUID" "LabelOwner \<noteq> LabelClaimUID" "LabelTemplate \<noteq> LabelClaimUID"
  "LabelPooled \<noteq> LabelClaimUID" "LabelClaim \<noteq> LabelClaimUID" "LabelInstance \<noteq> LabelClaimUID"
  "LabelClaimUID \<noteq> LabelManaged" "LabelClaimUID \<noteq> LabelOwner" "LabelClaimUID \<noteq> LabelTemplate"
  "LabelClaimUID \<noteq> LabelPooled" "LabelClaimUID \<noteq> LabelClaim" "LabelClaimUID \<noteq> LabelInstance"
  "LabelClaim \<noteq> LabelOwner" "LabelOwner \<noteq> LabelClaim" "LabelManaged \<noteq> LabelOwner"
  "LabelOwner \<noteq> LabelManaged" "LabelTemplate \<noteq> LabelOwner" "LabelOwner \<noteq> LabelTemplate"
  "LabelManaged \<noteq> LabelTemplate" "LabelTemplate \<noteq> LabelManaged" "LabelPooled \<noteq> LabelManaged"
  "LabelManaged \<noteq> LabelPooled" "LabelPooled \<noteq> LabelTemplate" "LabelTemplate \<noteq> LabelPooled"
  "LabelPooled \<noteq> LabelOwner" "LabelOwner \<noteq> LabelPooled"
  by (simp_all add: label_defs)

section \<open>Enumerations (common\_types.go)\<close>

datatype EngineType = EngineUnset | EngineArgoCD | EngineFlux

type_synonym ConnectionType = string
definition ConnectionWeb :: ConnectionType where "ConnectionWeb = ''web''"
definition ConnectionInstructions :: ConnectionType where
  "ConnectionInstructions = ''instructions''"

datatype TemplateMethod = MethodUnset | MethodOnDemand | MethodPool

datatype ChartSourceType = ChartSourceUnset | ChartSourceGit | ChartSourceHelm

record ChartSource =
  csType :: ChartSourceType
  csRepoURL :: string
  csPath :: string
  csChart :: string
  csTargetRevision :: string

record TTLSpec =
  ttlSeconds :: int
  ttlExtendSeconds :: int
  ttlMaxExtends :: int

definition IsUnlimited :: "TTLSpec option \<Rightarrow> bool" where
  "IsUnlimited t = (case t of None \<Rightarrow> False | Some s \<Rightarrow> ttlSeconds s = -1)"

section \<open>DployInstance (dployinstance\_types.go)\<close>

datatype InstancePhase =
    PhaseUnset | PhasePending | PhaseProvisioning | PhaseReady | PhaseAvailable
  | PhaseClaimed | PhaseExpiring | PhaseFailed

record DployInstanceSpec =
  iTemplateRef :: string
  iOwner :: string
  iParams :: smap
  iPooled :: bool
  iTTLSeconds :: int
  iSpecExpiresAt :: "Time option"

record DployInstanceStatus =
  iPhase :: InstancePhase
  iUUID :: string
  iWorkloadNamespace :: string
  iURL :: string
  iConnectionType :: ConnectionType
  iConnectionMessage :: string
  iEngine :: EngineType
  iEngineRef :: string
  iHealth :: string
  iExtendCount :: int
  iExpiresAt :: "Time option"
  iObservedGeneration :: int
  iConditions :: "Condition list"

record DployInstance =
  iMeta :: ObjectMeta
  iSpec :: DployInstanceSpec
  iStatus :: DployInstanceStatus

definition emptyInstance :: DployInstance where
  "emptyInstance = \<lparr>iMeta = emptyMeta,
     iSpec = \<lparr>iTemplateRef = [], iOwner = [], iParams = Map.empty, iPooled = False,
       iTTLSeconds = 0, iSpecExpiresAt = None\<rparr>,
     iStatus = \<lparr>iPhase = PhaseUnset, iUUID = [], iWorkloadNamespace = [], iURL = [],
       iConnectionType = [], iConnectionMessage = [], iEngine = EngineUnset, iEngineRef = [],
       iHealth = [], iExtendCount = 0, iExpiresAt = None, iObservedGeneration = 0,
       iConditions = []\<rparr>\<rparr>"

section \<open>DployInstanceClaim (dployinstanceclaim\_types.go)\<close>

datatype ClaimPhase = ClaimUnset | ClaimPending | ClaimBound | ClaimRejected | ClaimExpired

definition ConditionBound :: string where "ConditionBound = ''Bound''"
definition ConditionReady :: string where "ConditionReady = ''Ready''"
definition ConditionSourceReady :: string where "ConditionSourceReady = ''SourceReady''"

record DployInstanceClaimSpec =
  cTemplateRef :: string
  cOwner :: string
  cParams :: smap
  cTTLSeconds :: int
  cWaitForPool :: bool

record DployInstanceClaimStatus =
  cPhase :: ClaimPhase
  cInstanceRef :: string
  cUUID :: string
  cConnectionURL :: string
  cConnectionType :: ConnectionType
  cConnectionMessage :: string
  cInstancePhase :: InstancePhase
  cHealth :: string
  cBoundAt :: "Time option"
  cExpiresAt :: "Time option"
  cGrantedTTL :: int
  cMaxTTLSeconds :: int
  cObservedGeneration :: int
  cConditions :: "Condition list"

record DployInstanceClaim =
  cMeta :: ObjectMeta
  cSpec :: DployInstanceClaimSpec
  cStatus :: DployInstanceClaimStatus

definition IsActive :: "DployInstanceClaim \<Rightarrow> bool" where
  "IsActive c = (case cPhase (cStatus c) of
      ClaimRejected \<Rightarrow> False | ClaimExpired \<Rightarrow> False | _ \<Rightarrow> True)"

definition emptyClaimStatus :: DployInstanceClaimStatus where
  "emptyClaimStatus = \<lparr>cPhase = ClaimUnset, cInstanceRef = [], cUUID = [], cConnectionURL = [],
     cConnectionType = [], cConnectionMessage = [], cInstancePhase = PhaseUnset, cHealth = [],
     cBoundAt = None, cExpiresAt = None, cGrantedTTL = 0, cMaxTTLSeconds = 0,
     cObservedGeneration = 0, cConditions = []\<rparr>"

section \<open>DployTemplate (dploytemplate\_types.go)\<close>

record PoolSpec =
  poolSize :: int
  poolMaxSize :: int
  poolRecycle :: "bool option"

record TemplateParameter =
  pName :: string
  pDescription :: string
  pRequired :: bool
  pDefault :: string

record DployTemplateSpec =
  tDisplayName :: string
  tDescription :: string
  tIcon :: string
  tCategory :: string
  tEnabled :: bool
  tVisible :: "bool option"
  tOwnerClaim :: string
  tMethod :: TemplateMethod
  tPool :: "PoolSpec option"
  tEngine :: EngineType
  tChart :: ChartSource
  tValuesTemplate :: string
  tValueFiles :: "string list"
  tConnectionURLTemplate :: string
  tConnectionType :: ConnectionType
  tConnectionMessageTemplate :: string
  tTTL :: "TTLSpec option"
  tMaxInstancesPerUser :: "int option"
  tParameters :: "TemplateParameter list"

record DployTemplateStatus =
  tPoolAvailable :: int
  tPoolClaimed :: int
  tPoolTotal :: int
  tObservedGeneration :: int
  tConditions :: "Condition list"

record DployTemplate =
  tMeta :: ObjectMeta
  tSpec :: DployTemplateSpec
  tStatus :: DployTemplateStatus

definition IsVisible :: "DployTemplate \<Rightarrow> bool" where
  "IsVisible t = (case tVisible (tSpec t) of None \<Rightarrow> True | Some v \<Rightarrow> v)"

definition emptyTemplate :: DployTemplate where
  "emptyTemplate = \<lparr>tMeta = emptyMeta,
     tSpec = \<lparr>tDisplayName = [], tDescription = [], tIcon = [], tCategory = [], tEnabled = False,
       tVisible = None, tOwnerClaim = [], tMethod = MethodUnset, tPool = None,
       tEngine = EngineUnset,
       tChart = \<lparr>csType = ChartSourceUnset, csRepoURL = [], csPath = [], csChart = [],
         csTargetRevision = []\<rparr>,
       tValuesTemplate = [], tValueFiles = [], tConnectionURLTemplate = [],
       tConnectionType = [], tConnectionMessageTemplate = [], tTTL = None,
       tMaxInstancesPerUser = None, tParameters = []\<rparr>,
     tStatus = \<lparr>tPoolAvailable = 0, tPoolClaimed = 0, tPoolTotal = 0, tObservedGeneration = 0,
       tConditions = []\<rparr>\<rparr>"

section \<open>OperatorConfig (operatorconfig\_types.go)\<close>

definition OperatorConfigName :: string where "OperatorConfigName = ''default''"

record ArgoCDConfig =
  argoNamespace :: string
  argoProject :: string
  argoServer :: string

record FluxConfig =
  fluxNamespace :: string
  fluxServiceAccountName :: string
  fluxIntervalText :: string

record InstanceDefaults =
  dTTLSeconds :: int
  dExtendSeconds :: int
  dMaxExtends :: int
  dMaxInstancesPerUser :: int

record OperatorConfigSpec =
  oDefaultEngine :: EngineType
  oArgoCD :: ArgoCDConfig
  oFlux :: FluxConfig
  oBaseDomain :: string
  oConnectionURLTemplate :: string
  oDefaultConnectionType :: ConnectionType
  oConnectionMessageTemplate :: string
  oDefaults :: InstanceDefaults
  oValues :: "string option"

record OperatorConfigStatus =
  oObservedGeneration :: int
  oConditions :: "Condition list"

record OperatorConfig =
  oMeta :: ObjectMeta
  oSpec :: OperatorConfigSpec
  oStatus :: OperatorConfigStatus

section \<open>Stamping labels\<close>

text \<open>The loop of both \<^verbatim>\<open>ensureMeta\<close> functions: every wanted label that reads differently is
  written, and the result says whether any was. A Go map has one entry per key, so its iteration
  order does not matter.\<close>

fun stampLabels :: "(string \<times> string) list \<Rightarrow> smap \<Rightarrow> bool \<times> smap" where
  "stampLabels [] m = (False, m)"
| "stampLabels ((k, v) # want) m =
     (let (changed, m') = stampLabels want (if get m k \<noteq> v then m(k \<mapsto> v) else m) in
      (get m k \<noteq> v \<or> changed, m'))"

lemma stampLabels_unchanged:
  "stampLabels want m = (False, m') \<Longrightarrow> m' = m \<and> (\<forall>(k, v)\<in>set want. get m k = v)"
  by (induction want m arbitrary: m' rule: stampLabels.induct) (auto split: prod.splits if_splits)

lemma stampLabels_other:
  "k \<notin> fst ` set want \<Longrightarrow> get (snd (stampLabels want m)) k = get m k"
  by (induction want m rule: stampLabels.induct) (auto split: prod.splits)

lemma stampLabels_sets:
  "distinct (map fst want) \<Longrightarrow> (k, v) \<in> set want \<Longrightarrow> get (snd (stampLabels want m)) k = v"
proof (induction want m rule: stampLabels.induct)
  case (1 m)
  then show ?case by simp
next
  case (2 k' v' want m)
  let ?m = "if get m k' \<noteq> v' then m(k' \<mapsto> v') else m"
  have s: "snd (stampLabels ((k', v') # want) m) = snd (stampLabels want ?m)"
    by (simp split: prod.split)
  show ?case
  proof (cases "(k, v) = (k', v')")
    case True
    with 2 have "k \<notin> fst ` set want" by auto
    then show ?thesis unfolding s using True by (subst stampLabels_other) auto
  next
    case False
    with 2 show ?thesis unfolding s by auto
  qed
qed

lemma stampLabels_noop:
  "\<forall>(k, v)\<in>set want. get m k = v \<Longrightarrow> stampLabels want m = (False, m)"
  by (induction want m rule: stampLabels.induct) auto

lemma stampLabels_idem:
  "distinct (map fst want) \<Longrightarrow>
    stampLabels want (snd (stampLabels want m)) = (False, snd (stampLabels want m))"
  by (intro stampLabels_noop) (auto simp: stampLabels_sets)

end
