(* ===== verification/Api.thy ===== *)
theory Api
imports Types
begin

text \<open>
  The operator's and the API server's view of everything outside this repository: the Kubernetes
  API server behind controller-runtime's client, the clock, the random source, the condition and
  owner-reference helpers of apimachinery, the template renderer and the Flux objects. None of it
  is defined here. A record \<open>api\<close> holds one reply function per call, every definition that
  calls out takes it as an argument, and the theorems quantify over it; what a theorem needs from
  it is a named hypothesis that states documented behaviour.

  Each call appends one event with its reply to the log, and a reply may depend on the whole log.
\<close>

section \<open>Errors\<close>

text \<open>\<^verbatim>\<open>apierrors.IsNotFound\<close> and its siblings classify an error by its reason and see
  through \<^verbatim>\<open>%w\<close> wrapping; the rest of an error is its text.\<close>

datatype Reason = NotFound | Conflict | AlreadyExists | OtherReason

datatype error = ApiError Reason string | ErrTemplateAtCapacity

fun wrapErr :: "string \<Rightarrow> error \<Rightarrow> error" where
  "wrapErr s (ApiError r m) = ApiError r (s @ '': '' @ m)"
| "wrapErr s ErrTemplateAtCapacity = ErrTemplateAtCapacity"

fun errText :: "error \<Rightarrow> string" where
  "errText (ApiError r m) = m"
| "errText ErrTemplateAtCapacity = ''template at capacity''"

fun hasReason :: "Reason \<Rightarrow> error \<Rightarrow> bool" where
  "hasReason r (ApiError r' m) = (r = r')"
| "hasReason r ErrTemplateAtCapacity = False"

abbreviation IsNotFound :: "error \<Rightarrow> bool" where "IsNotFound \<equiv> hasReason NotFound"
abbreviation IsConflict :: "error \<Rightarrow> bool" where "IsConflict \<equiv> hasReason Conflict"
abbreviation IsAlreadyExists :: "error \<Rightarrow> bool" where "IsAlreadyExists \<equiv> hasReason AlreadyExists"

lemma hasReason_wrapErr [simp]: "hasReason r (wrapErr s e) = hasReason r e"
  by (cases e) auto

text \<open>\<open>client.IgnoreNotFound(err)\<close> as the return of a reconcile: a missing object ends it
  with nothing to do.\<close>

definition ignoreNotFound :: "'a \<Rightarrow> error \<Rightarrow> error + 'a" where
  "ignoreNotFound x e = (if IsNotFound e then Inr x else Inl e)"

text \<open>A delete left nothing behind: it succeeded, or there was nothing.\<close>

definition gone :: "error + unit \<Rightarrow> bool" where
  "gone r = (case r of Inl e \<Rightarrow> IsNotFound e | Inr _ \<Rightarrow> True)"

section \<open>Flux and core objects, as far as the code reads or writes them\<close>

record HelmRelease =
  hrMeta :: ObjectMeta
  hrChart :: string
  hrVersion :: string
  hrValuesFiles :: "string list"
  hrSourceKind :: string
  hrSourceName :: string
  hrReleaseName :: string
  hrTargetNamespace :: string
  hrStorageNamespace :: string
  hrInterval :: Duration
  hrInstallRetries :: int
  hrValues :: "string option"
  hrConditions :: "Condition list"

record FluxSource =
  srcMeta :: ObjectMeta
  srcURL :: string
  srcRepoType :: string
  srcBranch :: "string option"
  srcInterval :: Duration

record HelmChart =
  hcMeta :: ObjectMeta
  hcChart :: string
  hcInterval :: Duration
  hcSourceKind :: string
  hcSourceName :: string
  hcVersion :: string
  hcConditions :: "Condition list"

record NamespaceObj =
  nsName :: string
  nsLabels :: smap

text \<open>The context every template of an instance is rendered against
  (\<^verbatim>\<open>internal/templating\<close>).\<close>

record Data =
  dOwner :: string
  dUUID :: string
  dBaseDomain :: string
  dHost :: string
  dURL :: string
  dConnectionURL :: string
  dNamespace :: string
  dTemplate :: DployTemplate
  dParams :: smap
  dConfigValues :: string

section \<open>Calls and their replies\<close>

datatype reader = ClientCache | APIServer

type_synonym selector = "(string \<times> string) list"

text \<open>A delete carries no precondition, or the UID and resource version it must meet.\<close>

type_synonym precondition = "(string \<times> string) option"

datatype event =
    ENow Time
  | EFreshUUID string
  | EGetClaim NamespacedName "error + DployInstanceClaim"
  | EGetTemplate NamespacedName "error + DployTemplate"
  | EGetInstance reader NamespacedName "error + DployInstance"
  | EGetConfig NamespacedName "error + OperatorConfig"
  | EGetRelease NamespacedName "error + HelmRelease"
  | EListInstances reader string selector "error + DployInstance list"
  | EListClaims string selector "error + DployInstanceClaim list"
  | EListClaimsIn string string "string list" "error + DployInstanceClaim list"
  | EListTemplates string "error + DployTemplate list"
  | EUpdateClaim DployInstanceClaim "error + DployInstanceClaim"
  | EPatchClaimStatus DployInstanceClaim DployInstanceClaim "error + DployInstanceClaim"
  | ECreateClaim DployInstanceClaim "error + DployInstanceClaim"
  | EPatchClaim DployInstanceClaim DployInstanceClaim "error + DployInstanceClaim"
  | EDeleteClaim NamespacedName "string option" "error + unit"
  | ECreateInstance DployInstance "error + DployInstance"
  | EUpdateInstance DployInstance "error + DployInstance"
  | EDeleteInstance NamespacedName precondition "error + unit"
  | EPatchInstanceStatus DployInstance DployInstance "error + DployInstance"
  | EPatchTemplateStatus DployTemplate DployTemplate "error + DployTemplate"
  | EPatchConfigStatus OperatorConfig OperatorConfig "error + OperatorConfig"
  | EFetchNamespace string "error + NamespaceObj"
  | EApplyNamespace NamespaceObj "error + unit"
  | EDeleteNamespace string "error + unit"
  | EFetchSource string NamespacedName "error + FluxSource"
  | EApplySource string FluxSource "error + unit"
  | EFetchChart NamespacedName "error + HelmChart"
  | EApplyChart HelmChart "error + HelmChart"
  | EFetchRelease NamespacedName "error + HelmRelease"
  | EApplyRelease HelmRelease "error + unit"
  | EDeleteRelease NamespacedName "error + unit"

definition isRead :: "event \<Rightarrow> bool" where
  "isRead e = (case e of
      ENow _ \<Rightarrow> True | EFreshUUID _ \<Rightarrow> True | EGetClaim _ _ \<Rightarrow> True | EGetTemplate _ _ \<Rightarrow> True
    | EGetInstance _ _ _ \<Rightarrow> True | EGetConfig _ _ \<Rightarrow> True | EGetRelease _ _ \<Rightarrow> True
    | EListInstances _ _ _ _ \<Rightarrow> True | EListClaims _ _ _ \<Rightarrow> True
    | EListClaimsIn _ _ _ _ \<Rightarrow> True | EListTemplates _ _ \<Rightarrow> True
    | EFetchNamespace _ _ \<Rightarrow> True | EFetchSource _ _ _ \<Rightarrow> True | EFetchChart _ _ \<Rightarrow> True
    | EFetchRelease _ _ \<Rightarrow> True | _ \<Rightarrow> False)"

lemma isRead_simps [simp]:
  "isRead (ENow t)" "isRead (EFreshUUID u)" "isRead (EGetClaim k r1)" "isRead (EGetTemplate k r2)"
  "isRead (EGetInstance rd k r3)" "isRead (EGetConfig k r4)" "isRead (EGetRelease k r5)"
  "isRead (EListInstances rd ns sel r6)" "isRead (EListClaims ns sel r7)"
  "isRead (EListClaimsIn ns ky vs r7)" "isRead (EListTemplates ns r8)" "isRead (EFetchNamespace ns r9)" "isRead (EFetchSource kd k r10)"
  "isRead (EFetchChart k r11)" "isRead (EFetchRelease k r12)"
  by (simp_all add: isRead_def)

type_synonym log = "event list"
type_synonym 'a io = "(event, 'a) prog"

record api =
  reNow :: "log \<Rightarrow> Time"
  reFreshUUID :: "log \<Rightarrow> string"
  reGetClaim :: "log \<Rightarrow> NamespacedName \<Rightarrow> error + DployInstanceClaim"
  reGetTemplate :: "log \<Rightarrow> NamespacedName \<Rightarrow> error + DployTemplate"
  reGetInstance :: "log \<Rightarrow> reader \<Rightarrow> NamespacedName \<Rightarrow> error + DployInstance"
  reGetConfig :: "log \<Rightarrow> NamespacedName \<Rightarrow> error + OperatorConfig"
  reGetRelease :: "log \<Rightarrow> NamespacedName \<Rightarrow> error + HelmRelease"
  reListInstances :: "log \<Rightarrow> reader \<Rightarrow> string \<Rightarrow> selector \<Rightarrow> error + DployInstance list"
  reListClaims :: "log \<Rightarrow> string \<Rightarrow> selector \<Rightarrow> error + DployInstanceClaim list"
  reListClaimsIn :: "log \<Rightarrow> string \<Rightarrow> string \<Rightarrow> string list \<Rightarrow> error + DployInstanceClaim list"
  reListTemplates :: "log \<Rightarrow> string \<Rightarrow> error + DployTemplate list"
  reUpdateClaim :: "log \<Rightarrow> DployInstanceClaim \<Rightarrow> error + DployInstanceClaim"
  rePatchClaimStatus :: "log \<Rightarrow> DployInstanceClaim \<Rightarrow> DployInstanceClaim \<Rightarrow> error + DployInstanceClaim"
  reCreateClaim :: "log \<Rightarrow> DployInstanceClaim \<Rightarrow> error + DployInstanceClaim"
  rePatchClaim :: "log \<Rightarrow> DployInstanceClaim \<Rightarrow> DployInstanceClaim \<Rightarrow> error + DployInstanceClaim"
  reDeleteClaim :: "log \<Rightarrow> NamespacedName \<Rightarrow> string option \<Rightarrow> error + unit"
  reCreateInstance :: "log \<Rightarrow> DployInstance \<Rightarrow> error + DployInstance"
  reUpdateInstance :: "log \<Rightarrow> DployInstance \<Rightarrow> error + DployInstance"
  reDeleteInstance :: "log \<Rightarrow> NamespacedName \<Rightarrow> precondition \<Rightarrow> error + unit"
  rePatchInstanceStatus :: "log \<Rightarrow> DployInstance \<Rightarrow> DployInstance \<Rightarrow> error + DployInstance"
  rePatchTemplateStatus :: "log \<Rightarrow> DployTemplate \<Rightarrow> DployTemplate \<Rightarrow> error + DployTemplate"
  rePatchConfigStatus :: "log \<Rightarrow> OperatorConfig \<Rightarrow> OperatorConfig \<Rightarrow> error + OperatorConfig"
  reFetchNamespace :: "log \<Rightarrow> string \<Rightarrow> error + NamespaceObj"
  reApplyNamespace :: "log \<Rightarrow> NamespaceObj \<Rightarrow> error + unit"
  reDeleteNamespace :: "log \<Rightarrow> string \<Rightarrow> error + unit"
  reFetchSource :: "log \<Rightarrow> string \<Rightarrow> NamespacedName \<Rightarrow> error + FluxSource"
  reApplySource :: "log \<Rightarrow> string \<Rightarrow> FluxSource \<Rightarrow> error + unit"
  reFetchChart :: "log \<Rightarrow> NamespacedName \<Rightarrow> error + HelmChart"
  reApplyChart :: "log \<Rightarrow> HelmChart \<Rightarrow> error + HelmChart"
  reFetchRelease :: "log \<Rightarrow> NamespacedName \<Rightarrow> error + HelmRelease"
  reApplyRelease :: "log \<Rightarrow> HelmRelease \<Rightarrow> error + unit"
  reDeleteRelease :: "log \<Rightarrow> NamespacedName \<Rightarrow> error + unit"
  conflictRetries :: nat
  deleteNil :: "error option"
  setCond :: "Time \<Rightarrow> Condition list \<Rightarrow> Condition \<Rightarrow> Condition list"
  findCond :: "Condition list \<Rightarrow> string \<Rightarrow> Condition option"
  condIsTrue :: "Condition list \<Rightarrow> string \<Rightarrow> bool"
  setControllerRef :: "OwnerReference \<Rightarrow> ObjectMeta \<Rightarrow> error + ObjectMeta"
  hasFinalizer :: "ObjectMeta \<Rightarrow> string \<Rightarrow> bool"
  addFinalizer :: "ObjectMeta \<Rightarrow> string \<Rightarrow> ObjectMeta"
  removeFinalizer :: "ObjectMeta \<Rightarrow> string \<Rightarrow> ObjectMeta"
  deepEqual :: "DployInstance \<Rightarrow> DployInstance \<Rightarrow> bool"
  parseTemplate :: "string \<Rightarrow> string \<Rightarrow> error + string"
  executeTemplate :: "string \<Rightarrow> Data \<Rightarrow> error + string"
  yamlToJSON :: "string \<Rightarrow> error + string"
  decodeValues :: "string \<Rightarrow> error + string"
  fluxReadyCondition :: string
  fluxReconcilingCondition :: string
  fluxProgressingReason :: string
  fluxProgressingWithRetryReason :: string
  helmRepositoryKind :: string
  gitRepositoryKind :: string
  helmRepositoryTypeDefault :: string
  helmRepositoryTypeOCI :: string

section \<open>The calls as programs\<close>

definition timeNow :: "api \<Rightarrow> Time io" where
  "timeNow A = perform ENow (reNow A)"

definition freshUUID :: "api \<Rightarrow> string io" where
  "freshUUID A = perform EFreshUUID (reFreshUUID A)"

definition getClaim :: "api \<Rightarrow> NamespacedName \<Rightarrow> (error + DployInstanceClaim) io" where
  "getClaim A k = perform (EGetClaim k) (\<lambda>h. reGetClaim A h k)"

definition getTemplate :: "api \<Rightarrow> NamespacedName \<Rightarrow> (error + DployTemplate) io" where
  "getTemplate A k = perform (EGetTemplate k) (\<lambda>h. reGetTemplate A h k)"

definition getInstance :: "api \<Rightarrow> reader \<Rightarrow> NamespacedName \<Rightarrow> (error + DployInstance) io" where
  "getInstance A rd k = perform (EGetInstance rd k) (\<lambda>h. reGetInstance A h rd k)"

definition getConfig :: "api \<Rightarrow> NamespacedName \<Rightarrow> (error + OperatorConfig) io" where
  "getConfig A k = perform (EGetConfig k) (\<lambda>h. reGetConfig A h k)"

definition getRelease :: "api \<Rightarrow> NamespacedName \<Rightarrow> (error + HelmRelease) io" where
  "getRelease A k = perform (EGetRelease k) (\<lambda>h. reGetRelease A h k)"

definition listInstances ::
  "api \<Rightarrow> reader \<Rightarrow> string \<Rightarrow> selector \<Rightarrow> (error + DployInstance list) io" where
  "listInstances A rd ns sel =
     perform (EListInstances rd ns sel) (\<lambda>h. reListInstances A h rd ns sel)"

definition listClaims :: "api \<Rightarrow> string \<Rightarrow> selector \<Rightarrow> (error + DployInstanceClaim list) io" where
  "listClaims A ns sel = perform (EListClaims ns sel) (\<lambda>h. reListClaims A h ns sel)"

text \<open>A list by the requirement that a label is in a set of values. The error of building the
  requirement is returned like one of the list itself, so both are one reply.\<close>

definition listClaimsIn ::
  "api \<Rightarrow> string \<Rightarrow> string \<Rightarrow> string list \<Rightarrow> (error + DployInstanceClaim list) io" where
  "listClaimsIn A ns key vals =
     perform (EListClaimsIn ns key vals) (\<lambda>h. reListClaimsIn A h ns key vals)"

definition listTemplates :: "api \<Rightarrow> string \<Rightarrow> (error + DployTemplate list) io" where
  "listTemplates A ns = perform (EListTemplates ns) (\<lambda>h. reListTemplates A h ns)"

definition updateClaim :: "api \<Rightarrow> DployInstanceClaim \<Rightarrow> (error + DployInstanceClaim) io" where
  "updateClaim A c = perform (EUpdateClaim c) (\<lambda>h. reUpdateClaim A h c)"

definition patchClaimStatus ::
  "api \<Rightarrow> DployInstanceClaim \<Rightarrow> DployInstanceClaim \<Rightarrow> (error + DployInstanceClaim) io" where
  "patchClaimStatus A orig x = perform (EPatchClaimStatus orig x) (\<lambda>h. rePatchClaimStatus A h orig x)"

definition createClaim :: "api \<Rightarrow> DployInstanceClaim \<Rightarrow> (error + DployInstanceClaim) io" where
  "createClaim A c = perform (ECreateClaim c) (\<lambda>h. reCreateClaim A h c)"

definition patchClaim ::
  "api \<Rightarrow> DployInstanceClaim \<Rightarrow> DployInstanceClaim \<Rightarrow> (error + DployInstanceClaim) io" where
  "patchClaim A orig x = perform (EPatchClaim orig x) (\<lambda>h. rePatchClaim A h orig x)"

definition deleteClaim :: "api \<Rightarrow> NamespacedName \<Rightarrow> string option \<Rightarrow> (error + unit) io" where
  "deleteClaim A k p = perform (EDeleteClaim k p) (\<lambda>h. reDeleteClaim A h k p)"

definition createInstance :: "api \<Rightarrow> DployInstance \<Rightarrow> (error + DployInstance) io" where
  "createInstance A i = perform (ECreateInstance i) (\<lambda>h. reCreateInstance A h i)"

definition updateInstance :: "api \<Rightarrow> DployInstance \<Rightarrow> (error + DployInstance) io" where
  "updateInstance A i = perform (EUpdateInstance i) (\<lambda>h. reUpdateInstance A h i)"

definition deleteInstance ::
  "api \<Rightarrow> NamespacedName \<Rightarrow> precondition \<Rightarrow> (error + unit) io" where
  "deleteInstance A k p = perform (EDeleteInstance k p) (\<lambda>h. reDeleteInstance A h k p)"

definition patchInstanceStatus ::
  "api \<Rightarrow> DployInstance \<Rightarrow> DployInstance \<Rightarrow> (error + DployInstance) io" where
  "patchInstanceStatus A orig x = perform (EPatchInstanceStatus orig x) (\<lambda>h. rePatchInstanceStatus A h orig x)"

definition patchTemplateStatus ::
  "api \<Rightarrow> DployTemplate \<Rightarrow> DployTemplate \<Rightarrow> (error + DployTemplate) io" where
  "patchTemplateStatus A orig x = perform (EPatchTemplateStatus orig x) (\<lambda>h. rePatchTemplateStatus A h orig x)"

definition patchConfigStatus ::
  "api \<Rightarrow> OperatorConfig \<Rightarrow> OperatorConfig \<Rightarrow> (error + OperatorConfig) io" where
  "patchConfigStatus A orig x = perform (EPatchConfigStatus orig x) (\<lambda>h. rePatchConfigStatus A h orig x)"

definition deleteNamespace :: "api \<Rightarrow> string \<Rightarrow> (error + unit) io" where
  "deleteNamespace A n = perform (EDeleteNamespace n) (\<lambda>h. reDeleteNamespace A h n)"

definition deleteRelease :: "api \<Rightarrow> NamespacedName \<Rightarrow> (error + unit) io" where
  "deleteRelease A k = perform (EDeleteRelease k) (\<lambda>h. reDeleteRelease A h k)"

lemmas call_defs = timeNow_def freshUUID_def getClaim_def getTemplate_def getInstance_def
  getConfig_def getRelease_def listInstances_def listClaims_def listClaimsIn_def listTemplates_def
  updateClaim_def patchClaimStatus_def createClaim_def patchClaim_def deleteClaim_def
  createInstance_def updateInstance_def deleteInstance_def patchInstanceStatus_def
  patchTemplateStatus_def patchConfigStatus_def deleteNamespace_def deleteRelease_def

text \<open>A patch carries the object it was computed against
  (\<^verbatim>\<open>client.MergeFrom(original)\<close>) and replies with the object as the server stored it.\<close>

text \<open>\<^verbatim>\<open>controllerutil.CreateOrUpdate(ctx, c, obj, mutate)\<close>: the existing object, or
  \<open>obj\<close> when there is none, goes through the callback, and the result is written. What was
  found and what the write answers are replies.\<close>

definition createOrUpdate ::
  "(error + 'o) io \<Rightarrow> ('o \<Rightarrow> error + 'o) \<Rightarrow> ('o \<Rightarrow> (error + 'r) io) \<Rightarrow> (error + 'r) io" where
  "createOrUpdate fetch mutate apply_obj =
     tryE fetch (\<lambda>cur. case mutate cur of Inl e \<Rightarrow> throw e | Inr desired \<Rightarrow> apply_obj desired)"

definition fetchNamespace :: "api \<Rightarrow> string \<Rightarrow> (error + NamespaceObj) io" where
  "fetchNamespace A n = perform (EFetchNamespace n) (\<lambda>h. reFetchNamespace A h n)"

definition applyNamespace :: "api \<Rightarrow> NamespaceObj \<Rightarrow> (error + unit) io" where
  "applyNamespace A n = perform (EApplyNamespace n) (\<lambda>h. reApplyNamespace A h n)"

definition fetchSource :: "api \<Rightarrow> string \<Rightarrow> NamespacedName \<Rightarrow> (error + FluxSource) io" where
  "fetchSource A kind k = perform (EFetchSource kind k) (\<lambda>h. reFetchSource A h kind k)"

definition applySource :: "api \<Rightarrow> string \<Rightarrow> FluxSource \<Rightarrow> (error + unit) io" where
  "applySource A kind s = perform (EApplySource kind s) (\<lambda>h. reApplySource A h kind s)"

definition fetchChart :: "api \<Rightarrow> NamespacedName \<Rightarrow> (error + HelmChart) io" where
  "fetchChart A k = perform (EFetchChart k) (\<lambda>h. reFetchChart A h k)"

definition applyChart :: "api \<Rightarrow> HelmChart \<Rightarrow> (error + HelmChart) io" where
  "applyChart A c = perform (EApplyChart c) (\<lambda>h. reApplyChart A h c)"

definition fetchRelease :: "api \<Rightarrow> NamespacedName \<Rightarrow> (error + HelmRelease) io" where
  "fetchRelease A k = perform (EFetchRelease k) (\<lambda>h. reFetchRelease A h k)"

definition applyRelease :: "api \<Rightarrow> HelmRelease \<Rightarrow> (error + unit) io" where
  "applyRelease A r = perform (EApplyRelease r) (\<lambda>h. reApplyRelease A h r)"

lemmas apply_defs = createOrUpdate_def fetchNamespace_def applyNamespace_def fetchSource_def
  applySource_def fetchChart_def applyChart_def fetchRelease_def applyRelease_def

text \<open>\<^verbatim>\<open>retry.RetryOnConflict\<close>: a conflict starts the function over, at most
  \<open>conflictRetries\<close> times; any other outcome is returned.\<close>

fun retryOnConflict :: "nat \<Rightarrow> (error + 'a) io \<Rightarrow> (error + 'a) io" where
  "retryOnConflict 0 m = m"
| "retryOnConflict (Suc n) m = do {
     r \<leftarrow> m;
     case r of
       Inl e \<Rightarrow> if IsConflict e then retryOnConflict n m else throw e
     | Inr x \<Rightarrow> ok x }"

text \<open>\<^verbatim>\<open>apimeta.SetStatusCondition\<close> stamps the transition time from the clock.\<close>

definition setStatusCondition :: "api \<Rightarrow> Condition list \<Rightarrow> Condition \<Rightarrow> Condition list io" where
  "setStatusCondition A cs c = do { t \<leftarrow> timeNow A; give (setCond A t cs c) }"

definition condition :: "string \<Rightarrow> ConditionStatus \<Rightarrow> string \<Rightarrow> string \<Rightarrow> int \<Rightarrow> Condition" where
  "condition t s r m g = \<lparr>condType = t, condStatus = s, condReason = r, condMessage = m,
     condObservedGeneration = g, condLastTransitionTime = zeroTime\<rparr>"

definition ownerRef :: "string \<Rightarrow> ObjectMeta \<Rightarrow> OwnerReference" where
  "ownerRef kind m = \<lparr>refKind = kind, refName = Name m, refUID = UID m, refController = True\<rparr>"

section \<open>What a reconcile returns\<close>

text \<open>\<^verbatim>\<open>(ctrl.Result, error)\<close>: on success the delay to come back after, 0 for none.\<close>

type_synonym result = "error + Duration"

text \<open>The delay after which a reconcile that is not finished runs again, shared by both controllers
  that requeue that way.\<close>

definition continueRequeue :: Duration where "continueRequeue = 100 * millisecond"

section \<open>Rules\<close>

lemma wp_calls [wp_simps]:
  "wp (timeNow A) Q0 h = Q0 (reNow A h) (h @ [ENow (reNow A h)])"
  "wp (getClaim A k) Q1 h = Q1 (reGetClaim A h k) (h @ [EGetClaim k (reGetClaim A h k)])"
  "wp (getTemplate A k) Q2 h = Q2 (reGetTemplate A h k) (h @ [EGetTemplate k (reGetTemplate A h k)])"
  "wp (getInstance A rd k) Q3 h =
     Q3 (reGetInstance A h rd k) (h @ [EGetInstance rd k (reGetInstance A h rd k)])"
  "wp (getConfig A k) Q4 h = Q4 (reGetConfig A h k) (h @ [EGetConfig k (reGetConfig A h k)])"
  "wp (getRelease A k) Q5 h = Q5 (reGetRelease A h k) (h @ [EGetRelease k (reGetRelease A h k)])"
  "wp (listInstances A rd ns sel) Q6 h = Q6 (reListInstances A h rd ns sel)
     (h @ [EListInstances rd ns sel (reListInstances A h rd ns sel)])"
  "wp (listClaims A ns sel) Q7 h =
     Q7 (reListClaims A h ns sel) (h @ [EListClaims ns sel (reListClaims A h ns sel)])"
  "wp (listClaimsIn A ns ky vs) Q31 h = Q31 (reListClaimsIn A h ns ky vs)
     (h @ [EListClaimsIn ns ky vs (reListClaimsIn A h ns ky vs)])"
  "wp (listTemplates A ns) Q8 h =
     Q8 (reListTemplates A h ns) (h @ [EListTemplates ns (reListTemplates A h ns)])"
  "wp (updateClaim A c) Q9 h = Q9 (reUpdateClaim A h c) (h @ [EUpdateClaim c (reUpdateClaim A h c)])"
  "wp (patchClaimStatus A c0 c1) Q10 h = Q10 (rePatchClaimStatus A h c0 c1)
     (h @ [EPatchClaimStatus c0 c1 (rePatchClaimStatus A h c0 c1)])"
  "wp (createClaim A c) Q11 h = Q11 (reCreateClaim A h c) (h @ [ECreateClaim c (reCreateClaim A h c)])"
  "wp (patchClaim A d0 d1) Q12 h = Q12 (rePatchClaim A h d0 d1)
     (h @ [EPatchClaim d0 d1 (rePatchClaim A h d0 d1)])"
  "wp (deleteClaim A k u) Q13 h =
     Q13 (reDeleteClaim A h k u) (h @ [EDeleteClaim k u (reDeleteClaim A h k u)])"
  "wp (createInstance A i) Q14 h =
     Q14 (reCreateInstance A h i) (h @ [ECreateInstance i (reCreateInstance A h i)])"
  "wp (updateInstance A i) Q15 h =
     Q15 (reUpdateInstance A h i) (h @ [EUpdateInstance i (reUpdateInstance A h i)])"
  "wp (deleteInstance A k p) Q16 h =
     Q16 (reDeleteInstance A h k p) (h @ [EDeleteInstance k p (reDeleteInstance A h k p)])"
  "wp (patchInstanceStatus A i0 i1) Q17 h = Q17 (rePatchInstanceStatus A h i0 i1)
     (h @ [EPatchInstanceStatus i0 i1 (rePatchInstanceStatus A h i0 i1)])"
  "wp (patchTemplateStatus A t0 t1) Q18 h = Q18 (rePatchTemplateStatus A h t0 t1)
     (h @ [EPatchTemplateStatus t0 t1 (rePatchTemplateStatus A h t0 t1)])"
  "wp (patchConfigStatus A g0 g1) Q19 h = Q19 (rePatchConfigStatus A h g0 g1)
     (h @ [EPatchConfigStatus g0 g1 (rePatchConfigStatus A h g0 g1)])"
  "wp (deleteNamespace A n) Q20 h =
     Q20 (reDeleteNamespace A h n) (h @ [EDeleteNamespace n (reDeleteNamespace A h n)])"
  "wp (deleteRelease A k) Q21 h =
     Q21 (reDeleteRelease A h k) (h @ [EDeleteRelease k (reDeleteRelease A h k)])"
  "wp (freshUUID A) Q22 h = Q22 (reFreshUUID A h) (h @ [EFreshUUID (reFreshUUID A h)])"
  "wp (fetchNamespace A n) Q23 h =
     Q23 (reFetchNamespace A h n) (h @ [EFetchNamespace n (reFetchNamespace A h n)])"
  "wp (fetchSource A kd k) Q24 h =
     Q24 (reFetchSource A h kd k) (h @ [EFetchSource kd k (reFetchSource A h kd k)])"
  "wp (fetchChart A k) Q25 h = Q25 (reFetchChart A h k) (h @ [EFetchChart k (reFetchChart A h k)])"
  "wp (fetchRelease A k) Q26 h =
     Q26 (reFetchRelease A h k) (h @ [EFetchRelease k (reFetchRelease A h k)])"
  "wp (applyNamespace A nso) Q27 h =
     Q27 (reApplyNamespace A h nso) (h @ [EApplyNamespace nso (reApplyNamespace A h nso)])"
  "wp (applySource A kd s) Q28 h =
     Q28 (reApplySource A h kd s) (h @ [EApplySource kd s (reApplySource A h kd s)])"
  "wp (applyChart A ch) Q29 h =
     Q29 (reApplyChart A h ch) (h @ [EApplyChart ch (reApplyChart A h ch)])"
  "wp (applyRelease A hr) Q30 h =
     Q30 (reApplyRelease A h hr) (h @ [EApplyRelease hr (reApplyRelease A h hr)])"
  by (simp_all add: call_defs apply_defs wp_perform)

lemma wp_setStatusCondition [wp_simps]:
  "wp (setStatusCondition A cs c) Q h =
     Q (setCond A (reNow A h) cs c) (h @ [ENow (reNow A h)])"
  by (simp add: setStatusCondition_def wp_simps)

lemma wp_createOrUpdate [wp_simps]:
  "wp (createOrUpdate f m a) Q h = wp f (\<lambda>r. case r of Inl e \<Rightarrow> Q (Inl e)
     | Inr cur \<Rightarrow> (case m cur of Inl e \<Rightarrow> Q (Inl e) | Inr d \<Rightarrow> wp (a d) Q)) h"
proof -
  have "wp (case m cur of Inl e \<Rightarrow> throw e | Inr d \<Rightarrow> a d) Q
      = (case m cur of Inl e \<Rightarrow> Q (Inl e) | Inr d \<Rightarrow> wp (a d) Q)" for cur
    by (rule ext) (simp add: wp_simps split: sum.split)
  then show ?thesis by (simp add: createOrUpdate_def wp_simps cong: sum.case_cong)
qed

lemma emits_calls [emits_rules]:
  "(\<And>h r. P h (ENow r)) \<Longrightarrow> emits P (timeNow A)"
  "(\<And>h r. P h (EFreshUUID r)) \<Longrightarrow> emits P (freshUUID A)"
  "(\<And>h r. P h (EGetClaim k r)) \<Longrightarrow> emits P (getClaim A k)"
  "(\<And>h r. P h (EGetTemplate k r)) \<Longrightarrow> emits P (getTemplate A k)"
  "(\<And>h r. P h (EGetInstance rd k r)) \<Longrightarrow> emits P (getInstance A rd k)"
  "(\<And>h r. P h (EGetConfig k r)) \<Longrightarrow> emits P (getConfig A k)"
  "(\<And>h r. P h (EGetRelease k r)) \<Longrightarrow> emits P (getRelease A k)"
  "(\<And>h r. P h (EListInstances rd ns sel r)) \<Longrightarrow> emits P (listInstances A rd ns sel)"
  "(\<And>h r. P h (EListClaims ns sel r)) \<Longrightarrow> emits P (listClaims A ns sel)"
  "(\<And>h r. P h (EListTemplates ns r)) \<Longrightarrow> emits P (listTemplates A ns)"
  "(\<And>h r. P h (EUpdateClaim c r)) \<Longrightarrow> emits P (updateClaim A c)"
  "(\<And>h r. P h (EPatchClaimStatus c0 c1 r)) \<Longrightarrow> emits P (patchClaimStatus A c0 c1)"
  "(\<And>h r. P h (ECreateClaim c r)) \<Longrightarrow> emits P (createClaim A c)"
  "(\<And>h r. P h (EPatchClaim d0 d1 r)) \<Longrightarrow> emits P (patchClaim A d0 d1)"
  "(\<And>h r. P h (EDeleteClaim k u r)) \<Longrightarrow> emits P (deleteClaim A k u)"
  "(\<And>h r. P h (ECreateInstance i r)) \<Longrightarrow> emits P (createInstance A i)"
  "(\<And>h r. P h (EUpdateInstance i r)) \<Longrightarrow> emits P (updateInstance A i)"
  "(\<And>h r. P h (EDeleteInstance k p r)) \<Longrightarrow> emits P (deleteInstance A k p)"
  "(\<And>h r. P h (EPatchInstanceStatus i0 i1 r)) \<Longrightarrow> emits P (patchInstanceStatus A i0 i1)"
  "(\<And>h r. P h (EPatchTemplateStatus t0 t1 r)) \<Longrightarrow> emits P (patchTemplateStatus A t0 t1)"
  "(\<And>h r. P h (EPatchConfigStatus g0 g1 r)) \<Longrightarrow> emits P (patchConfigStatus A g0 g1)"
  "(\<And>h r. P h (EDeleteNamespace n r)) \<Longrightarrow> emits P (deleteNamespace A n)"
  "(\<And>h r. P h (EDeleteRelease k r)) \<Longrightarrow> emits P (deleteRelease A k)"
  "(\<And>h r. P h (EFetchNamespace n r)) \<Longrightarrow> emits P (fetchNamespace A n)"
  "(\<And>h r. P h (EFetchSource kd k r)) \<Longrightarrow> emits P (fetchSource A kd k)"
  "(\<And>h r. P h (EFetchChart k r)) \<Longrightarrow> emits P (fetchChart A k)"
  "(\<And>h r. P h (EFetchRelease k r)) \<Longrightarrow> emits P (fetchRelease A k)"
  "(\<And>h r. P h (EApplyNamespace nso r)) \<Longrightarrow> emits P (applyNamespace A nso)"
  "(\<And>h r. P h (EApplySource kd s r)) \<Longrightarrow> emits P (applySource A kd s)"
  "(\<And>h r. P h (EApplyChart ch r)) \<Longrightarrow> emits P (applyChart A ch)"
  "(\<And>h r. P h (EApplyRelease hr r)) \<Longrightarrow> emits P (applyRelease A hr)"
  "(\<And>h r. P h (EListClaimsIn ns ky vs r)) \<Longrightarrow> emits P (listClaimsIn A ns ky vs)"
  by (simp_all add: call_defs apply_defs emits_perform)

text \<open>The guarded rules hold for every reply.\<close>

lemma wpe_calls [wpe_rules]:
  "(\<And>r. P h (ENow r) \<and> Q0 r (h @ [ENow r])) \<Longrightarrow> wpe P (timeNow A) Q0 h"
  "(\<And>r. P h (EFreshUUID r) \<and> Q1 r (h @ [EFreshUUID r])) \<Longrightarrow> wpe P (freshUUID A) Q1 h"
  "(\<And>r. P h (EGetClaim k r) \<and> Q2 r (h @ [EGetClaim k r])) \<Longrightarrow> wpe P (getClaim A k) Q2 h"
  "(\<And>r. P h (EGetTemplate k r) \<and> Q3 r (h @ [EGetTemplate k r])) \<Longrightarrow> wpe P (getTemplate A k) Q3 h"
  "(\<And>r. P h (EGetInstance rd k r) \<and> Q4 r (h @ [EGetInstance rd k r])) \<Longrightarrow> wpe P (getInstance A rd k) Q4 h"
  "(\<And>r. P h (EGetConfig k r) \<and> Q5 r (h @ [EGetConfig k r])) \<Longrightarrow> wpe P (getConfig A k) Q5 h"
  "(\<And>r. P h (EGetRelease k r) \<and> Q6 r (h @ [EGetRelease k r])) \<Longrightarrow> wpe P (getRelease A k) Q6 h"
  "(\<And>r. P h (EListInstances rd ns sel r) \<and> Q7 r (h @ [EListInstances rd ns sel r])) \<Longrightarrow> wpe P (listInstances A rd ns sel) Q7 h"
  "(\<And>r. P h (EListClaims ns sel r) \<and> Q8 r (h @ [EListClaims ns sel r])) \<Longrightarrow> wpe P (listClaims A ns sel) Q8 h"
  "(\<And>r. P h (EListTemplates ns r) \<and> Q9 r (h @ [EListTemplates ns r])) \<Longrightarrow> wpe P (listTemplates A ns) Q9 h"
  "(\<And>r. P h (EUpdateClaim c r) \<and> Q10 r (h @ [EUpdateClaim c r])) \<Longrightarrow> wpe P (updateClaim A c) Q10 h"
  "(\<And>r. P h (EPatchClaimStatus c0 c1 r) \<and> Q11 r (h @ [EPatchClaimStatus c0 c1 r])) \<Longrightarrow> wpe P (patchClaimStatus A c0 c1) Q11 h"
  "(\<And>r. P h (ECreateClaim c r) \<and> Q12 r (h @ [ECreateClaim c r])) \<Longrightarrow> wpe P (createClaim A c) Q12 h"
  "(\<And>r. P h (EPatchClaim d0 d1 r) \<and> Q13 r (h @ [EPatchClaim d0 d1 r])) \<Longrightarrow> wpe P (patchClaim A d0 d1) Q13 h"
  "(\<And>r. P h (EDeleteClaim k u r) \<and> Q14 r (h @ [EDeleteClaim k u r])) \<Longrightarrow> wpe P (deleteClaim A k u) Q14 h"
  "(\<And>r. P h (ECreateInstance i r) \<and> Q15 r (h @ [ECreateInstance i r])) \<Longrightarrow> wpe P (createInstance A i) Q15 h"
  "(\<And>r. P h (EUpdateInstance i r) \<and> Q16 r (h @ [EUpdateInstance i r])) \<Longrightarrow> wpe P (updateInstance A i) Q16 h"
  "(\<And>r. P h (EDeleteInstance k p r) \<and> Q17 r (h @ [EDeleteInstance k p r])) \<Longrightarrow> wpe P (deleteInstance A k p) Q17 h"
  "(\<And>r. P h (EPatchInstanceStatus i0 i1 r) \<and> Q18 r (h @ [EPatchInstanceStatus i0 i1 r])) \<Longrightarrow> wpe P (patchInstanceStatus A i0 i1) Q18 h"
  "(\<And>r. P h (EPatchTemplateStatus t0 t1 r) \<and> Q19 r (h @ [EPatchTemplateStatus t0 t1 r])) \<Longrightarrow> wpe P (patchTemplateStatus A t0 t1) Q19 h"
  "(\<And>r. P h (EPatchConfigStatus g0 g1 r) \<and> Q20 r (h @ [EPatchConfigStatus g0 g1 r])) \<Longrightarrow> wpe P (patchConfigStatus A g0 g1) Q20 h"
  "(\<And>r. P h (EDeleteNamespace n r) \<and> Q21 r (h @ [EDeleteNamespace n r])) \<Longrightarrow> wpe P (deleteNamespace A n) Q21 h"
  "(\<And>r. P h (EDeleteRelease k r) \<and> Q22 r (h @ [EDeleteRelease k r])) \<Longrightarrow> wpe P (deleteRelease A k) Q22 h"
  "(\<And>r. P h (EFetchNamespace n r) \<and> Q23 r (h @ [EFetchNamespace n r])) \<Longrightarrow> wpe P (fetchNamespace A n) Q23 h"
  "(\<And>r. P h (EFetchSource kd k r) \<and> Q24 r (h @ [EFetchSource kd k r])) \<Longrightarrow> wpe P (fetchSource A kd k) Q24 h"
  "(\<And>r. P h (EFetchChart k r) \<and> Q25 r (h @ [EFetchChart k r])) \<Longrightarrow> wpe P (fetchChart A k) Q25 h"
  "(\<And>r. P h (EFetchRelease k r) \<and> Q26 r (h @ [EFetchRelease k r])) \<Longrightarrow> wpe P (fetchRelease A k) Q26 h"
  "(\<And>r. P h (EApplyNamespace nso r) \<and> Q27 r (h @ [EApplyNamespace nso r])) \<Longrightarrow> wpe P (applyNamespace A nso) Q27 h"
  "(\<And>r. P h (EApplySource kd s r) \<and> Q28 r (h @ [EApplySource kd s r])) \<Longrightarrow> wpe P (applySource A kd s) Q28 h"
  "(\<And>r. P h (EApplyChart ch r) \<and> Q29 r (h @ [EApplyChart ch r])) \<Longrightarrow> wpe P (applyChart A ch) Q29 h"
  "(\<And>r. P h (EApplyRelease hr r) \<and> Q30 r (h @ [EApplyRelease hr r])) \<Longrightarrow> wpe P (applyRelease A hr) Q30 h"
  "(\<And>r. P h (EListClaimsIn ns ky vs r) \<and> Q31 r (h @ [EListClaimsIn ns ky vs r])) \<Longrightarrow> wpe P (listClaimsIn A ns ky vs) Q31 h"
  by (simp_all add: call_defs apply_defs wpe_perform)

lemma emits_setStatusCondition [emits_rules]:
  "(\<And>h r. P h (ENow r)) \<Longrightarrow> emits P (setStatusCondition A cs c)"
  unfolding setStatusCondition_def by (intro emits_rules)

lemma emits_createOrUpdate [emits_rules]:
  assumes "emits P f" and "\<And>cur d. m cur = Inr d \<Longrightarrow> emits P (a d)"
  shows "emits P (createOrUpdate f m a)"
  unfolding createOrUpdate_def
  by (intro emits_tryE assms(1)) (auto intro: emits_return assms(2) split: sum.split)

text \<open>What a successful result is known to come with.\<close>

definition okTo :: "('a \<Rightarrow> log \<Rightarrow> bool) \<Rightarrow> error + 'a \<Rightarrow> log \<Rightarrow> bool" where
  "okTo F r h = (case r of Inl e \<Rightarrow> True | Inr x \<Rightarrow> F x h)"

lemma okTo_simps [simp]: "okTo F (Inl e) h" "okTo F (Inr x) h = F x h"
  by (simp_all add: okTo_def)

lemma wpe_setStatusCondition [wpe_rules]:
  assumes "\<And>t. P h (ENow t) \<and> Q (setCond A t cs c) (h @ [ENow t])"
  shows "wpe P (setStatusCondition A cs c) Q h"
  unfolding setStatusCondition_def
  by (intro wpe_bind wpe_calls) (simp add: assms wpe_return)

lemma wpe_createOrUpdate [wpe_rules]:
  assumes "wpe P f (\<lambda>r h'. case r of Inl e \<Rightarrow> Q (Inl e) h'
     | Inr cur \<Rightarrow> (case m cur of Inl e \<Rightarrow> Q (Inl e) h' | Inr d \<Rightarrow> wpe P (a d) Q h')) h"
  shows "wpe P (createOrUpdate f m a) Q h"
  unfolding createOrUpdate_def
  by (intro wpe_tryE wpe_mono [OF assms]) (auto intro: wpe_return split: sum.splits)

lemma emits_retryOnConflict [emits_rules]:
  "emits P m \<Longrightarrow> emits P (retryOnConflict n m)"
proof (induction n)
  case 0
  then show ?case by simp
next
  case (Suc n)
  then show ?case
    by (auto intro!: emits_bind intro: emits_return split: sum.split)
qed

lemma wpe_retryOnConflict:
  assumes "\<And>es. wpe P m Q (h @ es)"
  shows "wpe P (retryOnConflict n m) Q h"
  using assms
proof (induction n arbitrary: h)
  case 0
  from 0 [of "[]"] show ?case by simp
next
  case (Suc n)
  have again: "wpe P (retryOnConflict n m) Q (h @ es)" for es
    using Suc.IH [of "h @ es"] Suc.prems by simp
  have "wpe P m (\<lambda>r h'. Q r h' \<and> (\<exists>es. h' = h @ es)) h"
    using Suc.prems [of "[]"] by (auto simp: wpe_def)
  then have "wpe P m (\<lambda>r h'. wpe P (case r of Inl e \<Rightarrow> if IsConflict e then retryOnConflict n m else throw e
      | Inr x \<Rightarrow> ok x) Q h') h"
    by (rule wpe_mono) (auto intro: wpe_return again split: sum.split)
  then show ?case by (simp add: wpe_bind)
qed

end
