(* ===== verification/Naming.thy ===== *)
theory Naming
imports Types
begin

text \<open>
  The names the operator and the API derive from user-supplied strings:
  \<^verbatim>\<open>internal/controller/naming.go\<close>, \<^verbatim>\<open>sanitizeOwner\<close> of
  \<^verbatim>\<open>internal/kube/owner.go\<close> and \<^verbatim>\<open>SanitizeUsername\<close> of
  \<^verbatim>\<open>internal/auth/jwt.go\<close>. The three normalisers share one interface, the locale
  \<open>normaliser\<close>; the two that also trim dashes are \<open>label_sanitiser\<close>s, and the lemmas on
  generated names are proved once from it.
\<close>

section \<open>strings.ToLower, strings.ReplaceAll and the character filter\<close>

text \<open>A Go string is its bytes. \<^verbatim>\<open>unicode.ToLower\<close> sends exactly two runes outside
  ASCII into ASCII: U+0130 (bytes C4 B0) to \<open>i\<close> and U+212A (bytes E2 84 AA) to \<open>k\<close>. Neither
  byte sequence can occur inside another valid rune, so they are found by scanning. The model
  leaves every other byte outside ASCII alone: the filter of the callers drops it whatever its
  lower case is.\<close>

definition lowerByte :: "char \<Rightarrow> char" where
  "lowerByte c = (let n = of_char c :: nat in
     if 65 \<le> n \<and> n \<le> 90 then char_of (n + 32) else c)"

fun toLower :: "string \<Rightarrow> string" where
  "toLower [] = []"
| "toLower (x # xs) =
     (if of_char x = (196 :: nat) \<and> map of_char (take 1 xs) = [176 :: nat]
      then CHR ''i'' # toLower (drop 1 xs)
      else if of_char x = (226 :: nat) \<and> map of_char (take 2 xs) = [132 :: nat, 170]
      then CHR ''k'' # toLower (drop 2 xs)
      else lowerByte x # toLower xs)"

definition replaceChar :: "char \<Rightarrow> char \<Rightarrow> string \<Rightarrow> string" where
  "replaceChar a b s = map (\<lambda>c. if c = a then b else c) s"

text \<open>The bytes of \<open>[a-z0-9-]\<close>. A byte outside ASCII is part of a rune outside the set.\<close>

definition isLabelChar :: "char \<Rightarrow> bool" where
  "isLabelChar c = (let n = of_char c :: nat in
     97 \<le> n \<and> n \<le> 122 \<or> 48 \<le> n \<and> n \<le> 57 \<or> n = 45)"

text \<open>The part the three functions have in common, letter for letter.\<close>

definition keepLabelChars :: "string \<Rightarrow> string" where
  "keepLabelChars s =
     filter isLabelChar (replaceChar CHR ''@'' CHR ''-'' (replaceChar CHR ''.'' CHR ''-'' (toLower s)))"

section \<open>The functions of the code\<close>

definition sanitize :: "string \<Rightarrow> string" where
  "sanitize s = trimDashes (keepLabelChars s)"

definition maxOwnerLen :: nat where "maxOwnerLen = 63"

definition sanitizeOwner :: "string \<Rightarrow> string" where
  "sanitizeOwner s =
     (let out = trimDashes (keepLabelChars s) in
      if length out > maxOwnerLen then trimDashes (take maxOwnerLen out) else out)"

definition SanitizeUsername :: "string \<Rightarrow> string" where
  "SanitizeUsername username = keepLabelChars username"

definition maxSegment :: nat where "maxSegment = 20"

definition InstanceFinalizer :: string where
  "InstanceFinalizer = ''dploy.dev/instance-cleanup''"

text \<open>\<open>shortUUID\<close> keeps the first eight characters of a fresh UUID without its dashes; the
  UUID itself comes from a library and is an argument.\<close>

definition shortUUID :: "string \<Rightarrow> string" where
  "shortUUID u = take 8 (filter (\<lambda>c. c \<noteq> CHR ''-'') u)"

definition truncateStr :: "string \<Rightarrow> nat \<Rightarrow> string" where
  "truncateStr s n = (if length s > n then trimDashes (take n s) else s)"

definition workloadNamespace :: "string \<Rightarrow> string \<Rightarrow> string \<Rightarrow> string" where
  "workloadNamespace owner template uid =
     (let o1 = sanitize owner; o2 = (if o1 = [] then ''pool'' else o1) in
      truncateStr o2 maxSegment @ ''-'' @ truncateStr (sanitize template) maxSegment @ ''-'' @ uid)"

definition defaultHost :: "string \<Rightarrow> string \<Rightarrow> string \<Rightarrow> string" where
  "defaultHost templateName uid baseDomain =
     (let t1 = sanitize templateName; t2 = (if t1 = [] then ''env'' else t1) in
      t2 @ ''-'' @ uid @ ''.'' @ baseDomain)"

fun firstNonEmpty :: "string list \<Rightarrow> string" where
  "firstNonEmpty [] = []"
| "firstNonEmpty (v # vs) = (if v \<noteq> [] then v else firstNonEmpty vs)"

section \<open>Normalisers\<close>

definition trimmed :: "string \<Rightarrow> bool" where
  "trimmed s \<longleftrightarrow> s = [] \<or> hd s \<noteq> CHR ''-'' \<and> last s \<noteq> CHR ''-''"

definition isDNSLabel :: "string \<Rightarrow> bool" where
  "isDNSLabel s \<longleftrightarrow> s \<noteq> [] \<and> length s \<le> 63 \<and> list_all isLabelChar s \<and> trimmed s"

locale normaliser =
  fixes san :: "string \<Rightarrow> string"
  assumes safe: "list_all isLabelChar (san s)"
    and idem: "san (san s) = san s"
    and short: "length (san s) \<le> length s"
begin

lemma mem_safe: "c \<in> set (san s) \<Longrightarrow> isLabelChar c"
  using safe [of s] by (simp add: list_all_iff)

text \<open>Two inputs with the same normal form keep it under any further normalisation.\<close>

lemma same_key: "san s = san t \<Longrightarrow> san (san s) = san t"
  by (simp add: idem)

end

locale label_sanitiser = normaliser +
  assumes ends: "trimmed (san s)"
begin

lemma dns_label: "san s \<noteq> [] \<Longrightarrow> length (san s) \<le> 63 \<Longrightarrow> isDNSLabel (san s)"
  using safe [of s] ends [of s] by (simp add: isDNSLabel_def)

end

subsection \<open>Facts on the shared filter\<close>

lemma isLabelChar_cases:
  "isLabelChar c \<Longrightarrow> (of_char c :: nat) \<noteq> 196 \<and> (of_char c :: nat) \<noteq> 226
     \<and> lowerByte c = c \<and> c \<noteq> CHR ''.'' \<and> c \<noteq> CHR ''@''"
  by (auto simp: isLabelChar_def lowerByte_def Let_def)

lemma toLower_id: "list_all isLabelChar s \<Longrightarrow> toLower s = s"
  by (induction s) (auto dest: isLabelChar_cases)

lemma replaceChar_id: "a \<notin> set s \<Longrightarrow> replaceChar a b s = s"
  by (auto simp: replaceChar_def intro!: map_idI)

lemma keepLabelChars_safe: "list_all isLabelChar (keepLabelChars s)"
  by (simp add: keepLabelChars_def list_all_iff)

lemma keepLabelChars_id: "list_all isLabelChar s \<Longrightarrow> keepLabelChars s = s"
proof -
  assume s: "list_all isLabelChar s"
  then have "CHR ''.'' \<notin> set s" "CHR ''@'' \<notin> set s"
    by (auto simp: list_all_iff dest: isLabelChar_cases)
  with s show ?thesis
    by (simp add: keepLabelChars_def toLower_id replaceChar_id) (simp add: list_all_iff)
qed

lemma length_toLower: "length (toLower s) \<le> length s"
  by (induction s rule: toLower.induct) (auto intro: le_trans)

lemma length_keepLabelChars: "length (keepLabelChars s) \<le> length s"
  unfolding keepLabelChars_def replaceChar_def
  by (rule le_trans [OF length_filter_le]) (simp add: length_toLower)

lemma trimmed_trimDashes: "trimmed (trimDashes s)"
  using trimDashes_ends [of s] by (auto simp: trimmed_def)

lemma trimDashes_safe: "list_all isLabelChar s \<Longrightarrow> list_all isLabelChar (trimDashes s)"
  using set_trimDashes [of s] by (auto simp: list_all_iff)

lemma trimmed_id: "trimmed s \<Longrightarrow> trimDashes s = s"
  by (simp add: trimmed_def trimDashes_id)

lemma take_safe: "list_all isLabelChar s \<Longrightarrow> list_all isLabelChar (take n s)"
  by (auto simp: list_all_iff dest: in_set_takeD)

lemma sanitize_id: "list_all isLabelChar s \<Longrightarrow> trimmed s \<Longrightarrow> sanitize s = s"
  by (simp add: sanitize_def keepLabelChars_id trimmed_id)

lemma sanitizeOwner_id:
  "list_all isLabelChar s \<Longrightarrow> trimmed s \<Longrightarrow> length s \<le> 63 \<Longrightarrow> sanitizeOwner s = s"
  by (simp add: sanitizeOwner_def keepLabelChars_id trimmed_id maxOwnerLen_def)

lemma sanitize_safe: "list_all isLabelChar (sanitize s)"
  by (simp add: sanitize_def trimDashes_safe keepLabelChars_safe)

lemma sanitize_trimmed: "trimmed (sanitize s)"
  by (simp add: sanitize_def trimmed_trimDashes)

lemma sanitizeOwner_safe: "list_all isLabelChar (sanitizeOwner s)"
  by (simp add: sanitizeOwner_def Let_def trimDashes_safe take_safe keepLabelChars_safe)

lemma sanitizeOwner_trimmed: "trimmed (sanitizeOwner s)"
  by (simp add: sanitizeOwner_def Let_def trimmed_trimDashes)

lemma sanitizeOwner_length: "length (sanitizeOwner s) \<le> 63"
  using length_trimDashes [of "take maxOwnerLen (trimDashes (keepLabelChars s))"]
  by (auto simp: sanitizeOwner_def Let_def maxOwnerLen_def)

lemma sanitize_short: "length (sanitize s) \<le> length s"
  unfolding sanitize_def
  by (rule le_trans [OF length_trimDashes length_keepLabelChars])

lemma sanitizeOwner_short: "length (sanitizeOwner s) \<le> length s"
proof -
  have "length (trimDashes (take maxOwnerLen (trimDashes (keepLabelChars s)))) \<le> length s"
    by (rule le_trans [OF length_trimDashes])
      (simp add: sanitize_short [unfolded sanitize_def] min.coboundedI1)
  then show ?thesis
    by (simp add: sanitizeOwner_def Let_def sanitize_short [unfolded sanitize_def])
qed

interpretation controller_san: label_sanitiser sanitize
  by unfold_locales
    (simp_all add: sanitize_safe sanitize_trimmed sanitize_id sanitize_short)

interpretation owner_san: label_sanitiser sanitizeOwner
  by unfold_locales
    (simp_all add: sanitizeOwner_safe sanitizeOwner_trimmed sanitizeOwner_id
      sanitizeOwner_length sanitizeOwner_short)

interpretation username_san: normaliser SanitizeUsername
  by unfold_locales
    (simp_all add: SanitizeUsername_def keepLabelChars_safe keepLabelChars_id
      length_keepLabelChars)


section \<open>Generated names\<close>

lemma trimDashes_ne: "s \<noteq> [] \<Longrightarrow> hd s \<noteq> CHR ''-'' \<Longrightarrow> trimDashes s \<noteq> []"
proof -
  assume s: "s \<noteq> []" "hd s \<noteq> CHR ''-''"
  then have "dropWhile (\<lambda>c. c = CHR ''-'') s = s" by (simp add: dropWhile_id)
  moreover have "dropWhile (\<lambda>c. c = CHR ''-'') (rev s) \<noteq> []"
  proof -
    have "hd s \<in> set (rev s)" using s(1) by simp
    with s(2) show ?thesis unfolding dropWhile_eq_Nil_conv by blast
  qed
  ultimately show ?thesis by (simp add: trimDashes_def)
qed

lemma length_truncate: "length (truncateStr s n) \<le> n"
  using length_trimDashes [of "take n s"] by (simp add: truncateStr_def)

lemma truncate_safe: "list_all isLabelChar s \<Longrightarrow> list_all isLabelChar (truncateStr s n)"
  by (simp add: truncateStr_def trimDashes_safe take_safe)

lemma truncate_trimmed: "trimmed s \<Longrightarrow> trimmed (truncateStr s n)"
  by (simp add: truncateStr_def trimmed_trimDashes)

lemma truncate_ne: "s \<noteq> [] \<Longrightarrow> trimmed s \<Longrightarrow> 0 < n \<Longrightarrow> truncateStr s n \<noteq> []"
  using trimDashes_ne [of "take n s"] by (auto simp: truncateStr_def trimmed_def hd_take)

lemma trimmed_append:
  "trimmed a \<Longrightarrow> trimmed b \<Longrightarrow> a \<noteq> [] \<Longrightarrow> b \<noteq> [] \<Longrightarrow> trimmed (a @ m @ b)"
  by (simp add: trimmed_def)

lemma trimmed_uid: "isLabelChar c \<Longrightarrow> c \<noteq> CHR ''-'' \<Longrightarrow> trimmed [c]"
  by (simp add: trimmed_def)

text \<open>The image of \<^const>\<open>sanitize\<close> is exactly the label-safe strings with no dash at either end.\<close>

lemma sanitize_fixed_iff: "sanitize s = s \<longleftrightarrow> list_all isLabelChar s \<and> trimmed s"
  by (metis sanitize_id sanitize_safe sanitize_trimmed)

lemma sanitize_keepLabelChars [simp]: "sanitize (keepLabelChars s) = sanitize s"
  by (simp add: sanitize_def keepLabelChars_id keepLabelChars_safe)

lemma sanitizeOwner_keepLabelChars [simp]: "sanitizeOwner (keepLabelChars s) = sanitizeOwner s"
  by (simp add: sanitizeOwner_def keepLabelChars_id keepLabelChars_safe)

lemma sanitize_sanitizeOwner [simp]: "sanitize (sanitizeOwner s) = sanitizeOwner s"
  by (simp add: sanitize_id sanitizeOwner_safe sanitizeOwner_trimmed)

lemma sanitizeOwner_eq:
  "sanitizeOwner s = (if length (sanitize s) \<le> 63 then sanitize s else trimDashes (take 63 (sanitize s)))"
  by (simp add: sanitizeOwner_def sanitize_def maxOwnerLen_def)

text \<open>The operator's \<^verbatim>\<open>sanitize\<close> is a canonical form: its result has only label
  characters and no dash at an end, it leaves exactly such strings unchanged, and it is
  idempotent.\<close>

theorem sanitize_canonical:
  "list_all isLabelChar (sanitize s) \<and> trimmed (sanitize s) \<and> sanitize (sanitize s) = sanitize s
   \<and> (sanitize t = t \<longleftrightarrow> list_all isLabelChar t \<and> trimmed t)"
  by (simp add: sanitize_fixed_iff sanitize_safe sanitize_trimmed controller_san.idem)

text \<open>The label the API files a claim under is the label the operator computes from it:
  whatever user name the token carried, the owner key the API derives after its own
  normalisation is a fixed point of the operator's \<^verbatim>\<open>sanitize\<close>, and normalising the raw
  name or the already normalised one gives the same key.\<close>

theorem owner_key_pipeline:
  "sanitize (sanitizeOwner (SanitizeUsername u)) = sanitizeOwner u
   \<and> sanitizeOwner (sanitize u) = sanitizeOwner u \<and> length (sanitizeOwner u) \<le> 63"
proof -
  have "sanitizeOwner (sanitize u) = sanitizeOwner u"
    unfolding sanitizeOwner_eq [of "sanitize u"] controller_san.idem
    by (simp only: sanitizeOwner_eq [of u])
  then show ?thesis by (simp add: SanitizeUsername_def sanitizeOwner_length)
qed

text \<open>The two normalisers that a comment says must stay in sync differ beyond 63 characters:
  only the API truncates, so a claim filed without the API can carry an owner label longer than
  Kubernetes accepts.\<close>

theorem sanitizers_out_of_sync:
  "length (sanitize (replicate 64 CHR ''a'')) = 64
   \<and> length (sanitizeOwner (replicate 64 CHR ''a'')) = 63"
  by (simp add: sanitizeOwner_eq sanitize_id trimmed_def list_all_iff isLabelChar_def
      trimDashes_id hd_replicate last_replicate numeral_eq_Suc)

text \<open>Every workload namespace is a valid DNS label of at most 50 characters, for any owner
  and template string, once the short identifier is eight label characters with none of them a
  dash.\<close>

theorem workloadNamespace_dns:
  assumes "length uid = 8" and "list_all isLabelChar uid" and "CHR ''-'' \<notin> set uid"
  shows "isDNSLabel (workloadNamespace owner template uid)
    \<and> length (workloadNamespace owner template uid) \<le> 50"
proof -
  define o2 where "o2 = (if sanitize owner = [] then ''pool'' else sanitize owner)"
  define a where "a = truncateStr o2 maxSegment"
  define b where "b = truncateStr (sanitize template) maxSegment"
  have o2: "o2 \<noteq> []" "trimmed o2" "list_all isLabelChar o2"
    by (simp_all add: o2_def sanitize_trimmed sanitize_safe) (simp_all add: trimmed_def isLabelChar_def)
  have eq: "workloadNamespace owner template uid = a @ (''-'' @ b @ ''-'') @ uid"
    by (simp add: workloadNamespace_def Let_def a_def b_def o2_def)
  have len: "length a \<le> 20" "length b \<le> 20"
    by (simp_all add: a_def b_def maxSegment_def length_truncate)
  have uid: "uid \<noteq> []" "trimmed uid"
    using assms by (auto simp: trimmed_def) (metis hd_in_set, metis last_in_set)
  have a: "a \<noteq> []" "trimmed a" "list_all isLabelChar a"
    using o2 by (simp_all add: a_def truncate_ne truncate_trimmed truncate_safe maxSegment_def)
  have b: "list_all isLabelChar b"
    by (simp add: b_def truncate_safe sanitize_safe)
  have dash: "isLabelChar CHR ''-''" by (simp add: isLabelChar_def)
  have "trimmed (a @ (''-'' @ b @ ''-'') @ uid)"
    using a uid by (intro trimmed_append)
  then show ?thesis
    using len uid a b dash assms by (simp add: eq isDNSLabel_def)
qed

theorem workloadNamespace_dns_witness:
  "isDNSLabel (workloadNamespace ''John.Doe'' ''WebTerm'' ''abc12345'')
   \<and> length (workloadNamespace ''John.Doe'' ''WebTerm'' ''abc12345'') \<le> 50
   \<and> workloadNamespace ''John.Doe'' ''WebTerm'' ''abc12345'' = ''john-doe-webterm-abc12345''"
proof -
  have "isDNSLabel (workloadNamespace ''John.Doe'' ''WebTerm'' ''abc12345'')
   \<and> length (workloadNamespace ''John.Doe'' ''WebTerm'' ''abc12345'') \<le> 50"
    by (rule workloadNamespace_dns) (simp_all add: isLabelChar_def)
  moreover have "workloadNamespace ''John.Doe'' ''WebTerm'' ''abc12345'' = ''john-doe-webterm-abc12345''"
    by code_simp
  ultimately show ?thesis by blast
qed

end
