(* ===== verification/Resolver.thy ===== *)
theory Resolver
imports Api Naming
begin

text \<open>
  The cluster-wide configuration: \<^verbatim>\<open>internal/operatorconfig/resolver.go\<close>, which merges
  the \<open>OperatorConfig\<close> named \<open>default\<close> over the built-in fallbacks, the controller that
  marks every other one ignored, \<^verbatim>\<open>internal/templating\<close>, and Go's
  \<^verbatim>\<open>time.ParseDuration\<close>, which reads the Flux interval. The free-form values stay in their
  serialised form: only the template renderer looks inside.
\<close>

section \<open>time.ParseDuration\<close>

text \<open>The loop of the library over \<open>number unit\<close> groups, with its overflow checks. A fraction
  is rounded down to a whole nanosecond, as the library's floating-point product is.\<close>

definition isNum :: "char \<Rightarrow> bool" where
  "isNum c = (let n = of_char c :: nat in 48 \<le> n \<and> n \<le> 57)"

fun leadingInt :: "int \<Rightarrow> string \<Rightarrow> (int \<times> string) option" where
  "leadingInt x [] = Some (x, [])"
| "leadingInt x (c # s) =
     (if \<not> isNum c then Some (x, c # s)
      else if x > 2 ^ 63 div 10 then None
      else (let y = x * 10 + (of_char c - 48) in
            if y > 2 ^ 63 then None else leadingInt y s))"

fun leadingFraction :: "bool \<Rightarrow> int \<Rightarrow> int \<Rightarrow> string \<Rightarrow> int \<times> int \<times> string" where
  "leadingFraction over x scale [] = (x, scale, [])"
| "leadingFraction over x scale (c # s) =
     (if \<not> isNum c then (x, scale, c # s)
      else if over then leadingFraction True x scale s
      else if x > (2 ^ 63 - 1) div 10 then leadingFraction True x scale s
      else (let y = x * 10 + (of_char c - 48) in
            if y > 2 ^ 63 then leadingFraction True x scale s
            else leadingFraction False y (scale * 10) s))"

definition unitOf :: "string \<Rightarrow> int option" where
  "unitOf u =
     (if u = ''ns'' then Some 1
      else if u = ''us'' \<or> map of_char u = [194 :: nat, 181, 115] \<or> map of_char u = [206 :: nat, 188, 115]
      then Some 1000
      else if u = ''ms'' then Some 1000000
      else if u = ''s'' then Some 1000000000
      else if u = ''m'' then Some 60000000000
      else if u = ''h'' then Some 3600000000000
      else None)"

text \<open>One group: the amount it adds, and what is left to read.\<close>

definition durationGroup :: "string \<Rightarrow> (int \<times> string) option" where
  "durationGroup s =
     (case leadingInt 0 s of None \<Rightarrow> None
      | Some (v, s1) \<Rightarrow>
        let pre = (length s1 \<noteq> length s);
            (f, scale, s2, post) =
              (case s1 of CHR ''.'' # t \<Rightarrow>
                  (let (f, scale, r) = leadingFraction False 0 1 t in (f, scale, r, length r \<noteq> length t))
               | _ \<Rightarrow> (0, 1, s1, False));
            u = takeWhile (\<lambda>c. c \<noteq> CHR ''.'' \<and> \<not> isNum c) s2;
            rest = dropWhile (\<lambda>c. c \<noteq> CHR ''.'' \<and> \<not> isNum c) s2 in
        if \<not> pre \<and> \<not> post then None
        else if u = [] then None
        else (case unitOf u of None \<Rightarrow> None
          | Some unit \<Rightarrow>
              if v > 2 ^ 63 div unit then None
              else let w = v * unit + f * unit div scale in
                if f > 0 \<and> w > 2 ^ 63 then None else Some (w, rest)))"

text \<open>Each group reads at least one character, so the length of the text is enough fuel.\<close>

fun durationLoop :: "nat \<Rightarrow> int \<Rightarrow> string \<Rightarrow> int option" where
  "durationLoop n d [] = Some d"
| "durationLoop 0 d (c # s) = None"
| "durationLoop (Suc n) d (c # s) =
     (case durationGroup (c # s) of None \<Rightarrow> None
      | Some (v, rest) \<Rightarrow> if d + v > 2 ^ 63 then None else durationLoop n (d + v) rest)"

definition ParseDuration :: "string \<Rightarrow> Duration option" where
  "ParseDuration text =
     (let neg = (case text of c # _ \<Rightarrow> c = CHR ''-'' | [] \<Rightarrow> False);
          s = (case text of c # t \<Rightarrow> if c = CHR ''-'' \<or> c = CHR ''+'' then t else text | [] \<Rightarrow> []) in
      if s = ''0'' then Some 0
      else if s = [] then None
      else (case durationLoop (length s) 0 s of None \<Rightarrow> None
        | Some d \<Rightarrow> if neg then Some (- d) else if d > 2 ^ 63 - 1 then None else Some d))"

lemma parse_interval_examples:
  "ParseDuration ''5m'' = Some (300 * second)" "ParseDuration ''1h30m'' = Some (5400 * second)"
  "ParseDuration ''1.5s'' = Some 1500000000" "ParseDuration ''-10s'' = Some (- 10 * second)"
  "ParseDuration ''5'' = None" "ParseDuration ''m5'' = None" "ParseDuration '''' = None"
  by code_simp+

section \<open>Resolve\<close>

definition defaultFluxNamespace :: string where "defaultFluxNamespace = ''flux-system''"
definition defaultFluxInterval :: Duration where "defaultFluxInterval = 300 * second"
definition defaultTTLSeconds :: int where "defaultTTLSeconds = 86400"
definition defaultExtendSeconds :: int where "defaultExtendSeconds = 7200"
definition defaultMaxExtends :: int where "defaultMaxExtends = 3"
definition defaultMaxPerUser :: int where "defaultMaxPerUser = 5"

record Effective =
  eDefaultEngine :: EngineType
  eFluxNamespace :: string
  eFluxServiceAccount :: string
  eFluxInterval :: Duration
  eBaseDomain :: string
  eConnectionURLTemplate :: string
  eDefaultConnectionType :: ConnectionType
  eConnectionMessageTemplate :: string
  eTTLSeconds :: int
  eExtendSeconds :: int
  eMaxExtends :: int
  eMaxInstancesPerUser :: int
  eValues :: string

definition fallbacks :: Effective where
  "fallbacks = \<lparr>eDefaultEngine = EngineFlux, eFluxNamespace = defaultFluxNamespace,
     eFluxServiceAccount = [], eFluxInterval = defaultFluxInterval, eBaseDomain = [],
     eConnectionURLTemplate = [], eDefaultConnectionType = [], eConnectionMessageTemplate = [],
     eTTLSeconds = defaultTTLSeconds, eExtendSeconds = defaultExtendSeconds,
     eMaxExtends = defaultMaxExtends, eMaxInstancesPerUser = defaultMaxPerUser, eValues = ''{}''\<rparr>"

text \<open>\<open>if spec.X != zero then eff.X = spec.X\<close>.\<close>

definition override :: "'a \<Rightarrow> 'a \<Rightarrow> 'a \<Rightarrow> 'a" where
  "override zero v old = (if v \<noteq> zero then v else old)"

definition mergeInterval :: "string \<Rightarrow> Duration \<Rightarrow> Duration" where
  "mergeInterval raw old =
     (if raw \<noteq> [] then (case ParseDuration raw of Some d \<Rightarrow> d | None \<Rightarrow> old) else old)"

definition mergeSpec :: "OperatorConfigSpec \<Rightarrow> Effective \<Rightarrow> Effective" where
  "mergeSpec s eff = eff\<lparr>
     eDefaultEngine := override EngineUnset (oDefaultEngine s) (eDefaultEngine eff),
     eFluxNamespace := override [] (fluxNamespace (oFlux s)) (eFluxNamespace eff),
     eFluxServiceAccount := override [] (fluxServiceAccountName (oFlux s)) (eFluxServiceAccount eff),
     eFluxInterval := mergeInterval (fluxIntervalText (oFlux s)) (eFluxInterval eff),
     eBaseDomain := override [] (oBaseDomain s) (eBaseDomain eff),
     eConnectionURLTemplate := override [] (oConnectionURLTemplate s) (eConnectionURLTemplate eff),
     eDefaultConnectionType := override [] (oDefaultConnectionType s) (eDefaultConnectionType eff),
     eConnectionMessageTemplate :=
       override [] (oConnectionMessageTemplate s) (eConnectionMessageTemplate eff),
     eTTLSeconds := override 0 (dTTLSeconds (oDefaults s)) (eTTLSeconds eff),
     eExtendSeconds := override 0 (dExtendSeconds (oDefaults s)) (eExtendSeconds eff),
     eMaxExtends := override 0 (dMaxExtends (oDefaults s)) (eMaxExtends eff),
     eMaxInstancesPerUser := override 0 (dMaxInstancesPerUser (oDefaults s)) (eMaxInstancesPerUser eff)\<rparr>"

definition decodeConfigValues :: "api \<Rightarrow> string option \<Rightarrow> Effective \<Rightarrow> error + Effective" where
  "decodeConfigValues A raw eff =
     (case raw of
        Some (c # cs) \<Rightarrow>
          (case decodeValues A (c # cs) of
             Inl e \<Rightarrow> Inl (wrapErr ''decode OperatorConfig.spec.values'' e)
           | Inr vals \<Rightarrow> Inr (eff\<lparr>eValues := vals\<rparr>))
      | _ \<Rightarrow> Inr eff)"

definition configKey :: NamespacedName where
  "configKey = \<lparr>nnNamespace = [], nnName = OperatorConfigName\<rparr>"

text \<open>What the reply to the one read resolves to.\<close>

definition effectiveOf :: "api \<Rightarrow> error + OperatorConfig \<Rightarrow> error + Effective" where
  "effectiveOf A r =
     (case r of
        Inl e \<Rightarrow> if IsNotFound e then Inr fallbacks
                 else Inl (wrapErr (''get OperatorConfig '' @ goQuote OperatorConfigName) e)
      | Inr cfg \<Rightarrow> decodeConfigValues A (oValues (oSpec cfg)) (mergeSpec (oSpec cfg) fallbacks))"

definition Resolve :: "api \<Rightarrow> (error + Effective) io" where
  "Resolve A = do { r \<leftarrow> getConfig A configKey; give (effectiveOf A r) }"

section \<open>The OperatorConfig controller\<close>

definition configCondition :: "OperatorConfig \<Rightarrow> Condition" where
  "configCondition cfg =
     (if Name (oMeta cfg) \<noteq> OperatorConfigName
      then condition ConditionReady CondTrue ''Ignored''
        (''Only the OperatorConfig named '' @ goQuote ''default'' @ '' is honored; this object is ignored.'')
        (Generation (oMeta cfg))
      else condition ConditionReady CondTrue ''Active'' ''Operator configuration is in effect.''
        (Generation (oMeta cfg)))"

definition reconcileConfig :: "api \<Rightarrow> NamespacedName \<Rightarrow> result io" where
  "reconcileConfig A req = do {
     r \<leftarrow> getConfig A req;
     case r of
       Inl e \<Rightarrow> give (ignoreNotFound 0 e)
     | Inr cfg \<Rightarrow> do {
         let cfg1 = oStatus_update (\<lambda>s. s\<lparr>oObservedGeneration := Generation (oMeta cfg)\<rparr>) cfg;
         cs \<leftarrow> setStatusCondition A (oConditions (oStatus cfg1)) (configCondition cfg1);
         let cfg2 = oStatus_update (\<lambda>s. s\<lparr>oConditions := cs\<rparr>) cfg1;
         tryE (patchConfigStatus A cfg cfg2) (\<lambda>_. ok 0) } }"

section \<open>Render\<close>

text \<open>Parsing and executing belong to the template library; the wrapping of their errors is the
  code's.\<close>

definition Render :: "api \<Rightarrow> string \<Rightarrow> string \<Rightarrow> Data \<Rightarrow> error + string" where
  "Render A name txt d =
     (case parseTemplate A name txt of
        Inl e \<Rightarrow> Inl (wrapErr (''parse '' @ name @ '' template'') e)
      | Inr tmpl \<Rightarrow>
         (case executeTemplate A tmpl d of
            Inl e \<Rightarrow> Inl (wrapErr (''render '' @ name @ '' template'') e)
          | Inr out \<Rightarrow> Inr out))"

section \<open>Properties\<close>

lemma override_simps [simp]: "override z z old = old" "v \<noteq> z \<Longrightarrow> override z v old = v"
  by (simp_all add: override_def)

lemma override_neq: "old \<noteq> z \<Longrightarrow> override z v old \<noteq> z"
  by (simp add: override_def)

lemma decodeConfigValues_fields:
  "decodeConfigValues A raw eff = Inr eff' \<Longrightarrow> \<exists>v. eff' = eff\<lparr>eValues := v\<rparr>"
  by (auto simp: decodeConfigValues_def split: option.splits list.splits sum.splits
      intro: exI [of _ "eValues eff"])

text \<open>Whatever the cluster holds, a configuration that resolves has an engine, a Flux namespace,
  a lifetime, an extension length, an extension budget and a quota: a missing field never means
  ``no limit''.\<close>

definition fullyResolved :: "Effective \<Rightarrow> bool" where
  "fullyResolved eff \<longleftrightarrow> eDefaultEngine eff \<noteq> EngineUnset \<and> eFluxNamespace eff \<noteq> []
     \<and> eTTLSeconds eff \<noteq> 0 \<and> eExtendSeconds eff \<noteq> 0 \<and> eMaxExtends eff \<noteq> 0
     \<and> eMaxInstancesPerUser eff \<noteq> 0"

lemma closed_fallbacks: "fullyResolved fallbacks"
  by (simp add: fullyResolved_def fallbacks_def defaultFluxNamespace_def defaultTTLSeconds_def
      defaultExtendSeconds_def defaultMaxExtends_def defaultMaxPerUser_def)

lemma closed_mergeSpec: "fullyResolved eff \<Longrightarrow> fullyResolved (mergeSpec s eff)"
  by (simp add: fullyResolved_def mergeSpec_def override_neq)

lemma closed_decode: "decodeConfigValues A raw eff = Inr eff' \<Longrightarrow> fullyResolved eff \<Longrightarrow> fullyResolved eff'"
  by (auto dest!: decodeConfigValues_fields simp: fullyResolved_def)

lemma effectiveOf_complete: "effectiveOf A r = Inr eff \<Longrightarrow> fullyResolved eff"
  by (auto simp: effectiveOf_def closed_fallbacks split: sum.splits if_splits
      intro: closed_decode [OF _ closed_mergeSpec [OF closed_fallbacks]])

lemma wp_Resolve [wp_simps]:
  "wp (Resolve A) Q h = (let r = reGetConfig A h configKey in
     Q (effectiveOf A r) (h @ [EGetConfig configKey r]))"
  by (simp add: Resolve_def wp_simps Let_def)

lemma wpe_Resolve [wpe_rules]:
  assumes "\<And>r. P h (EGetConfig configKey r) \<and> Q (effectiveOf A r) (h @ [EGetConfig configKey r])"
  shows "wpe P (Resolve A) Q h"
  unfolding Resolve_def by (intro wpe_bind wpe_calls) (simp add: assms wpe_return)

lemma emits_Resolve [emits_rules]:
  "(\<And>h k r. P h (EGetConfig k r)) \<Longrightarrow> emits P (Resolve A)"
  unfolding Resolve_def by (intro emits_bind emits_calls emits_return)

text \<open>The log shows the configuration a run works with.\<close>

definition configRead :: "api \<Rightarrow> log \<Rightarrow> Effective \<Rightarrow> bool" where
  "configRead A h eff \<longleftrightarrow> (\<exists>r. EGetConfig configKey r \<in> set h \<and> effectiveOf A r = Inr eff)"

lemma configRead_grow [grow_intros]: "configRead A h eff \<Longrightarrow> configRead A (h @ es) eff"
  by (auto simp: configRead_def)

text \<open>C38. Whatever the \<open>OperatorConfig\<close> object holds, or if there is none, a configuration that
  resolves is complete: an omitted engine, namespace, lifetime, extension budget or quota takes the
  built-in fallback, and never reads as zero.\<close>

theorem resolve_fails_closed:
  "case returned (Resolve A) h of Inl e \<Rightarrow> True | Inr eff \<Rightarrow> fullyResolved eff"
  using effectiveOf_complete [of A]
  by (auto simp: Resolve_def returned_def getConfig_def perform_def split: sum.split)

end
