(* ===== verification/Rfc3339.thy ===== *)
theory Rfc3339
imports Prelude
begin

text \<open>
  The part of Go's \<^verbatim>\<open>time\<close> package the program reads and writes instants with:
  \<^verbatim>\<open>t.UTC().Format(time.RFC3339)\<close> and \<^verbatim>\<open>time.Parse(time.RFC3339, s)\<close>.
  Dates are proleptic Gregorian, counted in days since 1 January of year 0. The parser is the strict
  one (four-digit year, two-digit fields, an optional fraction after a dot, \<open>Z\<close> or a numeric
  offset); the library's second attempt, which also takes a one-digit hour or a comma before the
  fraction, is not modelled. The program only parses what it formatted.
\<close>

section \<open>Civil dates\<close>

definition isLeap :: "int \<Rightarrow> bool" where
  "isLeap y \<longleftrightarrow> y mod 4 = 0 \<and> (y mod 100 \<noteq> 0 \<or> y mod 400 = 0)"

definition monthLengths :: "int \<Rightarrow> int list" where
  "monthLengths y = [31, if isLeap y then 29 else 28, 31, 30, 31, 30, 31, 31, 30, 31, 30, 31]"

definition daysBefore :: "int \<Rightarrow> int" where
  "daysBefore y = 365 * y + (y + 3) div 4 - (y + 99) div 100 + (y + 399) div 400"

definition yearOf :: "int \<Rightarrow> int" where
  "yearOf d = (let y = d * 400 div 146097 in
     if d < daysBefore y then y - 1 else if daysBefore (y + 1) \<le> d then y + 1 else y)"

fun monthOf :: "int list \<Rightarrow> int \<Rightarrow> nat \<times> int" where
  "monthOf [] d = (0, d)"
| "monthOf (l # ls) d = (if d < l then (0, d) else (let (k, r) = monthOf ls (d - l) in (Suc k, r)))"

text \<open>The days from year 0 to 1 January 1970.\<close>

definition epochDays :: int where "epochDays = 719528"

definition dateToDays :: "int \<Rightarrow> nat \<Rightarrow> int \<Rightarrow> int" where
  "dateToDays y m d = daysBefore y + sum_list (take m (monthLengths y)) + d"

lemma div_estimate: "0 < k \<Longrightarrow> k * (x div k) \<le> x \<and> x < k * (x div k) + (k :: int)"
  using mult_div_mod_eq [of k x] pos_mod_sign [of k x] pos_mod_bound [of k x] by linarith

lemma estimate_sum:
  fixes y a b c :: int
  assumes "4 * a \<le> y + 3 \<and> y + 3 < 4 * a + 4" and "100 * b \<le> y + 99 \<and> y + 99 < 100 * b + 100"
    and "400 * c \<le> y + 399 \<and> y + 399 < 400 * c + 400"
  shows "146097 * y - 400 \<le> 400 * (365 * y + a - b + c)
    \<and> 400 * (365 * y + a - b + c) \<le> 146097 * y + 700"
  using assms by auto

lemma daysBefore_estimate:
  "146097 * y - 400 \<le> 400 * daysBefore y \<and> 400 * daysBefore y \<le> 146097 * y + 700"
  unfolding daysBefore_def by (intro estimate_sum div_estimate) simp_all

lemma yearOf_bounds:
  "daysBefore (yearOf d) \<le> d \<and> d < daysBefore (yearOf d + 1)"
proof -
  obtain y where y: "y = d * 400 div 146097" by simp
  have q: "146097 * y \<le> d * 400 \<and> d * 400 < 146097 * y + 146097"
    unfolding y by (rule div_estimate) simp
  have lo: "daysBefore (y - 1) \<le> d"
    using daysBefore_estimate [of "y - 1"] q by auto
  have hi: "d < daysBefore (y + 1 + 1)"
    using daysBefore_estimate [of "y + 1 + 1"] q by auto
  have "yearOf d = (if d < daysBefore y then y - 1 else if daysBefore (y + 1) \<le> d then y + 1 else y)"
    by (simp add: yearOf_def y Let_def)
  then show ?thesis using lo hi by auto
qed

lemma ceil_step:
  assumes "0 < (k :: int)"
  shows "(y + 1 + (k - 1)) div k = (y + (k - 1)) div k + (if y mod k = 0 then 1 else 0)"
proof -
  define q r where "q = y div k" and "r = y mod k"
  have y: "y = k * q + r" and r: "0 \<le> r" "r < k"
    using assms by (simp_all add: q_def r_def)
  have e1: "(y + 1 + (k - 1)) div k = q + 1"
    using assms r by (simp add: y div_add_self2 div_pos_pos_trivial)
  have "(y + (k - 1)) div k = q + (r + (k - 1)) div k"
    using assms by (simp add: y add.assoc)
  also have "(r + (k - 1)) div k = (if r = 0 then 0 else 1)"
  proof (cases "r = 0")
    case True
    then show ?thesis using assms by (simp add: div_pos_pos_trivial)
  next
    case False
    then have "(r - 1 + k) div k = 1" using assms r by (simp add: div_add_self2 div_pos_pos_trivial)
    moreover have "r + (k - 1) = r - 1 + k" by simp
    ultimately show ?thesis using False by metis
  qed
  finally show ?thesis using e1 by (simp add: r_def)
qed

lemma daysBefore_Suc: "daysBefore (y + 1) = daysBefore y + sum_list (monthLengths y)"
proof -
  have m: "y mod 4 = 0" if "y mod 100 = 0" using that mod_mod_cancel [of 4 100 y] by auto
  have n: "y mod 100 = 0" if "y mod 400 = 0" using that mod_mod_cancel [of 100 400 y] by auto
  have "(y + 1 + 3) div 4 = (y + 3) div 4 + (if y mod 4 = 0 then 1 else 0)"
    using ceil_step [of 4 y] by (simp del: add_diff_cancel)
  moreover have "(y + 1 + 99) div 100 = (y + 99) div 100 + (if y mod 100 = 0 then 1 else 0)"
    using ceil_step [of 100 y] by (simp del: add_diff_cancel)
  moreover have "(y + 1 + 399) div 400 = (y + 399) div 400 + (if y mod 400 = 0 then 1 else 0)"
    using ceil_step [of 400 y] by (simp del: add_diff_cancel)
  ultimately have e1: "daysBefore (y + 1) = daysBefore y + 365 + (if y mod 4 = 0 then 1 else 0)
      - (if y mod 100 = 0 then 1 else 0) + (if y mod 400 = 0 then 1 else 0)"
    unfolding daysBefore_def by (simp only: ring_distribs)
  have e2: "sum_list (monthLengths y) = (if isLeap y then 366 else 365)"
    by (simp add: monthLengths_def)
  have e3: "(if isLeap y then 366 else 365 :: int) = 365 + (if y mod 4 = 0 then 1 else 0)
      - (if y mod 100 = 0 then 1 else 0) + (if y mod 400 = 0 then 1 else 0)"
    unfolding isLeap_def using m n by (cases "y mod 100 = 0"; cases "y mod 400 = 0"; cases "y mod 4 = 0") simp_all
  show ?thesis unfolding e1 e2 e3 by (simp only: algebra_simps)
qed

lemma monthOf_sound:
  assumes "0 \<le> d" and "d < sum_list ls"
  shows "case monthOf ls d of (k, r) \<Rightarrow>
    k < length ls \<and> 0 \<le> r \<and> r < ls ! k \<and> sum_list (take k ls) + r = d"
  using assms
proof (induction ls arbitrary: d)
  case Nil
  then show ?case by simp
next
  case (Cons l ls)
  show ?case
  proof (cases "d < l")
    case True
    with Cons.prems show ?thesis by simp
  next
    case False
    with Cons.prems Cons.IH [of "d - l"] show ?thesis
      by (auto split: prod.splits)
  qed
qed

section \<open>Formatting and parsing\<close>

definition digit :: "int \<Rightarrow> char" where "digit n = char_of (48 + n)"

definition pad2 :: "int \<Rightarrow> string" where "pad2 n = [digit (n div 10), digit (n mod 10)]"

definition pad4 :: "int \<Rightarrow> string" where
  "pad4 n = (if n \<le> 9999 then pad2 (n div 100) @ pad2 (n mod 100) else showInt n)"

definition formatYear :: "int \<Rightarrow> string" where
  "formatYear y = (if y < 0 then CHR ''-'' # pad4 (- y) else pad4 y)"

definition formatRFC3339 :: "Time \<Rightarrow> string" where
  "formatRFC3339 t =
     (let s = t div second; days = s div 86400 + epochDays; sod = s mod 86400;
          y = yearOf days; (m, d) = monthOf (monthLengths y) (days - daysBefore y) in
      formatYear y @ ''-'' @ pad2 (int m + 1) @ ''-'' @ pad2 (d + 1) @ ''T''
      @ pad2 (sod div 3600) @ '':'' @ pad2 (sod mod 3600 div 60) @ '':'' @ pad2 (sod mod 60) @ ''Z'')"

definition isDigit :: "char \<Rightarrow> bool" where
  "isDigit c = (let n = of_char c :: int in 48 \<le> n \<and> n \<le> 57)"

definition parseUint :: "string \<Rightarrow> int \<Rightarrow> int \<Rightarrow> int option" where
  "parseUint s lo hi =
     (if list_all isDigit s
      then let v = foldl (\<lambda>a c. 10 * a + (of_char c - 48)) 0 s in
           if lo \<le> v \<and> v \<le> hi then Some v else None
      else None)"

definition slice :: "string \<Rightarrow> nat \<Rightarrow> nat \<Rightarrow> string" where
  "slice s i n = take n (drop i s)"

text \<open>The fraction keeps nine digits.\<close>

definition parseFraction :: "string \<Rightarrow> int \<times> string" where
  "parseFraction s =
     (case s of c # ds \<Rightarrow>
        (let f = takeWhile isDigit ds in
         if c = CHR ''.'' \<and> f \<noteq> []
         then (foldl (\<lambda>a c. 10 * a + (of_char c - 48)) 0 (take 9 (f @ replicate 9 CHR ''0'')),
               dropWhile isDigit ds)
         else (0, s))
      | [] \<Rightarrow> (0, s))"

definition parseZone :: "string \<Rightarrow> int option" where
  "parseZone s =
     (if s = ''Z'' then Some 0
      else if length s = 6 \<and> s ! 3 = CHR '':'' \<and> (s ! 0 = CHR ''+'' \<or> s ! 0 = CHR ''-'')
      then (case (parseUint (slice s 1 2) 0 23, parseUint (slice s 4 2) 0 59) of
          (Some h, Some m) \<Rightarrow> Some ((if s ! 0 = CHR ''-'' then -1 else 1) * (h * 3600 + m * 60))
        | _ \<Rightarrow> None)
      else None)"

definition parseRFC3339 :: "string \<Rightarrow> Time option" where
  "parseRFC3339 s =
     (if length s < 19 \<or> s ! 4 \<noteq> CHR ''-'' \<or> s ! 7 \<noteq> CHR ''-'' \<or> s ! 10 \<noteq> CHR ''T''
         \<or> s ! 13 \<noteq> CHR '':'' \<or> s ! 16 \<noteq> CHR '':'' then None
      else (case (parseUint (slice s 0 4) 0 9999, parseUint (slice s 5 2) 1 12,
                  parseUint (slice s 11 2) 0 23, parseUint (slice s 14 2) 0 59,
                  parseUint (slice s 17 2) 0 59) of
          (Some y, Some m, Some hh, Some mm, Some ss) \<Rightarrow>
            (case parseUint (slice s 8 2) 1 (monthLengths y ! nat (m - 1)) of
               None \<Rightarrow> None
             | Some d \<Rightarrow>
                 (let (ns, z) = parseFraction (drop 19 s) in
                  case parseZone z of
                    None \<Rightarrow> None
                  | Some off \<Rightarrow> Some (((dateToDays y (nat (m - 1)) (d - 1) - epochDays) * 86400
                      + hh * 3600 + mm * 60 + ss - off) * second + ns)))
        | _ \<Rightarrow> None))"

section \<open>Round trip\<close>

lemma of_char_digit:
  assumes "0 \<le> n" and "n < 10"
  shows "(of_char (digit n) :: int) = 48 + n" "isDigit (digit n)"
proof -
  have "n = 0 \<or> n = 1 \<or> n = 2 \<or> n = 3 \<or> n = 4 \<or> n = 5 \<or> n = 6 \<or> n = 7 \<or> n = 8 \<or> n = 9"
    using assms by presburger
  then show "(of_char (digit n) :: int) = 48 + n" "isDigit (digit n)"
    by (auto simp: digit_def isDigit_def)
qed

lemma parseUint_pad2:
  assumes "0 \<le> n" and "n < 100" and "lo \<le> n" and "n \<le> hi"
  shows "parseUint (pad2 n) lo hi = Some n"
proof -
  have "0 \<le> n div 10" "n div 10 < 10" "0 \<le> n mod 10" "n mod 10 < 10" using assms by auto
  then show ?thesis
    using assms by (simp add: parseUint_def pad2_def of_char_digit Let_def)
qed

lemma parse_digits4:
  assumes "0 \<le> a" "a < 10" "0 \<le> b" "b < 10" "0 \<le> c" "c < 10" "0 \<le> d" "d < 10"
  shows "parseUint [digit a, digit b, digit c, digit d] 0 9999
    = Some (10 * (10 * (10 * a + b) + c) + d)"
  using assms by (simp add: parseUint_def of_char_digit Let_def)

lemma parseUint_pad4:
  assumes "0 \<le> n" and "n \<le> 9999"
  shows "parseUint (formatYear n) 0 9999 = Some n"
proof -
  define a where "a = n div 100"
  define b where "b = n mod 100"
  have ab: "0 \<le> a" "a < 100" "0 \<le> b" "b < 100" "n = 100 * a + b"
    using assms by (simp_all add: a_def b_def)
  have r: "0 \<le> x div 10 \<and> x div 10 < 10 \<and> 0 \<le> x mod 10 \<and> x mod 10 < 10"
    if "0 \<le> x" "x < 100" for x :: int using that by auto
  have "formatYear n = pad2 a @ pad2 b"
    using assms by (simp add: formatYear_def pad4_def a_def b_def)
  also have "parseUint (pad2 a @ pad2 b) 0 9999
      = Some (10 * (10 * (10 * (a div 10) + a mod 10) + b div 10) + b mod 10)"
    using r [of a] r [of b] ab by (simp add: pad2_def parse_digits4)
  also have "10 * (10 * (10 * (a div 10) + a mod 10) + b div 10) + b mod 10 = n"
    using mult_div_mod_eq [of 10 a] mult_div_mod_eq [of 10 b] ab(5) by (simp add: algebra_simps)
  finally show ?thesis .
qed

lemma length_pad2 [simp]: "length (pad2 n) = 2"
  by (simp add: pad2_def)

lemma length_formatYear: "0 \<le> y \<Longrightarrow> y \<le> 9999 \<Longrightarrow> length (formatYear y) = 4"
  by (simp add: formatYear_def pad4_def)

text \<open>The layout of a formatted instant, field by field.\<close>

lemma parse_layout:
  assumes "length y = 4" "length m = 2" "length d = 2" "length hh = 2" "length mm = 2" "length ss = 2"
  shows "parseRFC3339 (y @ ''-'' @ m @ ''-'' @ d @ ''T'' @ hh @ '':'' @ mm @ '':'' @ ss @ ''Z'')
    = (case (parseUint y 0 9999, parseUint m 1 12, parseUint hh 0 23, parseUint mm 0 59,
             parseUint ss 0 59) of
        (Some y', Some m', Some h', Some mi', Some s') \<Rightarrow>
          (case parseUint d 1 (monthLengths y' ! nat (m' - 1)) of None \<Rightarrow> None
           | Some d' \<Rightarrow> Some (((dateToDays y' (nat (m' - 1)) (d' - 1) - epochDays) * 86400
               + h' * 3600 + mi' * 60 + s') * second))
      | _ \<Rightarrow> None)"
proof -
  obtain y0 y1 y2 y3 where y: "y = [y0, y1, y2, y3]"
    using assms(1) by (auto simp: numeral_eq_Suc length_Suc_conv)
  have two: "\<exists>a b. x = [a, b]" if "length x = 2" for x :: string
    using that by (auto simp: numeral_eq_Suc length_Suc_conv)
  obtain m0 m1 d0 d1 where md: "m = [m0, m1]" "d = [d0, d1]"
    using two assms by metis
  obtain h0 h1 i0 i1 s0 s1 where t: "hh = [h0, h1]" "mm = [i0, i1]" "ss = [s0, s1]"
    using two assms by metis
  have tail: "parseFraction ''Z'' = (0, ''Z'')" "parseZone ''Z'' = Some 0"
    by (simp_all add: parseFraction_def parseZone_def)
  show ?thesis
    unfolding y md t by (simp add: parseRFC3339_def slice_def tail cong: option.case_cong)
qed

theorem parse_format:
  assumes whole: "t mod second = 0"
    and years: "0 \<le> yearOf (t div second div 86400 + epochDays)"
      "yearOf (t div second div 86400 + epochDays) \<le> 9999"
  shows "parseRFC3339 (formatRFC3339 t) = Some t"
proof -
  define s where "s = t div second"
  define days where "days = s div 86400 + epochDays"
  define sod where "sod = s mod 86400"
  define y where "y = yearOf days"
  obtain k r where kr: "monthOf (monthLengths y) (days - daysBefore y) = (k, r)" by fastforce
  have b: "daysBefore y \<le> days" "days < daysBefore y + sum_list (monthLengths y)"
    using yearOf_bounds [of days] daysBefore_Suc [of y] by (simp_all add: y_def)
  have m: "k < 12" "0 \<le> r" "r < monthLengths y ! k"
    "sum_list (take k (monthLengths y)) + r = days - daysBefore y"
    using monthOf_sound [of "days - daysBefore y" "monthLengths y"] b kr
    by (simp_all add: monthLengths_def)
  have "\<forall>l\<in>set (monthLengths y). l \<le> 31" "length (monthLengths y) = 12"
    by (simp_all add: monthLengths_def)
  then have "monthLengths y ! k \<le> 31" using m(1) nth_mem by metis
  then have r31: "r < 31" using m(3) by linarith
  have sod: "0 \<le> sod" "sod < 86400" by (simp_all add: sod_def)
  have fmt: "formatRFC3339 t = formatYear y @ ''-'' @ pad2 (int k + 1) @ ''-'' @ pad2 (r + 1) @ ''T''
      @ pad2 (sod div 3600) @ '':'' @ pad2 (sod mod 3600 div 60) @ '':'' @ pad2 (sod mod 60) @ ''Z''"
    by (simp add: formatRFC3339_def Let_def kr flip: s_def days_def sod_def y_def)
  have yy: "0 \<le> y" "y \<le> 9999" using years by (simp_all add: y_def days_def s_def)
  have f1: "parseUint (pad2 (int k + 1)) 1 12 = Some (int k + 1)"
    using m(1) by (intro parseUint_pad2) auto
  have f2: "parseUint (pad2 (r + 1)) 1 (monthLengths y ! k) = Some (r + 1)"
    using m r31 by (intro parseUint_pad2) auto
  have f3: "parseUint (pad2 (sod div 3600)) 0 23 = Some (sod div 3600)"
    using sod by (intro parseUint_pad2) auto
  have f4: "parseUint (pad2 (sod mod 3600 div 60)) 0 59 = Some (sod mod 3600 div 60)"
  proof (intro parseUint_pad2)
    have "0 \<le> sod mod 3600" "sod mod 3600 < 3600" by simp_all
    then show "0 \<le> sod mod 3600 div 60" "sod mod 3600 div 60 < 100"
      "0 \<le> sod mod 3600 div 60" "sod mod 3600 div 60 \<le> 59" by auto
  qed
  have f5: "parseUint (pad2 (sod mod 60)) 0 59 = Some (sod mod 60)"
  proof (intro parseUint_pad2)
    have "0 \<le> sod mod 60" "sod mod 60 < 60" by simp_all
    then show "0 \<le> sod mod 60" "sod mod 60 < 100" "0 \<le> sod mod 60" "sod mod 60 \<le> 59" by auto
  qed
  have "parseRFC3339 (formatRFC3339 t)
      = Some (((dateToDays y k r - epochDays) * 86400 + sod div 3600 * 3600
          + sod mod 3600 div 60 * 60 + sod mod 60) * second)"
    unfolding fmt
    by (subst parse_layout) (simp_all add: length_formatYear yy parseUint_pad4 f1 f2 f3 f4 f5)
  also have "dateToDays y k r = days" using m(4) by (simp add: dateToDays_def)
  also have "(days - epochDays) * 86400 + sod div 3600 * 3600 + sod mod 3600 div 60 * 60 + sod mod 60 = s"
  proof -
    have "sod div 3600 * 3600 + sod mod 3600 = sod" by simp
    moreover have "sod mod 3600 div 60 * 60 + sod mod 3600 mod 60 = sod mod 3600" by simp
    moreover have "sod mod 3600 mod 60 = sod mod 60" by (rule mod_mod_cancel) simp
    ultimately have "sod div 3600 * 3600 + sod mod 3600 div 60 * 60 + sod mod 60 = sod" by linarith
    moreover have "(days - epochDays) * 86400 + sod = s" by (simp add: days_def sod_def)
    ultimately show ?thesis by linarith
  qed
  also have "s * second = t" using whole div_mult_mod_eq [of t second] by (simp add: s_def)
  finally show ?thesis .
qed

end
