(* ===== verification/Ttl.thy ===== *)
theory Ttl
imports Resolver Rfc3339 "HOL-Library.Word"
begin

unbundle bit_operations_syntax

text \<open>
  Lifetimes: how a template, the configuration and a claim determine the number of seconds an
  environment lives (\<^verbatim>\<open>resolveInstanceTTL\<close>, \<^verbatim>\<open>maxLifetime\<close>,
  \<^verbatim>\<open>resolveClaimTTL\<close>), the anchor they count from, which is written on the instance
  in the same update that binds it (\<^verbatim>\<open>stampBoundAt\<close>, \<^verbatim>\<open>boundAtOf\<close>), and
  the deadline (\<^verbatim>\<open>expiryFrom\<close>, \<^verbatim>\<open>isExpired\<close>). Also the two small helpers beside
  them: how long an instance has been failed, and the hash that spreads claims over warm instances.
\<close>

section \<open>Seconds granted\<close>

definition resolveInstanceTTL :: "DployTemplate \<Rightarrow> Effective \<Rightarrow> int" where
  "resolveInstanceTTL tmpl eff =
     (case tTTL (tSpec tmpl) of
        Some t \<Rightarrow> if ttlSeconds t \<noteq> 0 then ttlSeconds t else eTTLSeconds eff
      | None \<Rightarrow> eTTLSeconds eff)"

text \<open>The extend budget of a template, which \<open>maxLifetime\<close> computes inline.\<close>

definition extendBudget :: "DployTemplate \<Rightarrow> Effective \<Rightarrow> int \<times> int" where
  "extendBudget tmpl eff =
     (case tTTL (tSpec tmpl) of
        None \<Rightarrow> (eMaxExtends eff, eExtendSeconds eff)
      | Some t \<Rightarrow> (if ttlMaxExtends t \<noteq> 0 then ttlMaxExtends t else eMaxExtends eff,
                   if ttlExtendSeconds t > 0 then ttlExtendSeconds t else eExtendSeconds eff))"

definition maxLifetime :: "int \<Rightarrow> DployTemplate \<Rightarrow> Effective \<Rightarrow> int" where
  "maxLifetime base tmpl eff =
     (if base = -1 then -1
      else (let (maxExtends, extend) = extendBudget tmpl eff in
            if maxExtends \<le> 0 then -1 else wrap64 (base + maxExtends * extend)))"

definition resolveClaimTTL :: "DployInstanceClaim \<Rightarrow> DployTemplate \<Rightarrow> Effective \<Rightarrow> int \<times> int" where
  "resolveClaimTTL claim tmpl eff =
     (let base = resolveInstanceTTL tmpl eff;
          maxTTL = maxLifetime base tmpl eff;
          want = cTTLSeconds (cSpec claim);
          ttl = (if want = 0 then base else if want < 0 then -1 else want);
          ttl1 = (if ttl = -1 \<and> maxTTL \<noteq> -1 then maxTTL else ttl);
          ttl2 = (if maxTTL > 0 \<and> ttl1 > maxTTL then maxTTL else ttl1) in
      (ttl2, maxTTL))"

section \<open>The anchor and the deadline\<close>

definition stampBoundAt :: "DployInstance \<Rightarrow> Time \<Rightarrow> DployInstance" where
  "stampBoundAt inst boundAt =
     (if get (Annotations (iMeta inst)) AnnotationBoundAt = []
      then iMeta_update (\<lambda>m. m\<lparr>Annotations := (Annotations m)(AnnotationBoundAt \<mapsto> formatRFC3339 boundAt)\<rparr>) inst
      else inst)"

text \<open>The anchor read back from the annotation, when it is there and parses.\<close>

definition stampedAt :: "DployInstance \<Rightarrow> Time option" where
  "stampedAt inst =
     (let raw = get (Annotations (iMeta inst)) AnnotationBoundAt in
      if raw \<noteq> [] then parseRFC3339 raw else None)"

definition boundAtOf :: "api \<Rightarrow> DployInstance \<Rightarrow> Time io" where
  "boundAtOf A inst =
     (case stampedAt inst of
        Some t \<Rightarrow> give t
      | None \<Rightarrow>
          if \<not> isZeroTime (CreationTimestamp (iMeta inst)) \<and> \<not> iPooled (iSpec inst)
          then give (CreationTimestamp (iMeta inst))
          else timeNow A)"

definition expiryFrom :: "Time \<Rightarrow> int \<Rightarrow> Time option" where
  "expiryFrom boundAt ttl = (if ttl \<le> 0 then None else Some (boundAt + seconds ttl))"

definition isExpired :: "DployInstanceClaim \<Rightarrow> Time \<Rightarrow> bool" where
  "isExpired claim now =
     (case cExpiresAt (cStatus claim) of None \<Rightarrow> False | Some e \<Rightarrow> \<not> now < e)"

section \<open>Failure time and hash\<close>

text \<open>The code gives a missing instance 0 as well.\<close>

definition failedFor :: "api \<Rightarrow> DployInstance option \<Rightarrow> Duration io" where
  "failedFor A inst =
     (case inst of
        None \<Rightarrow> give 0
      | Some i \<Rightarrow>
         if iPhase (iStatus i) \<noteq> PhaseFailed then give 0
         else (case findCond A (iConditions (iStatus i)) ConditionReady of
            None \<Rightarrow> give 0
          | Some c \<Rightarrow>
             if isZeroTime (condLastTransitionTime c) then give 0
             else do { now \<leftarrow> timeNow A; give (timeSub now (condLastTransitionTime c)) }))"

definition fnv32a :: "string \<Rightarrow> 32 word" where
  "fnv32a s = foldl (\<lambda>h c. (h XOR of_char c) * 16777619) 2166136261 s"

definition hashIndex :: "string \<Rightarrow> int \<Rightarrow> int" where
  "hashIndex uid n = (if n \<le> 0 then 0 else uint (drop_bit 1 (fnv32a uid)) mod n)"

lemma fnv32a_examples: "fnv32a '''' = 2166136261" "fnv32a ''a'' = 0xe40c292c" "fnv32a ''foobar'' = 0xbf9cf968"
  by code_simp+

section \<open>Facts\<close>

lemma emits_boundAtOf [emits_rules]: "(\<And>h r. P h (ENow r)) \<Longrightarrow> emits P (boundAtOf A inst)"
  unfolding boundAtOf_def by (auto intro!: emits_rules split: option.split)

lemma emits_failedFor [emits_rules]: "(\<And>h r. P h (ENow r)) \<Longrightarrow> emits P (failedFor A inst)"
  unfolding failedFor_def by (auto intro!: emits_rules split: option.split)

lemma hashIndex_range: "0 < n \<Longrightarrow> 0 \<le> hashIndex uid n \<and> hashIndex uid n < n"
  by (simp add: hashIndex_def)

lemma expiryFrom_anchor: "expiryFrom b ttl = Some e \<Longrightarrow> 0 < ttl \<and> e = b + seconds ttl"
  by (auto simp: expiryFrom_def split: if_splits)

lemma stampBoundAt_simps [simp]:
  "iSpec (stampBoundAt i t) = iSpec i" "iStatus (stampBoundAt i t) = iStatus i"
  "Labels (iMeta (stampBoundAt i t)) = Labels (iMeta i)"
  "Name (iMeta (stampBoundAt i t)) = Name (iMeta i)"
  "Namespace (iMeta (stampBoundAt i t)) = Namespace (iMeta i)"
  "UID (iMeta (stampBoundAt i t)) = UID (iMeta i)"
  "ResourceVersion (iMeta (stampBoundAt i t)) = ResourceVersion (iMeta i)"
  "OwnerReferences (iMeta (stampBoundAt i t)) = OwnerReferences (iMeta i)"
  "CreationTimestamp (iMeta (stampBoundAt i t)) = CreationTimestamp (iMeta i)"
  "DeletionTimestamp (iMeta (stampBoundAt i t)) = DeletionTimestamp (iMeta i)"
  by (simp_all add: stampBoundAt_def)

lemma formatRFC3339_ne [simp]: "formatRFC3339 t \<noteq> []"
  by (simp add: formatRFC3339_def Let_def split: prod.split)

lemma stampBoundAt_again:
  "stampBoundAt (stampBoundAt i t) t' = stampBoundAt i t"
  by (simp add: stampBoundAt_def)

text \<open>The years the RFC 3339 text can write.\<close>

definition fourDigitYear :: "Time \<Rightarrow> bool" where
  "fourDigitYear t \<longleftrightarrow> (let y = yearOf (t div second div 86400 + epochDays) in 0 \<le> y \<and> y \<le> 9999)"

lemma format_truncated: "formatRFC3339 (truncateSecond t) = formatRFC3339 t"
  by (simp add: formatRFC3339_def truncateSecond_def second_def)

lemma parse_stamp:
  assumes "fourDigitYear t"
  shows "parseRFC3339 (formatRFC3339 t) = Some (truncateSecond t)"
proof -
  have d: "truncateSecond t div second = t div second" "truncateSecond t mod second = 0"
    by (simp_all add: truncateSecond_def second_def)
  have "parseRFC3339 (formatRFC3339 (truncateSecond t)) = Some (truncateSecond t)"
    using assms by (intro parse_format) (simp_all add: d fourDigitYear_def Let_def)
  then show ?thesis by (simp add: format_truncated)
qed

lemma truncateSecond_bounds: "truncateSecond t \<le> t \<and> t < truncateSecond t + second"
proof -
  have "t = t div second * second + t mod second" by simp
  moreover have "0 \<le> t mod second" "t mod second < second" by (simp_all add: second_def)
  ultimately show ?thesis unfolding truncateSecond_def by linarith
qed

lemma granted_in_budget:
  assumes "base = resolveInstanceTTL tmpl eff" and "0 < base"
    and "extendBudget tmpl eff = (n, ext)" and "0 < n" and "0 < ext" and "base + n * ext \<le> max64"
    and "ceiling = base + n * ext"
  shows "resolveClaimTTL claim tmpl eff
      = (if cTTLSeconds (cSpec claim) = 0 then base else if cTTLSeconds (cSpec claim) < 0 then ceiling
         else min (cTTLSeconds (cSpec claim)) ceiling, ceiling)
    \<and> base < ceiling"
proof -
  have pos: "0 < n * ext" using assms by simp
  then have lt: "base < ceiling" "0 < ceiling" using assms(2,7) by linarith+
  have "maxLifetime base tmpl eff = ceiling"
    using assms lt(2) wrap64_id [of ceiling] by (simp add: maxLifetime_def min64_def)
  then show ?thesis using lt assms(1,2) by (auto simp: resolveClaimTTL_def Let_def)
qed

section \<open>Properties\<close>

text \<open>C34. The binding anchor is durable. Stamping an instance that carries no anchor and reading it
  back gives the binding time cut to the second, so never later than the binding; stamping again at
  any other time changes nothing, so no later reconcile restarts the clock; and the read needs no
  clock at all.\<close>

theorem bound_anchor_durable:
  assumes "get (Annotations (iMeta inst)) AnnotationBoundAt = []" and "fourDigitYear t"
  shows "stampedAt (stampBoundAt inst t) = Some (truncateSecond t)
    \<and> truncateSecond t \<le> t \<and> t < truncateSecond t + second
    \<and> stampBoundAt (stampBoundAt inst t) t' = stampBoundAt inst t
    \<and> boundAtOf A (stampBoundAt inst t) = give (truncateSecond t)"
proof -
  have "get (Annotations (iMeta (stampBoundAt inst t))) AnnotationBoundAt = formatRFC3339 t"
    using assms(1) by (simp add: stampBoundAt_def)
  then have s: "stampedAt (stampBoundAt inst t) = Some (truncateSecond t)"
    using assms(2) by (simp add: stampedAt_def Let_def parse_stamp)
  then show ?thesis
    by (simp add: boundAtOf_def stampBoundAt_again truncateSecond_bounds)
qed

theorem bound_anchor_durable_witness:
  "stampedAt (stampBoundAt emptyInstance (1700000000 * second + 5)) = Some (1700000000 * second)"
proof -
  have "fourDigitYear (1700000000 * second + 5)" by code_simp
  then have "stampedAt (stampBoundAt emptyInstance (1700000000 * second + 5))
      = Some (truncateSecond (1700000000 * second + 5))"
    using bound_anchor_durable [of emptyInstance "1700000000 * second + 5" 0 A]
    by (simp add: emptyInstance_def emptyMeta_def)
  then show ?thesis by (simp add: truncateSecond_def second_def)
qed

text \<open>C35. The lifetime granted to a claim of a template with a finite lifetime and a finite extend
  budget: never more than the base plus the whole budget and never unlimited, whatever the claim
  asks for; the base where it asks for nothing, what it asks for up to the ceiling, and the ceiling
  where it asks for more or for no limit.\<close>

theorem granted_lifetime:
  assumes "base = resolveInstanceTTL tmpl eff" and "0 < base"
    and "extendBudget tmpl eff = (n, ext)" and "0 < n" and "0 < ext" and "base + n * ext \<le> max64"
    and "ceiling = base + n * ext" and "want = cTTLSeconds (cSpec claim)"
  shows "resolveClaimTTL claim tmpl eff
      = (if want = 0 then base else if want < 0 then ceiling else min want ceiling, ceiling)
    \<and> 0 < fst (resolveClaimTTL claim tmpl eff) \<and> fst (resolveClaimTTL claim tmpl eff) \<le> ceiling"
proof -
  show ?thesis
    using granted_in_budget [OF assms(1,2,3,4,5,6,7), of claim] assms(2)
    unfolding assms(8) by (auto simp: min_def)
qed

definition sampleTemplate :: "DployTemplate" where
  "sampleTemplate = tSpec_update (\<lambda>s. s\<lparr>tEnabled := True,
     tTTL := Some \<lparr>ttlSeconds = 3600, ttlExtendSeconds = 600, ttlMaxExtends = 2\<rparr>\<rparr>) emptyTemplate"

definition sampleClaim :: "int \<Rightarrow> DployInstanceClaim" where
  "sampleClaim want = \<lparr>cMeta = emptyMeta, cSpec = \<lparr>cTemplateRef = ''term'', cOwner = ''alice'',
     cParams = Map.empty, cTTLSeconds = want, cWaitForPool = False\<rparr>, cStatus = emptyClaimStatus\<rparr>"

theorem granted_lifetime_witness:
  "resolveClaimTTL (sampleClaim (-1)) sampleTemplate fallbacks = (4800, 4800)"
proof -
  have h: "resolveInstanceTTL sampleTemplate fallbacks = 3600"
    "extendBudget sampleTemplate fallbacks = (2, 600)" "cTTLSeconds (cSpec (sampleClaim (-1))) = -1"
    by code_simp+
  have "resolveClaimTTL (sampleClaim (-1)) sampleTemplate fallbacks
      = (if (-1 :: int) = 0 then 3600 else if (-1 :: int) < 0 then 4800 else min (-1) 4800, 4800)
    \<and> 0 < fst (resolveClaimTTL (sampleClaim (-1)) sampleTemplate fallbacks)
    \<and> fst (resolveClaimTTL (sampleClaim (-1)) sampleTemplate fallbacks) \<le> 4800"
    by (rule granted_lifetime [of 3600 _ _ 2 600]) (simp_all add: h max64_def)
  then show ?thesis by simp
qed

text \<open>The ceiling follows the extend budget and not the template's own lifetime: with a finite
  base and an explicitly unlimited budget (\<open>-1\<close>) a claim that asks for no limit gets none and its
  deadline is unset, although the template is not unlimited.\<close>

theorem unlimited_through_budget:
  assumes "0 < resolveInstanceTTL tmpl eff" and "fst (extendBudget tmpl eff) = -1"
    and "cTTLSeconds (cSpec claim) < 0"
  shows "resolveClaimTTL claim tmpl eff = (-1, -1) \<and> expiryFrom b (fst (resolveClaimTTL claim tmpl eff)) = None"
  using assms by (auto simp: resolveClaimTTL_def Let_def maxLifetime_def expiryFrom_def split: prod.split)

theorem unlimited_through_budget_witness:
  "expiryFrom 0 (fst (resolveClaimTTL (sampleClaim (-1)) sampleTemplate
     (fallbacks\<lparr>eMaxExtends := -1\<rparr>))) = Some (4800 * second)
   \<and> expiryFrom 0 (fst (resolveClaimTTL (sampleClaim (-1)) emptyTemplate
     (fallbacks\<lparr>eMaxExtends := -1\<rparr>))) = None"
proof -
  let ?eff = "fallbacks\<lparr>eMaxExtends := -1\<rparr>"
  have "0 < resolveInstanceTTL emptyTemplate ?eff" "fst (extendBudget emptyTemplate ?eff) = -1"
    "cTTLSeconds (cSpec (sampleClaim (-1))) < 0"
    by code_simp+
  then have "expiryFrom 0 (fst (resolveClaimTTL (sampleClaim (-1)) emptyTemplate ?eff)) = None"
    using unlimited_through_budget [of emptyTemplate ?eff "sampleClaim (-1)" 0] by blast
  moreover have "expiryFrom 0 (fst (resolveClaimTTL (sampleClaim (-1)) sampleTemplate ?eff))
      = Some (4800 * second)"
    by code_simp
  ultimately show ?thesis by blast
qed

text \<open>C36. A deadline is the anchor plus the granted seconds as long as they fit a duration; one
  second more wraps around, and an environment granted more than 9223372036 seconds has a deadline
  before its own start.\<close>

lemma seconds_wraps: "seconds 9223372037 = - 9223372036709551616"
  by code_simp

theorem deadline_overflow:
  assumes "0 < ttl" and "ttl \<le> 9223372036"
  shows "expiryFrom b ttl = Some (b + ttl * second)
    \<and> expiryFrom b 9223372037 = Some (b - 9223372036709551616)"
proof
  show "expiryFrom b ttl = Some (b + ttl * second)"
    using assms by (simp add: expiryFrom_def seconds_exact)
  show "expiryFrom b 9223372037 = Some (b - 9223372036709551616)"
    by (simp add: expiryFrom_def seconds_wraps)
qed

theorem deadline_overflow_witness:
  "expiryFrom 0 86400 = Some (86400 * second) \<and> expiryFrom 0 9223372037 = Some (- 9223372036709551616)"
  using deadline_overflow [of 86400 0] by simp

end
