(* ===== verification/Ordering.thy ===== *)
theory Ordering
imports Prelude "HOL-Library.Multiset"
begin

text \<open>
  \<^verbatim>\<open>sort.Slice(xs, less)\<close> and the one fact the controllers build on it: where \<open>less\<close> is
  a strict order that decides every two different keys, the sorted slice does not depend on the
  algorithm, on the input order or on who computes it, so every claim that ranks the same
  instances agrees on who keeps a slot. The order is the interface \<open>slice_order\<close>; each
  comparison function of the code is one interpretation of it.
\<close>

fun insertBy :: "('a \<Rightarrow> 'a \<Rightarrow> bool) \<Rightarrow> 'a \<Rightarrow> 'a list \<Rightarrow> 'a list" where
  "insertBy lt x [] = [x]"
| "insertBy lt x (y # ys) = (if lt y x then y # insertBy lt x ys else x # y # ys)"

fun sortSlice :: "('a \<Rightarrow> 'a \<Rightarrow> bool) \<Rightarrow> 'a list \<Rightarrow> 'a list" where
  "sortSlice lt [] = []"
| "sortSlice lt (x # xs) = insertBy lt x (sortSlice lt xs)"

lemma mset_insertBy [simp]: "mset (insertBy lt x ys) = add_mset x (mset ys)"
  by (induction ys) auto

lemma mset_sortSlice [simp]: "mset (sortSlice lt xs) = mset xs"
  by (induction xs) auto

lemma set_insertBy [simp]: "set (insertBy lt x ys) = insert x (set ys)"
  by (induction ys) auto

lemma set_sortSlice [simp]: "set (sortSlice lt xs) = set xs"
  by (induction xs) auto

lemma length_sortSlice [simp]: "length (sortSlice lt xs) = length xs"
  using mset_sortSlice [of lt xs] by (metis size_mset)

lemma distinct_sortSlice [simp]: "distinct (map key (sortSlice lt xs)) = distinct (map key xs)"
  using mset_sortSlice [of lt xs] by (metis mset_eq_imp_distinct_iff mset_map)

text \<open>The index of the first element that satisfies a test: the rank loops of the code.\<close>

fun indexOf :: "('a \<Rightarrow> bool) \<Rightarrow> 'a list \<Rightarrow> nat option" where
  "indexOf p [] = None"
| "indexOf p (x # xs) = (if p x then Some 0 else map_option Suc (indexOf p xs))"

lemma indexOf_None_iff: "indexOf p xs = None \<longleftrightarrow> (\<forall>x\<in>set xs. \<not> p x)"
  by (induction xs) auto

lemma indexOf_Some:
  "indexOf p xs = Some i \<Longrightarrow> i < length xs \<and> p (xs ! i) \<and> (\<forall>j<i. \<not> p (xs ! j))"
proof (induction xs arbitrary: i)
  case Nil
  then show ?case by simp
next
  case (Cons x xs)
  show ?case
  proof (cases "p x")
    case True
    with Cons.prems show ?thesis by simp
  next
    case False
    with Cons.prems obtain k where "indexOf p xs = Some k" "i = Suc k" by auto
    with Cons.IH [of k] False show ?thesis by (auto simp: less_Suc_eq_0_disj)
  qed
qed

locale slice_order =
  fixes lt :: "'a \<Rightarrow> 'a \<Rightarrow> bool"
    and key :: "'a \<Rightarrow> 'k"
  assumes asym: "lt x y \<Longrightarrow> \<not> lt y x"
    and trans: "lt x y \<Longrightarrow> lt y z \<Longrightarrow> lt x z"
    and decides: "key x \<noteq> key y \<Longrightarrow> lt x y \<or> lt y x"
begin

lemma irrefl: "\<not> lt x x"
  using asym by blast

lemma sorted_insertBy:
  assumes "sorted_wrt lt ys" and "key x \<notin> key ` set ys"
  shows "sorted_wrt lt (insertBy lt x ys)"
  using assms
proof (induction ys)
  case Nil
  then show ?case by simp
next
  case (Cons y ys)
  show ?case
  proof (cases "lt y x")
    case True
    with Cons show ?thesis by auto
  next
    case False
    with Cons.prems decides [of x y] have "lt x y" by auto
    with Cons.prems False show ?thesis by (auto dest: trans)
  qed
qed

lemma sorted_sortSlice:
  "distinct (map key xs) \<Longrightarrow> sorted_wrt lt (sortSlice lt xs)"
  by (induction xs) (auto intro!: sorted_insertBy)

lemma sorted_unique:
  assumes "sorted_wrt lt xs" and "sorted_wrt lt ys" and "mset xs = mset ys"
  shows "xs = ys"
  using assms
proof (induction xs arbitrary: ys)
  case Nil
  then show ?case by simp
next
  case (Cons x xs)
  then obtain y ys' where ys: "ys = y # ys'" by (cases ys) auto
  have "x = y"
  proof (rule ccontr)
    assume "x \<noteq> y"
    from Cons.prems(3) ys have "set (x # xs) = set (y # ys')"
      by (metis set_mset_mset)
    with \<open>x \<noteq> y\<close> have "y \<in> set xs" "x \<in> set ys'" by auto
    with Cons.prems ys have "lt x y" "lt y x" by auto
    then show False using asym by blast
  qed
  with Cons ys show ?case by simp
qed

text \<open>The sorted slice is determined by the elements alone.\<close>

lemma sortSlice_unique:
  assumes "distinct (map key xs)" and "sorted_wrt lt ys" and "mset ys = mset xs"
  shows "ys = sortSlice lt xs"
  using assms by (intro sorted_unique sorted_sortSlice) simp_all

lemma sortSlice_cong:
  assumes "distinct (map key xs)" and "mset ys = mset xs"
  shows "sortSlice lt ys = sortSlice lt xs"
proof -
  have "distinct (map key ys)"
    using assms by (metis mset_eq_imp_distinct_iff mset_map)
  then show ?thesis
    using assms by (intro sortSlice_unique sorted_sortSlice) simp_all
qed

lemma sorted_index_less:
  assumes "sorted_wrt lt xs" and "i < j" and "j < length xs"
  shows "lt (xs ! i) (xs ! j)"
  using assms by (simp add: sorted_wrt_nth_less)

text \<open>The rank of an element is the number of elements that come before it.\<close>

lemma rank_eq_card:
  assumes "sorted_wrt lt xs" and "i < length xs"
  shows "length (filter (\<lambda>y. lt y (xs ! i)) xs) = i"
proof -
  have pre: "filter (\<lambda>y. lt y (xs ! i)) (take i xs) = take i xs"
    using assms by (intro filter_True) (auto simp: in_set_conv_nth sorted_index_less)
  have post: "filter (\<lambda>y. lt y (xs ! i)) (drop i xs) = []"
  proof (intro filter_False ballI)
    fix y assume "y \<in> set (drop i xs)"
    then obtain k where k: "i + k < length xs" "y = xs ! (i + k)"
      by (auto simp: in_set_conv_nth) (metis add.commute less_diff_conv)
    show "\<not> lt y (xs ! i)"
    proof (cases k)
      case 0
      with k show ?thesis by (simp add: irrefl)
    next
      case (Suc m)
      with k assms(1) have "lt (xs ! i) y" by (simp add: sorted_index_less)
      then show ?thesis by (rule asym)
    qed
  qed
  have "filter (\<lambda>y. lt y (xs ! i)) xs
      = filter (\<lambda>y. lt y (xs ! i)) (take i xs) @ filter (\<lambda>y. lt y (xs ! i)) (drop i xs)"
    by (metis append_take_drop_id filter_append)
  with pre post assms(2) show ?thesis by simp
qed

end

end
