(* ===== verification/ClaimOps.thy ===== *)
theory ClaimOps
imports Ttl Ordering
begin

text \<open>
  The operations of \<^verbatim>\<open>DployInstanceClaimReconciler\<close>
  (\<^verbatim>\<open>internal/controller/dployinstanceclaim_controller.go\<close>): finding, winning, creating and
  synchronising the instance of a claim, the three ways a claim leaves the bound state
  (\<^verbatim>\<open>pending\<close>, \<^verbatim>\<open>reject\<close>, \<^verbatim>\<open>expire\<close>), and the quota and
  capacity rules. The reconcile loop that composes them is in \<open>ClaimCtrl\<close>. Every operation takes
  the \<open>api\<close> and, where the code reads uncached, the optional API reader of the reconciler.
\<close>

section \<open>Constants and the reader\<close>

definition claimPoolWaitRequeue :: Duration where "claimPoolWaitRequeue = 10 * second"
definition claimBindRetries :: nat where "claimBindRetries = 8"
definition quotaSettleWindow :: Duration where "quotaSettleWindow = 60 * second"
definition instanceFailureGrace :: Duration where "instanceFailureGrace = 180 * second"
definition quotaSettleRequeue :: Duration where "quotaSettleRequeue = 3 * second"

definition reader_of :: "reader option \<Rightarrow> reader" where
  "reader_of R = (case R of Some r \<Rightarrow> r | None \<Rightarrow> ClientCache)"

section \<open>Labels\<close>

definition claimWant :: "DployInstanceClaim \<Rightarrow> (string \<times> string) list" where
  "claimWant claim =
     [(LabelManaged, ''true''), (LabelTemplate, cTemplateRef (cSpec claim))]
     @ (if sanitize (cOwner (cSpec claim)) \<noteq> [] then [(LabelOwner, sanitize (cOwner (cSpec claim)))]
        else [])"

definition ensureMeta :: "DployInstanceClaim \<Rightarrow> bool \<times> DployInstanceClaim" where
  "ensureMeta claim =
     (let (changed, l) = stampLabels (claimWant claim) (Labels (cMeta claim)) in
      (changed, cMeta_update (\<lambda>m. m\<lparr>Labels := l\<rparr>) claim))"

section \<open>Finding the bound instance\<close>

definition live :: "DployInstance \<Rightarrow> bool" where
  "live inst \<longleftrightarrow> isZeroPtr (DeletionTimestamp (iMeta inst))"

definition lookupBound ::
  "api \<Rightarrow> reader \<Rightarrow> DployInstanceClaim \<Rightarrow> (error + DployInstance option) io" where
  "lookupBound A rd claim = do {
     r \<leftarrow> listInstances A rd (Namespace (cMeta claim)) [(LabelClaimUID, UID (cMeta claim))];
     case r of
       Inl e \<Rightarrow> throw (wrapErr ''list bound instances'' e)
     | Inr items \<Rightarrow> ok (find live items) }"

definition boundInstance ::
  "api \<Rightarrow> reader option \<Rightarrow> DployInstanceClaim \<Rightarrow> (error + DployInstance option) io" where
  "boundInstance A R claim =
     tryE (lookupBound A ClientCache claim) (\<lambda>inst.
       if inst \<noteq> None then ok inst else lookupBound A (reader_of R) claim)"

section \<open>Binding\<close>

definition isClaimable :: "DployInstance \<Rightarrow> bool" where
  "isClaimable inst \<longleftrightarrow> live inst \<and> iOwner (iSpec inst) = []
     \<and> get (Labels (iMeta inst)) LabelClaimUID = [] \<and> iPhase (iStatus inst) = PhaseAvailable"

text \<open>What one attempt writes: the candidate with the claim's UID and name, and the anchor.\<close>

definition claimCandidate :: "DployInstanceClaim \<Rightarrow> Time \<Rightarrow> DployInstance \<Rightarrow> DployInstance" where
  "claimCandidate claim boundAt cand =
     stampBoundAt (iMeta_update (\<lambda>m. m\<lparr>Labels := (Labels m)
       (LabelClaimUID \<mapsto> UID (cMeta claim), LabelClaim \<mapsto> Name (cMeta claim))\<rparr>) cand) boundAt"

text \<open>The attempt loop: \<open>attempts\<close> candidates from index \<open>start + i\<close> on, cyclically.\<close>

fun tryCandidates ::
  "api \<Rightarrow> DployInstanceClaim \<Rightarrow> Time \<Rightarrow> DployInstance list \<Rightarrow> nat \<Rightarrow> nat
   \<Rightarrow> (error + DployInstance option) io" where
  "tryCandidates A claim boundAt candidates start 0 = ok None"
| "tryCandidates A claim boundAt candidates start (Suc attempts) = do {
     let cand = claimCandidate claim boundAt (candidates ! (start mod length candidates));
     r \<leftarrow> updateInstance A cand;
     case r of
       Inl e \<Rightarrow>
         if IsConflict e \<or> IsNotFound e
         then tryCandidates A claim boundAt candidates (Suc start) attempts
         else throw (wrapErr (''bind pool instance '' @ goQuote (Name (iMeta cand))) e)
     | Inr won \<Rightarrow> ok (Some won) }"

definition acquirePooled ::
  "api \<Rightarrow> DployInstanceClaim \<Rightarrow> DployTemplate \<Rightarrow> Time \<Rightarrow> (error + DployInstance option) io" where
  "acquirePooled A claim tmpl boundAt = do {
     r \<leftarrow> listInstances A ClientCache (Namespace (cMeta claim))
       [(LabelTemplate, Name (tMeta tmpl)), (LabelPooled, ''true'')];
     case r of
       Inl e \<Rightarrow> throw (wrapErr ''list pool instances'' e)
     | Inr items \<Rightarrow> do {
         let candidates = filter isClaimable items;
         if candidates = [] then ok None
         else tryCandidates A claim boundAt candidates
                (nat (hashIndex (UID (cMeta claim)) (int (length candidates))))
                (min (length candidates) claimBindRetries) } }"

definition onDemandInstance ::
  "DployInstanceClaim \<Rightarrow> DployTemplate \<Rightarrow> Time \<Rightarrow> int \<Rightarrow> Time option \<Rightarrow> DployInstance" where
  "onDemandInstance claim tmpl boundAt ttl expiresAt =
     (stampBoundAt (emptyInstance\<lparr>iMeta := emptyMeta\<lparr>Namespace := Namespace (cMeta claim),
        GenerateName := truncateStr (sanitize (cOwner (cSpec claim)) @ ''-'' @ sanitize (Name (tMeta tmpl))) 200 @ ''-'',
        Labels := Map.empty(LabelManaged \<mapsto> ''true'', LabelTemplate \<mapsto> Name (tMeta tmpl),
          LabelOwner \<mapsto> sanitize (cOwner (cSpec claim)), LabelClaim \<mapsto> Name (cMeta claim),
          LabelClaimUID \<mapsto> UID (cMeta claim))\<rparr>\<rparr>) boundAt)
     \<lparr>iSpec := \<lparr>iTemplateRef = Name (tMeta tmpl), iOwner = cOwner (cSpec claim),
        iParams = cParams (cSpec claim), iPooled = False, iTTLSeconds = ttl,
        iSpecExpiresAt = expiresAt\<rparr>\<rparr>"

definition createOnDemand ::
  "api \<Rightarrow> DployInstanceClaim \<Rightarrow> DployTemplate \<Rightarrow> Time \<Rightarrow> int \<Rightarrow> Time option
   \<Rightarrow> (error + DployInstance) io" where
  "createOnDemand A claim tmpl boundAt ttl expiresAt =
     (let inst = onDemandInstance claim tmpl boundAt ttl expiresAt in
      case setControllerRef A (ownerRef ''DployInstanceClaim'' (cMeta claim)) (iMeta inst) of
        Inl e \<Rightarrow> throw (wrapErr ''set claim as owner'' e)
      | Inr meta \<Rightarrow> do {
          r \<leftarrow> createInstance A (inst\<lparr>iMeta := meta\<rparr>);
          case r of Inl e \<Rightarrow> throw (wrapErr ''create on-demand instance'' e)
            | Inr created \<Rightarrow> ok created })"

section \<open>Ranking instances\<close>

text \<open>The comparison both \<^verbatim>\<open>sort.Slice\<close> calls use: creation time, then name.\<close>

definition olderFirst :: "DployInstance \<Rightarrow> DployInstance \<Rightarrow> bool" where
  "olderFirst a b =
     (if CreationTimestamp (iMeta a) \<noteq> CreationTimestamp (iMeta b)
      then CreationTimestamp (iMeta a) < CreationTimestamp (iMeta b)
      else Name (iMeta a) < Name (iMeta b))"

definition ownerLimit :: "DployTemplate \<Rightarrow> Effective \<Rightarrow> int" where
  "ownerLimit tmpl eff =
     (case tMaxInstancesPerUser (tSpec tmpl) of
        Some n \<Rightarrow> if n > 0 then n else eMaxInstancesPerUser eff
      | None \<Rightarrow> eMaxInstancesPerUser eff)"

definition ownedInstances ::
  "api \<Rightarrow> reader option \<Rightarrow> DployInstanceClaim \<Rightarrow> (error + DployInstance list) io" where
  "ownedInstances A R claim =
     (let owner = sanitize (cOwner (cSpec claim)) in
      if owner = [] then ok []
      else do {
        r \<leftarrow> listInstances A (reader_of R) (Namespace (cMeta claim)) [(LabelOwner, owner)];
        case r of
          Inl e \<Rightarrow> throw (wrapErr ''list owner instances'' e)
        | Inr items \<Rightarrow> ok (sortSlice olderFirst (filter live items)) })"

definition maxTemplateSize :: "DployTemplate \<Rightarrow> int" where
  "maxTemplateSize tmpl =
     (case tPool (tSpec tmpl) of
        Some p \<Rightarrow> if tMethod (tSpec tmpl) = MethodPool then poolMaxSize p else 0
      | None \<Rightarrow> 0)"

definition templateInstances ::
  "api \<Rightarrow> reader option \<Rightarrow> string \<Rightarrow> string \<Rightarrow> (error + DployInstance list) io" where
  "templateInstances A R ns template = do {
     r \<leftarrow> listInstances A (reader_of R) ns [(LabelTemplate, template)];
     case r of
       Inl e \<Rightarrow> throw (wrapErr ''list template instances'' e)
     | Inr items \<Rightarrow> ok (sortSlice olderFirst (filter live items)) }"

definition overMaxSize :: "api \<Rightarrow> reader option \<Rightarrow> DployTemplate \<Rightarrow> (error + bool) io" where
  "overMaxSize A R tmpl =
     (let limit = maxTemplateSize tmpl in
      if limit \<le> 0 then ok False
      else tryE (templateInstances A R (Namespace (tMeta tmpl)) (Name (tMeta tmpl)))
             (\<lambda>items. ok (int (length items) \<ge> limit)))"

definition bindClaim ::
  "api \<Rightarrow> reader option \<Rightarrow> DployInstanceClaim \<Rightarrow> DployTemplate \<Rightarrow> Time \<Rightarrow> int \<Rightarrow> Time option
   \<Rightarrow> (error + DployInstance option) io" where
  "bindClaim A R claim tmpl boundAt ttl expiresAt =
     (let onDemand = tryE (createOnDemand A claim tmpl boundAt ttl expiresAt) (\<lambda>i. ok (Some i)) in
      if tMethod (tSpec tmpl) = MethodPool
      then tryE (acquirePooled A claim tmpl boundAt) (\<lambda>inst.
        if inst \<noteq> None then ok inst
        else if cWaitForPool (cSpec claim) then ok None
        else tryE (overMaxSize A R tmpl) (\<lambda>over.
          if over then throw ErrTemplateAtCapacity else onDemand))
      else onDemand)"

section \<open>Applying the binding to the instance\<close>

definition desiredBinding ::
  "api \<Rightarrow> DployInstanceClaim \<Rightarrow> int \<Rightarrow> Time option \<Rightarrow> DployInstance \<Rightarrow> error + DployInstance" where
  "desiredBinding A claim ttl expiresAt cur =
     (case setControllerRef A (ownerRef ''DployInstanceClaim'' (cMeta claim))
             ((iMeta cur)\<lparr>OwnerReferences := []\<rparr>) of
        Inl e \<Rightarrow> Inl e
      | Inr meta \<Rightarrow>
         (let labelled = cur\<lparr>iMeta := meta\<lparr>Labels := (Labels meta)
                (LabelClaim \<mapsto> Name (cMeta claim), LabelClaimUID \<mapsto> UID (cMeta claim),
                 LabelOwner \<mapsto> sanitize (cOwner (cSpec claim)))\<rparr>\<rparr>;
              stamped = (case cBoundAt (cStatus claim) of
                  Some b \<Rightarrow> stampBoundAt labelled b | None \<Rightarrow> labelled) in
          Inr (iSpec_update (\<lambda>s. s\<lparr>iOwner := cOwner (cSpec claim), iParams := cParams (cSpec claim),
                 iTTLSeconds := ttl, iSpecExpiresAt := expiresAt\<rparr>) stamped)))"

text \<open>The result is the caller's instance afterwards: what the update returned, or the old one
  where nothing had to change.\<close>

definition syncInstance ::
  "api \<Rightarrow> DployInstanceClaim \<Rightarrow> DployInstance \<Rightarrow> int \<Rightarrow> Time option \<Rightarrow> (error + DployInstance) io" where
  "syncInstance A claim inst ttl expiresAt =
     retryOnConflict (conflictRetries A)
       (tryE (getInstance A ClientCache (objectKey (iMeta inst))) (\<lambda>cur.
          case desiredBinding A claim ttl expiresAt cur of
            Inl e \<Rightarrow> throw e
          | Inr desired \<Rightarrow>
              if deepEqual A cur desired then ok inst else updateInstance A desired))"

section \<open>Status transitions\<close>

text \<open>A claim that is gone needs no status.\<close>

definition patchStatus ::
  "api \<Rightarrow> DployInstanceClaim \<Rightarrow> DployInstanceClaim \<Rightarrow> (error + DployInstanceClaim) io" where
  "patchStatus A original claim = do {
     let claim1 = cStatus_update (\<lambda>s. s\<lparr>cObservedGeneration := Generation (cMeta claim)\<rparr>) claim;
     r \<leftarrow> patchClaimStatus A original claim1;
     case r of
       Inl e \<Rightarrow> if IsNotFound e then ok claim1
                else throw (wrapErr ''patch DployInstanceClaim status'' e)
     | Inr stored \<Rightarrow> ok stored }"

definition observe :: "api \<Rightarrow> DployInstanceClaim \<Rightarrow> DployInstanceClaim \<Rightarrow> (error + unit) io" where
  "observe A original claim =
     (if cObservedGeneration (cStatus claim) = Generation (cMeta claim) then ok ()
      else tryE (patchStatus A original claim) (\<lambda>_. ok ()))"

definition setClaimCondition ::
  "api \<Rightarrow> DployInstanceClaim \<Rightarrow> string \<Rightarrow> ConditionStatus \<Rightarrow> string \<Rightarrow> string \<Rightarrow> DployInstanceClaim io" where
  "setClaimCondition A claim t st reason message = do {
     cs \<leftarrow> setStatusCondition A (cConditions (cStatus claim))
       (condition t st reason message (Generation (cMeta claim)));
     give (cStatus_update (\<lambda>s. s\<lparr>cConditions := cs\<rparr>) claim) }"

definition project ::
  "api \<Rightarrow> DployInstanceClaim \<Rightarrow> DployInstance \<Rightarrow> DployInstanceClaim io" where
  "project A claim inst = do {
     let claim1 = cStatus_update (\<lambda>s. s\<lparr>cPhase := ClaimBound, cInstanceRef := Name (iMeta inst),
       cUUID := iUUID (iStatus inst), cConnectionURL := iURL (iStatus inst),
       cConnectionType := iConnectionType (iStatus inst),
       cConnectionMessage := iConnectionMessage (iStatus inst),
       cInstancePhase := iPhase (iStatus inst), cHealth := iHealth (iStatus inst)\<rparr>) claim;
     claim2 \<leftarrow> setClaimCondition A claim1 ConditionBound CondTrue ''Bound''
       (''bound to DployInstance '' @ goQuote (Name (iMeta inst)));
     case findCond A (iConditions (iStatus inst)) ConditionReady of
       None \<Rightarrow> setClaimCondition A claim2 ConditionReady CondFalse ''Provisioning'' ''instance is converging''
     | Some c \<Rightarrow> setClaimCondition A claim2 ConditionReady (condStatus c) (condReason c) (condMessage c) }"

definition pending ::
  "api \<Rightarrow> DployInstanceClaim \<Rightarrow> DployInstanceClaim \<Rightarrow> string \<Rightarrow> string \<Rightarrow> result io" where
  "pending A original claim reason message = do {
     let claim1 = cStatus_update (\<lambda>s. s\<lparr>cPhase := ClaimPending, cInstanceRef := []\<rparr>) claim;
     claim2 \<leftarrow> setClaimCondition A claim1 ConditionBound CondFalse reason message;
     tryE (patchStatus A original claim2) (\<lambda>_. ok claimPoolWaitRequeue) }"

text \<open>\<open>Delete\<close> with a missing object counted as done.\<close>

definition deleteIfThere :: "api \<Rightarrow> string \<Rightarrow> DployInstance \<Rightarrow> (error + unit) io" where
  "deleteIfThere A what inst = do {
     r \<leftarrow> deleteInstance A (objectKey (iMeta inst)) None;
     case r of
       Inl e \<Rightarrow> if IsNotFound e then ok () else throw (wrapErr what e)
     | Inr _ \<Rightarrow> ok () }"

definition releaseHeld :: "api \<Rightarrow> reader option \<Rightarrow> DployInstanceClaim \<Rightarrow> (error + unit) io" where
  "releaseHeld A R claim =
     tryE (boundInstance A R claim) (\<lambda>held.
       case held of
         None \<Rightarrow> ok ()
       | Some inst \<Rightarrow> deleteIfThere A
           (''release instance '' @ goQuote (Name (iMeta inst)) @ '' of rejected claim'') inst)"

definition reject ::
  "api \<Rightarrow> reader option \<Rightarrow> DployInstanceClaim \<Rightarrow> DployInstanceClaim \<Rightarrow> string \<Rightarrow> string \<Rightarrow> result io" where
  "reject A R original claim reason message =
     tryE (releaseHeld A R claim) (\<lambda>_. do {
       let claim1 = cStatus_update
         (\<lambda>s. s\<lparr>cPhase := ClaimRejected, cInstanceRef := [], cExpiresAt := None\<rparr>) claim;
       claim2 \<leftarrow> setClaimCondition A claim1 ConditionBound CondFalse reason message;
       tryE (patchStatus A original claim2) (\<lambda>_. ok 0) })"

definition expiredMessage :: string where
  "expiredMessage = ''the environment reached its TTL and was torn down''"

definition expire ::
  "api \<Rightarrow> DployInstanceClaim \<Rightarrow> DployInstanceClaim \<Rightarrow> DployInstance option \<Rightarrow> result io" where
  "expire A original claim inst =
     tryE (case inst of None \<Rightarrow> ok () | Some i \<Rightarrow> deleteIfThere A ''delete expired instance'' i) (\<lambda>_. do {
       let claim1 = cStatus_update (\<lambda>s. s\<lparr>cPhase := ClaimExpired, cInstanceRef := [],
         cConnectionURL := [], cConnectionMessage := [], cInstancePhase := PhaseUnset,
         cHealth := []\<rparr>) claim;
       claim2 \<leftarrow> setClaimCondition A claim1 ConditionBound CondFalse ''Expired'' expiredMessage;
       claim3 \<leftarrow> setClaimCondition A claim2 ConditionReady CondFalse ''Expired'' expiredMessage;
       tryE (patchStatus A original claim3) (\<lambda>_. ok 0) })"

section \<open>Quota and capacity\<close>

definition overQuota ::
  "api \<Rightarrow> reader option \<Rightarrow> DployInstanceClaim \<Rightarrow> DployTemplate \<Rightarrow> Effective \<Rightarrow> (error + bool \<times> int) io" where
  "overQuota A R claim tmpl eff =
     (let limit = ownerLimit tmpl eff in
      if limit \<le> 0 then ok (False, 0)
      else tryE (ownedInstances A R claim) (\<lambda>owned.
        let held = length (filter (\<lambda>i. get (Labels (iMeta i)) LabelClaimUID \<noteq> UID (cMeta claim)) owned) in
        ok (int held \<ge> limit, limit)))"

text \<open>The rule both evictions apply to a ranked list: an instance that is listed at or beyond the
  limit loses its slot; one that is not listed yet keeps it.\<close>

definition losesSlot :: "int \<Rightarrow> DployInstance \<Rightarrow> DployInstance list \<Rightarrow> bool" where
  "losesSlot limit inst ranked =
     (case indexOf (\<lambda>i. Name (iMeta i) = Name (iMeta inst)) ranked of
        None \<Rightarrow> False | Some rank \<Rightarrow> \<not> int rank < limit)"

definition evictIfOverQuota ::
  "api \<Rightarrow> reader option \<Rightarrow> DployInstanceClaim \<Rightarrow> DployTemplate \<Rightarrow> Effective \<Rightarrow> DployInstance
   \<Rightarrow> (error + bool \<times> int) io" where
  "evictIfOverQuota A R claim tmpl eff inst =
     (let limit = ownerLimit tmpl eff in
      if limit \<le> 0 then ok (False, 0)
      else tryE (ownedInstances A R claim) (\<lambda>owned.
        if \<not> losesSlot limit inst owned then ok (False, limit)
        else tryE (deleteIfThere A ''release over-quota instance'' inst) (\<lambda>_. ok (True, limit))))"

definition evictIfOverMaxSize ::
  "api \<Rightarrow> reader option \<Rightarrow> DployTemplate \<Rightarrow> DployInstance \<Rightarrow> (error + bool \<times> int) io" where
  "evictIfOverMaxSize A R tmpl inst =
     (let limit = maxTemplateSize tmpl in
      if limit \<le> 0 then ok (False, 0)
      else tryE (templateInstances A R (Namespace (tMeta tmpl)) (Name (tMeta tmpl))) (\<lambda>items.
        if \<not> losesSlot limit inst items then ok (False, limit)
        else tryE (deleteIfThere A ''release over-capacity instance'' inst) (\<lambda>_. ok (True, limit))))"

section \<open>Which claims an instance event wakes\<close>

definition claimsForInstance :: "api \<Rightarrow> DployInstance \<Rightarrow> NamespacedName list io" where
  "claimsForInstance A inst =
     (let name = get (Labels (iMeta inst)) LabelClaim in
      if name \<noteq> [] then give [\<lparr>nnNamespace = Namespace (iMeta inst), nnName = name\<rparr>]
      else if \<not> iPooled (iSpec inst) \<or> iOwner (iSpec inst) \<noteq> [] then give []
      else do {
        r \<leftarrow> listClaims A (Namespace (iMeta inst)) [(LabelTemplate, iTemplateRef (iSpec inst))];
        case r of
          Inl e \<Rightarrow> give []
        | Inr claims \<Rightarrow> give (map (\<lambda>c. objectKey (cMeta c))
            (filter (\<lambda>c. cPhase (cStatus c) = ClaimPending) claims)) })"

end
