(* ===== verification/Cluster.thy ===== *)
theory Cluster
imports ClaimOps
begin

text \<open>
  The cluster's store of instances, as far as the Kubernetes API documents it: a write with a
  resource version is accepted only on the version it names, every accepted write makes a new
  version, a name made from \<open>GenerateName\<close> and a UID are never given twice, a delete honours its
  preconditions, and a read, cached or not, returns versions that were stored at some time. A call
  that answers with an error may have been carried out. The store keeps, under every call that
  writes an instance over a version it had, that no instance is bound to two claims.
\<close>

section \<open>The store\<close>

definition claimUID :: "DployInstance \<Rightarrow> string" where
  "claimUID i = get (Labels (iMeta i)) LabelClaimUID"

text \<open>The instant an instance was bound at, as the annotation has it.\<close>

definition anchorOf :: "DployInstance \<Rightarrow> string" where
  "anchorOf i = get (Annotations (iMeta i)) AnnotationBoundAt"

text \<open>Every version ever stored, and the current one under each key.\<close>

record cluster =
  stored :: "NamespacedName \<Rightarrow> DployInstance option"
  history :: "DployInstance set"

definition sameIdentity :: "ObjectMeta \<Rightarrow> ObjectMeta \<Rightarrow> bool" where
  "sameIdentity m m' \<longleftrightarrow> objectKey m' = objectKey m \<and> UID m' = UID m
     \<and> ResourceVersion m' = ResourceVersion m \<and> Labels m' = Labels m \<and> Annotations m' = Annotations m"

text \<open>What controllerutil documents of its helpers: they touch owner references and finalizers only.\<close>

definition lawful :: "api \<Rightarrow> bool" where
  "lawful A \<longleftrightarrow> (\<forall>r m m'. setControllerRef A r m = Inr m' \<longrightarrow> sameIdentity m m')
     \<and> (\<forall>m f. sameIdentity m (addFinalizer A m f) \<and> sameIdentity m (removeFinalizer A m f))"

definition newVersion :: "cluster \<Rightarrow> DployInstance \<Rightarrow> DployInstance \<Rightarrow> bool" where
  "newVersion c x x' \<longleftrightarrow> objectKey (iMeta x') = objectKey (iMeta x) \<and> UID (iMeta x') = UID (iMeta x)
     \<and> Labels (iMeta x') = Labels (iMeta x) \<and> Annotations (iMeta x') = Annotations (iMeta x)
     \<and> ResourceVersion (iMeta x') \<noteq> []
     \<and> (\<forall>i\<in>history c. UID (iMeta i) = UID (iMeta x') \<longrightarrow> ResourceVersion (iMeta i) \<noteq> ResourceVersion (iMeta x'))"

definition putVersion :: "DployInstance \<Rightarrow> cluster \<Rightarrow> cluster" where
  "putVersion x c = c\<lparr>stored := (stored c)(objectKey (iMeta x) \<mapsto> x), history := insert x (history c)\<rparr>"

text \<open>An update names a UID and a version; an empty one is not checked.\<close>

definition updated :: "cluster \<Rightarrow> DployInstance \<Rightarrow> DployInstance \<Rightarrow> bool" where
  "updated c x x' \<longleftrightarrow> (\<exists>cur. stored c (objectKey (iMeta x)) = Some cur
     \<and> (UID (iMeta x) = [] \<or> UID (iMeta cur) = UID (iMeta x))
     \<and> (ResourceVersion (iMeta x) = [] \<or> ResourceVersion (iMeta cur) = ResourceVersion (iMeta x))
     \<and> newVersion c (x\<lparr>iMeta := (iMeta x)\<lparr>UID := UID (iMeta cur)\<rparr>\<rparr>) x')"

definition created :: "cluster \<Rightarrow> DployInstance \<Rightarrow> DployInstance \<Rightarrow> bool" where
  "created c x x' \<longleftrightarrow> Namespace (iMeta x') = Namespace (iMeta x) \<and> Labels (iMeta x') = Labels (iMeta x)
     \<and> UID (iMeta x') \<noteq> [] \<and> ResourceVersion (iMeta x') \<noteq> []
     \<and> (\<forall>i\<in>history c. UID (iMeta i) \<noteq> UID (iMeta x') \<and> objectKey (iMeta i) \<noteq> objectKey (iMeta x'))"

text \<open>A status patch changes the status alone.\<close>

definition statusPatched :: "cluster \<Rightarrow> DployInstance \<Rightarrow> DployInstance \<Rightarrow> bool" where
  "statusPatched c x x' \<longleftrightarrow> (\<exists>cur. stored c (objectKey (iMeta x)) = Some cur
     \<and> newVersion c cur x' \<and> iSpec x' = iSpec cur)"

definition meets :: "precondition \<Rightarrow> DployInstance \<Rightarrow> bool" where
  "meets p i = (case p of None \<Rightarrow> True
     | Some (u, v) \<Rightarrow> UID (iMeta i) = u \<and> ResourceVersion (iMeta i) = v)"

text \<open>A delete removes the object, or marks it while finalizers hold it.\<close>

definition deleted :: "cluster \<Rightarrow> NamespacedName \<Rightarrow> precondition \<Rightarrow> cluster \<Rightarrow> bool" where
  "deleted c k p c' \<longleftrightarrow> (\<exists>cur. stored c k = Some cur \<and> meets p cur
     \<and> (c' = c\<lparr>stored := (stored c)(k := None)\<rparr>
        \<or> (\<exists>x'. newVersion c cur x' \<and> iSpec x' = iSpec cur \<and> c' = putVersion x' c)))"

text \<open>The call \<open>e\<close>, reply included, can be answered in the store \<open>c\<close> and leaves \<open>c'\<close>.\<close>

definition effect :: "cluster \<Rightarrow> event \<Rightarrow> cluster \<Rightarrow> bool" where
  "effect c e c' = (case e of
      EGetInstance rd k (Inr i) \<Rightarrow> c' = c \<and> i \<in> history c \<and> objectKey (iMeta i) = k
    | EListInstances rd ns sel (Inr items) \<Rightarrow> c' = c \<and> set items \<subseteq> history c
        \<and> (\<forall>i\<in>set items. \<forall>(k, v)\<in>set sel. get (Labels (iMeta i)) k = v)
    | EGetClaim k (Inr cl) \<Rightarrow> c' = c \<and> UID (cMeta cl) \<noteq> []
    | EUpdateInstance x (Inr x') \<Rightarrow> updated c x x' \<and> c' = putVersion x' c
    | EUpdateInstance x (Inl _) \<Rightarrow> c' = c \<or> (\<exists>x'. updated c x x' \<and> c' = putVersion x' c)
    | ECreateInstance x (Inr x') \<Rightarrow> created c x x' \<and> c' = putVersion x' c
    | ECreateInstance x (Inl _) \<Rightarrow> c' = c \<or> (\<exists>x'. created c x x' \<and> c' = putVersion x' c)
    | EPatchInstanceStatus o1 x (Inr x') \<Rightarrow> statusPatched c x x' \<and> c' = putVersion x' c
    | EPatchInstanceStatus o1 x (Inl _) \<Rightarrow> c' = c \<or> (\<exists>x'. statusPatched c x x' \<and> c' = putVersion x' c)
    | EDeleteInstance k p (Inr _) \<Rightarrow> deleted c k p c'
    | EDeleteInstance k p (Inl _) \<Rightarrow> c' = c \<or> deleted c k p c'
    | _ \<Rightarrow> c' = c)"

section \<open>What the store keeps\<close>

definition exclusive :: "cluster \<Rightarrow> bool" where
  "exclusive c \<longleftrightarrow> (\<forall>i\<in>history c. \<forall>i'\<in>history c. UID (iMeta i) = UID (iMeta i')
     \<longrightarrow> claimUID i \<noteq> [] \<longrightarrow> claimUID i' \<noteq> [] \<longrightarrow> claimUID i = claimUID i')"

definition keptBinding :: "cluster \<Rightarrow> bool" where
  "keptBinding c \<longleftrightarrow> (\<forall>k cur. stored c k = Some cur \<longrightarrow> (\<forall>i\<in>history c. UID (iMeta i) = UID (iMeta cur)
     \<longrightarrow> claimUID i \<noteq> [] \<longrightarrow> claimUID cur = claimUID i))"

definition keptAnchor :: "cluster \<Rightarrow> bool" where
  "keptAnchor c \<longleftrightarrow> (\<forall>k cur. stored c k = Some cur \<longrightarrow> (\<forall>i\<in>history c. UID (iMeta i) = UID (iMeta cur)
     \<longrightarrow> anchorOf i \<noteq> [] \<longrightarrow> anchorOf cur = anchorOf i))"

definition versioned :: "cluster \<Rightarrow> bool" where
  "versioned c \<longleftrightarrow> (\<forall>k i. stored c k = Some i \<longrightarrow> i \<in> history c \<and> objectKey (iMeta i) = k)
     \<and> (\<forall>i\<in>history c. UID (iMeta i) \<noteq> [] \<and> ResourceVersion (iMeta i) \<noteq> [])
     \<and> (\<forall>i\<in>history c. \<forall>i'\<in>history c. UID (iMeta i) = UID (iMeta i')
          \<longrightarrow> ResourceVersion (iMeta i) = ResourceVersion (iMeta i') \<longrightarrow> i = i')
     \<and> (\<forall>i\<in>history c. \<forall>i'\<in>history c. objectKey (iMeta i) = objectKey (iMeta i')
          \<longleftrightarrow> UID (iMeta i) = UID (iMeta i'))"

definition sound :: "cluster \<Rightarrow> bool" where
  "sound c \<longleftrightarrow> versioned c \<and> exclusive c \<and> keptBinding c \<and> keptAnchor c"

text \<open>What a recorded call says about the versions there have been.\<close>

definition seenIn :: "DployInstance set \<Rightarrow> event \<Rightarrow> bool" where
  "seenIn H e = (case e of
      EGetInstance rd k (Inr i) \<Rightarrow> i \<in> H \<and> objectKey (iMeta i) = k
    | EListInstances rd ns sel (Inr items) \<Rightarrow> set items \<subseteq> H
        \<and> (\<forall>i\<in>set items. \<forall>(k, v)\<in>set sel. get (Labels (iMeta i)) k = v)
    | EGetClaim k (Inr cl) \<Rightarrow> UID (cMeta cl) \<noteq> []
    | EUpdateInstance x (Inr i) \<Rightarrow> i \<in> H \<and> claimUID i = claimUID x
    | ECreateInstance x (Inr i) \<Rightarrow> i \<in> H \<and> claimUID i = claimUID x
    | EPatchInstanceStatus o1 x (Inr i) \<Rightarrow> objectKey (iMeta i) = objectKey (iMeta x)
    | _ \<Rightarrow> True)"

lemma versionedD:
  assumes "versioned c"
  shows "stored c k = Some i \<Longrightarrow> i \<in> history c \<and> objectKey (iMeta i) = k"
    and "i \<in> history c \<Longrightarrow> UID (iMeta i) \<noteq> [] \<and> ResourceVersion (iMeta i) \<noteq> []"
    and "i \<in> history c \<Longrightarrow> i' \<in> history c \<Longrightarrow> UID (iMeta i) = UID (iMeta i')
      \<Longrightarrow> ResourceVersion (iMeta i) = ResourceVersion (iMeta i') \<Longrightarrow> i = i'"
    and "i \<in> history c \<Longrightarrow> i' \<in> history c
      \<Longrightarrow> objectKey (iMeta i) = objectKey (iMeta i') \<longleftrightarrow> UID (iMeta i) = UID (iMeta i')"
  using assms unfolding versioned_def by blast+

lemma soundD:
  assumes "sound c"
  shows "versioned c"
    and "i \<in> history c \<Longrightarrow> i' \<in> history c \<Longrightarrow> UID (iMeta i) = UID (iMeta i')
      \<Longrightarrow> claimUID i \<noteq> [] \<Longrightarrow> claimUID i' \<noteq> [] \<Longrightarrow> claimUID i = claimUID i'"
    and "stored c k = Some cur \<Longrightarrow> i \<in> history c \<Longrightarrow> UID (iMeta i) = UID (iMeta cur)
      \<Longrightarrow> claimUID i \<noteq> [] \<Longrightarrow> claimUID cur = claimUID i"
    and "stored c k = Some cur \<Longrightarrow> i \<in> history c \<Longrightarrow> UID (iMeta i) = UID (iMeta cur)
      \<Longrightarrow> anchorOf i \<noteq> [] \<Longrightarrow> anchorOf cur = anchorOf i"
  using assms unfolding sound_def exclusive_def keptBinding_def keptAnchor_def by blast+

lemma putVersion_simps [simp]:
  "history (putVersion x c) = insert x (history c)"
  "stored (putVersion x c) = (stored c)(objectKey (iMeta x) \<mapsto> x)"
  by (simp_all add: putVersion_def)

text \<open>A new version of the current object that leaves a binding as it is.\<close>

lemma sound_new:
  assumes s: "sound c" and cur: "stored c (objectKey (iMeta x)) = Some cur"
    and u: "UID (iMeta x) = UID (iMeta cur)" and v: "ResourceVersion (iMeta x) \<noteq> []"
    and fresh: "\<forall>i\<in>history c. UID (iMeta i) = UID (iMeta x) \<longrightarrow> ResourceVersion (iMeta i) \<noteq> ResourceVersion (iMeta x)"
    and l: "claimUID cur = [] \<or> claimUID x = claimUID cur" and a: "anchorOf cur = [] \<or> anchorOf x = anchorOf cur"
  shows "sound (putVersion x c)"
proof -
  note ver = versionedD [OF soundD(1) [OF s]]
  have h: "cur \<in> history c" "objectKey (iMeta cur) = objectKey (iMeta x)" using ver(1) [OF cur] by auto
  have key: "objectKey (iMeta i) = objectKey (iMeta x) \<longleftrightarrow> UID (iMeta i) = UID (iMeta x)" if "i \<in> history c" for i
    using ver(4) [OF that h(1)] h(2) u by simp
  have key': "objectKey (iMeta x) = objectKey (iMeta i) \<longleftrightarrow> UID (iMeta x) = UID (iMeta i)" if "i \<in> history c" for i
    using key [OF that] by metis
  have fresh': "ResourceVersion (iMeta x) \<noteq> ResourceVersion (iMeta i)"
    if "i \<in> history c" "UID (iMeta x) = UID (iMeta i)" for i
    using fresh that by metis
  have bound: "claimUID x = claimUID i" if "i \<in> history c" "UID (iMeta i) = UID (iMeta x)" "claimUID i \<noteq> []" for i
    using soundD(3) [OF s cur that(1)] that(2,3) u l by simp
  have anchored: "anchorOf x = anchorOf i" if "i \<in> history c" "UID (iMeta i) = UID (iMeta x)" "anchorOf i \<noteq> []" for i
    using soundD(4) [OF s cur that(1)] that(2,3) u a by simp
  have other: "UID (iMeta x) \<noteq> UID (iMeta cur')"
    if "stored c k = Some cur'" "k \<noteq> objectKey (iMeta x)" for k cur'
  proof -
    have "cur' \<in> history c" "objectKey (iMeta cur') = k" using ver(1) [OF that(1)] by auto
    then show ?thesis using key that(2) by metis
  qed
  have "versioned (putVersion x c)"
    unfolding versioned_def putVersion_simps
    using ver h u v fresh key key' fresh' by (auto split: if_splits)
  moreover have "exclusive (putVersion x c)"
    unfolding exclusive_def putVersion_simps using soundD(2) [OF s] bound by (metis insert_iff)
  moreover have "keptBinding (putVersion x c)"
    unfolding keptBinding_def putVersion_simps
    using bound soundD(3) [OF s] other by (auto split: if_splits dest: other)
  moreover have "keptAnchor (putVersion x c)"
    unfolding keptAnchor_def putVersion_simps
    using anchored soundD(4) [OF s] other by (auto split: if_splits dest: other)
  ultimately show ?thesis by (simp add: sound_def)
qed

lemma sound_created:
  assumes s: "sound c" and x: "created c x0 x"
  shows "sound (putVersion x c)"
proof -
  note ver = versionedD [OF soundD(1) [OF s]]
  have new: "UID (iMeta i) \<noteq> UID (iMeta x) \<and> objectKey (iMeta i) \<noteq> objectKey (iMeta x)" if "i \<in> history c" for i
    using x that by (simp add: created_def)
  have new': "UID (iMeta x) \<noteq> UID (iMeta i) \<and> objectKey (iMeta x) \<noteq> objectKey (iMeta i)" if "i \<in> history c" for i
    using new [OF that] by metis
  have ne: "UID (iMeta x) \<noteq> []" "ResourceVersion (iMeta x) \<noteq> []" using x by (simp_all add: created_def)
  have "versioned (putVersion x c)"
    unfolding versioned_def putVersion_simps
    using ver ne new new' by (auto split: if_splits)
  moreover have "exclusive (putVersion x c)"
    unfolding exclusive_def putVersion_simps using soundD(2) [OF s] new by (metis insert_iff)
  moreover have "keptBinding (putVersion x c)"
    unfolding keptBinding_def putVersion_simps
    using soundD(3) [OF s] new new' ver(1) by (auto split: if_splits)
  moreover have "keptAnchor (putVersion x c)"
    unfolding keptAnchor_def putVersion_simps
    using soundD(4) [OF s] new new' ver(1) by (auto split: if_splits)
  ultimately show ?thesis by (simp add: sound_def)
qed

lemma sound_forget: "sound c \<Longrightarrow> sound (c\<lparr>stored := (stored c)(k := None)\<rparr>)"
  unfolding sound_def versioned_def exclusive_def keptBinding_def keptAnchor_def by (auto split: if_splits)

lemma sound_same:
  assumes "sound c" and "stored c k = Some cur" and "newVersion c cur x"
  shows "sound (putVersion x c)"
proof -
  have "objectKey (iMeta cur) = k" using versionedD(1) [OF soundD(1) [OF assms(1)] assms(2)] by simp
  then show ?thesis
    using assms by (intro sound_new) (auto simp: newVersion_def claimUID_def anchorOf_def)
qed

text \<open>What a controller writes over the version it read.\<close>

definition basedOn :: "DployInstance \<Rightarrow> DployInstance \<Rightarrow> bool" where
  "basedOn cur x \<longleftrightarrow> objectKey (iMeta x) = objectKey (iMeta cur) \<and> UID (iMeta x) = UID (iMeta cur)
     \<and> ResourceVersion (iMeta x) = ResourceVersion (iMeta cur)
     \<and> (claimUID cur = [] \<or> claimUID x = claimUID cur) \<and> (anchorOf cur = [] \<or> anchorOf x = anchorOf cur)"

lemma sound_updated:
  assumes s: "sound c" and up: "updated c x x'" and base: "read \<in> history c" "basedOn read x"
  shows "sound (putVersion x' c)"
proof -
  note ver = versionedD [OF soundD(1) [OF s]]
  obtain cur where cur: "stored c (objectKey (iMeta x)) = Some cur"
    "UID (iMeta x) = [] \<or> UID (iMeta cur) = UID (iMeta x)"
    "ResourceVersion (iMeta x) = [] \<or> ResourceVersion (iMeta cur) = ResourceVersion (iMeta x)"
    "newVersion c (x\<lparr>iMeta := (iMeta x)\<lparr>UID := UID (iMeta cur)\<rparr>\<rparr>) x'"
    using up by (auto simp: updated_def)
  have "cur = read"
    using ver(3) [of cur read] ver(1) [OF cur(1)] ver(2) [OF base(1)] cur(2,3) base by (auto simp: basedOn_def)
  then show ?thesis
    using cur base(2) s by (intro sound_new [of c x' cur])
      (auto simp: newVersion_def basedOn_def claimUID_def anchorOf_def objectKey_def)
qed

lemma effect_sound:
  assumes s: "sound c" and e: "effect c e c'"
    and base: "\<And>x r. e = EUpdateInstance x r \<Longrightarrow> \<exists>cur\<in>history c. basedOn cur x"
  shows "sound c' \<and> history c \<subseteq> history c' \<and> seenIn (history c') e"
proof -
  have up: "sound (putVersion x' c)" if "e = EUpdateInstance x r" "updated c x x'" for x r x'
    using sound_updated [OF s that(2)] base [OF that(1)] by blast
  have del: "sound c' \<and> history c \<subseteq> history c'" if "deleted c k p c'" for k p
    using that s sound_same [OF s] sound_forget [OF s] unfolding deleted_def by auto
  have pat: "sound (putVersion x' c)" if "statusPatched c x x'" for x x'
    using that sound_same [OF s] unfolding statusPatched_def by blast
  have lab: "updated c x x' \<Longrightarrow> claimUID x' = claimUID x"
    "created c x x' \<Longrightarrow> claimUID x' = claimUID x"
    "statusPatched c x x' \<Longrightarrow> objectKey (iMeta x') = objectKey (iMeta x)" for x x'
    using versionedD(1) [OF soundD(1) [OF s]]
    by (auto simp: updated_def created_def newVersion_def claimUID_def statusPatched_def)
  note facts = s up del pat sound_created [OF s] lab
  show ?thesis
    using e facts
    by (cases e) (auto simp: effect_def seenIn_def split: sum.splits)
qed

end
