(* ===== verification/ClaimCtrl.thy ===== *)
theory ClaimCtrl
imports ClaimOps
begin

text \<open>
  The reconcile loop of \<^verbatim>\<open>DployInstanceClaimReconciler\<close>: \<open>Reconcile\<close> and \<open>reconcileRead\<close> up to the phase
  switch, \<open>reconcileLive\<close> from the template lookup to the first expiry check,
  \<open>reconcileUnbound\<close> for a claim that holds nothing, \<open>reconcileBound\<close> from the deadline on, and
  \<open>finish\<close> for the last writes. \<open>original\<close> is the copy the status patch is computed against.
\<close>

definition quotaMessage :: "DployInstanceClaim \<Rightarrow> int \<Rightarrow> string" where
  "quotaMessage claim limit = ''owner '' @ goQuote (cOwner (cSpec claim))
     @ '' already holds the maximum of '' @ showInt limit @ '' environment(s)''"

definition capacityMessage :: "DployTemplate \<Rightarrow> int \<Rightarrow> string" where
  "capacityMessage tmpl limit = ''template '' @ goQuote (Name (tMeta tmpl))
     @ '' is at its maximum of '' @ showInt limit @ '' environment(s); waiting for one to be released''"

definition waitingMessage :: "DployTemplate \<Rightarrow> string" where
  "waitingMessage tmpl = ''waiting for a warm instance of template '' @ goQuote (Name (tMeta tmpl))"

definition setBoundAt :: "Time option \<Rightarrow> DployInstanceClaim \<Rightarrow> DployInstanceClaim" where
  "setBoundAt b claim = cStatus_update (\<lambda>s. s\<lparr>cBoundAt := b\<rparr>) claim"

definition setExpiresAt :: "Time option \<Rightarrow> DployInstanceClaim \<Rightarrow> DployInstanceClaim" where
  "setExpiresAt e claim = cStatus_update (\<lambda>s. s\<lparr>cExpiresAt := e\<rparr>) claim"

text \<open>When to come back: at the deadline, and soon while the binding is fresh.\<close>

definition requeueDelay :: "bool \<Rightarrow> Duration \<Rightarrow> Duration" where
  "requeueDelay settling after =
     (if settling \<and> (after = 0 \<or> after > quotaSettleRequeue) then quotaSettleRequeue else after)"

definition finish ::
  "api \<Rightarrow> DployInstanceClaim \<Rightarrow> DployInstanceClaim \<Rightarrow> DployInstance \<Rightarrow> int \<Rightarrow> bool \<Rightarrow> result io" where
  "finish A original claim inst ttl settling =
     tryE (syncInstance A claim inst ttl (cExpiresAt (cStatus claim))) (\<lambda>inst1. do {
       claim1 \<leftarrow> project A claim inst1;
       tryE (patchStatus A original claim1) (\<lambda>claim2.
         case cExpiresAt (cStatus claim2) of
           None \<Rightarrow> ok (requeueDelay settling 0)
         | Some e \<Rightarrow> do { now \<leftarrow> timeNow A; ok (requeueDelay settling (timeSub e now)) }) })"

definition settle ::
  "api \<Rightarrow> reader option \<Rightarrow> DployInstanceClaim \<Rightarrow> DployInstanceClaim \<Rightarrow> DployTemplate \<Rightarrow> Effective
   \<Rightarrow> int \<Rightarrow> DployInstance \<Rightarrow> result io" where
  "settle A R original claim tmpl eff ttl inst =
     tryE (evictIfOverQuota A R claim tmpl eff inst) (\<lambda>(over, limit).
       if over
       then reject A R original (setBoundAt None claim) ''QuotaExceeded'' (quotaMessage claim limit)
       else tryE (evictIfOverMaxSize A R tmpl inst) (\<lambda>(over, limit).
         if over
         then pending A original (setBoundAt None claim) ''TemplateAtCapacity'' (capacityMessage tmpl limit)
         else finish A original claim inst ttl True))"

definition reconcileBound ::
  "api \<Rightarrow> reader option \<Rightarrow> DployInstanceClaim \<Rightarrow> DployInstanceClaim \<Rightarrow> DployTemplate \<Rightarrow> Effective
   \<Rightarrow> int \<Rightarrow> DployInstance \<Rightarrow> result io" where
  "reconcileBound A R original claim0 tmpl eff ttl inst = do {
     boundAt \<leftarrow> (case cBoundAt (cStatus claim0) of Some b \<Rightarrow> give b | None \<Rightarrow> boundAtOf A inst);
     let claim = setExpiresAt (expiryFrom boundAt ttl) (setBoundAt (Some boundAt) claim0);
     now \<leftarrow> timeNow A;
     if isExpired claim now then expire A original claim (Some inst)
     else do {
       failed \<leftarrow> failedFor A (Some inst);
       if failed > instanceFailureGrace
       then reject A R original (setBoundAt None claim) ''InstanceFailed''
         (''DployInstance '' @ goQuote (Name (iMeta inst))
          @ '' has been Failed for over 3m0s; the environment was released'')
       else do {
         now' \<leftarrow> timeNow A;
         if timeSub now' boundAt < quotaSettleWindow
         then settle A R original claim tmpl eff ttl inst
         else finish A original claim inst ttl False } } }"

definition reconcileUnbound ::
  "api \<Rightarrow> reader option \<Rightarrow> DployInstanceClaim \<Rightarrow> DployInstanceClaim \<Rightarrow> DployTemplate \<Rightarrow> Effective
   \<Rightarrow> int \<Rightarrow> result io" where
  "reconcileUnbound A R original claim tmpl eff ttl =
     tryE (overQuota A R claim tmpl eff) (\<lambda>(over, limit).
       if over then reject A R original claim ''QuotaExceeded'' (quotaMessage claim limit)
       else do {
         now \<leftarrow> timeNow A;
         let boundAt = truncateSecond now;
         r \<leftarrow> bindClaim A R claim tmpl boundAt ttl (expiryFrom boundAt ttl);
         case r of
           Inl e \<Rightarrow>
             if e = ErrTemplateAtCapacity
             then pending A original claim ''TemplateAtCapacity'' (capacityMessage tmpl (maxTemplateSize tmpl))
             else throw e
         | Inr None \<Rightarrow> pending A original claim ''PoolExhausted'' (waitingMessage tmpl)
         | Inr (Some inst) \<Rightarrow>
             reconcileBound A R original (setBoundAt (Some boundAt) claim) tmpl eff ttl inst })"

definition reconcileLive ::
  "api \<Rightarrow> reader option \<Rightarrow> DployInstanceClaim \<Rightarrow> result io" where
  "reconcileLive A R original = do {
     r \<leftarrow> getTemplate A \<lparr>nnNamespace = Namespace (cMeta original), nnName = cTemplateRef (cSpec original)\<rparr>;
     case r of
       Inl e \<Rightarrow>
         if IsNotFound e
         then reject A R original original ''TemplateNotFound''
           (''DployTemplate '' @ goQuote (cTemplateRef (cSpec original)) @ '' not found in namespace ''
            @ goQuote (Namespace (cMeta original)))
         else throw e
     | Inr tmpl \<Rightarrow>
         if \<not> tEnabled (tSpec tmpl)
         then reject A R original original ''TemplateDisabled''
           (''DployTemplate '' @ goQuote (Name (tMeta tmpl)) @ '' is disabled'')
         else tryE (Resolve A) (\<lambda>eff.
           let (ttl, maxTTL) = resolveClaimTTL original tmpl eff;
               claim = cStatus_update (\<lambda>s. s\<lparr>cGrantedTTL := ttl, cMaxTTLSeconds := maxTTL\<rparr>) original in
           tryE (boundInstance A R claim) (\<lambda>held. do {
             now \<leftarrow> timeNow A;
             if isExpired claim now then expire A original claim held
             else (case held of
                 None \<Rightarrow> reconcileUnbound A R original claim tmpl eff ttl
               | Some inst \<Rightarrow> reconcileBound A R original claim tmpl eff ttl inst) })) }"

text \<open>A claim that was read: nothing on deletion, labels first, then the phase switch.\<close>

definition reconcileRead :: "api \<Rightarrow> reader option \<Rightarrow> DployInstanceClaim \<Rightarrow> result io" where
  "reconcileRead A R claim0 =
     (if \<not> isZeroPtr (DeletionTimestamp (cMeta claim0)) then ok 0
      else (let (changed, claim) = ensureMeta claim0 in
        if changed then tryE (updateClaim A claim) (\<lambda>_. ok continueRequeue)
        else (case cPhase (cStatus claim) of
            ClaimExpired \<Rightarrow> tryE (observe A claim claim) (\<lambda>_. ok 0)
          | ClaimRejected \<Rightarrow>
              if cObservedGeneration (cStatus claim) = Generation (cMeta claim) then ok 0
              else reconcileLive A R claim
          | _ \<Rightarrow> reconcileLive A R claim)))"

definition Reconcile :: "api \<Rightarrow> reader option \<Rightarrow> NamespacedName \<Rightarrow> result io" where
  "Reconcile A R req = do {
     r \<leftarrow> getClaim A req;
     case r of Inl e \<Rightarrow> give (ignoreNotFound 0 e) | Inr claim0 \<Rightarrow> reconcileRead A R claim0 }"

end
