(* ===== verification/ClaimGuarantee.thy ===== *)
theory ClaimGuarantee
imports ClaimCtrl
begin

text \<open>
  What one run of the claim controller may write, stated over its call log: which instances it may
  create, bind, synchronise or delete, and which status it may record, each in terms of what the
  same run read before. \<open>claimGuard\<close> is that specification, and every operation is shown to keep
  it for every reply of the API server, injected errors and conflicts included.
\<close>

section \<open>What the log of a run shows\<close>

definition uidSelector :: "DployInstanceClaim \<Rightarrow> selector" where
  "uidSelector c = [(LabelClaimUID, UID (cMeta c))]"

text \<open>The uncached read showed no live instance under the claim's UID.\<close>

definition holdsNothing :: "reader option \<Rightarrow> DployInstanceClaim \<Rightarrow> log \<Rightarrow> bool" where
  "holdsNothing R c h \<longleftrightarrow> (\<exists>items.
     EListInstances (reader_of R) (Namespace (cMeta c)) (uidSelector c) (Inr items) \<in> set h
     \<and> find live items = None)"

text \<open>The run saw an instance held by the claim: listed live under its UID, or won or created.\<close>

definition heldKey :: "DployInstanceClaim \<Rightarrow> log \<Rightarrow> NamespacedName \<Rightarrow> bool" where
  "heldKey c h k \<longleftrightarrow>
     (\<exists>rd items i. EListInstances rd (Namespace (cMeta c)) (uidSelector c) (Inr items) \<in> set h
        \<and> i \<in> set items \<and> live i \<and> objectKey (iMeta i) = k)
     \<or> (\<exists>x i. EUpdateInstance x (Inr i) \<in> set h \<and> objectKey (iMeta i) = k)
     \<or> (\<exists>x i. ECreateInstance x (Inr i) \<in> set h \<and> objectKey (iMeta i) = k)"

definition gaveBack :: "DployInstanceClaim \<Rightarrow> log \<Rightarrow> bool" where
  "gaveBack c h \<longleftrightarrow> (\<exists>k r. heldKey c h k \<and> EDeleteInstance k None r \<in> set h \<and> gone r)"

definition released :: "reader option \<Rightarrow> DployInstanceClaim \<Rightarrow> log \<Rightarrow> bool" where
  "released R c h \<longleftrightarrow> holdsNothing R c h \<or> gaveBack c h"

definition templateRead :: "DployInstanceClaim \<Rightarrow> log \<Rightarrow> DployTemplate \<Rightarrow> bool" where
  "templateRead c h tmpl \<longleftrightarrow>
     EGetTemplate \<lparr>nnNamespace = Namespace (cMeta c), nnName = cTemplateRef (cSpec c)\<rparr> (Inr tmpl) \<in> set h
     \<and> tEnabled (tSpec tmpl)"

text \<open>Instances of other claims that count against the owner.\<close>

definition othersHeld :: "DployInstanceClaim \<Rightarrow> DployInstance list \<Rightarrow> int" where
  "othersHeld c items = int (length (filter
     (\<lambda>i. live i \<and> get (Labels (iMeta i)) LabelClaimUID \<noteq> UID (cMeta c)) items))"

definition underQuota ::
  "reader option \<Rightarrow> DployInstanceClaim \<Rightarrow> DployTemplate \<Rightarrow> Effective \<Rightarrow> log \<Rightarrow> bool" where
  "underQuota R c tmpl eff h \<longleftrightarrow> ownerLimit tmpl eff \<le> 0 \<or> sanitize (cOwner (cSpec c)) = []
     \<or> (\<exists>items. EListInstances (reader_of R) (Namespace (cMeta c))
           [(LabelOwner, sanitize (cOwner (cSpec c)))] (Inr items) \<in> set h
         \<and> othersHeld c items < ownerLimit tmpl eff)"

text \<open>What has to be known before an environment may be handed out: the claim is not expired, holds
  nothing according to the API server itself, its deadline had not passed, its template is
  enabled, and its owner is under quota.\<close>

definition mayHandOut :: "api \<Rightarrow> reader option \<Rightarrow> DployInstanceClaim \<Rightarrow> log \<Rightarrow> DployTemplate \<Rightarrow> bool" where
  "mayHandOut A R c h tmpl \<longleftrightarrow> cPhase (cStatus c) \<noteq> ClaimExpired \<and> holdsNothing R c h
     \<and> (\<exists>t. ENow t \<in> set h \<and> \<not> isExpired c t)
     \<and> templateRead c h tmpl \<and> (\<exists>eff. configRead A h eff \<and> underQuota R c tmpl eff h)"

section \<open>What may be written\<close>

definition bindsFrom :: "DployInstanceClaim \<Rightarrow> log \<Rightarrow> DployTemplate \<Rightarrow> DployInstance \<Rightarrow> bool" where
  "bindsFrom c h tmpl i \<longleftrightarrow> (\<exists>items j b.
     EListInstances ClientCache (Namespace (cMeta c))
       [(LabelTemplate, Name (tMeta tmpl)), (LabelPooled, ''true'')] (Inr items) \<in> set h
     \<and> j \<in> set items \<and> isClaimable j \<and> i = claimCandidate c b j)"

definition underCap :: "reader option \<Rightarrow> log \<Rightarrow> DployTemplate \<Rightarrow> bool" where
  "underCap R h tmpl \<longleftrightarrow> maxTemplateSize tmpl \<le> 0 \<or> (\<exists>items.
     EListInstances (reader_of R) (Namespace (tMeta tmpl)) [(LabelTemplate, Name (tMeta tmpl))]
       (Inr items) \<in> set h \<and> int (length (filter live items)) < maxTemplateSize tmpl)"

definition createsFrom ::
  "api \<Rightarrow> reader option \<Rightarrow> DployInstanceClaim \<Rightarrow> log \<Rightarrow> DployTemplate \<Rightarrow> DployInstance \<Rightarrow> bool" where
  "createsFrom A R c h tmpl i \<longleftrightarrow> (\<exists>b ttl e meta.
       setControllerRef A (ownerRef ''DployInstanceClaim'' (cMeta c))
         (iMeta (onDemandInstance c tmpl b ttl e)) = Inr meta
       \<and> i = (onDemandInstance c tmpl b ttl e)\<lparr>iMeta := meta\<rparr>)
     \<and> (tMethod (tSpec tmpl) = MethodPool \<longrightarrow> \<not> cWaitForPool (cSpec c) \<and> underCap R h tmpl)"

definition sameObject :: "DployInstanceClaim \<Rightarrow> DployInstanceClaim \<Rightarrow> bool" where
  "sameObject c claim \<longleftrightarrow> cMeta claim = cMeta c \<and> cSpec claim = cSpec c"

definition syncsFrom :: "api \<Rightarrow> DployInstanceClaim \<Rightarrow> log \<Rightarrow> DployInstance \<Rightarrow> bool" where
  "syncsFrom A c h i \<longleftrightarrow> (\<exists>k cur claim ttl e. heldKey c h k
     \<and> EGetInstance ClientCache k (Inr cur) \<in> set h \<and> sameObject c claim
     \<and> desiredBinding A claim ttl e cur = Inr i)"

definition statusOk :: "reader option \<Rightarrow> DployInstanceClaim \<Rightarrow> log \<Rightarrow> DployInstanceClaim \<Rightarrow> bool" where
  "statusOk R c h new \<longleftrightarrow> sameObject c new \<and> cObservedGeneration (cStatus new) = Generation (cMeta c)
     \<and> (if cPhase (cStatus c) = ClaimExpired
        then cStatus new = (cStatus c)\<lparr>cObservedGeneration := Generation (cMeta c)\<rparr>
        else if cPhase (cStatus new) = ClaimBound
        then (\<exists>k. heldKey c h k \<and> nnName k = cInstanceRef (cStatus new))
          \<and> (\<exists>b. cBoundAt (cStatus new) = Some b
               \<and> cExpiresAt (cStatus new) = expiryFrom b (cGrantedTTL (cStatus new)))
          \<and> (\<exists>t. ENow t \<in> set h \<and> \<not> isExpired new t)
        else cPhase (cStatus new) \<noteq> ClaimUnset \<and> cInstanceRef (cStatus new) = []
          \<and> released R c h)"

definition claimGuard :: "api \<Rightarrow> reader option \<Rightarrow> DployInstanceClaim \<Rightarrow> log \<Rightarrow> event \<Rightarrow> bool" where
  "claimGuard A R c h e = (isRead e \<or> (case e of
      EUpdateInstance i r \<Rightarrow> (\<exists>tmpl. mayHandOut A R c h tmpl \<and> bindsFrom c h tmpl i)
        \<or> cPhase (cStatus c) \<noteq> ClaimExpired \<and> syncsFrom A c h i
    | ECreateInstance i r \<Rightarrow> (\<exists>tmpl. mayHandOut A R c h tmpl \<and> createsFrom A R c h tmpl i)
    | EDeleteInstance k p r \<Rightarrow> p = None \<and> cPhase (cStatus c) \<noteq> ClaimExpired \<and> heldKey c h k
    | EPatchClaimStatus orig new r \<Rightarrow> orig = c \<and> statusOk R c h new
    | _ \<Rightarrow> False))"

section \<open>The log only grows\<close>

lemma holdsNothing_grow [grow_intros]: "holdsNothing R c h \<Longrightarrow> holdsNothing R c (h @ es)"
  by (auto simp: holdsNothing_def)

lemma heldKey_grow [grow_intros]: "heldKey c h k \<Longrightarrow> heldKey c (h @ es) k"
  unfolding heldKey_def set_append by blast

lemma gaveBack_grow [grow_intros]: "gaveBack c h \<Longrightarrow> gaveBack c (h @ es)"
  unfolding gaveBack_def set_append by (blast intro: heldKey_grow)

lemma released_grow [grow_intros]: "released R c h \<Longrightarrow> released R c (h @ es)"
  by (auto simp: released_def intro: grow_intros)

lemma templateRead_grow [grow_intros]: "templateRead c h t \<Longrightarrow> templateRead c (h @ es) t"
  by (auto simp: templateRead_def)

lemma underQuota_grow [grow_intros]: "underQuota R c t eff h \<Longrightarrow> underQuota R c t eff (h @ es)"
  by (auto simp: underQuota_def)

lemma mayHandOut_grow [grow_intros]: "mayHandOut A R c h t \<Longrightarrow> mayHandOut A R c (h @ es) t"
  unfolding mayHandOut_def set_append by (blast intro: grow_intros)

lemma underCap_grow [grow_intros]: "underCap R h t \<Longrightarrow> underCap R (h @ es) t"
  by (auto simp: underCap_def)

lemma claimGuard_reads [simp]: "isRead e \<Longrightarrow> claimGuard A R c h e"
  by (simp add: claimGuard_def)

section \<open>Reading\<close>

text \<open>Each operation has one lemma: the guard holds throughout, and the log at its end justifies
  its result.\<close>

definition found :: "reader option \<Rightarrow> DployInstanceClaim \<Rightarrow> error + DployInstance option \<Rightarrow> log \<Rightarrow> bool" where
  "found R c r h = (case r of Inl e \<Rightarrow> True | Inr None \<Rightarrow> holdsNothing R c h
     | Inr (Some i) \<Rightarrow> heldKey c h (objectKey (iMeta i)))"

lemma found_simps [simp]:
  "found R c (Inl e) h" "found R c (Inr None) h = holdsNothing R c h"
  "found R c (Inr (Some i)) h = heldKey c h (objectKey (iMeta i))"
  by (simp_all add: found_def)

lemma uidSelector_fold: "[(LabelClaimUID, UID (cMeta c))] = uidSelector c"
  by (simp add: uidSelector_def)

lemma heldKey_listed:
  assumes "find live items = Some i"
  shows "heldKey c (h @ [EListInstances rd (Namespace (cMeta c)) (uidSelector c) (Inr items)])
      (objectKey (iMeta i))"
proof -
  have "i \<in> set items" "live i" using assms by (auto simp: find_Some_iff)
  then show ?thesis unfolding heldKey_def set_append by fastforce
qed

lemma lookupBound_spec:
  assumes "sameObject c claim"
  shows "wpe (claimGuard A R c) (lookupBound A rd claim) (\<lambda>r h'.
    (r = Inr None \<and> rd \<noteq> reader_of R) \<or> found R c r h') h"
proof -
  have eq: "cMeta claim = cMeta c" using assms by (simp add: sameObject_def)
  have none: "holdsNothing R c (h @ [EListInstances (reader_of R) (Namespace (cMeta c))
      (uidSelector c) (Inr items)])" if "find live items = None" for items
    using that by (auto simp: holdsNothing_def)
  have fnd: "(Inr (find live items) = Inr None \<and> rd \<noteq> reader_of R) \<or> found R c (Inr (find live items))
      (h @ [EListInstances rd (Namespace (cMeta c)) (uidSelector c) (Inr items)])" for items
    using none by (cases "find live items") (auto simp: heldKey_listed)
  show ?thesis
    unfolding lookupBound_def eq uidSelector_fold
  proof (intro wpe_bind wpe_calls conjI)
    fix r
    show "wpe (claimGuard A R c)
      (case r of Inl e \<Rightarrow> throw (wrapErr ''list bound instances'' e) | Inr items \<Rightarrow> ok (find live items))
      (\<lambda>r h'. (r = Inr None \<and> rd \<noteq> reader_of R) \<or> found R c r h')
      (h @ [EListInstances rd (Namespace (cMeta c)) (uidSelector c) r])"
      using fnd by (cases r) (auto intro!: wpe_return)
  qed simp
qed

lemma boundInstance_spec:
  assumes "sameObject c claim"
  shows "wpe (claimGuard A R c) (boundInstance A R claim) (found R c) h"
proof -
  have fresh: "wpe (claimGuard A R c) (lookupBound A rd claim) (found R c) h"
    if "rd = reader_of R" for rd h
    using lookupBound_spec [OF assms, of A R rd] that by simp
  show ?thesis
    unfolding boundInstance_def
    by (rule wpe_tryE, rule wpe_mono [OF lookupBound_spec [OF assms, of A R ClientCache]])
      (auto intro!: wpe_return fresh split: sum.splits if_splits)
qed

section \<open>Binding\<close>

lemma candidate_index: "xs \<noteq> [] \<Longrightarrow> xs ! (n mod length xs) \<in> set xs"
  by simp

definition wonKey :: "DployInstanceClaim \<Rightarrow> error + DployInstance option \<Rightarrow> log \<Rightarrow> bool" where
  "wonKey c r h = (case r of Inr (Some i) \<Rightarrow> heldKey c h (objectKey (iMeta i)) | _ \<Rightarrow> True)"

lemma wonKey_simps [simp]:
  "wonKey c (Inl e) h" "wonKey c (Inr None) h"
  "wonKey c (Inr (Some i)) h = heldKey c h (objectKey (iMeta i))"
  by (simp_all add: wonKey_def)

lemma heldKey_won [simp]:
  "heldKey c (h @ [EUpdateInstance x (Inr i)]) (objectKey (iMeta i))"
  "heldKey c (h @ [ECreateInstance y (Inr i)]) (objectKey (iMeta i))"
  by (auto simp: heldKey_def)

lemma claimCandidate_same:
  "sameObject c claim \<Longrightarrow> claimCandidate claim b j = claimCandidate c b j"
  by (simp add: claimCandidate_def sameObject_def)

lemma tryCandidates_spec:
  assumes same: "sameObject c claim"
    and "mayHandOut A R c h tmpl" and "\<forall>j\<in>set xs. bindsFrom c h tmpl (claimCandidate c b j)"
    and ne: "xs \<noteq> []"
  shows "wpe (claimGuard A R c) (tryCandidates A claim b xs start n) (wonKey c) h"
  using assms(2,3)
proof (induction n arbitrary: start h)
  case 0
  then show ?case by (auto intro: wpe_return)
next
  case (Suc n)
  let ?cand = "claimCandidate c b (xs ! (start mod length xs))"
  have g: "claimGuard A R c h (EUpdateInstance ?cand r)" for r
    using Suc.prems candidate_index [OF ne] by (auto simp: claimGuard_def)
  have more: "mayHandOut A R c (h @ [e]) tmpl" "\<forall>j\<in>set xs. bindsFrom c (h @ [e]) tmpl (claimCandidate c b j)"
    for e using Suc.prems unfolding bindsFrom_def set_append by (blast intro: grow_intros)+
  show ?case
    using more
    by (auto simp: claimCandidate_same [OF same] g Let_def
        intro!: wpe_rules Suc.IH split: sum.split)
qed

lemma acquirePooled_spec:
  assumes "sameObject c claim" and "mayHandOut A R c h tmpl"
  shows "wpe (claimGuard A R c) (acquirePooled A claim tmpl b) (wonKey c) h"
proof -
  have eq: "cMeta claim = cMeta c" using assms(1) by (simp add: sameObject_def)
  have b: "bindsFrom c (h @ [EListInstances ClientCache (Namespace (cMeta c))
      [(LabelTemplate, Name (tMeta tmpl)), (LabelPooled, ''true'')] (Inr items)]) tmpl (claimCandidate c b j)"
    if "j \<in> set items" "isClaimable j" for items j
    using that by (auto simp: bindsFrom_def)
  show ?thesis
    unfolding acquirePooled_def eq
    by (auto simp: Let_def filter_empty_conv b
        intro!: wpe_rules tryCandidates_spec [OF assms(1), where tmpl = tmpl]
          mayHandOut_grow assms(2) split: sum.split)
qed

definition underCapIf :: "reader option \<Rightarrow> DployTemplate \<Rightarrow> error + bool \<Rightarrow> log \<Rightarrow> bool" where
  "underCapIf R tmpl r h \<longleftrightarrow> (r = Inr False \<longrightarrow> underCap R h tmpl)"

lemma live_count: "length (sortSlice lt (filter live items)) = length (filter live items)"
  by simp

lemma overMaxSize_spec:
  "wpe (claimGuard A R c) (overMaxSize A R tmpl) (underCapIf R tmpl) h"
proof (cases "maxTemplateSize tmpl \<le> 0")
  case True
  then show ?thesis
    by (auto simp: overMaxSize_def Let_def underCapIf_def underCap_def intro!: wpe_return)
next
  case False
  have cap: "underCapIf R tmpl (Inr (int (length (filter live items)) \<ge> maxTemplateSize tmpl))
     (h @ [EListInstances (reader_of R) (Namespace (tMeta tmpl)) [(LabelTemplate, Name (tMeta tmpl))] (Inr items)])"
    for items by (auto simp: underCapIf_def underCap_def)
  show ?thesis
    using False unfolding overMaxSize_def templateInstances_def
    by (auto simp: cap underCapIf_def [of _ _ "Inl e" for e] intro!: wpe_rules split: sum.split)
qed

lemma onDemandInstance_same:
  "sameObject c claim \<Longrightarrow> onDemandInstance claim tmpl b ttl e = onDemandInstance c tmpl b ttl e"
  by (simp add: onDemandInstance_def sameObject_def)

lemma createOnDemand_spec:
  assumes same: "sameObject c claim" and may: "mayHandOut A R c h tmpl"
    and cap: "tMethod (tSpec tmpl) = MethodPool \<longrightarrow> \<not> cWaitForPool (cSpec c) \<and> underCap R h tmpl"
  shows "wpe (claimGuard A R c) (createOnDemand A claim tmpl b ttl e)
    (\<lambda>r. wonKey c (map_sum id Some r)) h"
proof -
  have eq: "cMeta claim = cMeta c" using same by (simp add: sameObject_def)
  have g: "claimGuard A R c h (ECreateInstance ((onDemandInstance c tmpl b ttl e)\<lparr>iMeta := meta\<rparr>) r)"
    if "setControllerRef A (ownerRef ''DployInstanceClaim'' (cMeta c))
      (iMeta (onDemandInstance c tmpl b ttl e)) = Inr meta" for meta r
  proof -
    have "createsFrom A R c h tmpl ((onDemandInstance c tmpl b ttl e)\<lparr>iMeta := meta\<rparr>)"
      using that cap unfolding createsFrom_def by blast
    with may show ?thesis by (auto simp: claimGuard_def)
  qed
  show ?thesis
    unfolding createOnDemand_def Let_def onDemandInstance_same [OF same] eq
    by (auto simp: g intro!: wpe_rules split: sum.split)
qed

lemma bindClaim_spec:
  assumes same: "sameObject c claim" and may: "mayHandOut A R c h tmpl"
  shows "wpe (claimGuard A R c) (bindClaim A R claim tmpl b ttl e) (wonKey c) h"
proof -
  have create: "wpe (claimGuard A R c)
      (tryE (createOnDemand A claim tmpl b ttl e) (\<lambda>i. ok (Some i))) (wonKey c) h'"
    if "mayHandOut A R c h' tmpl"
      and "tMethod (tSpec tmpl) = MethodPool \<longrightarrow> \<not> cWaitForPool (cSpec c) \<and> underCap R h' tmpl" for h'
    by (rule wpe_tryE, rule wpe_mono [OF createOnDemand_spec [OF same that]])
      (auto intro!: wpe_return split: sum.split)
  show ?thesis
  proof (cases "tMethod (tSpec tmpl) = MethodPool")
    case False
    then show ?thesis by (simp add: bindClaim_def Let_def create may)
  next
    case True
    have wait: "cWaitForPool (cSpec claim) = cWaitForPool (cSpec c)"
      using same by (simp add: sameObject_def)
    have rest: "wpe (claimGuard A R c) (tryE (overMaxSize A R tmpl) (\<lambda>over.
        if over then throw ErrTemplateAtCapacity
        else tryE (createOnDemand A claim tmpl b ttl e) (\<lambda>i. ok (Some i)))) (wonKey c) h'"
      if "mayHandOut A R c h' tmpl" "\<not> cWaitForPool (cSpec c)" for h'
      by (rule wpe_tryE, rule wpe_mono [OF overMaxSize_spec])
        (auto simp: underCapIf_def that intro!: wpe_return create mayHandOut_grow split: sum.split)
    show ?thesis
      unfolding bindClaim_def Let_def if_P [OF True] wait
      by (rule wpe_tryE, rule wpe_mono [OF acquirePooled_spec [OF same may]])
        (auto intro!: wpe_return rest mayHandOut_grow may split: sum.splits)
  qed
qed

section \<open>Quota\<close>

definition quotaVerdict ::
  "reader option \<Rightarrow> DployInstanceClaim \<Rightarrow> DployTemplate \<Rightarrow> Effective \<Rightarrow> error + bool \<times> int \<Rightarrow> log \<Rightarrow> bool" where
  "quotaVerdict R c tmpl eff r h =
     (case r of Inr (False, l) \<Rightarrow> underQuota R c tmpl eff h | _ \<Rightarrow> True)"

lemma quotaVerdict_simps [simp]:
  "quotaVerdict R c tmpl eff (Inl e) h" "quotaVerdict R c tmpl eff (Inr (True, l)) h"
  "quotaVerdict R c tmpl eff (Inr (False, l)) h = underQuota R c tmpl eff h"
  by (simp_all add: quotaVerdict_def)

lemma held_count:
  "int (length (filter P (sortSlice lt (filter live items)))) = int (length (filter (\<lambda>i. live i \<and> P i) items))"
proof -
  have "mset (filter P (sortSlice lt (filter live items))) = mset (filter P (filter live items))"
    by (simp only: mset_filter mset_sortSlice)
  then have "length (filter P (sortSlice lt (filter live items))) = length (filter P (filter live items))"
    by (metis size_mset)
  then show ?thesis by simp
qed

lemma overQuota_spec:
  assumes same: "sameObject c claim"
  shows "wpe (claimGuard A R c) (overQuota A R claim tmpl eff) (quotaVerdict R c tmpl eff) h"
proof -
  have eq: "cMeta claim = cMeta c" "cSpec claim = cSpec c"
    using same by (simp_all add: sameObject_def)
  have q: "quotaVerdict R c tmpl eff (Inr (ownerLimit tmpl eff \<le> int (length (filter
        (\<lambda>i. live i \<and> get (Labels (iMeta i)) LabelClaimUID \<noteq> UID (cMeta c)) items)), l))
      (h @ [EListInstances (reader_of R) (Namespace (cMeta c))
         [(LabelOwner, sanitize (cOwner (cSpec c)))] (Inr items)])" for items l
    by (cases "ownerLimit tmpl eff \<le> othersHeld c items")
      (auto simp: underQuota_def othersHeld_def)
  show ?thesis
    unfolding overQuota_def ownedInstances_def Let_def eq held_count
    by (auto simp: q held_count underQuota_def intro!: wpe_rules split: sum.split)
qed

section \<open>Giving back and recording\<close>

lemma deleteIfThere_spec:
  assumes "heldKey c h (objectKey (iMeta inst))" and "cPhase (cStatus c) \<noteq> ClaimExpired"
  shows "wpe (claimGuard A R c) (deleteIfThere A what inst) (okTo (\<lambda>_. gaveBack c)) h"
proof -
  have g: "claimGuard A R c h (EDeleteInstance (objectKey (iMeta inst)) None r)" for r
    using assms by (simp add: claimGuard_def)
  have given: "gaveBack c (h @ [EDeleteInstance (objectKey (iMeta inst)) None r])" if "gone r" for r
    using that assms(1) unfolding gaveBack_def set_append by (fastforce intro: heldKey_grow)
  show ?thesis
    unfolding deleteIfThere_def
    by (auto simp: g gone_def intro!: wpe_rules given split: sum.split)
qed

lemma releaseHeld_spec:
  assumes "sameObject c claim" and "cPhase (cStatus c) \<noteq> ClaimExpired"
  shows "wpe (claimGuard A R c) (releaseHeld A R claim) (okTo (\<lambda>_. released R c)) h"
proof -
  have del: "wpe (claimGuard A R c) (deleteIfThere A what i) (okTo (\<lambda>_. released R c)) h'"
    if "heldKey c h' (objectKey (iMeta i))" for what i h'
    by (rule wpe_mono [OF deleteIfThere_spec [OF that assms(2)]]) (auto simp: released_def okTo_def split: sum.splits)
  show ?thesis
    unfolding releaseHeld_def
    by (rule wpe_tryE, rule wpe_mono [OF boundInstance_spec [OF assms(1)]])
      (auto intro!: wpe_return del simp: released_def split: sum.splits option.split)
qed

definition observed :: "DployInstanceClaim \<Rightarrow> DployInstanceClaim" where
  "observed claim = cStatus_update (\<lambda>s. s\<lparr>cObservedGeneration := Generation (cMeta claim)\<rparr>) claim"

lemma patchStatus_spec:
  assumes "statusOk R c h (observed claim)"
  shows "wpe (claimGuard A R c) (patchStatus A c claim) (\<lambda>_ _. True) h"
proof -
  have g: "claimGuard A R c h (EPatchClaimStatus c (observed claim) r)" for r
    using assms by (simp add: claimGuard_def)
  show ?thesis
    unfolding patchStatus_def Let_def observed_def [symmetric]
    by (auto simp: g intro!: wpe_rules split: sum.split)
qed

lemma wpe_setClaimCondition [wpe_rules]:
  assumes "\<And>t cs. Q (cStatus_update (\<lambda>s. s\<lparr>cConditions := cs\<rparr>) claim) (h @ [ENow t])"
  shows "wpe (claimGuard A R c) (setClaimCondition A claim ty st re ms) Q h"
  unfolding setClaimCondition_def
  by (auto intro!: wpe_rules assms)

lemma pending_spec:
  assumes "sameObject c claim" and "cPhase (cStatus c) \<noteq> ClaimExpired" and "released R c h"
  shows "wpe (claimGuard A R c) (pending A c claim re ms) (\<lambda>_ _. True) h"
  unfolding pending_def Let_def
  by (intro wpe_bind wpe_setClaimCondition wpe_tryE wpe_mono [OF patchStatus_spec])
    (use assms in \<open>auto simp: statusOk_def sameObject_def observed_def released_grow
      intro: wpe_return split: sum.split\<close>)

lemma reject_spec:
  assumes "sameObject c claim" and "cPhase (cStatus c) \<noteq> ClaimExpired"
  shows "wpe (claimGuard A R c) (reject A R c claim re ms) (\<lambda>_ _. True) h"
proof -
  have rest: "wpe (claimGuard A R c) (do {
      claim2 \<leftarrow> setClaimCondition A (cStatus_update
        (\<lambda>s. s\<lparr>cPhase := ClaimRejected, cInstanceRef := [], cExpiresAt := None\<rparr>) claim)
        ConditionBound CondFalse re ms;
      tryE (patchStatus A c claim2) (\<lambda>_. ok (0 :: Duration)) }) (\<lambda>_ _. True) h'"
    if "released R c h'" for h'
    by (intro wpe_bind wpe_setClaimCondition wpe_tryE wpe_mono [OF patchStatus_spec])
      (use assms that in \<open>auto simp: statusOk_def sameObject_def observed_def released_grow
        intro: wpe_return split: sum.split\<close>)
  show ?thesis
    unfolding reject_def Let_def
    by (rule wpe_tryE, rule wpe_mono [OF releaseHeld_spec [OF assms]])
      (auto intro!: rest split: sum.splits)
qed

lemma expire_spec:
  assumes "sameObject c claim" and "cPhase (cStatus c) \<noteq> ClaimExpired"
    and "case inst of None \<Rightarrow> holdsNothing R c h | Some i \<Rightarrow> heldKey c h (objectKey (iMeta i))"
  shows "wpe (claimGuard A R c) (expire A c claim inst) (\<lambda>_ _. True) h"
proof -
  define claim1 where "claim1 = cStatus_update (\<lambda>s. s\<lparr>cPhase := ClaimExpired, cInstanceRef := [],
         cConnectionURL := [], cConnectionMessage := [], cInstancePhase := PhaseUnset,
         cHealth := []\<rparr>) claim"
  have rest: "wpe (claimGuard A R c) (do {
      claim2 \<leftarrow> setClaimCondition A claim1 ConditionBound CondFalse ''Expired'' expiredMessage;
      claim3 \<leftarrow> setClaimCondition A claim2 ConditionReady CondFalse ''Expired'' expiredMessage;
      tryE (patchStatus A c claim3) (\<lambda>_. ok (0 :: Duration)) }) (\<lambda>_ _. True) h'"
    if "released R c h'" for h'
    by (intro wpe_bind wpe_setClaimCondition wpe_tryE wpe_mono [OF patchStatus_spec])
      (use assms that in \<open>auto simp: claim1_def statusOk_def sameObject_def observed_def
        intro: wpe_return released_grow split: sum.split\<close>)
  have first: "wpe (claimGuard A R c) (case inst of None \<Rightarrow> ok ()
      | Some i \<Rightarrow> deleteIfThere A ''delete expired instance'' i) (okTo (\<lambda>_. released R c)) h"
    using assms(3)
    by (auto simp: released_def okTo_def intro!: wpe_return wpe_mono [OF deleteIfThere_spec [OF _ assms(2)]]
        split: option.splits sum.splits)
  show ?thesis
    unfolding expire_def Let_def claim1_def [symmetric]
    by (rule wpe_tryE, rule wpe_mono [OF first]) (auto intro!: rest split: sum.splits)
qed

section \<open>Synchronising and finishing\<close>

lemma syncInstance_spec:
  assumes same: "sameObject c claim" and alive: "cPhase (cStatus c) \<noteq> ClaimExpired"
    and held: "heldKey c h (objectKey (iMeta inst))"
  shows "wpe (claimGuard A R c) (syncInstance A claim inst ttl e)
    (okTo (\<lambda>i h'. heldKey c h' (objectKey (iMeta i)))) h"
  unfolding syncInstance_def
proof (rule wpe_retryOnConflict)
  fix es
  have held': "heldKey c (h @ es) (objectKey (iMeta inst))" using held by (rule heldKey_grow)
  have g: "claimGuard A R c ((h @ es) @ [EGetInstance ClientCache (objectKey (iMeta inst)) (Inr cur)])
      (EUpdateInstance d r)" if "desiredBinding A claim ttl e cur = Inr d" for cur d r
  proof -
    have "syncsFrom A c ((h @ es) @ [EGetInstance ClientCache (objectKey (iMeta inst)) (Inr cur)]) d"
      using that same heldKey_grow [OF held'] unfolding syncsFrom_def set_append by fastforce
    then show ?thesis using alive by (simp add: claimGuard_def)
  qed
  show "wpe (claimGuard A R c)
      (tryE (getInstance A ClientCache (objectKey (iMeta inst))) (\<lambda>cur.
        case desiredBinding A claim ttl e cur of Inl e \<Rightarrow> throw e
        | Inr desired \<Rightarrow> if deepEqual A cur desired then ok inst else updateInstance A desired))
      (okTo (\<lambda>i h'. heldKey c h' (objectKey (iMeta i)))) (h @ es)"
    using heldKey_grow [OF held']
    by (auto simp: okTo_def intro!: wpe_rules g [simplified] heldKey_won [of _ "(h @ es) @ [x]" for x, simplified]
        split: sum.splits)
qed

lemma wpe_project:
  assumes "\<And>es cs. Q (cStatus_update (\<lambda>s. s\<lparr>cPhase := ClaimBound, cInstanceRef := Name (iMeta inst),
       cUUID := iUUID (iStatus inst), cConnectionURL := iURL (iStatus inst),
       cConnectionType := iConnectionType (iStatus inst),
       cConnectionMessage := iConnectionMessage (iStatus inst),
       cInstancePhase := iPhase (iStatus inst), cHealth := iHealth (iStatus inst),
       cConditions := cs\<rparr>) claim) (h @ es)"
  shows "wpe (claimGuard A R c) (project A claim inst) Q h"
  unfolding project_def Let_def
  by (intro wpe_bind wpe_setClaimCondition)
    (auto intro!: wpe_setClaimCondition assms simp: comp_def split: option.split)

definition boundStatus :: "DployInstanceClaim \<Rightarrow> log \<Rightarrow> bool" where
  "boundStatus claim h \<longleftrightarrow> (\<exists>b. cBoundAt (cStatus claim) = Some b
       \<and> cExpiresAt (cStatus claim) = expiryFrom b (cGrantedTTL (cStatus claim)))
     \<and> (\<exists>t. ENow t \<in> set h \<and> \<not> isExpired claim t)"

lemma boundStatus_grow [grow_intros]: "boundStatus claim h \<Longrightarrow> boundStatus claim (h @ es)"
  by (auto simp: boundStatus_def)

lemma statusOk_bound:
  assumes "sameObject c claim" and "cPhase (cStatus c) \<noteq> ClaimExpired"
    and "boundStatus claim h" and "heldKey c h (objectKey (iMeta inst))"
  shows "statusOk R c h (observed (cStatus_update (\<lambda>s. s\<lparr>cPhase := ClaimBound,
       cInstanceRef := Name (iMeta inst), cUUID := u, cConnectionURL := url, cConnectionType := ct,
       cConnectionMessage := cm, cInstancePhase := ph, cHealth := he, cConditions := cs\<rparr>) claim))"
  using assms
  by (auto simp: statusOk_def sameObject_def observed_def boundStatus_def isExpired_def objectKey_def)

lemma finish_spec:
  assumes same: "sameObject c claim" and alive: "cPhase (cStatus c) \<noteq> ClaimExpired"
    and bound: "boundStatus claim h" and held: "heldKey c h (objectKey (iMeta inst))"
  shows "wpe (claimGuard A R c) (finish A c claim inst ttl s) (\<lambda>_ _. True) h"
proof -
  have rest: "wpe (claimGuard A R c) (do {
       claim1 \<leftarrow> project A claim i;
       tryE (patchStatus A c claim1) (\<lambda>claim2.
         case cExpiresAt (cStatus claim2) of
           None \<Rightarrow> ok (requeueDelay s 0)
         | Some e \<Rightarrow> do { now \<leftarrow> timeNow A; ok (requeueDelay s (timeSub e now)) }) }) (\<lambda>_ _. True) (h @ es)"
    if "heldKey c (h @ es) (objectKey (iMeta i))" for i es
    by (intro wpe_bind wpe_project wpe_tryE wpe_mono [OF patchStatus_spec] statusOk_bound same alive
          heldKey_grow that boundStatus_grow bound)
      (auto intro!: wpe_rules split: sum.split option.split)
  show ?thesis
    unfolding finish_def
    by (rule wpe_tryE, rule wpe_mono [OF syncInstance_spec [OF same alive held]])
      (auto intro!: rest split: sum.splits)
qed

section \<open>Evictions\<close>

lemma emits_ownedInstances: "emits (claimGuard A R c) (ownedInstances A R' claim)"
  unfolding ownedInstances_def Let_def
  by (auto intro!: emits_bind emits_calls emits_return split: sum.split)

lemma emits_templateInstances: "emits (claimGuard A R c) (templateInstances A R' ns t)"
  unfolding templateInstances_def
  by (auto intro!: emits_bind emits_calls emits_return split: sum.split)

definition evicted :: "DployInstanceClaim \<Rightarrow> bool \<times> int \<Rightarrow> log \<Rightarrow> bool" where
  "evicted c r h \<longleftrightarrow> (fst r \<longrightarrow> gaveBack c h)"

lemma evicted_simps [simp]: "evicted c (False, l) h" "evicted c (True, l) h = gaveBack c h"
  by (simp_all add: evicted_def)

lemma evict_rest:
  assumes "heldKey c h (objectKey (iMeta inst))" and "cPhase (cStatus c) \<noteq> ClaimExpired"
  shows "wpe (claimGuard A R c) (tryE (deleteIfThere A what inst) (\<lambda>_. ok (True, l))) (okTo (evicted c)) h"
  by (rule wpe_tryE, rule wpe_mono [OF deleteIfThere_spec [OF assms]])
    (auto intro!: wpe_return split: sum.splits)

lemma evictIfOverQuota_spec:
  assumes "heldKey c h (objectKey (iMeta inst))" and "cPhase (cStatus c) \<noteq> ClaimExpired"
  shows "wpe (claimGuard A R c) (evictIfOverQuota A R claim tmpl eff inst) (okTo (evicted c)) h"
  unfolding evictIfOverQuota_def Let_def
  by (auto intro!: wpe_tryE wpe_return wpe_emits [OF emits_ownedInstances]
      evict_rest [OF _ assms(2)] heldKey_grow assms(1) split: sum.split)

lemma evictIfOverMaxSize_spec:
  assumes "heldKey c h (objectKey (iMeta inst))" and "cPhase (cStatus c) \<noteq> ClaimExpired"
  shows "wpe (claimGuard A R c) (evictIfOverMaxSize A R tmpl inst) (okTo (evicted c)) h"
  unfolding evictIfOverMaxSize_def Let_def
  by (auto intro!: wpe_tryE wpe_return wpe_emits [OF emits_templateInstances]
      evict_rest [OF _ assms(2)] heldKey_grow assms(1) split: sum.split)

section \<open>The reconcile loop\<close>

lemma sameObject_status [simp]: "sameObject c (cStatus_update f claim) = sameObject c claim"
  by (simp add: sameObject_def)

lemma sameObject_set [simp]:
  "sameObject c (setBoundAt b claim) = sameObject c claim"
  "sameObject c (setExpiresAt e claim) = sameObject c claim"
  by (simp_all add: setBoundAt_def setExpiresAt_def)

lemma settle_spec:
  assumes same: "sameObject c claim" and alive: "cPhase (cStatus c) \<noteq> ClaimExpired"
    and bound: "boundStatus claim h" and held: "heldKey c h (objectKey (iMeta inst))"
  shows "wpe (claimGuard A R c) (settle A R c claim tmpl eff ttl inst) (\<lambda>_ _. True) h"
proof -
  have cap: "wpe (claimGuard A R c) (tryE (evictIfOverMaxSize A R tmpl inst) (\<lambda>(over, limit).
         if over
         then pending A c (setBoundAt None claim) ''TemplateAtCapacity'' (capacityMessage tmpl limit)
         else finish A c claim inst ttl True)) (\<lambda>_ _. True) (h @ es)" for es
    by (rule wpe_tryE, rule wpe_mono [OF evictIfOverMaxSize_spec [OF heldKey_grow [OF held] alive]])
      (auto simp: same alive released_def intro!: pending_spec finish_spec heldKey_grow held
        boundStatus_grow bound split: sum.splits prod.split)
  show ?thesis
    unfolding settle_def
    by (rule wpe_tryE, rule wpe_mono [OF evictIfOverQuota_spec [OF held alive]])
      (auto simp: same alive intro!: reject_spec cap split: sum.splits prod.split)
qed

lemma boundAt_read:
  "wpe (claimGuard A R c) (case cBoundAt (cStatus claim) of Some b \<Rightarrow> give b | None \<Rightarrow> boundAtOf A inst)
    (\<lambda>_ _. True) h"
  by (rule wpe_emits) (auto intro!: emits_return emits_boundAtOf split: option.split)

lemma afterDeadline_spec:
  assumes same: "sameObject c claim" and alive: "cPhase (cStatus c) \<noteq> ClaimExpired"
    and bound: "boundStatus claim h" and held: "heldKey c h (objectKey (iMeta inst))"
  shows "wpe (claimGuard A R c) (do {
       failed \<leftarrow> failedFor A (Some inst);
       if failed > instanceFailureGrace
       then reject A R c (setBoundAt None claim) ''InstanceFailed'' msg
       else do {
         now' \<leftarrow> timeNow A;
         if timeSub now' b < quotaSettleWindow
         then settle A R c claim tmpl eff ttl inst
         else finish A c claim inst ttl False } }) (\<lambda>_ _. True) h"
proof -
  have grown: "boundStatus claim (h @ es)" "heldKey c (h @ es) (objectKey (iMeta inst))" for es
    by (simp_all add: bound held grow_intros)
  show ?thesis
    by (intro wpe_bind wpe_emits [OF emits_failedFor])
      (auto simp: same alive grown intro!: reject_spec wpe_calls wpe_bind settle_spec finish_spec)
qed

lemma reconcileBound_spec:
  assumes same: "sameObject c claim" and alive: "cPhase (cStatus c) \<noteq> ClaimExpired"
    and held: "heldKey c h (objectKey (iMeta inst))" and ttl: "cGrantedTTL (cStatus claim) = ttl"
  shows "wpe (claimGuard A R c) (reconcileBound A R c claim tmpl eff ttl inst) (\<lambda>_ _. True) h"
proof -
  have bs: "boundStatus (setExpiresAt (expiryFrom b ttl) (setBoundAt (Some b) claim)) (h @ es @ [ENow t])"
    if "\<not> isExpired (setExpiresAt (expiryFrom b ttl) (setBoundAt (Some b) claim)) t" for b es t
    using that ttl by (auto simp: boundStatus_def setExpiresAt_def setBoundAt_def)
  show ?thesis
    unfolding reconcileBound_def Let_def
    by (intro wpe_bind wpe_mono [OF boundAt_read] wpe_calls conjI, simp)
      (auto simp: same alive heldKey_grow held bs intro!: expire_spec afterDeadline_spec)
qed

lemma reconcileUnbound_spec:
  assumes same: "sameObject c claim" and alive: "cPhase (cStatus c) \<noteq> ClaimExpired"
    and free: "holdsNothing R c h" and ttl: "cGrantedTTL (cStatus claim) = ttl"
    and time: "ENow t \<in> set h" "\<not> isExpired c t"
    and tmpl: "templateRead c h tmpl" and cfg: "configRead A h eff"
  shows "wpe (claimGuard A R c) (reconcileUnbound A R c claim tmpl eff ttl) (\<lambda>_ _. True) h"
proof -
  have may: "mayHandOut A R c (h @ es) tmpl" if "underQuota R c tmpl eff (h @ es)" for es
    using that alive free time tmpl cfg unfolding mayHandOut_def set_append
    by (blast intro: grow_intros)
  have free': "released R c (h @ es)" for es
    using free by (simp add: released_def holdsNothing_grow)
  have bindIt: "wpe (claimGuard A R c) (do {
         now \<leftarrow> timeNow A;
         r \<leftarrow> bindClaim A R claim tmpl (truncateSecond now) ttl (expiryFrom (truncateSecond now) ttl);
         case r of
           Inl e \<Rightarrow>
             if e = ErrTemplateAtCapacity
             then pending A c claim ''TemplateAtCapacity'' (capacityMessage tmpl (maxTemplateSize tmpl))
             else throw e
         | Inr None \<Rightarrow> pending A c claim ''PoolExhausted'' (waitingMessage tmpl)
         | Inr (Some inst) \<Rightarrow>
             reconcileBound A R c (setBoundAt (Some (truncateSecond now)) claim) tmpl eff ttl inst })
      (\<lambda>_ _. True) (h @ es)" if "underQuota R c tmpl eff (h @ es)" for es
  proof (intro wpe_bind wpe_calls conjI wpe_mono [OF bindClaim_spec [OF same]])
    show "mayHandOut A R c ((h @ es) @ [ENow now]) tmpl" for now
      using mayHandOut_grow [OF may [OF that]] .
  qed (auto simp: same alive free' ttl setBoundAt_def intro!: pending_spec wpe_return reconcileBound_spec
      split: sum.splits option.split)
  show ?thesis
    unfolding reconcileUnbound_def Let_def
    by (rule wpe_tryE, rule wpe_mono [OF overQuota_spec [OF same]])
      (auto simp: same alive intro!: reject_spec bindIt split: sum.splits prod.split)
qed

lemma resolveClaimTTL_same: "sameObject c claim \<Longrightarrow> resolveClaimTTL claim t eff = resolveClaimTTL c t eff"
  by (simp add: resolveClaimTTL_def sameObject_def)

lemma reconcileLive_spec:
  assumes alive: "cPhase (cStatus c) \<noteq> ClaimExpired"
  shows "wpe (claimGuard A R c) (reconcileLive A R c) (\<lambda>_ _. True) h"
proof -
  define key where "key = \<lparr>nnNamespace = Namespace (cMeta c), nnName = cTemplateRef (cSpec c)\<rparr>"
  have self: "sameObject c c" by (simp add: sameObject_def)
  have go: "wpe (claimGuard A R c) (tryE (boundInstance A R claim) (\<lambda>held. do {
             now \<leftarrow> timeNow A;
             if isExpired claim now then expire A c claim held
             else (case held of
                 None \<Rightarrow> reconcileUnbound A R c claim tmpl eff ttl
               | Some inst \<Rightarrow> reconcileBound A R c claim tmpl eff ttl inst) })) (\<lambda>_ _. True)
      (h @ [EGetTemplate key (Inr tmpl), EGetConfig configKey rc])"
    if "tEnabled (tSpec tmpl)" "effectiveOf A rc = Inr eff" "sameObject c claim"
      "cGrantedTTL (cStatus claim) = ttl" "cExpiresAt (cStatus claim) = cExpiresAt (cStatus c)"
    for tmpl rc eff ttl claim
  proof -
    note outer = that
    define g where "g = h @ [EGetTemplate key (Inr tmpl), EGetConfig configKey rc]"
    have t: "templateRead c (g @ es) tmpl" "configRead A (g @ es) eff" for es
      using that by (auto simp: templateRead_def configRead_def g_def key_def)
    have e: "isExpired claim now = isExpired c now" for now
      by (simp add: isExpired_def that)
    have branch: "wpe (claimGuard A R c) (if isExpired claim now then expire A c claim held
             else (case held of
                 None \<Rightarrow> reconcileUnbound A R c claim tmpl eff ttl
               | Some inst \<Rightarrow> reconcileBound A R c claim tmpl eff ttl inst)) (\<lambda>_ _. True)
        (g @ es @ [ENow now])" if f: "found R c (Inr held) (g @ es)" for held now es
    proof -
      have none: "holdsNothing R c (g @ es @ [ENow now])" if "held = None"
        using f that holdsNothing_grow [of R c "g @ es" "[ENow now]"] by simp
      have some: "heldKey c (g @ es @ [ENow now]) (objectKey (iMeta i))" if "held = Some i" for i
        using f that heldKey_grow [of c "g @ es" _ "[ENow now]"] by simp
      show ?thesis
      proof (cases "isExpired c now")
        case True
        then show ?thesis
          using none some by (auto simp: e outer alive intro!: expire_spec split: option.split)
      next
        case False
        then show ?thesis
          using none some t [of "es @ [ENow now]"]
          by (auto simp: e outer alive intro!: reconcileUnbound_spec [where t = now] reconcileBound_spec
              split: option.split)
      qed
    qed
    show ?thesis
      unfolding g_def [symmetric]
      by (rule wpe_tryE, rule wpe_mono [OF boundInstance_spec [OF that(3)]])
        (auto intro!: wpe_bind wpe_calls branch split: sum.splits split del: if_split)
  qed
  have resolved: "wpe (claimGuard A R c) (tryE (Resolve A) (\<lambda>eff.
           case resolveClaimTTL c tmpl eff of (ttl, maxTTL) \<Rightarrow>
           tryE (boundInstance A R (cStatus_update (\<lambda>s. s\<lparr>cGrantedTTL := ttl, cMaxTTLSeconds := maxTTL\<rparr>) c))
             (\<lambda>held. do {
             now \<leftarrow> timeNow A;
             if isExpired (cStatus_update (\<lambda>s. s\<lparr>cGrantedTTL := ttl, cMaxTTLSeconds := maxTTL\<rparr>) c) now
             then expire A c (cStatus_update (\<lambda>s. s\<lparr>cGrantedTTL := ttl, cMaxTTLSeconds := maxTTL\<rparr>) c) held
             else (case held of
                 None \<Rightarrow> reconcileUnbound A R c
                   (cStatus_update (\<lambda>s. s\<lparr>cGrantedTTL := ttl, cMaxTTLSeconds := maxTTL\<rparr>) c) tmpl eff ttl
               | Some inst \<Rightarrow> reconcileBound A R c
                   (cStatus_update (\<lambda>s. s\<lparr>cGrantedTTL := ttl, cMaxTTLSeconds := maxTTL\<rparr>) c)
                   tmpl eff ttl inst) }))) (\<lambda>_ _. True) (h @ [EGetTemplate key (Inr tmpl)])"
    if "tEnabled (tSpec tmpl)" for tmpl
    by (rule wpe_tryE, rule wpe_Resolve) (auto simp: that self intro!: go split: sum.split prod.split)
  show ?thesis
    unfolding reconcileLive_def Let_def key_def [symmetric]
    by (auto simp: self alive intro!: wpe_bind wpe_calls wpe_return reject_spec resolved split: sum.split)
qed

text \<open>The run as a whole: nothing but reads before the claim is read; then either the labels are
  stamped and the run ends, or every event meets the guard of the claim it read.\<close>

definition runGuard :: "api \<Rightarrow> reader option \<Rightarrow> NamespacedName \<Rightarrow> log \<Rightarrow> event \<Rightarrow> bool" where
  "runGuard A R req h e \<longleftrightarrow> isRead e \<or> (\<exists>c. EGetClaim req (Inr c) \<in> set h
     \<and> isZeroPtr (DeletionTimestamp (cMeta c))
     \<and> (if fst (ensureMeta c) then (\<exists>r. e = EUpdateClaim (snd (ensureMeta c)) r)
        else claimGuard A R c h e))"

lemma ensureMeta_same: "fst (ensureMeta c) = False \<Longrightarrow> snd (ensureMeta c) = c"
proof -
  assume "fst (ensureMeta c) = False"
  then have "fst (stampLabels (claimWant c) (Labels (cMeta c))) = False"
    by (simp add: ensureMeta_def split: prod.splits)
  then obtain l where l: "stampLabels (claimWant c) (Labels (cMeta c)) = (False, l)"
    by (metis fst_conv surj_pair)
  then have "l = Labels (cMeta c)" using stampLabels_unchanged by blast
  with l show ?thesis by (cases c) (simp add: ensureMeta_def)
qed

lemma runGuard_claim:
  assumes "EGetClaim req (Inr c) \<in> set h" and "isZeroPtr (DeletionTimestamp (cMeta c))"
    and "\<not> fst (ensureMeta c)" and "wpe (claimGuard A R c) m (\<lambda>_ _. True) h"
  shows "wpe (runGuard A R req) m (\<lambda>_ _. True) h"
proof -
  have "all_steps (runGuard A R req) h es" if "all_steps (claimGuard A R c) h es" for es
    using that assms(1)
  proof (induction es arbitrary: h)
    case (Cons e es)
    then show ?case using assms(2,3) by (auto simp: runGuard_def)
  qed simp
  then show ?thesis using assms(4) by (auto simp: wpe_def)
qed

lemma Reconcile_spec: "wpe (runGuard A R req) (Reconcile A R req) (\<lambda>_ _. True) h"
proof -
  have live: "wpe (runGuard A R req) (reconcileLive A R c) (\<lambda>_ _. True) (h @ [EGetClaim req (Inr c)])"
    if "isZeroPtr (DeletionTimestamp (cMeta c))" "\<not> fst (ensureMeta c)"
      "cPhase (cStatus c) \<noteq> ClaimExpired" for c
    using that by (intro runGuard_claim [of _ c] reconcileLive_spec) auto
  have obs: "wpe (runGuard A R req) (tryE (observe A c c) (\<lambda>_. ok (0 :: Duration))) (\<lambda>_ _. True)
      (h @ [EGetClaim req (Inr c)])"
    if "isZeroPtr (DeletionTimestamp (cMeta c))" "\<not> fst (ensureMeta c)"
      "cPhase (cStatus c) = ClaimExpired" for c
  proof (rule runGuard_claim [of _ c])
    have "statusOk R c l (observed c)" for l
      using that by (auto simp: statusOk_def observed_def sameObject_def)
    then show "wpe (claimGuard A R c) (tryE (observe A c c) (\<lambda>_. ok (0 :: Duration))) (\<lambda>_ _. True)
        (h @ [EGetClaim req (Inr c)])"
      unfolding observe_def
      by (auto intro!: wpe_rules wpe_mono [OF patchStatus_spec] split: sum.split)
  qed (use that in auto)
  have reads: "runGuard A R req h (EGetClaim req r)" for r by (simp add: runGuard_def)
  have body: "wpe (runGuard A R req) (reconcileRead A R c0) (\<lambda>_ _. True) (h @ [EGetClaim req (Inr c0)])"
    for c0
  proof (cases "isZeroPtr (DeletionTimestamp (cMeta c0))")
    case False
    then show ?thesis by (simp add: reconcileRead_def wpe_return)
  next
    case alive: True
    obtain ch c where em: "ensureMeta c0 = (ch, c)" by fastforce
    show ?thesis
    proof (cases ch)
      case True
      have "runGuard A R req (h @ [EGetClaim req (Inr c0)]) (EUpdateClaim c r)" for r
        using em True alive by (auto simp: runGuard_def intro!: exI [of _ c0])
      with em True alive show ?thesis
        by (auto simp: reconcileRead_def intro!: wpe_rules split: sum.split)
    next
      case False
      then have "c = c0" using ensureMeta_same [of c0] em by simp
      with em False alive live [of c0] obs [of c0] show ?thesis
        by (auto simp: reconcileRead_def intro!: wpe_return split: ClaimPhase.split)
    qed
  qed
  show ?thesis
    unfolding Reconcile_def
    by (auto intro!: wpe_bind wpe_calls wpe_return reads body split: sum.split)
qed

text \<open>The contract of the controller.\<close>

interpretation claim_run: guarded_run "Reconcile A R req" "runGuard A R req" "\<lambda>_ _. True" for A R req
  by unfold_locales (rule Reconcile_spec)

end
