(* ===== verification/Samples.thy ===== *)
theory Samples
imports Api
begin

text \<open>
  One concrete environment for the examples: an API server that holds nothing and accepts every
  write, and the documented behaviour of the apimachinery helpers. Each example overrides the
  replies it needs, so that the hypotheses of a theorem can be checked on a definite run.
\<close>

section \<open>Conditions and owner references as apimachinery documents them\<close>

text \<open>\<open>SetStatusCondition\<close>: a condition of the same type is replaced, and its transition time moves
  only when its status changes; otherwise the condition is appended.\<close>

fun setCondition :: "Time \<Rightarrow> Condition list \<Rightarrow> Condition \<Rightarrow> Condition list" where
  "setCondition t [] c = [c\<lparr>condLastTransitionTime := t\<rparr>]"
| "setCondition t (d # ds) c =
     (if condType d = condType c
      then c\<lparr>condLastTransitionTime :=
             (if condStatus d = condStatus c then condLastTransitionTime d else t)\<rparr> # ds
      else d # setCondition t ds c)"

definition findCondition :: "Condition list \<Rightarrow> string \<Rightarrow> Condition option" where
  "findCondition cs t = find (\<lambda>c. condType c = t) cs"

definition conditionTrue :: "Condition list \<Rightarrow> string \<Rightarrow> bool" where
  "conditionTrue cs t = (case findCondition cs t of None \<Rightarrow> False | Some c \<Rightarrow> condStatus c = CondTrue)"

definition addController :: "OwnerReference \<Rightarrow> ObjectMeta \<Rightarrow> error + ObjectMeta" where
  "addController r m =
     (if \<exists>q\<in>set (OwnerReferences m). refController q \<and> refUID q \<noteq> refUID r
      then Inl (ApiError OtherReason ''already owned by another controller'')
      else Inr (m\<lparr>OwnerReferences := [q\<leftarrow>OwnerReferences m. refUID q \<noteq> refUID r] @ [r]\<rparr>))"

lemma findCondition_set:
  "findCondition (setCondition t cs c) ty =
     (if ty = condType c
      then Some (c\<lparr>condLastTransitionTime :=
        (case findCondition cs (condType c) of
           Some d \<Rightarrow> if condStatus d = condStatus c then condLastTransitionTime d else t
         | None \<Rightarrow> t)\<rparr>)
      else findCondition cs ty)"
  by (induction t cs c rule: setCondition.induct) (auto simp: findCondition_def)

section \<open>The environment\<close>

definition missing :: error where "missing = ApiError NotFound ''not found''"

definition stubApi :: api where
  "stubApi = \<lparr>
     reNow = (\<lambda>h. 0),
     reFreshUUID = (\<lambda>h. ''0f8fad5b-d9cb-469f-a165-70867728950e''),
     reGetClaim = (\<lambda>h k. Inl missing),
     reGetTemplate = (\<lambda>h k. Inl missing),
     reGetInstance = (\<lambda>h rd k. Inl missing),
     reGetConfig = (\<lambda>h k. Inl missing),
     reGetRelease = (\<lambda>h k. Inl missing),
     reListInstances = (\<lambda>h rd ns sel. Inr []),
     reListClaims = (\<lambda>h ns sel. Inr []),
     reListClaimsIn = (\<lambda>h ns k vs. Inr []),
     reListTemplates = (\<lambda>h ns. Inr []),
     reUpdateClaim = (\<lambda>h c. Inr c),
     rePatchClaimStatus = (\<lambda>h c0 c. Inr c),
     reCreateClaim = (\<lambda>h c. Inr c),
     rePatchClaim = (\<lambda>h c0 c. Inr c),
     reDeleteClaim = (\<lambda>h k u. Inr ()),
     reCreateInstance = (\<lambda>h i. Inr i),
     reUpdateInstance = (\<lambda>h i. Inr i),
     reDeleteInstance = (\<lambda>h k p. Inr ()),
     rePatchInstanceStatus = (\<lambda>h i0 i. Inr i),
     rePatchTemplateStatus = (\<lambda>h t0 t. Inr t),
     rePatchConfigStatus = (\<lambda>h c0 c. Inr c),
     reFetchNamespace = (\<lambda>h n. Inr \<lparr>nsName = n, nsLabels = Map.empty\<rparr>),
     reApplyNamespace = (\<lambda>h n. Inr ()),
     reDeleteNamespace = (\<lambda>h n. Inr ()),
     reFetchSource = (\<lambda>h kd k. Inr \<lparr>srcMeta = emptyMeta\<lparr>Name := nnName k, Namespace := nnNamespace k\<rparr>,
        srcURL = [], srcRepoType = [], srcBranch = None, srcInterval = 0\<rparr>),
     reApplySource = (\<lambda>h kd s. Inr ()),
     reFetchChart = (\<lambda>h k. Inr \<lparr>hcMeta = emptyMeta\<lparr>Name := nnName k, Namespace := nnNamespace k\<rparr>,
        hcChart = [], hcInterval = 0, hcSourceKind = [], hcSourceName = [], hcVersion = [],
        hcConditions = []\<rparr>),
     reApplyChart = (\<lambda>h c. Inr c),
     reFetchRelease = (\<lambda>h k. Inr \<lparr>hrMeta = emptyMeta\<lparr>Name := nnName k, Namespace := nnNamespace k\<rparr>,
        hrChart = [], hrVersion = [], hrValuesFiles = [], hrSourceKind = [], hrSourceName = [],
        hrReleaseName = [], hrTargetNamespace = [], hrStorageNamespace = [], hrInterval = 0,
        hrInstallRetries = 0, hrValues = None, hrConditions = []\<rparr>),
     reApplyRelease = (\<lambda>h r. Inr ()),
     reDeleteRelease = (\<lambda>h k. Inr ()),
     conflictRetries = 4,
     deleteNil = None,
     setCond = setCondition,
     findCond = findCondition,
     condIsTrue = conditionTrue,
     setControllerRef = addController,
     hasFinalizer = (\<lambda>m f. f \<in> set (Finalizers m)),
     addFinalizer = (\<lambda>m f. if f \<in> set (Finalizers m) then m
       else m\<lparr>Finalizers := Finalizers m @ [f]\<rparr>),
     removeFinalizer = (\<lambda>m f. m\<lparr>Finalizers := filter (\<lambda>x. x \<noteq> f) (Finalizers m)\<rparr>),
     deepEqual = (\<lambda>a b. False),
     parseTemplate = (\<lambda>n t. Inr t),
     executeTemplate = (\<lambda>t d. Inr t),
     yamlToJSON = (\<lambda>s. Inr s),
     decodeValues = (\<lambda>s. Inr s),
     fluxReadyCondition = ''Ready'',
     fluxReconcilingCondition = ''Reconciling'',
     fluxProgressingReason = ''Progressing'',
     fluxProgressingWithRetryReason = ''ProgressingWithRetry'',
     helmRepositoryKind = ''HelmRepository'',
     gitRepositoryKind = ''GitRepository'',
     helmRepositoryTypeDefault = ''default'',
     helmRepositoryTypeOCI = ''oci''\<rparr>"

lemma stubApi_simps [simp]:
  "reNow stubApi h = 0" "reGetConfig stubApi h k = Inl missing"
  "reListInstances stubApi h rd ns sel = Inr []" "rePatchClaimStatus stubApi h c0 c1 = Inr c1"
  "reDeleteInstance stubApi h k p = Inr ()" "rePatchTemplateStatus stubApi h t0 t1 = Inr t1"
  "rePatchInstanceStatus stubApi h i0 i1 = Inr i1" "reGetClaim stubApi h k = Inl missing"
  "reCreateInstance stubApi h i = Inr i" "reUpdateInstance stubApi h i = Inr i"
  by (simp_all add: stubApi_def)

lemma hasReason_missing [simp]: "hasReason r missing = (r = NotFound)"
  by (simp add: missing_def)

end
