(* ===== verification/ClaimProps.thy ===== *)
theory ClaimProps
imports ClaimGuarantee Samples
begin

text \<open>
  The properties of the claim controller. The first group reads the guarantee of
  \<open>ClaimGuarantee\<close> off a whole run, one aspect at a time; the second says what a run does on the
  branches that matter (a passed deadline, a full template, a lost slot); the third is the ranking
  rule on which concurrent claims agree.
\<close>

section \<open>What a run writes\<close>

definition claimRead :: "NamespacedName \<Rightarrow> log \<Rightarrow> DployInstanceClaim \<Rightarrow> bool" where
  "claimRead req h c \<longleftrightarrow> EGetClaim req (Inr c) \<in> set h \<and> isZeroPtr (DeletionTimestamp (cMeta c))
     \<and> \<not> fst (ensureMeta c)"

definition handoutOk :: "api \<Rightarrow> reader option \<Rightarrow> NamespacedName \<Rightarrow> log \<Rightarrow> event \<Rightarrow> bool" where
  "handoutOk A R req h e = (case e of
      ECreateInstance i r \<Rightarrow>
        (\<exists>c tmpl. claimRead req h c \<and> mayHandOut A R c h tmpl \<and> createsFrom A R c h tmpl i)
    | EUpdateInstance i r \<Rightarrow>
        (\<exists>c tmpl. claimRead req h c \<and> mayHandOut A R c h tmpl \<and> bindsFrom c h tmpl i)
        \<or> (\<exists>c. claimRead req h c \<and> syncsFrom A c h i)
    | _ \<Rightarrow> True)"

text \<open>A status that leaves the claim without an environment follows the release of whatever it
  held.\<close>

definition releaseOk :: "reader option \<Rightarrow> NamespacedName \<Rightarrow> log \<Rightarrow> event \<Rightarrow> bool" where
  "releaseOk R req h e = (case e of
      EPatchClaimStatus orig new r \<Rightarrow>
        (\<exists>c. claimRead req h c \<and> orig = c \<and> sameObject c new
           \<and> (cPhase (cStatus c) \<noteq> ClaimExpired \<and> cPhase (cStatus new) \<noteq> ClaimBound
              \<longrightarrow> cInstanceRef (cStatus new) = [] \<and> released R c h))
    | EDeleteInstance k p r \<Rightarrow> (\<exists>c. claimRead req h c \<and> p = None \<and> heldKey c h k)
    | _ \<Rightarrow> True)"

text \<open>A status that says Bound names an instance the run saw held by the claim, and a deadline
  that follows from the recorded anchor and granted lifetime and had not passed.\<close>

definition boundOk :: "NamespacedName \<Rightarrow> log \<Rightarrow> event \<Rightarrow> bool" where
  "boundOk req h e = (case e of
      EPatchClaimStatus orig new r \<Rightarrow> cPhase (cStatus new) = ClaimBound \<longrightarrow>
        (\<exists>c. claimRead req h c \<and> (\<exists>k. heldKey c h k \<and> nnName k = cInstanceRef (cStatus new)))
        \<and> boundStatus new h
    | _ \<Rightarrow> True)"

text \<open>An expired claim is left as it is, but for the generation it was seen at; and a claim that
  is being deleted is not written at all.\<close>

definition terminalOk :: "NamespacedName \<Rightarrow> log \<Rightarrow> event \<Rightarrow> bool" where
  "terminalOk req h e \<longleftrightarrow> isRead e \<or> (\<exists>c. EGetClaim req (Inr c) \<in> set h
     \<and> isZeroPtr (DeletionTimestamp (cMeta c))
     \<and> (cPhase (cStatus c) = ClaimExpired \<longrightarrow>
          (\<exists>r. e = EUpdateClaim (snd (ensureMeta c)) r \<or> e = EPatchClaimStatus c (observed c) r)))"

text \<open>The kinds of writes the controller makes at all.\<close>

definition claimWrites :: "log \<Rightarrow> event \<Rightarrow> bool" where
  "claimWrites h e \<longleftrightarrow> isRead e \<or> (case e of
      EUpdateClaim _ _ \<Rightarrow> True | EPatchClaimStatus _ _ _ \<Rightarrow> True | ECreateInstance _ _ \<Rightarrow> True
    | EUpdateInstance _ _ \<Rightarrow> True | EDeleteInstance _ _ _ \<Rightarrow> True | _ \<Rightarrow> False)"

lemma runGuard_cases:
  assumes "runGuard A R req h e"
  obtains "isRead e"
  | c r where "EGetClaim req (Inr c) \<in> set h" "isZeroPtr (DeletionTimestamp (cMeta c))"
      "e = EUpdateClaim (snd (ensureMeta c)) r"
  | c where "claimRead req h c" "claimGuard A R c h e"
  using assms unfolding runGuard_def claimRead_def by metis

lemma isRead_not [simp]:
  "\<not> isRead (EUpdateInstance i r)" "\<not> isRead (ECreateInstance i r)" "\<not> isRead (EDeleteInstance k p r')"
  "\<not> isRead (EPatchClaimStatus c0 c1 r1)" "\<not> isRead (EUpdateClaim c0 r1)"
  by (simp_all add: isRead_def)

lemma claimGuard_simps:
  "claimGuard A R c h (EUpdateInstance i r) \<longleftrightarrow>
     (\<exists>tmpl. mayHandOut A R c h tmpl \<and> bindsFrom c h tmpl i)
     \<or> cPhase (cStatus c) \<noteq> ClaimExpired \<and> syncsFrom A c h i"
  "claimGuard A R c h (ECreateInstance i r) \<longleftrightarrow>
     (\<exists>tmpl. mayHandOut A R c h tmpl \<and> createsFrom A R c h tmpl i)"
  "claimGuard A R c h (EDeleteInstance k p r') \<longleftrightarrow>
     p = None \<and> cPhase (cStatus c) \<noteq> ClaimExpired \<and> heldKey c h k"
  "claimGuard A R c h (EPatchClaimStatus c0 c1 r1) \<longleftrightarrow> c0 = c \<and> statusOk R c h c1"
  by (simp_all add: claimGuard_def)

lemma claimGuard_kinds:
  "claimGuard A R c h e \<Longrightarrow> isRead e \<or> (case e of EUpdateInstance _ _ \<Rightarrow> True | ECreateInstance _ _ \<Rightarrow> True
     | EDeleteInstance _ _ _ \<Rightarrow> True | EPatchClaimStatus _ _ _ \<Rightarrow> True | _ \<Rightarrow> False)"
  by (cases e) (simp_all add: claimGuard_def)

text \<open>C3. No environment is handed out but to a claim that may have one. Whatever the API server
  answers, an instance is created, or a warm one taken, only for a claim that was read, is not
  being deleted and not expired; that the API server, not the cache, showed holding no live
  instance; whose deadline had not passed; whose template is enabled; and whose owner was under
  quota by an uncached count. A warm one was listed as claimable, and is written with the claim's
  UID over the listed copy; a fresh one for a pooled template only if the claim does not wait for
  the pool and the template was under its cap. Every other instance update rewrites an instance
  the claim was seen to hold, from the copy just read.\<close>

theorem handouts_justified:
  "all_steps (handoutOk A R req) [] (logged (Reconcile A R req) [])"
  by (rule claim_run.steps, erule runGuard_cases)
    (auto simp: handoutOk_def claimGuard_simps split: event.split)

text \<open>C4. A claim is never left without its environment while the environment lives on: every
  status write that is not Bound (pending, rejected or expired) comes after the uncached read
  showed the claim holding nothing, or after the instance it held was deleted or found gone; and
  the controller deletes no instance but one it saw held by this claim.\<close>

theorem released_before_recorded:
  "all_steps (releaseOk R req) [] (logged (Reconcile A R req) [])"
proof (rule claim_run.steps, erule runGuard_cases)
  fix h e c
  assume "claimRead req h c" "claimGuard A R c h e"
  then show "releaseOk R req h e"
    by (auto simp: releaseOk_def claimGuard_simps statusOk_def split: event.split)
qed (auto simp: releaseOk_def isRead_def split: event.splits)

text \<open>C17. A claim recorded as Bound names an instance it was seen to hold, has its binding anchor
  and its deadline computed from that anchor and the lifetime granted in the same status, and the
  deadline had not passed when the clock was read.\<close>

theorem bound_status_consistent:
  "all_steps (boundOk req) [] (logged (Reconcile A R req) [])"
proof (rule claim_run.steps, erule runGuard_cases)
  fix h e c
  assume "claimRead req h c" "claimGuard A R c h e"
  then show "boundOk req h e"
    by (auto simp: boundOk_def claimGuard_simps statusOk_def boundStatus_def split: event.split if_splits)
qed (auto simp: boundOk_def isRead_def split: event.splits)

text \<open>C18. Expired is final. A claim read as expired is written in no other way than to record the
  generation it was seen at (or to stamp its labels): nothing is bound, created or deleted for it,
  and its phase never changes again. A claim that is being deleted is not written at all.\<close>

theorem expired_is_final:
  "all_steps (terminalOk req) [] (logged (Reconcile A R req) [])"
proof (rule claim_run.steps, erule runGuard_cases)
  fix h e c
  assume c: "claimRead req h c" "claimGuard A R c h e"
  show "terminalOk req h e"
  proof (cases "cPhase (cStatus c) = ClaimExpired \<and> \<not> isRead e")
    case True
    then obtain new r where e: "e = EPatchClaimStatus c new r" "statusOk R c h new"
      using c(2) by (cases e) (auto simp: claimGuard_def mayHandOut_def)
    with True have "new = observed c"
      by (cases new; cases c) (simp add: statusOk_def sameObject_def observed_def)
    with e c(1) show ?thesis by (auto simp: terminalOk_def claimRead_def)
  qed (use c in \<open>auto simp: terminalOk_def claimRead_def\<close>)
qed (auto simp: terminalOk_def)

section \<open>Ranking\<close>

interpretation oldest: slice_order olderFirst "\<lambda>i. Name (iMeta i)"
proof
  fix x y z :: DployInstance
  show "olderFirst x y \<Longrightarrow> \<not> olderFirst y x"
    by (auto simp: olderFirst_def split: if_splits)
  show "olderFirst x y \<Longrightarrow> olderFirst y z \<Longrightarrow> olderFirst x z"
    by (auto simp: olderFirst_def split: if_splits)
  show "Name (iMeta x) \<noteq> Name (iMeta y) \<Longrightarrow> olderFirst x y \<or> olderFirst y x"
    by (auto simp: olderFirst_def)
qed

definition ranked :: "DployInstance list \<Rightarrow> DployInstance list" where
  "ranked items = sortSlice olderFirst (filter live items)"

lemma distinct_names_live:
  "distinct (map (\<lambda>i. Name (iMeta i)) items) \<Longrightarrow> distinct (map (\<lambda>i. Name (iMeta i)) (filter live items))"
  by (simp add: distinct_map_filter)

lemma indexOf_name:
  assumes "distinct (map (\<lambda>i. Name (iMeta i)) xs)" and "n < length xs"
  shows "indexOf (\<lambda>i. Name (iMeta i) = Name (iMeta (xs ! n))) xs = Some n"
proof -
  let ?p = "\<lambda>i. Name (iMeta i) = Name (iMeta (xs ! n))"
  have "indexOf ?p xs \<noteq> None" using assms(2) by (auto simp: indexOf_None_iff)
  then obtain k where k: "indexOf ?p xs = Some k" by auto
  from indexOf_Some [OF k] assms have "k = n"
    by (auto simp: distinct_conv_nth)
  with k show ?thesis by simp
qed

lemma losesSlot_nth:
  assumes "distinct (map (\<lambda>i. Name (iMeta i)) xs)" and "n < length xs"
  shows "losesSlot limit (xs ! n) xs \<longleftrightarrow> limit \<le> int n"
  using indexOf_name [OF assms] by (auto simp: losesSlot_def)

lemma keepers_take:
  assumes "distinct (map (\<lambda>i. Name (iMeta i)) xs)" and "0 \<le> limit"
  shows "filter (\<lambda>i. \<not> losesSlot limit i xs) xs = take (nat limit) xs"
proof -
  have "filter (\<lambda>i. \<not> losesSlot limit i xs) (take (nat limit) xs) = take (nat limit) xs"
    using assms by (intro filter_True) (auto simp: in_set_conv_nth losesSlot_nth)
  moreover have "filter (\<lambda>i. \<not> losesSlot limit i xs) (drop (nat limit) xs) = []"
  proof (intro filter_False ballI)
    fix x assume "x \<in> set (drop (nat limit) xs)"
    then obtain k where "nat limit + k < length xs" "x = xs ! (nat limit + k)"
      by (auto simp: in_set_conv_nth) (metis add.commute less_diff_conv)
    then show "\<not> \<not> losesSlot limit x xs"
      using assms losesSlot_nth [of xs "nat limit + k" limit] by simp
  qed
  ultimately show ?thesis
    by (metis append_Nil2 append_take_drop_id filter_append)
qed

text \<open>C20. Concurrent claims agree on who loses a slot. For the instances of one namespace (whose
  names are distinct), the verdict on an instance does not depend on the order the API server
  listed them in; an instance loses its slot exactly when at least \<open>limit\<close> live ones are older
  (by creation time, then name); and the instances that keep theirs are exactly the
  \<open>min limit n\<close> oldest.\<close>

theorem slot_agreement:
  assumes names: "distinct (map (\<lambda>i. Name (iMeta i)) items)"
    and perm: "mset items' = mset items" and limit: "0 \<le> limit"
  shows "losesSlot limit inst (ranked items') = losesSlot limit inst (ranked items)
    \<and> (\<forall>i\<in>set items. live i \<longrightarrow> (losesSlot limit i (ranked items)
          \<longleftrightarrow> limit \<le> int (length (filter (\<lambda>j. live j \<and> olderFirst j i) items))))
    \<and> filter (\<lambda>i. \<not> losesSlot limit i (ranked items)) (ranked items) = take (nat limit) (ranked items)"
proof (intro conjI ballI impI)
  have d: "distinct (map (\<lambda>i. Name (iMeta i)) (ranked items))"
    using distinct_names_live [OF names] by (simp add: ranked_def)
  have "ranked items' = ranked items"
    unfolding ranked_def using distinct_names_live [OF names] perm
    by (intro oldest.sortSlice_cong) (simp_all add: mset_filter)
  then show "losesSlot limit inst (ranked items') = losesSlot limit inst (ranked items)" by simp
  show "filter (\<lambda>i. \<not> losesSlot limit i (ranked items)) (ranked items) = take (nat limit) (ranked items)"
    by (rule keepers_take [OF d limit])
  fix i assume "i \<in> set items" "live i"
  then have "i \<in> set (ranked items)" by (simp add: ranked_def)
  then obtain n where n: "n < length (ranked items)" "i = ranked items ! n"
    by (metis in_set_conv_nth)
  have "sorted_wrt olderFirst (ranked items)"
    unfolding ranked_def using distinct_names_live [OF names] by (rule oldest.sorted_sortSlice)
  then have "length (filter (\<lambda>j. olderFirst j i) (ranked items)) = n"
    using oldest.rank_eq_card n by blast
  then have "int (length (filter (\<lambda>j. live j \<and> olderFirst j i) items)) = int n"
    using held_count [of "\<lambda>j. olderFirst j i" olderFirst items] by (simp add: ranked_def)
  then show "losesSlot limit i (ranked items)
      \<longleftrightarrow> limit \<le> int (length (filter (\<lambda>j. live j \<and> olderFirst j i) items))"
    using losesSlot_nth [OF d n(1), of limit] n(2) by simp
qed

definition sampleInstance :: "string \<Rightarrow> Time \<Rightarrow> DployInstance" where
  "sampleInstance n t = iMeta_update (\<lambda>m. m\<lparr>Name := n, CreationTimestamp := t\<rparr>) emptyInstance"

theorem slot_agreement_witness:
  "losesSlot 1 (sampleInstance ''b'' 2) (ranked [sampleInstance ''a'' 1, sampleInstance ''b'' 2])
   \<and> \<not> losesSlot 1 (sampleInstance ''a'' 1) (ranked [sampleInstance ''b'' 2, sampleInstance ''a'' 1])"
proof -
  let ?l = "[sampleInstance ''a'' 1, sampleInstance ''b'' 2]"
  have d: "distinct (map (\<lambda>i. Name (iMeta i)) ?l)" "mset (rev ?l) = mset ?l" "(0 :: int) \<le> 1"
    by (simp_all add: sampleInstance_def)
  have a: "\<not> losesSlot 1 (sampleInstance ''a'' 1) (ranked ?l)" "losesSlot 1 (sampleInstance ''b'' 2) (ranked ?l)"
    by code_simp+
  have "losesSlot 1 (sampleInstance ''a'' 1) (ranked (rev ?l)) = losesSlot 1 (sampleInstance ''a'' 1) (ranked ?l)"
    using slot_agreement [OF d] by blast
  with a show ?thesis by simp
qed

text \<open>The eviction is that rule. With the owner's instances listed and a delete that succeeds or
  finds nothing, the claim gives its instance back exactly when it loses its slot, and the result
  says so; with no limit nothing is read and nothing is given back.\<close>

theorem eviction_follows_rank:
  assumes "sanitize (cOwner (cSpec claim)) \<noteq> []"
    and "\<And>h. reListInstances A h (reader_of R) (Namespace (cMeta claim))
           [(LabelOwner, sanitize (cOwner (cSpec claim)))] = Inr items"
    and "\<And>h k. gone (reDeleteInstance A h k None)"
  shows "returned (evictIfOverQuota A R claim tmpl eff inst) h
    = Inr (if ownerLimit tmpl eff \<le> 0 then (False, 0)
           else (losesSlot (ownerLimit tmpl eff) inst (ranked items), ownerLimit tmpl eff))"
proof -
  have g: "IsNotFound e" if "reDeleteInstance A h k None = Inl e" for h k e
    using assms(3) [of h k] that by (simp add: gone_def)
  have "wp (evictIfOverQuota A R claim tmpl eff inst) (\<lambda>r _. r = Inr (if ownerLimit tmpl eff \<le> 0 then (False, 0)
           else (losesSlot (ownerLimit tmpl eff) inst (ranked items), ownerLimit tmpl eff))) h"
    using assms(1)
    by (auto simp: evictIfOverQuota_def ownedInstances_def Let_def wp_simps assms(2) ranked_def
        deleteIfThere_def dest: g split: sum.splits)
  then show ?thesis by (simp add: wp_def)
qed

theorem eviction_follows_rank_witness:
  "returned (evictIfOverQuota (stubApi\<lparr>reListInstances := (\<lambda>h rd ns sel.
       Inr [sampleInstance ''a'' 1, sampleInstance ''b'' 2])\<rparr>) None (sampleClaim 0) emptyTemplate
       (fallbacks\<lparr>eMaxInstancesPerUser := 1\<rparr>) (sampleInstance ''b'' 2)) [] = Inr (True, 1)"
proof -
  let ?A = "stubApi\<lparr>reListInstances := (\<lambda>h rd ns sel.
       Inr [sampleInstance ''a'' 1, sampleInstance ''b'' 2])\<rparr>"
  let ?eff = "fallbacks\<lparr>eMaxInstancesPerUser := 1\<rparr>"
  have o: "sanitize (cOwner (cSpec (sampleClaim 0))) \<noteq> []"
    "ownerLimit emptyTemplate ?eff = 1"
    "losesSlot 1 (sampleInstance ''b'' 2) (ranked [sampleInstance ''a'' 1, sampleInstance ''b'' 2])"
    by code_simp+
  have "returned (evictIfOverQuota ?A None (sampleClaim 0) emptyTemplate ?eff (sampleInstance ''b'' 2)) []
    = Inr (if ownerLimit emptyTemplate ?eff \<le> 0 then (False, 0)
           else (losesSlot (ownerLimit emptyTemplate ?eff) (sampleInstance ''b'' 2)
             (ranked [sampleInstance ''a'' 1, sampleInstance ''b'' 2]), ownerLimit emptyTemplate ?eff))"
    by (rule eviction_follows_rank) (simp_all add: o(1) gone_def)
  with o show ?thesis by simp
qed

section \<open>Deadlines\<close>

definition handsOut :: "event \<Rightarrow> bool" where
  "handsOut e = (case e of ECreateInstance _ _ \<Rightarrow> True | EUpdateInstance _ _ \<Rightarrow> True | _ \<Rightarrow> False)"

definition heldIn :: "(reader \<Rightarrow> DployInstance list) \<Rightarrow> reader option \<Rightarrow> DployInstance option" where
  "heldIn items R = (case find live (items ClientCache) of
      Some i \<Rightarrow> Some i
    | None \<Rightarrow> find live (items (reader_of R)))"

definition deletedIn :: "DployInstance \<Rightarrow> log \<Rightarrow> bool" where
  "deletedIn i h \<longleftrightarrow> (\<exists>r. gone r \<and> EDeleteInstance (objectKey (iMeta i)) None r \<in> set h)"

text \<open>The claim is recorded Expired, with nothing left of the environment in its status, and whatever it
  held was deleted before that; nothing is handed out on the way.\<close>

definition expiredBy :: "DployInstance option \<Rightarrow> DployInstanceClaim \<Rightarrow> log \<Rightarrow> bool" where
  "expiredBy held c h \<longleftrightarrow> (\<exists>before new r after. h = before @ EPatchClaimStatus c new r # after
     \<and> cPhase (cStatus new) = ClaimExpired \<and> cInstanceRef (cStatus new) = []
     \<and> cConnectionURL (cStatus new) = []
     \<and> (\<forall>i. held = Some i \<longrightarrow> deletedIn i before))
   \<and> (\<forall>e\<in>set h. \<not> handsOut e)"

lemma deletedIn_last: "gone r \<Longrightarrow> deletedIn i (h @ [EDeleteInstance (objectKey (iMeta i)) None r])"
  by (auto simp: deletedIn_def)

lemma expiredByI:
  assumes "\<forall>i. held = Some i \<longrightarrow> deletedIn i h" and "\<forall>e\<in>set h. \<not> handsOut e"
    and "cPhase (cStatus new) = ClaimExpired" "cInstanceRef (cStatus new) = []" "cConnectionURL (cStatus new) = []"
  shows "expiredBy held c (h @ [ENow n, ENow n', EPatchClaimStatus c new r])"
proof -
  have "h @ [ENow n, ENow n', EPatchClaimStatus c new r]
      = (h @ [ENow n, ENow n']) @ EPatchClaimStatus c new r # []" by simp
  moreover have "\<forall>i. held = Some i \<longrightarrow> deletedIn i (h @ [ENow n, ENow n'])"
    using assms(1) by (auto simp: deletedIn_def)
  ultimately show ?thesis
    using assms(2-5) unfolding expiredBy_def by (fastforce simp: handsOut_def)
qed

lemma wp_expire:
  assumes del: "\<And>h k. gone (reDeleteInstance A h k None)"
    and patch: "\<And>h new. \<exists>x. rePatchClaimStatus A h c new = Inr x"
    and quiet: "\<forall>e\<in>set h. \<not> handsOut e"
  shows "wp (expire A c claim held) (\<lambda>r h'. r = Inr 0 \<and> expiredBy held c h') h"
proof -
  have drop: "wp (case held of None \<Rightarrow> ok () | Some i \<Rightarrow> deleteIfThere A ''delete expired instance'' i)
      (\<lambda>r h'. r = Inr () \<and> (\<forall>i. held = Some i \<longrightarrow> deletedIn i h') \<and> (\<forall>e\<in>set h'. \<not> handsOut e)) h"
  proof (cases held)
    case (Some i)
    with quiet del [of h "objectKey (iMeta i)"] show ?thesis
      by (cases "reDeleteInstance A h (objectKey (iMeta i)) None")
        (auto simp: deleteIfThere_def wp_simps handsOut_def gone_def intro!: deletedIn_last)
  qed (use quiet in \<open>simp add: wp_simps\<close>)
  have record_it: "wp (do {
       let claim1 = cStatus_update (\<lambda>s. s\<lparr>cPhase := ClaimExpired, cInstanceRef := [],
         cConnectionURL := [], cConnectionMessage := [], cInstancePhase := PhaseUnset,
         cHealth := []\<rparr>) claim;
       claim2 \<leftarrow> setClaimCondition A claim1 ConditionBound CondFalse ''Expired'' expiredMessage;
       claim3 \<leftarrow> setClaimCondition A claim2 ConditionReady CondFalse ''Expired'' expiredMessage;
       tryE (patchStatus A c claim3) (\<lambda>_. ok 0) }) (\<lambda>r h'. r = Inr 0 \<and> expiredBy held c h') h'"
    if "\<forall>i. held = Some i \<longrightarrow> deletedIn i h'" "\<forall>e\<in>set h'. \<not> handsOut e" for h'
  proof -
    have g: "rePatchClaimStatus A h c new = Inl e \<Longrightarrow> False" for h new e
      using patch [of h new] by auto
    show ?thesis
      by (auto simp: setClaimCondition_def patchStatus_def Let_def wp_simps
          split: sum.split dest: g intro!: expiredByI that)
  qed
  show ?thesis
    unfolding expire_def wp_tryE Let_def
    by (rule wp_mono [OF drop]) (auto intro: record_it [unfolded Let_def])
qed

text \<open>C21. A claim whose deadline has passed is expired, whatever else it holds: the run ends without
  an error and without a delay. The live instance it holds, if the cache or, failing that, the API
  server lists one, is deleted first, and with that delete answered it is recorded Expired, with no
  instance and no URL. The run neither creates nor binds anything, so a claim that finds its
  instance already reaped does not help itself to a fresh one. The rest of the hypotheses say that
  the template is readable and enabled, that the lists and the writes succeed, and that the clock
  reads past the deadline.\<close>

theorem overdue_claim_expires:
  assumes read: "\<And>h. reGetClaim A h req = Inr c"
    and alive: "isZeroPtr (DeletionTimestamp (cMeta c))" "\<not> fst (ensureMeta c)"
      "cPhase (cStatus c) = ClaimPending \<or> cPhase (cStatus c) = ClaimBound"
    and tmpl: "\<And>h. reGetTemplate A h
        \<lparr>nnNamespace = Namespace (cMeta c), nnName = cTemplateRef (cSpec c)\<rparr> = Inr t" "tEnabled (tSpec t)"
    and cfg: "\<And>h. effectiveOf A (reGetConfig A h configKey) = Inr eff"
    and lists: "\<And>h rd. reListInstances A h rd (Namespace (cMeta c)) (uidSelector c) = Inr (items rd)"
    and deadline: "cExpiresAt (cStatus c) = Some d" "\<And>h. d \<le> reNow A h"
    and del: "\<And>h k. gone (reDeleteInstance A h k None)"
    and patch: "\<And>h new. \<exists>x. rePatchClaimStatus A h c new = Inr x"
  shows "returned (Reconcile A R req) [] = Inr 0
    \<and> expiredBy (heldIn items R) c (logged (Reconcile A R req) [])"
proof -
  let ?held = "heldIn items R"
  have em: "ensureMeta c = (False, c)"
    using alive(2) ensureMeta_same [of c] by (metis prod.collapse)
  obtain ttl m where ttl: "resolveClaimTTL c t eff = (ttl, m)" by fastforce
  define claim where "claim = cStatus_update (\<lambda>s. s\<lparr>cGrantedTTL := ttl, cMaxTTLSeconds := m\<rparr>) c"
  have claim: "cMeta claim = cMeta c" "\<And>now. d \<le> now \<Longrightarrow> isExpired claim now"
    using deadline(1) by (auto simp: claim_def isExpired_def)
  have look: "wp (boundInstance A R claim) (\<lambda>r h'. r = Inr ?held \<and> (\<forall>e\<in>set h'. \<not> handsOut e)) h"
    if "\<forall>e\<in>set h. \<not> handsOut e" for h
    using that
    by (auto simp: boundInstance_def lookupBound_def claim(1) uidSelector_fold lists wp_simps handsOut_def
        heldIn_def split: option.split)
  have rest: "wp (tryE (boundInstance A R claim) (\<lambda>held. do {
             now \<leftarrow> timeNow A;
             if isExpired claim now then expire A c claim held
             else (case held of
                 None \<Rightarrow> reconcileUnbound A R c claim t eff ttl
               | Some inst \<Rightarrow> reconcileBound A R c claim t eff ttl inst) }))
      (\<lambda>r h'. r = Inr 0 \<and> expiredBy ?held c h') h" if "\<forall>e\<in>set h. \<not> handsOut e" for h
    unfolding wp_tryE
    by (rule wp_mono [OF look [OF that]])
      (auto simp: wp_simps claim(2) deadline(2) handsOut_def intro!: wp_expire [OF del patch])
  have "wp (reconcileLive A R c) (\<lambda>r h'. r = Inr 0 \<and> expiredBy ?held c h') [EGetClaim req (Inr c)]"
    unfolding reconcileLive_def Let_def
    by (subst wp_bind, subst wp_calls, subst tmpl(1), subst sum.case, subst if_not_P,
        use tmpl(2) in simp, subst wp_tryE, subst wp_Resolve)
      (simp add: tmpl cfg ttl Let_def handsOut_def rest [unfolded claim_def])
  then have "wp (Reconcile A R req) (\<lambda>r h'. r = Inr 0 \<and> expiredBy ?held c h') []"
    using alive by (auto simp: Reconcile_def reconcileRead_def em read wp_simps)
  then show ?thesis by (simp add: wp_def)
qed

definition overdueClaim :: "DployInstanceClaim" where
  "overdueClaim = (sampleClaim 0)\<lparr>cMeta := emptyMeta\<lparr>Namespace := ''dploy'', Name := ''alice-term'',
       UID := ''u1'', Generation := 1, Labels := Map.empty(LabelManaged \<mapsto> ''true'',
         LabelTemplate \<mapsto> ''term'', LabelOwner \<mapsto> ''alice'')\<rparr>,
     cStatus := emptyClaimStatus\<lparr>cPhase := ClaimPending, cExpiresAt := Some 5\<rparr>\<rparr>"

definition overdueApi :: api where
  "overdueApi = stubApi\<lparr>reGetClaim := (\<lambda>h k. Inr overdueClaim), reGetTemplate := (\<lambda>h k. Inr sampleTemplate),
     reListInstances := (\<lambda>h rd ns sel. Inr [sampleInstance ''held'' 1]), reNow := (\<lambda>h. 10)\<rparr>"

theorem overdue_claim_expires_witness:
  "let h = logged (Reconcile overdueApi None \<lparr>nnNamespace = ''dploy'', nnName = ''alice-term''\<rparr>) [] in
     returned (Reconcile overdueApi None \<lparr>nnNamespace = ''dploy'', nnName = ''alice-term''\<rparr>) [] = Inr 0
   \<and> expiredBy (Some (sampleInstance ''held'' 1)) overdueClaim h
   \<and> deletedIn (sampleInstance ''held'' 1) h"
proof -
  let ?h = "logged (Reconcile overdueApi None \<lparr>nnNamespace = ''dploy'', nnName = ''alice-term''\<rparr>) []"
  have facts: "isZeroPtr (DeletionTimestamp (cMeta overdueClaim))" "\<not> fst (ensureMeta overdueClaim)"
    "cPhase (cStatus overdueClaim) = ClaimPending" "cExpiresAt (cStatus overdueClaim) = Some 5"
    "tEnabled (tSpec sampleTemplate)" "live (sampleInstance ''held'' 1)"
    by code_simp+
  have held: "heldIn (\<lambda>_. [sampleInstance ''held'' 1]) None = Some (sampleInstance ''held'' 1)"
    using facts(6) by (simp add: heldIn_def)
  have "returned (Reconcile overdueApi None \<lparr>nnNamespace = ''dploy'', nnName = ''alice-term''\<rparr>) [] = Inr 0
      \<and> expiredBy (heldIn (\<lambda>_. [sampleInstance ''held'' 1]) None) overdueClaim ?h"
    using facts
    by (intro overdue_claim_expires [where t = sampleTemplate and eff = fallbacks and d = 5])
      (simp_all add: overdueApi_def effectiveOf_def gone_def)
  then show ?thesis unfolding held Let_def by (auto simp: expiredBy_def deletedIn_def)
qed

text \<open>A claim sent back to the queue by the capacity rule.\<close>

definition parkedOk :: "DployInstanceClaim \<Rightarrow> log \<Rightarrow> event \<Rightarrow> bool" where
  "parkedOk claim h e = (case e of
      EPatchClaimStatus orig new r \<Rightarrow> cPhase (cStatus new) = ClaimPending
        \<longrightarrow> cBoundAt (cStatus new) = None \<and> cExpiresAt (cStatus new) = cExpiresAt (cStatus claim)
    | _ \<Rightarrow> True)"

lemma parkedOk_other [simp]: "isRead e \<Longrightarrow> parkedOk claim h e"
  by (cases e) (simp_all add: parkedOk_def isRead_def)

lemma parkedOk_writes [simp]:
  "parkedOk claim h (EUpdateInstance i r)" "parkedOk claim h (EDeleteInstance k p r')"
  by (simp_all add: parkedOk_def)

lemma emits_deleteIfThere [emits_rules]:
  "(\<And>h r. P h (EDeleteInstance (objectKey (iMeta i)) None r)) \<Longrightarrow> emits P (deleteIfThere A w i)"
  unfolding deleteIfThere_def by (auto intro!: emits_bind emits_calls emits_return split: sum.split)

lemma emits_boundInstance:
  "(\<And>h e. isRead e \<Longrightarrow> P h e) \<Longrightarrow> emits P (boundInstance A R c)"
  unfolding boundInstance_def lookupBound_def
  by (auto intro!: emits_bind emits_tryE emits_calls emits_return split: sum.split)

lemma emits_patchStatus:
  "(\<And>h r. P h (EPatchClaimStatus orig (observed c) r)) \<Longrightarrow> emits P (patchStatus A orig c)"
  unfolding patchStatus_def Let_def observed_def
  by (auto intro!: emits_bind emits_calls emits_return split: sum.split)

lemma wpe_setClaimCondition_any:
  assumes "\<And>t. P h (ENow t)" and "\<And>t cs. Q (cStatus_update (\<lambda>s. s\<lparr>cConditions := cs\<rparr>) claim) (h @ [ENow t])"
  shows "wpe P (setClaimCondition A claim ty st re ms) Q h"
  unfolding setClaimCondition_def by (auto intro!: wpe_rules assms)

lemma emits_reject_parked: "emits (parkedOk claim) (reject A R orig c re ms)"
proof (rule wpe_True_emits)
  fix h
  have rel: "emits (parkedOk claim) (releaseHeld A R c)"
    unfolding releaseHeld_def
    by (auto intro!: emits_tryE emits_boundInstance emits_deleteIfThere emits_return split: option.split)
  have p: "emits (parkedOk claim) (patchStatus A orig x)" if "cPhase (cStatus x) = ClaimRejected" for x
    by (rule emits_patchStatus) (simp add: parkedOk_def observed_def that)
  show "wpe (parkedOk claim) (reject A R orig c re ms) (\<lambda>_ _. True) h"
    unfolding reject_def Let_def
    by (auto intro!: wpe_tryE wpe_bind wpe_emits [OF rel] wpe_setClaimCondition_any wpe_emits [OF p]
        wpe_return split: sum.split)
qed

lemma emits_finish_parked: "emits (parkedOk claim) (finish A orig c inst ttl s)"
proof (rule wpe_True_emits)
  fix h
  have sync: "emits (parkedOk claim) (syncInstance A c inst ttl e)" for e
    unfolding syncInstance_def
    by (rule emits_retryOnConflict) (auto intro!: emits_tryE emits_calls emits_return split: sum.split)
  have p: "emits (parkedOk claim) (patchStatus A orig x)" if "cPhase (cStatus x) = ClaimBound" for x
    by (rule emits_patchStatus) (simp add: parkedOk_def observed_def that)
  show "wpe (parkedOk claim) (finish A orig c inst ttl s) (\<lambda>_ _. True) h"
    unfolding finish_def project_def Let_def
    by (auto intro!: wpe_tryE wpe_bind wpe_calls wpe_emits [OF sync] wpe_setClaimCondition_any
        wpe_emits [OF p] wpe_return split: sum.split option.split)
qed

text \<open>A claim that gives its environment back because the template is full is parked without an
  anchor but keeps the deadline of the environment it gave back. Since a claim past its deadline is
  expired whatever it holds, it expires for good at that deadline while it waits, although it
  holds nothing.\<close>

theorem parked_claim_keeps_deadline:
  "emits (parkedOk claim) (settle A R orig claim tmpl eff ttl inst)"
proof (rule wpe_True_emits)
  fix h
  have q: "emits (parkedOk claim) (evictIfOverQuota A R claim tmpl eff inst)"
    unfolding evictIfOverQuota_def ownedInstances_def Let_def
    by (auto intro!: emits_tryE emits_bind emits_calls emits_return emits_deleteIfThere split: sum.split)
  have m: "emits (parkedOk claim) (evictIfOverMaxSize A R tmpl inst)"
    unfolding evictIfOverMaxSize_def templateInstances_def Let_def
    by (auto intro!: emits_tryE emits_bind emits_calls emits_return emits_deleteIfThere split: sum.split)
  have p: "emits (parkedOk claim) (patchStatus A orig x)"
    if "cBoundAt (cStatus x) = None" "cExpiresAt (cStatus x) = cExpiresAt (cStatus claim)" for x
    by (rule emits_patchStatus) (simp add: parkedOk_def observed_def that)
  have pend: "wpe (parkedOk claim) (pending A orig (setBoundAt None claim) re ms) (\<lambda>_ _. True) h'" for re ms h'
    unfolding pending_def Let_def
    by (auto simp: setBoundAt_def intro!: wpe_tryE wpe_bind wpe_setClaimCondition_any wpe_emits [OF p]
        wpe_return split: sum.split)
  show "wpe (parkedOk claim) (settle A R orig claim tmpl eff ttl inst) (\<lambda>_ _. True) h"
    unfolding settle_def
    by (auto intro!: wpe_tryE wpe_emits [OF q] wpe_emits [OF m] wpe_emits [OF emits_reject_parked]
        wpe_emits [OF emits_finish_parked] pend split: sum.split)
qed

section \<open>The attempt loop\<close>

definition instanceUpdates :: "log \<Rightarrow> DployInstance list" where
  "instanceUpdates h = concat (map (\<lambda>e. case e of EUpdateInstance i r \<Rightarrow> [i] | _ \<Rightarrow> []) h)"

lemma instanceUpdates_append [simp]:
  "instanceUpdates (h @ h') = instanceUpdates h @ instanceUpdates h'"
  by (simp add: instanceUpdates_def)

lemma tryCandidates_log:
  "\<exists>es k. logged (tryCandidates A claim b xs start n) h = h @ es \<and> k \<le> n
    \<and> instanceUpdates es = map (\<lambda>i. claimCandidate claim b (xs ! ((start + i) mod length xs))) [0..<k]"
proof (induction n arbitrary: start h)
  case 0
  then show ?case by (simp add: logged_def instanceUpdates_def)
next
  case (Suc n)
  let ?c = "claimCandidate claim b (xs ! (start mod length xs))"
  let ?r = "reUpdateInstance A h ?c"
  let ?h = "h @ [EUpdateInstance ?c ?r]"
  show ?case
  proof (cases "\<exists>e. ?r = Inl e \<and> (IsConflict e \<or> IsNotFound e)")
    case True
    then have go: "logged (tryCandidates A claim b xs start (Suc n)) h
        = logged (tryCandidates A claim b xs (Suc start) n) ?h"
      by (auto simp: logged_def updateInstance_def perform_def Let_def)
    obtain es k where es: "logged (tryCandidates A claim b xs (Suc start) n) ?h = ?h @ es" "k \<le> n"
      "instanceUpdates es = map (\<lambda>i. claimCandidate claim b (xs ! ((Suc start + i) mod length xs))) [0..<k]"
      using Suc.IH by blast
    have "instanceUpdates (EUpdateInstance ?c ?r # es)
        = map (\<lambda>i. claimCandidate claim b (xs ! ((start + i) mod length xs))) [0..<Suc k]"
      using es(3) by (simp add: instanceUpdates_def map_upt_Suc del: upt_Suc)
    with es go show ?thesis
      by (intro exI [of _ "EUpdateInstance ?c ?r # es"] exI [of _ "Suc k"]) simp
  next
    case False
    then have "logged (tryCandidates A claim b xs start (Suc n)) h = ?h"
      by (auto simp: logged_def updateInstance_def perform_def Let_def split: sum.split)
    then show ?thesis
      by (intro exI [of _ "[EUpdateInstance ?c ?r]"] exI [of _ 1]) (simp add: instanceUpdates_def)
  qed
qed

lemma cyclic_distinct:
  assumes "k \<le> n"
  shows "distinct (map (\<lambda>i. (start + i) mod n) [0..<k])"
proof -
  have "inj_on (\<lambda>i. (start + i) mod n) {0..<k}"
  proof (rule inj_onI)
    fix i j assume "i \<in> {0..<k}" "j \<in> {0..<k}" and eq: "(start + i) mod n = (start + j) mod n"
    with assms have "i < n" "j < n" by auto
    then have small: "i mod n = i" "j mod n = j" by auto
    obtain q1 q2 where "start + i + n * q1 = start + j + n * q2"
      using eq unfolding nat_mod_eq_iff by blast
    then have "i + n * q1 = j + n * q2" by simp
    then have "i mod n = j mod n" unfolding nat_mod_eq_iff by blast
    then show "i = j" unfolding small .
  qed
  then show ?thesis by (simp add: distinct_map)
qed

text \<open>C22. A run fights over at most eight warm instances and over none of them twice: the instance
  updates of \<open>acquirePooled\<close> are attempts at distinct positions of the candidate list, starting at
  the claim's hash.\<close>

theorem bounded_distinct_attempts:
  assumes "reListInstances A [] ClientCache (Namespace (cMeta claim))
      [(LabelTemplate, Name (tMeta tmpl)), (LabelPooled, ''true'')] = Inr items"
    and "xs = filter isClaimable items"
  shows "\<exists>idxs. instanceUpdates (logged (acquirePooled A claim tmpl b) [])
        = map (\<lambda>n. claimCandidate claim b (xs ! n)) idxs
      \<and> distinct idxs \<and> length idxs \<le> min (length xs) 8 \<and> (\<forall>n\<in>set idxs. n < length xs)"
proof -
  let ?e = "EListInstances ClientCache (Namespace (cMeta claim))
      [(LabelTemplate, Name (tMeta tmpl)), (LabelPooled, ''true'')] (Inr items)"
  let ?s = "nat (hashIndex (UID (cMeta claim)) (int (length xs)))"
  show ?thesis
  proof (cases "xs = []")
    case True
    then have "logged (acquirePooled A claim tmpl b) [] = [?e]"
      using assms by (simp add: acquirePooled_def logged_def listInstances_def perform_def Let_def)
    then show ?thesis by (simp add: instanceUpdates_def)
  next
    case False
    then have "logged (acquirePooled A claim tmpl b) []
        = logged (tryCandidates A claim b xs ?s (min (length xs) claimBindRetries)) [?e]"
      using assms by (simp add: acquirePooled_def logged_def listInstances_def perform_def Let_def)
    moreover obtain es k where es: "logged (tryCandidates A claim b xs ?s (min (length xs) claimBindRetries)) [?e] = [?e] @ es"
      "k \<le> min (length xs) claimBindRetries"
      "instanceUpdates es = map (\<lambda>i. claimCandidate claim b (xs ! ((?s + i) mod length xs))) [0..<k]"
      using tryCandidates_log by blast
    ultimately have "instanceUpdates (logged (acquirePooled A claim tmpl b) [])
        = map (\<lambda>n. claimCandidate claim b (xs ! n)) (map (\<lambda>i. (?s + i) mod length xs) [0..<k])"
      by (simp add: instanceUpdates_def)
    then show ?thesis
      using es(2) False cyclic_distinct [of k "length xs" ?s]
      by (intro exI [of _ "map (\<lambda>i. (?s + i) mod length xs) [0..<k]"])
        (auto simp: claimBindRetries_def)
  qed
qed

definition warmInstance :: "string \<Rightarrow> DployInstance" where
  "warmInstance n = iStatus_update (\<lambda>s. s\<lparr>iPhase := PhaseAvailable\<rparr>) (sampleInstance n 1)"

theorem bounded_distinct_attempts_witness:
  "\<exists>idxs. instanceUpdates (logged (acquirePooled (stubApi\<lparr>reListInstances := (\<lambda>h rd ns sel.
       Inr [warmInstance ''a'', sampleInstance ''x'' 1, warmInstance ''b''])\<rparr>) (sampleClaim 0) sampleTemplate 0) [])
     = map (\<lambda>n. claimCandidate (sampleClaim 0) 0 ([warmInstance ''a'', warmInstance ''b''] ! n)) idxs
   \<and> distinct idxs \<and> length idxs \<le> 2 \<and> (\<forall>n\<in>set idxs. n < 2)"
proof -
  have f: "[warmInstance ''a'', warmInstance ''b'']
      = filter isClaimable [warmInstance ''a'', sampleInstance ''x'' 1, warmInstance ''b'']"
    by (simp add: isClaimable_def warmInstance_def sampleInstance_def emptyInstance_def emptyMeta_def
        live_def isZeroPtr_def)
  show ?thesis
    using bounded_distinct_attempts [OF _ f, of "stubApi\<lparr>reListInstances := (\<lambda>h rd ns sel.
       Inr [warmInstance ''a'', sampleInstance ''x'' 1, warmInstance ''b''])\<rparr>" "sampleClaim 0" sampleTemplate 0]
    by (simp add: numeral_2_eq_2)
qed

end
