(* ===== verification/Flux.thy ===== *)
theory Flux
imports Resolver
begin

text \<open>
  \<^verbatim>\<open>internal/controller/flux.go\<close>: the Flux objects a template and an instance own (one
  chart source and one chart probe per template, one workload namespace and one
  \<open>HelmRelease\<close> per instance), and the two translations of a Flux condition into what dploy
  reports. Every \<open>ensure\<close> is a \<^verbatim>\<open>CreateOrUpdate\<close> whose callback is the pure
  \<open>desired\<close> function beside it.
\<close>

definition maxReleaseNameLen :: nat where "maxReleaseNameLen = 53"

definition chartRef :: "DployTemplate \<Rightarrow> string" where
  "chartRef tmpl = firstNonEmpty [csPath (tChart (tSpec tmpl)), csChart (tChart (tSpec tmpl))]"

definition chartVersion :: "DployTemplate \<Rightarrow> string" where
  "chartVersion tmpl =
     (if csType (tChart (tSpec tmpl)) = ChartSourceHelm
      then firstNonEmpty [csTargetRevision (tChart (tSpec tmpl)), ''*''] else [])"

section \<open>The state of a HelmRelease\<close>

text \<open>The zero value a failed read leaves behind.\<close>

definition emptyRelease :: HelmRelease where
  "emptyRelease = \<lparr>hrMeta = emptyMeta, hrChart = [], hrVersion = [], hrValuesFiles = [],
     hrSourceKind = [], hrSourceName = [], hrReleaseName = [], hrTargetNamespace = [],
     hrStorageNamespace = [], hrInterval = 0, hrInstallRetries = 0, hrValues = None,
     hrConditions = []\<rparr>"

datatype readiness = ReadinessInProgress | ReadinessReady | ReadinessFailed

record helmReleaseState =
  hsReadiness :: readiness
  hsStatus :: ConditionStatus
  hsReason :: string
  hsMessage :: string
  hsHealth :: string

definition isProgressing :: "api \<Rightarrow> HelmRelease \<Rightarrow> Condition \<Rightarrow> bool" where
  "isProgressing A hr ready =
     (if condReason ready = fluxProgressingReason A
         \<or> condReason ready = fluxProgressingWithRetryReason A then True
      else condIsTrue A (hrConditions hr) (fluxReconcilingCondition A))"

definition translateHelmRelease :: "api \<Rightarrow> HelmRelease \<Rightarrow> helmReleaseState" where
  "translateHelmRelease A hr =
     (case findCond A (hrConditions hr) (fluxReadyCondition A) of
        None \<Rightarrow> \<lparr>hsReadiness = ReadinessInProgress, hsStatus = CondUnknown,
          hsReason = ''HelmReleasePending'',
          hsMessage = ''HelmRelease has not been reconciled by helm-controller yet.'',
          hsHealth = ''Progressing''\<rparr>
      | Some ready \<Rightarrow>
         (let reason = firstNonEmpty [condReason ready, ''HelmReleaseProgressing''];
              message = firstNonEmpty [condMessage ready, ''HelmRelease reported no message.''] in
          case condStatus ready of
            CondTrue \<Rightarrow> \<lparr>hsReadiness = ReadinessReady, hsStatus = CondTrue, hsReason = reason,
              hsMessage = message, hsHealth = ''Healthy''\<rparr>
          | CondFalse \<Rightarrow>
              if isProgressing A hr ready
              then \<lparr>hsReadiness = ReadinessInProgress, hsStatus = CondUnknown, hsReason = reason,
                hsMessage = message, hsHealth = ''Progressing''\<rparr>
              else \<lparr>hsReadiness = ReadinessFailed, hsStatus = CondFalse, hsReason = reason,
                hsMessage = message, hsHealth = ''Degraded''\<rparr>
          | _ \<Rightarrow> \<lparr>hsReadiness = ReadinessInProgress, hsStatus = CondUnknown, hsReason = reason,
              hsMessage = message, hsHealth = ''Progressing''\<rparr>))"

section \<open>Labels and names\<close>

definition engineResourceName :: "DployInstance \<Rightarrow> string" where
  "engineResourceName inst = Name (iMeta inst)"

definition managedLabels :: "DployInstance \<Rightarrow> smap" where
  "managedLabels inst =
     (let l = Map.empty(LabelManaged \<mapsto> ''true'', LabelTemplate \<mapsto> iTemplateRef (iSpec inst),
                LabelInstance \<mapsto> iUUID (iStatus inst));
          o1 = sanitize (iOwner (iSpec inst)) in
      if o1 \<noteq> [] then l(LabelOwner \<mapsto> o1) else l)"

definition templateSourceName :: "DployTemplate \<Rightarrow> string" where
  "templateSourceName tmpl = Name (tMeta tmpl) @ ''-src''"

definition templateLabels :: "DployTemplate \<Rightarrow> smap" where
  "templateLabels tmpl =
     Map.empty(LabelManaged \<mapsto> ''true'', LabelTemplate \<mapsto> Name (tMeta tmpl))"

definition templateChartProbeName :: "DployTemplate \<Rightarrow> string" where
  "templateChartProbeName tmpl = truncateStr (templateSourceName tmpl @ ''-probe'') maxReleaseNameLen"

section \<open>Ensuring objects\<close>

definition desiredNamespace :: "DployInstance \<Rightarrow> NamespaceObj \<Rightarrow> error + NamespaceObj" where
  "desiredNamespace inst ns = Inr (ns\<lparr>nsLabels := nsLabels ns ++ managedLabels inst\<rparr>)"

definition ensureNamespace :: "api \<Rightarrow> string \<Rightarrow> DployInstance \<Rightarrow> (error + unit) io" where
  "ensureNamespace A name inst = do {
     r \<leftarrow> createOrUpdate (fetchNamespace A name) (desiredNamespace inst) (applyNamespace A);
     case r of Inl e \<Rightarrow> throw (wrapErr (''ensure namespace '' @ name) e) | Inr _ \<Rightarrow> ok () }"

definition desiredHelmRepository ::
  "api \<Rightarrow> DployTemplate \<Rightarrow> Effective \<Rightarrow> FluxSource \<Rightarrow> error + FluxSource" where
  "desiredHelmRepository A tmpl eff repo =
     (let cs = tChart (tSpec tmpl);
          meta = (srcMeta repo)\<lparr>Labels := templateLabels tmpl\<rparr> in
      case setControllerRef A (ownerRef ''DployTemplate'' (tMeta tmpl)) meta of
        Inl e \<Rightarrow> Inl e
      | Inr meta' \<Rightarrow> Inr (repo\<lparr>srcMeta := meta', srcURL := csRepoURL cs,
          srcRepoType := (if hasPrefix ''oci://'' (csRepoURL cs) then helmRepositoryTypeOCI A
                          else helmRepositoryTypeDefault A),
          srcInterval := eFluxInterval eff\<rparr>))"

definition desiredGitRepository ::
  "api \<Rightarrow> DployTemplate \<Rightarrow> Effective \<Rightarrow> FluxSource \<Rightarrow> error + FluxSource" where
  "desiredGitRepository A tmpl eff repo =
     (let cs = tChart (tSpec tmpl);
          meta = (srcMeta repo)\<lparr>Labels := templateLabels tmpl\<rparr> in
      case setControllerRef A (ownerRef ''DployTemplate'' (tMeta tmpl)) meta of
        Inl e \<Rightarrow> Inl e
      | Inr meta' \<Rightarrow> Inr (repo\<lparr>srcMeta := meta', srcURL := csRepoURL cs,
          srcBranch := Some (firstNonEmpty [csTargetRevision cs, ''main'']),
          srcInterval := eFluxInterval eff\<rparr>))"

definition ensureSource :: "api \<Rightarrow> DployTemplate \<Rightarrow> Effective \<Rightarrow> (error + string \<times> string) io" where
  "ensureSource A tmpl eff =
     (let name = templateSourceName tmpl;
          key = \<lparr>nnNamespace = Namespace (tMeta tmpl), nnName = name\<rparr> in
      if csType (tChart (tSpec tmpl)) = ChartSourceHelm
      then do {
        r \<leftarrow> createOrUpdate (fetchSource A (helmRepositoryKind A) key)
               (desiredHelmRepository A tmpl eff) (applySource A (helmRepositoryKind A));
        case r of Inl e \<Rightarrow> throw (wrapErr ''ensure HelmRepository'' e)
          | Inr _ \<Rightarrow> ok (helmRepositoryKind A, name) }
      else do {
        r \<leftarrow> createOrUpdate (fetchSource A (gitRepositoryKind A) key)
               (desiredGitRepository A tmpl eff) (applySource A (gitRepositoryKind A));
        case r of Inl e \<Rightarrow> throw (wrapErr ''ensure GitRepository'' e)
          | Inr _ \<Rightarrow> ok (gitRepositoryKind A, name) })"

definition templateSourceReady :: "api \<Rightarrow> DployTemplate \<Rightarrow> bool \<times> string \<times> string" where
  "templateSourceReady A tmpl =
     (case findCond A (tConditions (tStatus tmpl)) ConditionSourceReady of
        None \<Rightarrow> (False, ''SourceNotVerified'', ''the template has not verified its chart source yet'')
      | Some c \<Rightarrow>
         if condStatus c = CondTrue
         then (True, firstNonEmpty [condReason c, ''SourceReady''], condMessage c)
         else (False, firstNonEmpty [condReason c, ''SourceNotReady''],
               firstNonEmpty [condMessage c, ''the template's chart source does not resolve'']))"

definition desiredChartProbe ::
  "api \<Rightarrow> DployTemplate \<Rightarrow> string \<Rightarrow> string \<Rightarrow> Effective \<Rightarrow> HelmChart \<Rightarrow> error + HelmChart" where
  "desiredChartProbe A tmpl srcKind srcName eff hc =
     (case setControllerRef A (ownerRef ''DployTemplate'' (tMeta tmpl))
             ((hcMeta hc)\<lparr>Labels := templateLabels tmpl\<rparr>) of
        Inl e \<Rightarrow> Inl e
      | Inr meta' \<Rightarrow> Inr (hc\<lparr>hcMeta := meta', hcChart := chartRef tmpl,
          hcInterval := eFluxInterval eff, hcSourceKind := srcKind, hcSourceName := srcName,
          hcVersion := chartVersion tmpl\<rparr>))"

definition ensureChartProbe ::
  "api \<Rightarrow> DployTemplate \<Rightarrow> string \<Rightarrow> string \<Rightarrow> Effective \<Rightarrow> (error + HelmChart) io" where
  "ensureChartProbe A tmpl srcKind srcName eff = do {
     r \<leftarrow> createOrUpdate
       (fetchChart A \<lparr>nnNamespace = Namespace (tMeta tmpl), nnName = templateChartProbeName tmpl\<rparr>)
       (desiredChartProbe A tmpl srcKind srcName eff) (applyChart A);
     case r of Inl e \<Rightarrow> throw (wrapErr ''ensure chart probe'' e) | Inr hc \<Rightarrow> ok hc }"

section \<open>The verdict on a chart\<close>

record sourceVerdict =
  svOk :: bool
  svBroken :: bool
  svReason :: string
  svMessage :: string

definition unknownSource :: "string \<Rightarrow> string \<Rightarrow> sourceVerdict" where
  "unknownSource reason message =
     \<lparr>svOk = False, svBroken = False, svReason = reason, svMessage = message\<rparr>"

text \<open>A nil probe is never passed: both callers pass the object \<open>ensureChartProbe\<close> returned.\<close>

definition translateChartProbe :: "api \<Rightarrow> HelmChart \<Rightarrow> sourceVerdict" where
  "translateChartProbe A hc =
     (if Name (hcMeta hc) = [] then unknownSource ''ChartProbePending'' ''chart probe has not been created yet''
      else (case findCond A (hcConditions hc) (fluxReadyCondition A) of
          None \<Rightarrow> unknownSource ''ChartProbePending'' ''source-controller has not reconciled the chart probe yet''
        | Some c \<Rightarrow>
           if condStatus c = CondTrue
           then \<lparr>svOk = True, svBroken = False,
             svReason = firstNonEmpty [condReason c, ''ChartResolved''],
             svMessage = firstNonEmpty [condMessage c, ''chart reference resolves'']\<rparr>
           else if condStatus c = CondUnknown
           then unknownSource (firstNonEmpty [condReason c, ''ChartProbePending''])
             (firstNonEmpty [condMessage c, ''chart resolution still in progress''])
           else \<lparr>svOk = False, svBroken = True,
             svReason = firstNonEmpty [condReason c, ''ChartNotResolved''],
             svMessage = firstNonEmpty [condMessage c, ''chart reference does not resolve'']\<rparr>))"

section \<open>The HelmRelease of an instance\<close>

definition desiredRelease ::
  "api \<Rightarrow> DployInstance \<Rightarrow> DployTemplate \<Rightarrow> Effective \<Rightarrow> string \<Rightarrow> string \<Rightarrow> string \<Rightarrow> string
   \<Rightarrow> HelmRelease \<Rightarrow> error + HelmRelease" where
  "desiredRelease A inst tmpl eff srcKind srcName targetNS valuesJSON hr =
     (case setControllerRef A (ownerRef ''DployInstance'' (iMeta inst))
             ((hrMeta hr)\<lparr>Labels := managedLabels inst\<rparr>) of
        Inl e \<Rightarrow> Inl e
      | Inr meta' \<Rightarrow> Inr (hr\<lparr>hrMeta := meta', hrChart := chartRef tmpl,
          hrVersion := chartVersion tmpl, hrValuesFiles := tValueFiles (tSpec tmpl),
          hrSourceKind := srcKind, hrSourceName := srcName,
          hrReleaseName := truncateStr (Name (iMeta inst)) maxReleaseNameLen,
          hrTargetNamespace := targetNS, hrStorageNamespace := targetNS,
          hrInterval := eFluxInterval eff, hrInstallRetries := 3,
          hrValues := (if valuesJSON \<noteq> [] then Some valuesJSON else None)\<rparr>))"

definition ensureHelmRelease ::
  "api \<Rightarrow> DployInstance \<Rightarrow> DployTemplate \<Rightarrow> Effective \<Rightarrow> string \<Rightarrow> string \<Rightarrow> string \<Rightarrow> string
   \<Rightarrow> (error + unit) io" where
  "ensureHelmRelease A inst tmpl eff srcKind srcName targetNS valuesJSON = do {
     r \<leftarrow> createOrUpdate
       (fetchRelease A \<lparr>nnNamespace = Namespace (iMeta inst), nnName = engineResourceName inst\<rparr>)
       (desiredRelease A inst tmpl eff srcKind srcName targetNS valuesJSON) (applyRelease A);
     case r of Inl e \<Rightarrow> throw (wrapErr ''ensure HelmRelease'' e) | Inr _ \<Rightarrow> ok () }"

section \<open>Facts\<close>

lemma verdict_exclusive: "\<not> (svOk (translateChartProbe A hc) \<and> svBroken (translateChartProbe A hc))"
  by (simp add: translateChartProbe_def unknownSource_def split: option.split)

lemma managedLabels_owner:
  "managedLabels i LabelOwner = (if sanitize (iOwner (iSpec i)) = [] then None
     else Some (sanitize (iOwner (iSpec i))))"
  by (auto simp: managedLabels_def Let_def label_defs)

lemma emits_ensureNamespace [emits_rules]:
  assumes "\<And>h r. P h (EFetchNamespace n r)"
    and "\<And>h r x. P h (EApplyNamespace (x\<lparr>nsLabels := nsLabels x ++ managedLabels i\<rparr>) r)"
  shows "emits P (ensureNamespace A n i)"
  unfolding ensureNamespace_def
  by (intro emits_bind emits_createOrUpdate emits_calls)
    (auto simp: desiredNamespace_def assms intro: emits_return split: sum.split)

lemma emits_ensureSource [emits_rules]:
  assumes "\<And>h kd k r. P h (EFetchSource kd k r)" and "\<And>h kd s r. P h (EApplySource kd s r)"
  shows "emits P (ensureSource A tmpl eff)"
  unfolding ensureSource_def Let_def
  by (auto intro!: emits_bind emits_createOrUpdate emits_calls emits_return assms split: sum.split)

lemma emits_ensureChartProbe [emits_rules]:
  assumes "\<And>h k r. P h (EFetchChart k r)" and "\<And>h s r. P h (EApplyChart s r)"
  shows "emits P (ensureChartProbe A tmpl k n eff)"
  unfolding ensureChartProbe_def
  by (auto intro!: emits_bind emits_createOrUpdate emits_calls emits_return assms split: sum.split)

lemma emits_ensureHelmRelease [emits_rules]:
  assumes "\<And>h k r. P h (EFetchRelease k r)" and "\<And>h s r. P h (EApplyRelease s r)"
  shows "emits P (ensureHelmRelease A inst tmpl eff k n ns v)"
  unfolding ensureHelmRelease_def
  by (auto intro!: emits_bind emits_createOrUpdate emits_calls emits_return assms split: sum.split)

text \<open>A release is reported failed exactly when Flux has given up: its Ready condition is
  False, its reason is neither of the two progressing reasons, and no Reconciling condition
  contradicts it. It is ready exactly when Ready is True. In every other case, a missing
  condition included, it is still in progress.\<close>

theorem release_failed_iff:
  "(hsReadiness (translateHelmRelease A hr) = ReadinessFailed \<longleftrightarrow>
     (\<exists>c. findCond A (hrConditions hr) (fluxReadyCondition A) = Some c \<and> condStatus c = CondFalse
        \<and> condReason c \<notin> {fluxProgressingReason A, fluxProgressingWithRetryReason A}
        \<and> \<not> condIsTrue A (hrConditions hr) (fluxReconcilingCondition A)))
   \<and> (hsReadiness (translateHelmRelease A hr) = ReadinessReady \<longleftrightarrow>
     (\<exists>c. findCond A (hrConditions hr) (fluxReadyCondition A) = Some c \<and> condStatus c = CondTrue))
   \<and> (hsHealth (translateHelmRelease A hr) = ''Degraded'' \<longleftrightarrow>
       hsReadiness (translateHelmRelease A hr) = ReadinessFailed)"
  by (auto simp: translateHelmRelease_def isProgressing_def Let_def
      split: option.split ConditionStatus.split)

end
