(* ===== verification/TemplateCtrl.thy ===== *)
theory TemplateCtrl
imports Flux Ttl Ordering
begin

text \<open>
  \<^verbatim>\<open>internal/controller/dploytemplate_controller.go\<close>: the controller that keeps a template's
  warm pool at size. One reconcile refreshes the verdict on the chart source, tallies the
  template's live instances, fills or shrinks the pool, and records the counts. The status it
  writes is the gate instances wait for before they apply a \<open>HelmRelease\<close>.
\<close>

definition poolMaintenanceInterval :: Duration where "poolMaintenanceInterval = 30 * second"

section \<open>Predicates and order\<close>

definition alive :: "DployInstance \<Rightarrow> bool" where
  "alive inst \<longleftrightarrow> isZeroPtr (DeletionTimestamp (iMeta inst))"

definition isPoolActive :: "DployTemplate \<Rightarrow> bool" where
  "isPoolActive tmpl \<longleftrightarrow> tEnabled (tSpec tmpl) \<and> tMethod (tSpec tmpl) = MethodPool
     \<and> (case tPool (tSpec tmpl) of None \<Rightarrow> False | Some p \<Rightarrow> poolSize p > 0)"

definition desiredWarm :: "DployTemplate \<Rightarrow> int" where
  "desiredWarm tmpl =
     (case tPool (tSpec tmpl) of
        None \<Rightarrow> 0
      | Some p \<Rightarrow> if tMethod (tSpec tmpl) \<noteq> MethodPool then 0 else poolSize p)"

definition isPurgeable :: "DployInstance \<Rightarrow> bool" where
  "isPurgeable inst \<longleftrightarrow> alive inst \<and> iOwner (iSpec inst) = []
     \<and> get (Labels (iMeta inst)) LabelClaimUID = []"

definition purgeRank :: "DployInstance \<Rightarrow> int" where
  "purgeRank inst = (case iPhase (iStatus inst) of PhaseFailed \<Rightarrow> 0 | PhaseAvailable \<Rightarrow> 2 | _ \<Rightarrow> 1)"

definition purgeBefore :: "DployInstance \<Rightarrow> DployInstance \<Rightarrow> bool" where
  "purgeBefore a b =
     (if purgeRank a \<noteq> purgeRank b then purgeRank a < purgeRank b
      else if CreationTimestamp (iMeta a) \<noteq> CreationTimestamp (iMeta b)
      then CreationTimestamp (iMeta b) < CreationTimestamp (iMeta a)
      else Name (iMeta a) < Name (iMeta b))"

definition sortPurgeVictims :: "DployInstance list \<Rightarrow> DployInstance list" where
  "sortPurgeVictims unclaimed = sortSlice purgeBefore unclaimed"

section \<open>The tally\<close>

record PoolTally =
  ptAvailable :: int
  ptClaimed :: int
  ptTotal :: int
  ptUnclaimed :: "DployInstance list"

fun tally :: "DployInstance list \<Rightarrow> PoolTally \<Rightarrow> PoolTally" where
  "tally [] acc = acc"
| "tally (inst # rest) acc =
     (if \<not> alive inst then tally rest acc
      else if \<not> iPooled (iSpec inst) then tally rest (acc\<lparr>ptTotal := ptTotal acc + 1\<rparr>)
      else if iOwner (iSpec inst) = []
      then tally rest (acc\<lparr>ptTotal := ptTotal acc + 1, ptUnclaimed := ptUnclaimed acc @ [inst],
             ptAvailable := ptAvailable acc + (if iPhase (iStatus inst) = PhaseAvailable then 1 else 0)\<rparr>)
      else tally rest (acc\<lparr>ptTotal := ptTotal acc + 1, ptClaimed := ptClaimed acc + 1\<rparr>))"

definition emptyTally :: PoolTally where
  "emptyTally = \<lparr>ptAvailable = 0, ptClaimed = 0, ptTotal = 0, ptUnclaimed = []\<rparr>"

section \<open>Filling\<close>

definition poolInstance :: "DployTemplate \<Rightarrow> int \<Rightarrow> DployInstance" where
  "poolInstance tmpl ttl = emptyInstance\<lparr>iMeta := emptyMeta\<lparr>
       GenerateName := Name (tMeta tmpl) @ ''-pool-'', Namespace := Namespace (tMeta tmpl),
       Labels := Map.empty(LabelManaged \<mapsto> ''true'', LabelTemplate \<mapsto> Name (tMeta tmpl),
         LabelPooled \<mapsto> ''true'')\<rparr>,
     iSpec := \<lparr>iTemplateRef = Name (tMeta tmpl), iOwner = [], iParams = Map.empty, iPooled = True,
       iTTLSeconds = ttl, iSpecExpiresAt = None\<rparr>\<rparr>"

definition createPoolInstance :: "api \<Rightarrow> DployTemplate \<Rightarrow> int \<Rightarrow> (error + unit) io" where
  "createPoolInstance A tmpl ttl =
     (let inst = poolInstance tmpl ttl in
      case setControllerRef A (ownerRef ''DployTemplate'' (tMeta tmpl)) (iMeta inst) of
        Inl e \<Rightarrow> throw (wrapErr ''set owner on pool instance'' e)
      | Inr meta \<Rightarrow> do {
          r \<leftarrow> createInstance A (inst\<lparr>iMeta := meta\<rparr>);
          case r of
            Inl e \<Rightarrow> if IsAlreadyExists e then ok () else throw (wrapErr ''create pool instance'' e)
          | Inr _ \<Rightarrow> ok () })"

text \<open>The fill loop; the slots it counts down give its termination.\<close>

function fillPool ::
  "api \<Rightarrow> DployTemplate \<Rightarrow> PoolSpec \<Rightarrow> int \<Rightarrow> int \<Rightarrow> int \<Rightarrow> int \<Rightarrow> (error + int) io" where
  "fillPool A tmpl p ttl slots held created =
     (if \<not> slots + created < poolSize p then ok created
      else if poolMaxSize p > 0 \<and> held + created \<ge> poolMaxSize p then ok created
      else tryE (createPoolInstance A tmpl ttl)
             (\<lambda>_. fillPool A tmpl p ttl slots held (created + 1)))"
  by pat_completeness auto

termination
  by (relation "measure (\<lambda>(A, tmpl, p, ttl, slots, held, created). nat (poolSize p - (slots + created)))") auto

declare fillPool.simps [simp del]

section \<open>Shrinking\<close>

fun purgeLoop ::
  "api \<Rightarrow> reader \<Rightarrow> int \<Rightarrow> DployInstance list \<Rightarrow> int \<Rightarrow> int \<Rightarrow> (error + int \<times> int) io" where
  "purgeLoop A rd excess [] deleted avail = ok (deleted, avail)"
| "purgeLoop A rd excess (inst # rest) deleted avail =
     (if deleted = excess then ok (deleted, avail)
      else do {
        r \<leftarrow> getInstance A rd (objectKey (iMeta inst));
        case r of
          Inl e \<Rightarrow> if IsNotFound e then purgeLoop A rd excess rest deleted avail
                   else throw (wrapErr (''re-read pool instance '' @ goQuote (Name (iMeta inst))) e)
        | Inr fresh \<Rightarrow>
            if \<not> isPurgeable fresh then purgeLoop A rd excess rest deleted avail
            else do {
              d \<leftarrow> deleteInstance A (objectKey (iMeta fresh))
                     (Some (UID (iMeta fresh), ResourceVersion (iMeta fresh)));
              case d of
                Inr _ \<Rightarrow> purgeLoop A rd excess rest (deleted + 1)
                  (if iPhase (iStatus fresh) = PhaseAvailable then avail + 1 else avail)
              | Inl e \<Rightarrow> if IsConflict e \<or> IsNotFound e then purgeLoop A rd excess rest deleted avail
                         else throw (wrapErr (''purge pool instance '' @ goQuote (Name (iMeta inst))) e) } })"

definition templateReader :: "reader option \<Rightarrow> reader" where
  "templateReader R = (case R of Some r \<Rightarrow> r | None \<Rightarrow> ClientCache)"

definition purgeSurplus ::
  "api \<Rightarrow> reader option \<Rightarrow> DployInstance list \<Rightarrow> int \<Rightarrow> (error + int \<times> int) io" where
  "purgeSurplus A R unclaimed excess =
     purgeLoop A (templateReader R) excess (sortPurgeVictims unclaimed) 0 0"

section \<open>The chart source\<close>

definition syncSource :: "api \<Rightarrow> DployTemplate \<Rightarrow> Effective \<Rightarrow> sourceVerdict io" where
  "syncSource A tmpl eff =
     (if chartRef tmpl = []
      then give \<lparr>svOk = False, svBroken = True, svReason = ''ChartNotConfigured'',
             svMessage = ''template has neither chart.path nor chart.chart set''\<rparr>
      else do {
        r \<leftarrow> ensureSource A tmpl eff;
        case r of
          Inl e \<Rightarrow> give (unknownSource ''SourcePending''
            (''cannot reconcile the chart source yet: '' @ errText e))
        | Inr (srcKind, srcName) \<Rightarrow> do {
            p \<leftarrow> ensureChartProbe A tmpl srcKind srcName eff;
            case p of
              Inl e \<Rightarrow> give (unknownSource ''ChartProbePending''
                (''cannot reconcile the chart probe yet: '' @ errText e))
            | Inr hc \<Rightarrow> give (translateChartProbe A hc) } })"

section \<open>Reconcile\<close>

definition fill :: "api \<Rightarrow> DployTemplate \<Rightarrow> Effective \<Rightarrow> sourceVerdict \<Rightarrow> PoolTally \<Rightarrow> (error + int) io" where
  "fill A tmpl eff src t =
     (case tPool (tSpec tmpl) of
        None \<Rightarrow> ok 0
      | Some p \<Rightarrow>
          if isPoolActive tmpl \<and> \<not> svBroken src
          then fillPool A tmpl p (resolveInstanceTTL tmpl eff) (int (length (ptUnclaimed t))) (ptTotal t) 0
          else ok 0)"

definition shrink ::
  "api \<Rightarrow> reader option \<Rightarrow> DployTemplate \<Rightarrow> PoolTally \<Rightarrow> (error + int \<times> int) io" where
  "shrink A R tmpl t =
     (let slots = int (length (ptUnclaimed t)); desired = desiredWarm tmpl in
      if slots > desired then purgeSurplus A R (ptUnclaimed t) (slots - desired) else ok (0, 0))"

definition templateStatus ::
  "DployTemplate \<Rightarrow> Condition list \<Rightarrow> PoolTally \<Rightarrow> int \<Rightarrow> int \<Rightarrow> int \<Rightarrow> DployTemplate" where
  "templateStatus tmpl cs t created deleted deletedAvailable =
     tStatus_update (\<lambda>s. s\<lparr>tConditions := cs, tPoolAvailable := ptAvailable t - deletedAvailable,
       tPoolClaimed := ptClaimed t, tPoolTotal := ptTotal t + created - deleted,
       tObservedGeneration := Generation (tMeta tmpl)\<rparr>) tmpl"

definition record_status ::
  "api \<Rightarrow> DployTemplate \<Rightarrow> sourceVerdict \<Rightarrow> PoolTally \<Rightarrow> int \<Rightarrow> int \<Rightarrow> int \<Rightarrow> result io" where
  "record_status A tmpl src t created deleted deletedAvailable = do {
     cs \<leftarrow> setStatusCondition A (tConditions (tStatus tmpl))
       (condition ConditionSourceReady (if svOk src then CondTrue else CondFalse) (svReason src)
          (svMessage src) (Generation (tMeta tmpl)));
     r \<leftarrow> patchTemplateStatus A tmpl (templateStatus tmpl cs t created deleted deletedAvailable);
     case r of
       Inl e \<Rightarrow> throw (wrapErr ''patch DployTemplate status'' e)
     | Inr stored \<Rightarrow> ok (if isPoolActive stored \<or> \<not> svOk src then poolMaintenanceInterval else 0) }"

text \<open>The pool of a template whose instances were listed.\<close>

definition reconcilePool ::
  "api \<Rightarrow> reader option \<Rightarrow> DployTemplate \<Rightarrow> Effective \<Rightarrow> sourceVerdict \<Rightarrow> PoolTally \<Rightarrow> result io" where
  "reconcilePool A R tmpl eff src t =
     tryE (fill A tmpl eff src t) (\<lambda>created.
     tryE (shrink A R tmpl t) (\<lambda>(deleted, deletedAvailable).
     record_status A tmpl src t created deleted deletedAvailable))"

definition listAndReconcile ::
  "api \<Rightarrow> reader option \<Rightarrow> DployTemplate \<Rightarrow> Effective \<Rightarrow> sourceVerdict \<Rightarrow> result io" where
  "listAndReconcile A R tmpl eff src = do {
     l \<leftarrow> listInstances A ClientCache (Namespace (tMeta tmpl)) [(LabelTemplate, Name (tMeta tmpl))];
     case l of
       Inl e \<Rightarrow> throw (wrapErr ''list instances'' e)
     | Inr items \<Rightarrow> reconcilePool A R tmpl eff src (tally items emptyTally) }"

definition reconcileTemplate :: "api \<Rightarrow> reader option \<Rightarrow> NamespacedName \<Rightarrow> result io" where
  "reconcileTemplate A R req = do {
     r \<leftarrow> getTemplate A req;
     case r of
       Inl e \<Rightarrow> give (ignoreNotFound 0 e)
     | Inr tmpl \<Rightarrow> tryE (Resolve A) (\<lambda>eff. do {
         src \<leftarrow> syncSource A tmpl eff;
         listAndReconcile A R tmpl eff src }) }"

definition templateForInstance :: "DployInstance \<Rightarrow> NamespacedName list" where
  "templateForInstance inst =
     (if iTemplateRef (iSpec inst) = [] then []
      else [\<lparr>nnNamespace = Namespace (iMeta inst), nnName = iTemplateRef (iSpec inst)\<rparr>])"

end
