(* ===== verification/TemplateProps.thy ===== *)
theory TemplateProps
imports TemplateCtrl Samples
begin

text \<open>
  The properties of the template controller, read off its call log: how many warm instances a run
  creates, which it may destroy, and what it records. \<open>templateGuard\<close> specifies every write by
  what the same run read before, and holds for every reply of the API server.
\<close>

section \<open>Counting\<close>

definition isCreate :: "event \<Rightarrow> bool" where
  "isCreate e = (case e of ECreateInstance _ _ \<Rightarrow> True | _ \<Rightarrow> False)"

definition isPurge :: "event \<Rightarrow> bool" where
  "isPurge e = (case e of EDeleteInstance _ _ (Inr _) \<Rightarrow> True | _ \<Rightarrow> False)"

definition creates :: "log \<Rightarrow> int" where "creates h = int (length (filter isCreate h))"
definition purges :: "log \<Rightarrow> int" where "purges h = int (length (filter isPurge h))"

definition quiet :: "event \<Rightarrow> bool" where "quiet e \<longleftrightarrow> \<not> isCreate e \<and> \<not> isPurge e"

lemma counts_append [simp]:
  "creates (h @ h') = creates h + creates h'" "purges (h @ h') = purges h + purges h'"
  "creates [] = 0" "purges [] = 0"
  by (simp_all add: creates_def purges_def)

lemma counts_Cons [simp]:
  "creates (e # es) = (if isCreate e then 1 else 0) + creates es"
  "purges (e # es) = (if isPurge e then 1 else 0) + purges es"
  by (simp_all add: creates_def purges_def)

lemma kinds [simp]:
  "isCreate (ECreateInstance i r)" "\<not> isPurge (ECreateInstance i r)"
  "\<not> isCreate (EDeleteInstance k p d)" "isPurge (EDeleteInstance k p (Inr u))"
  "\<not> isPurge (EDeleteInstance k p (Inl e))"
  "\<not> isCreate (EPatchTemplateStatus t0 t1 r1)" "\<not> isPurge (EPatchTemplateStatus t0 t1 r1)"
  by (simp_all add: isCreate_def isPurge_def)

lemma reads_kinds [simp]: "isRead e \<Longrightarrow> \<not> isCreate e" "isRead e \<Longrightarrow> \<not> isPurge e"
  by (cases e; simp add: isCreate_def isPurge_def isRead_def)+

lemma counts_quiet:
  "\<forall>e\<in>set es. quiet e \<Longrightarrow> creates es = 0 \<and> purges es = 0"
  by (auto simp: creates_def purges_def quiet_def filter_empty_conv)

lemma quiet_reads [simp]: "isRead e \<Longrightarrow> quiet e"
  by (simp add: quiet_def)

lemma quiet_applies [simp]:
  "quiet (EApplySource kd s r)" "quiet (EApplyChart c r')" "quiet (EPatchTemplateStatus t0 t1 r1)"
  by (simp_all add: quiet_def isCreate_def isPurge_def)

section \<open>What may be written\<close>

definition listedTally :: "DployTemplate \<Rightarrow> log \<Rightarrow> PoolTally \<Rightarrow> bool" where
  "listedTally tmpl h t \<longleftrightarrow> (\<exists>items. EListInstances ClientCache (Namespace (tMeta tmpl))
     [(LabelTemplate, Name (tMeta tmpl))] (Inr items) \<in> set h \<and> t = tally items emptyTally)"

definition slots :: "PoolTally \<Rightarrow> int" where "slots t = int (length (ptUnclaimed t))"

text \<open>How many members a fill has to create.\<close>

definition fillTarget :: "PoolSpec \<Rightarrow> PoolTally \<Rightarrow> int" where
  "fillTarget p t = max 0 (min (poolSize p - slots t)
     (if poolMaxSize p > 0 then poolMaxSize p - ptTotal t else poolSize p - slots t))"

definition mayCreate :: "api \<Rightarrow> DployTemplate \<Rightarrow> log \<Rightarrow> DployInstance \<Rightarrow> bool" where
  "mayCreate A tmpl h i \<longleftrightarrow> isPoolActive tmpl
     \<and> (\<exists>ttl meta. setControllerRef A (ownerRef ''DployTemplate'' (tMeta tmpl))
            (iMeta (poolInstance tmpl ttl)) = Inr meta \<and> i = (poolInstance tmpl ttl)\<lparr>iMeta := meta\<rparr>)
     \<and> (\<exists>t p. listedTally tmpl h t \<and> tPool (tSpec tmpl) = Some p
          \<and> slots t + creates h < poolSize p
          \<and> (poolMaxSize p > 0 \<longrightarrow> ptTotal t + creates h < poolMaxSize p))"

definition mayPurge ::
  "reader option \<Rightarrow> DployTemplate \<Rightarrow> log \<Rightarrow> NamespacedName \<Rightarrow> precondition \<Rightarrow> bool" where
  "mayPurge R tmpl h k p \<longleftrightarrow>
     (\<exists>k' fresh. EGetInstance (templateReader R) k' (Inr fresh) \<in> set h \<and> isPurgeable fresh
        \<and> k = objectKey (iMeta fresh) \<and> p = Some (UID (iMeta fresh), ResourceVersion (iMeta fresh)))
     \<and> (\<exists>t. listedTally tmpl h t \<and> purges h < slots t - desiredWarm tmpl)"

definition statusRecorded :: "api \<Rightarrow> DployTemplate \<Rightarrow> log \<Rightarrow> DployTemplate \<Rightarrow> bool" where
  "statusRecorded A tmpl h new \<longleftrightarrow> (\<exists>t cs avail. listedTally tmpl h t
     \<and> new = templateStatus tmpl cs t (creates h) (purges h) avail)"

definition templateGuard ::
  "api \<Rightarrow> reader option \<Rightarrow> DployTemplate \<Rightarrow> log \<Rightarrow> event \<Rightarrow> bool" where
  "templateGuard A R tmpl h e \<longleftrightarrow> isRead e \<or> (case e of
      EApplySource _ _ _ \<Rightarrow> True
    | EApplyChart _ _ \<Rightarrow> True
    | ECreateInstance i _ \<Rightarrow> mayCreate A tmpl h i
    | EDeleteInstance k p _ \<Rightarrow> mayPurge R tmpl h k p
    | EPatchTemplateStatus t0 t1 _ \<Rightarrow> t0 = tmpl \<and> statusRecorded A tmpl h t1
    | _ \<Rightarrow> False)"

lemma templateGuard_reads [simp]: "isRead e \<Longrightarrow> templateGuard A R tmpl h e"
  by (simp add: templateGuard_def)

lemma templateGuard_applies [simp]:
  "templateGuard A R tmpl h (EApplySource kd s r)" "templateGuard A R tmpl h (EApplyChart c r')"
  by (simp_all add: templateGuard_def)

lemma listedTally_grow: "listedTally tmpl h t \<Longrightarrow> listedTally tmpl (h @ es) t"
  by (auto simp: listedTally_def)

lemma wpe_exact: "wpe P m Q h \<Longrightarrow> wpe P m (\<lambda>x h'. x = returned m h \<and> Q x h') h"
  by (simp add: wpe_def)

lemma wpe_getTemplate:
  "P h (EGetTemplate k (reGetTemplate A h k)) \<Longrightarrow> Q (reGetTemplate A h k) (h @ [EGetTemplate k (reGetTemplate A h k)])
     \<Longrightarrow> wpe P (getTemplate A k) Q h"
  by (simp add: wpe_def getTemplate_def perform_def returned_def logged_def)

lemma wpe_getConfig:
  "P h (EGetConfig k (reGetConfig A h k)) \<Longrightarrow> Q (reGetConfig A h k) (h @ [EGetConfig k (reGetConfig A h k)])
     \<Longrightarrow> wpe P (getConfig A k) Q h"
  by (simp add: wpe_def getConfig_def perform_def returned_def logged_def)

section \<open>Filling\<close>

lemma createPoolInstance_spec:
  assumes "isPoolActive tmpl" and "listedTally tmpl h t" and "tPool (tSpec tmpl) = Some p"
    and "slots t + creates h < poolSize p" and "poolMaxSize p > 0 \<longrightarrow> ptTotal t + creates h < poolMaxSize p"
  shows "wpe (templateGuard A R tmpl) (createPoolInstance A tmpl ttl)
    (okTo (\<lambda>_ h'. creates h' = creates h + 1 \<and> purges h' = purges h \<and> listedTally tmpl h' t)) h"
proof -
  have g: "templateGuard A R tmpl h (ECreateInstance ((poolInstance tmpl ttl)\<lparr>iMeta := meta\<rparr>) r)"
    if "setControllerRef A (ownerRef ''DployTemplate'' (tMeta tmpl)) (iMeta (poolInstance tmpl ttl)) = Inr meta"
    for meta r
    using that assms unfolding templateGuard_def mayCreate_def by auto
  show ?thesis
    unfolding createPoolInstance_def Let_def
    by (auto simp: g listedTally_grow assms(2) intro!: wpe_rules split: sum.split)
qed

lemma fillPool_spec:
  assumes "isPoolActive tmpl" and "tPool (tSpec tmpl) = Some p"
    and "listedTally tmpl h t" and "creates h = created" and "created \<le> fillTarget p t"
    and "purges h = purged"
  shows "wpe (templateGuard A R tmpl) (fillPool A tmpl p ttl (slots t) (ptTotal t) created)
    (okTo (\<lambda>n h'. n = fillTarget p t \<and> creates h' = n \<and> purges h' = purged \<and> listedTally tmpl h' t)) h"
  using assms(3-6)
proof (induction "nat (fillTarget p t - created)" arbitrary: created h rule: less_induct)
  case less
  show ?case
  proof (cases "slots t + created < poolSize p \<and> (poolMaxSize p > 0 \<longrightarrow> ptTotal t + created < poolMaxSize p)")
    case True
    then have lt: "created + 1 \<le> fillTarget p t" by (auto simp: fillTarget_def)
    have rec: "wpe (templateGuard A R tmpl) (fillPool A tmpl p ttl (slots t) (ptTotal t) (created + 1))
        (okTo (\<lambda>n h'. n = fillTarget p t \<and> creates h' = n \<and> purges h' = purged \<and> listedTally tmpl h' t)) h'"
      if "creates h' = created + 1" "purges h' = purged" "listedTally tmpl h' t" for h'
      using less.hyps [of "created + 1" h'] that lt by simp
    have un: "fillPool A tmpl p ttl (slots t) (ptTotal t) created
        = tryE (createPoolInstance A tmpl ttl) (\<lambda>_. fillPool A tmpl p ttl (slots t) (ptTotal t) (created + 1))"
      using True by (subst fillPool.simps) auto
    show ?thesis
      unfolding un
      by (rule wpe_tryE, rule wpe_mono [OF createPoolInstance_spec [OF assms(1) less.prems(1) assms(2)]])
        (auto simp: True less.prems(1,2,4) intro!: rec split: sum.splits)
  next
    case False
    have "0 \<le> created" using less.prems(2) by (simp add: creates_def flip: of_nat_0_le_iff)
    with False have "created = fillTarget p t"
      using less.prems(3) by (auto simp: fillTarget_def max_def min_def split: if_splits)
    moreover have "fillPool A tmpl p ttl (slots t) (ptTotal t) created = ok created"
      using False by (subst fillPool.simps) auto
    ultimately show ?thesis using less.prems by (auto intro!: wpe_return)
  qed
qed

section \<open>Shrinking\<close>

text \<open>A victim the run has dealt with: re-read, and deleted at that version unless it is gone or no longer
  fit to be destroyed.\<close>

definition purgeTried :: "reader option \<Rightarrow> log \<Rightarrow> DployInstance \<Rightarrow> bool" where
  "purgeTried R h i \<longleftrightarrow> (\<exists>r. EGetInstance (templateReader R) (objectKey (iMeta i)) r \<in> set h
     \<and> (case r of
          Inl e \<Rightarrow> IsNotFound e
        | Inr fresh \<Rightarrow> isPurgeable fresh \<longrightarrow> (\<exists>d. EDeleteInstance (objectKey (iMeta fresh))
            (Some (UID (iMeta fresh), ResourceVersion (iMeta fresh))) d \<in> set h)))"

lemma purgeTried_grow: "purgeTried R h i \<Longrightarrow> purgeTried R (h @ es) i"
  unfolding purgeTried_def by (elim exE, rule exI) (auto split: sum.splits)

lemma purgeTried_now:
  "IsNotFound e \<Longrightarrow> purgeTried R (h @ [EGetInstance (templateReader R) (objectKey (iMeta i)) (Inl e)]) i"
  "\<not> isPurgeable f \<Longrightarrow> purgeTried R (h @ [EGetInstance (templateReader R) (objectKey (iMeta i)) (Inr f)]) i"
  "purgeTried R (h @ [EGetInstance (templateReader R) (objectKey (iMeta i)) (Inr f),
     EDeleteInstance (objectKey (iMeta f)) (Some (UID (iMeta f), ResourceVersion (iMeta f))) d]) i"
  unfolding purgeTried_def by fastforce+

lemma purgeLoop_spec:
  assumes "listedTally tmpl h t" and "excess = slots t - desiredWarm tmpl"
    and "purges h = deleted" and "deleted \<le> excess" and "creates h = n"
    and "\<forall>i\<in>handled. purgeTried R h i"
  shows "wpe (templateGuard A R tmpl) (purgeLoop A (templateReader R) excess victims deleted avail)
    (okTo (\<lambda>(d, _) h'. d = purges h' \<and> d \<le> excess \<and> creates h' = n \<and> listedTally tmpl h' t
       \<and> (d = excess \<or> (\<forall>i\<in>handled \<union> set victims. purgeTried R h' i)))) h"
  using assms
proof (induction victims arbitrary: h deleted avail handled)
  case Nil
  then show ?case by (auto intro!: wpe_return)
next
  case (Cons v rest)
  show ?case
  proof (cases "deleted = excess")
    case True
    with Cons.prems show ?thesis by (auto intro!: wpe_return)
  next
    case False
    let ?k = "objectKey (iMeta v)"
    have next_ok: "deleted + 1 \<le> excess" using False Cons.prems(4) by simp
    have g: "templateGuard A R tmpl (h @ [EGetInstance (templateReader R) ?k (Inr f)])
        (EDeleteInstance (objectKey (iMeta f)) (Some (UID (iMeta f), ResourceVersion (iMeta f))) d)"
      if "isPurgeable f" for f d
    proof -
      have "purges h < slots t - desiredWarm tmpl" using False Cons.prems by simp
      moreover have "listedTally tmpl (h @ [EGetInstance (templateReader R) ?k (Inr f)]) t"
        using Cons.prems(1) by (rule listedTally_grow)
      ultimately have "mayPurge R tmpl (h @ [EGetInstance (templateReader R) ?k (Inr f)])
          (objectKey (iMeta f)) (Some (UID (iMeta f), ResourceVersion (iMeta f)))"
        using that unfolding mayPurge_def by auto
      then show ?thesis by (simp add: templateGuard_def)
    qed
    have rest: "wpe (templateGuard A R tmpl) (purgeLoop A (templateReader R) excess rest d' avail')
        (okTo (\<lambda>(d, _) h'. d = purges h' \<and> d \<le> excess \<and> creates h' = n \<and> listedTally tmpl h' t
          \<and> (d = excess \<or> purgeTried R h' v \<and> (\<forall>i\<in>handled \<union> set rest. purgeTried R h' i)))) (h @ es)"
      if "purges (h @ es) = d'" "d' \<le> excess" "creates es = 0" "purgeTried R (h @ es) v" for es d' avail'
      using Cons.IH [of "h @ es" d' "insert v handled" avail'] that Cons.prems
      by (simp add: listedTally_grow purgeTried_grow)
    show ?thesis
      using False
      by (auto simp: g next_ok Cons.prems(3,4) purgeTried_now intro!: wpe_rules rest split: sum.split)
  qed
qed

section \<open>A whole run\<close>

lemma emits_syncSource:
  "emits (\<lambda>h e. templateGuard A R tmpl h e \<and> quiet e) (syncSource A tmpl eff)"
  unfolding syncSource_def
  by (auto intro!: emits_bind emits_return emits_ensureSource emits_ensureChartProbe split: sum.split)

definition templateRun :: "api \<Rightarrow> reader option \<Rightarrow> NamespacedName \<Rightarrow> log \<Rightarrow> event \<Rightarrow> bool" where
  "templateRun A R req h e \<longleftrightarrow> isRead e
     \<or> (\<exists>tmpl. EGetTemplate req (Inr tmpl) \<in> set h \<and> templateGuard A R tmpl h e)"

lemma templateRun_tmpl:
  assumes "EGetTemplate req (Inr tmpl) \<in> set h" and "wpe (templateGuard A R tmpl) m Q h"
  shows "wpe (templateRun A R req) m Q h"
proof -
  have "all_steps (templateRun A R req) h es" if "all_steps (templateGuard A R tmpl) h es" for es
    using that assms(1)
  proof (induction es arbitrary: h)
    case (Cons e es)
    then show ?case by (auto simp: templateRun_def)
  qed simp
  then show ?thesis using assms(2) by (auto simp: wpe_def)
qed

text \<open>What a successful run has done to the pool.\<close>

definition shortfall :: "DployTemplate \<Rightarrow> bool \<Rightarrow> PoolTally \<Rightarrow> int" where
  "shortfall tmpl broken t = (case tPool (tSpec tmpl) of
      None \<Rightarrow> 0
    | Some p \<Rightarrow> if isPoolActive tmpl \<and> \<not> broken then fillTarget p t else 0)"

definition surplus :: "DployTemplate \<Rightarrow> PoolTally \<Rightarrow> int" where
  "surplus tmpl t = max 0 (slots t - desiredWarm tmpl)"

definition poolSettled :: "reader option \<Rightarrow> DployTemplate \<Rightarrow> bool \<Rightarrow> log \<Rightarrow> bool" where
  "poolSettled R tmpl broken h \<longleftrightarrow> (\<exists>t. listedTally tmpl h t
     \<and> creates h = shortfall tmpl broken t
     \<and> purges h \<le> surplus tmpl t
     \<and> (purges h = surplus tmpl t \<or> (\<forall>i\<in>set (ptUnclaimed t). purgeTried R h i))
     \<and> \<not> (creates h > 0 \<and> purges h > 0))"

lemma shortfall_no_surplus: "0 < shortfall tmpl broken t \<Longrightarrow> surplus tmpl t = 0"
  by (auto simp: shortfall_def surplus_def fillTarget_def desiredWarm_def isPoolActive_def
      split: option.splits if_splits)

lemma record_status_spec:
  assumes "listedTally tmpl h t" and "creates h = created" and "purges h = deleted"
  shows "wpe (templateGuard A R tmpl) (record_status A tmpl src t created deleted avail)
    (okTo (\<lambda>_ h'. creates h' = created \<and> purges h' = deleted \<and> listedTally tmpl h' t)) h"
proof -
  have g: "templateGuard A R tmpl (h @ [ENow n])
      (EPatchTemplateStatus tmpl (templateStatus tmpl cs t created deleted avail) r)" for n cs r
  proof -
    have "listedTally tmpl (h @ [ENow n]) t" using assms(1) by (rule listedTally_grow)
    then have "statusRecorded A tmpl (h @ [ENow n]) (templateStatus tmpl cs t created deleted avail)"
      using assms(2,3) unfolding statusRecorded_def by auto
    then show ?thesis by (simp add: templateGuard_def)
  qed
  show ?thesis
    unfolding record_status_def
    by (auto simp: g assms listedTally_grow intro!: wpe_rules split: sum.split)
qed

lemma fill_spec:
  assumes "listedTally tmpl h t" and "creates h = 0" and "purges h = 0"
  shows "wpe (templateGuard A R tmpl) (fill A tmpl eff src t)
    (okTo (\<lambda>n h'. n = shortfall tmpl (svBroken src) t \<and> creates h' = n \<and> purges h' = 0
       \<and> listedTally tmpl h' t)) h"
proof (cases "tPool (tSpec tmpl)")
  case None
  then show ?thesis using assms by (auto simp: fill_def shortfall_def intro!: wpe_return)
next
  case (Some p)
  show ?thesis
  proof (cases "isPoolActive tmpl \<and> \<not> svBroken src")
    case True
    have "wpe (templateGuard A R tmpl)
        (fillPool A tmpl p (resolveInstanceTTL tmpl eff) (slots t) (ptTotal t) 0)
        (okTo (\<lambda>n h'. n = fillTarget p t \<and> creates h' = n \<and> purges h' = 0 \<and> listedTally tmpl h' t)) h"
      by (rule fillPool_spec) (use True Some assms in \<open>auto simp: fillTarget_def\<close>)
    then show ?thesis
      using Some True by (auto simp: fill_def shortfall_def slots_def okTo_def split: sum.splits elim!: wpe_mono)
  qed (use Some assms in \<open>auto simp: fill_def shortfall_def intro!: wpe_return\<close>)
qed

definition purged :: "reader option \<Rightarrow> DployTemplate \<Rightarrow> PoolTally \<Rightarrow> log \<Rightarrow> bool" where
  "purged R tmpl t h \<longleftrightarrow> purges h \<le> surplus tmpl t
     \<and> (purges h = surplus tmpl t \<or> (\<forall>i\<in>set (ptUnclaimed t). purgeTried R h i))"

lemma shrink_spec:
  assumes "listedTally tmpl h t" and "purges h = 0" and "creates h = n"
  shows "wpe (templateGuard A R tmpl) (shrink A R tmpl t)
    (okTo (\<lambda>(d, _) h'. d = purges h' \<and> creates h' = n \<and> listedTally tmpl h' t \<and> purged R tmpl t h')) h"
proof (cases "slots t > desiredWarm tmpl")
  case True
  have "wpe (templateGuard A R tmpl)
      (purgeLoop A (templateReader R) (slots t - desiredWarm tmpl) (sortPurgeVictims (ptUnclaimed t)) 0 0)
      (okTo (\<lambda>(d, _) h'. d = purges h' \<and> d \<le> slots t - desiredWarm tmpl \<and> creates h' = n
         \<and> listedTally tmpl h' t \<and> (d = slots t - desiredWarm tmpl
           \<or> (\<forall>i\<in>{} \<union> set (sortPurgeVictims (ptUnclaimed t)). purgeTried R h' i)))) h"
    by (rule purgeLoop_spec) (use True assms in auto)
  then show ?thesis
    using True by (auto simp: shrink_def Let_def slots_def purgeSurplus_def okTo_def purged_def surplus_def
        sortPurgeVictims_def split: sum.splits elim!: wpe_mono)
next
  case False
  then show ?thesis
    using assms by (auto simp: shrink_def Let_def slots_def purged_def surplus_def intro!: wpe_return)
qed

lemma purged_grow: "purged R tmpl t h \<Longrightarrow> purges es = 0 \<Longrightarrow> purged R tmpl t (h @ es)"
  by (auto simp: purged_def purgeTried_grow)

lemma reconcilePool_spec:
  assumes "listedTally tmpl h t" and "creates h = 0" and "purges h = 0"
  shows "wpe (templateGuard A R tmpl)
    (reconcilePool A R tmpl eff src t) (okTo (\<lambda>_. poolSettled R tmpl (svBroken src))) h"
proof -
  let ?n = "shortfall tmpl (svBroken src) t"
  let ?Q = "okTo (\<lambda>(_ :: Duration). poolSettled R tmpl (svBroken src))"
  have last: "wpe (templateGuard A R tmpl) (record_status A tmpl src t ?n d avail) ?Q h'"
    if l: "listedTally tmpl h' t" and d: "purges h' = d" and n: "creates h' = ?n"
      and p: "purged R tmpl t h'" for h' d avail
  proof (rule wpe_mono [OF record_status_spec [OF l n d]])
    fix x :: "error + int" and es
    assume *: "okTo (\<lambda>_ h'. creates h' = ?n \<and> purges h' = d \<and> listedTally tmpl h' t) x (h' @ es)"
    show "?Q x (h' @ es)"
    proof (cases x)
      case (Inr y)
      with * d have e: "purges es = 0" "creates (h' @ es) = ?n" "listedTally tmpl (h' @ es) t" by auto
      with p have "purged R tmpl t (h' @ es)" by (intro purged_grow)
      then have "poolSettled R tmpl (svBroken src) (h' @ es)"
        using e(2,3) shortfall_no_surplus [of tmpl "svBroken src" t]
        unfolding poolSettled_def purged_def by (intro exI [where x = t]) fastforce
      with Inr show ?thesis by simp
    qed simp
  qed
  have tail: "wpe (templateGuard A R tmpl)
      (tryE (shrink A R tmpl t) (\<lambda>(deleted, avail). record_status A tmpl src t ?n deleted avail)) ?Q h'"
    if "listedTally tmpl h' t" "purges h' = 0" "creates h' = ?n" for h'
    by (rule wpe_tryE, rule wpe_mono [OF shrink_spec [OF that]])
      (auto simp: okTo_def [of _ "Inr _"] intro!: last split: sum.splits)
  show ?thesis
    unfolding reconcilePool_def
    by (rule wpe_tryE, rule wpe_mono [OF fill_spec [OF assms]])
      (auto simp: okTo_def [of _ "Inr _"] intro!: tail split: sum.splits)
qed

lemma listAndReconcile_spec:
  assumes "creates h = 0" and "purges h = 0"
  shows "wpe (templateGuard A R tmpl) (listAndReconcile A R tmpl eff src)
    (okTo (\<lambda>_. poolSettled R tmpl (svBroken src))) h"
proof -
  have items: "wpe (templateGuard A R tmpl) (reconcilePool A R tmpl eff src (tally items emptyTally))
      (okTo (\<lambda>_. poolSettled R tmpl (svBroken src)))
      (h @ [EListInstances ClientCache (Namespace (tMeta tmpl)) [(LabelTemplate, Name (tMeta tmpl))] (Inr items)])"
    for items
    by (rule reconcilePool_spec) (use assms in \<open>auto simp: listedTally_def\<close>)
  show ?thesis
    unfolding listAndReconcile_def by (auto intro!: wpe_rules items split: sum.split)
qed

text \<open>What the run read before the source: the template and the configuration. Both replies are functions
  of what was asked before, so the verdict on the source is one too.\<close>

definition verdictOf :: "api \<Rightarrow> NamespacedName \<Rightarrow> DployTemplate \<Rightarrow> Effective \<Rightarrow> sourceVerdict" where
  "verdictOf A req tmpl eff = returned (syncSource A tmpl eff)
     [EGetTemplate req (Inr tmpl), EGetConfig configKey (reGetConfig A [EGetTemplate req (Inr tmpl)] configKey)]"

definition runSettled :: "api \<Rightarrow> reader option \<Rightarrow> NamespacedName \<Rightarrow> log \<Rightarrow> bool" where
  "runSettled A R req h = (case reGetTemplate A [] req of
      Inl _ \<Rightarrow> creates h = 0 \<and> purges h = 0
    | Inr tmpl \<Rightarrow> \<exists>eff. effectiveOf A (reGetConfig A [EGetTemplate req (Inr tmpl)] configKey) = Inr eff
        \<and> poolSettled R tmpl (svBroken (verdictOf A req tmpl eff)) h)"

lemma reconcileTemplate_spec:
  "wpe (templateRun A R req) (reconcileTemplate A R req) (okTo (\<lambda>_. runSettled A R req)) []"
proof (cases "reGetTemplate A [] req")
  case (Inl e)
  then show ?thesis
    unfolding reconcileTemplate_def
    by (intro wpe_bind wpe_getTemplate)
      (auto simp: runSettled_def ignoreNotFound_def templateRun_def intro!: wpe_return)
next
  case (Inr tmpl)
  let ?g = "[EGetTemplate req (Inr tmpl)]"
  have src: "wpe (templateGuard A R tmpl) (do {
       src \<leftarrow> syncSource A tmpl eff; listAndReconcile A R tmpl eff src })
      (okTo (\<lambda>_. runSettled A R req)) [EGetTemplate req (Inr tmpl), EGetConfig configKey rc]"
    if "rc = reGetConfig A ?g configKey" "effectiveOf A rc = Inr eff" for eff rc
  proof (rule wpe_bind, rule wpe_mono [OF wpe_exact [OF wpe_quiet [OF emits_syncSource, of "\<lambda>_ h'. creates h' = 0 \<and> purges h' = 0"]]])
    fix src es
    let ?h = "[EGetTemplate req (Inr tmpl), EGetConfig configKey rc]"
    show "creates (?h @ es) = 0 \<and> purges (?h @ es) = 0" if "\<forall>e\<in>set es. quiet e"
      using that counts_quiet [of es] by simp
    assume *: "src = returned (syncSource A tmpl eff) ?h \<and> creates (?h @ es) = 0 \<and> purges (?h @ es) = 0"
    then have "src = verdictOf A req tmpl eff" using that(1) by (simp add: verdictOf_def)
    then show "wpe (templateGuard A R tmpl) (listAndReconcile A R tmpl eff src)
        (okTo (\<lambda>_. runSettled A R req)) (?h @ es)"
      using * that Inr
      by (intro wpe_mono [OF listAndReconcile_spec]) (auto simp: runSettled_def okTo_def split: sum.splits)
  qed
  have body: "wpe (templateGuard A R tmpl) (tryE (Resolve A) (\<lambda>eff. do {
       src \<leftarrow> syncSource A tmpl eff; listAndReconcile A R tmpl eff src }))
      (okTo (\<lambda>_. runSettled A R req)) ?g"
    unfolding Resolve_def
    by (intro wpe_tryE wpe_bind wpe_getConfig) (auto intro!: wpe_return src split: sum.split)
  show ?thesis
    unfolding reconcileTemplate_def
    by (intro wpe_bind wpe_getTemplate) (auto simp: Inr templateRun_def intro!: templateRun_tmpl body)
qed

interpretation template_run:
  guarded_run "reconcileTemplate A R req" "templateRun A R req" "okTo (\<lambda>_. runSettled A R req)" for A R req
  by unfold_locales (rule reconcileTemplate_spec)

section \<open>The order of destruction\<close>

interpretation purge: slice_order purgeBefore "\<lambda>i. Name (iMeta i)"
proof
  fix x y z :: DployInstance
  show "purgeBefore x y \<Longrightarrow> \<not> purgeBefore y x"
    by (auto simp: purgeBefore_def split: if_splits)
  show "purgeBefore x y \<Longrightarrow> purgeBefore y z \<Longrightarrow> purgeBefore x z"
    by (auto simp: purgeBefore_def split: if_splits)
  show "Name (iMeta x) \<noteq> Name (iMeta y) \<Longrightarrow> purgeBefore x y \<or> purgeBefore y x"
    by (auto simp: purgeBefore_def)
qed

lemma tally_unclaimed:
  "ptUnclaimed (tally items acc) = ptUnclaimed acc @
     filter (\<lambda>i. alive i \<and> iPooled (iSpec i) \<and> iOwner (iSpec i) = []) items"
  by (induction items arbitrary: acc) auto

lemma tally_counts:
  "ptTotal (tally items acc) = ptTotal acc + int (length (filter alive items))"
  "ptClaimed (tally items acc) = ptClaimed acc
     + int (length (filter (\<lambda>i. alive i \<and> iPooled (iSpec i) \<and> iOwner (iSpec i) \<noteq> []) items))"
  "ptAvailable (tally items acc) = ptAvailable acc
     + int (length (filter (\<lambda>i. alive i \<and> iPooled (iSpec i) \<and> iOwner (iSpec i) = []
           \<and> iPhase (iStatus i) = PhaseAvailable) items))"
  by (induction items arbitrary: acc) auto

section \<open>Properties\<close>

definition poolWritesOk :: "api \<Rightarrow> reader option \<Rightarrow> NamespacedName \<Rightarrow> log \<Rightarrow> event \<Rightarrow> bool" where
  "poolWritesOk A R req h e = (case e of
      ECreateInstance i r \<Rightarrow> (\<exists>tmpl. EGetTemplate req (Inr tmpl) \<in> set h \<and> mayCreate A tmpl h i)
    | EDeleteInstance k p r \<Rightarrow> (\<exists>tmpl. EGetTemplate req (Inr tmpl) \<in> set h \<and> mayPurge R tmpl h k p)
    | EUpdateInstance i r \<Rightarrow> False
    | _ \<Rightarrow> True)"

text \<open>C7. The pool controller never goes past its bounds and never destroys an environment someone
  may hold. Whatever the API server answers, each warm instance is created only while the
  template is active and the unclaimed members counted plus those created so far are below the
  pool size and, where there is a cap, the live instances plus those created so far below it. An
  instance is deleted only after an uncached read showed it unclaimed and unowned, only at the
  UID and resource version of that read, and only while fewer have been deleted than the
  surplus. No instance is ever updated.\<close>

theorem pool_writes_bounded:
  "all_steps (poolWritesOk A R req) [] (logged (reconcileTemplate A R req) [])"
proof (rule template_run.steps)
  fix h e
  assume "templateRun A R req h e"
  then show "poolWritesOk A R req h e"
    by (cases e) (auto simp: templateRun_def poolWritesOk_def templateGuard_def isRead_def)
qed


text \<open>The pool is destroyed least useful first, and every reader of the same members picks the
  same victims: the order is total on distinct names, it does not depend on the order of the
  list, failed members come before those still provisioning and these before warm ones, and
  within one kind the newest first.\<close>

theorem purge_order:
  assumes "distinct (map (\<lambda>i. Name (iMeta i)) xs)" and "mset ys = mset xs"
    and "i < j" and "j < length xs"
  shows "sortPurgeVictims ys = sortPurgeVictims xs
    \<and> purgeRank (sortPurgeVictims xs ! i) \<le> purgeRank (sortPurgeVictims xs ! j)
    \<and> (purgeRank (sortPurgeVictims xs ! i) = purgeRank (sortPurgeVictims xs ! j) \<longrightarrow>
        CreationTimestamp (iMeta (sortPurgeVictims xs ! j)) \<le> CreationTimestamp (iMeta (sortPurgeVictims xs ! i)))"
proof -
  have s: "sorted_wrt purgeBefore (sortPurgeVictims xs)"
    unfolding sortPurgeVictims_def by (rule purge.sorted_sortSlice [OF assms(1)])
  have "purgeBefore (sortPurgeVictims xs ! i) (sortPurgeVictims xs ! j)"
    by (rule purge.sorted_index_less [OF s assms(3)]) (simp add: sortPurgeVictims_def assms(4))
  then show ?thesis
    using purge.sortSlice_cong [OF assms(1,2)]
    by (auto simp: purgeBefore_def sortPurgeVictims_def split: if_splits)
qed

definition pooled :: "string \<Rightarrow> InstancePhase \<Rightarrow> Time \<Rightarrow> DployInstance" where
  "pooled n ph t = (iSpec_update (\<lambda>s. s\<lparr>iPooled := True\<rparr>) (iStatus_update (\<lambda>s. s\<lparr>iPhase := ph\<rparr>)
     (iMeta_update (\<lambda>m. m\<lparr>Name := n, CreationTimestamp := t\<rparr>) emptyInstance)))"

theorem purge_order_witness:
  "map (\<lambda>i. Name (iMeta i)) (sortPurgeVictims
     [pooled ''a'' PhaseAvailable 1, pooled ''b'' PhaseFailed 1, pooled ''c'' PhaseAvailable 2])
   = [''b'', ''c'', ''a'']
   \<and> purgeRank (sortPurgeVictims [pooled ''a'' PhaseAvailable 1, pooled ''b'' PhaseFailed 1] ! 0)
     \<le> purgeRank (sortPurgeVictims [pooled ''a'' PhaseAvailable 1, pooled ''b'' PhaseFailed 1] ! 1)"
proof
  show "map (\<lambda>i. Name (iMeta i)) (sortPurgeVictims
     [pooled ''a'' PhaseAvailable 1, pooled ''b'' PhaseFailed 1, pooled ''c'' PhaseAvailable 2])
   = [''b'', ''c'', ''a'']" by code_simp
  have d: "distinct (map (\<lambda>i. Name (iMeta i)) [pooled ''a'' PhaseAvailable 1, pooled ''b'' PhaseFailed 1])"
    by (simp add: pooled_def)
  show "purgeRank (sortPurgeVictims [pooled ''a'' PhaseAvailable 1, pooled ''b'' PhaseFailed 1] ! 0)
     \<le> purgeRank (sortPurgeVictims [pooled ''a'' PhaseAvailable 1, pooled ''b'' PhaseFailed 1] ! 1)"
    using purge_order [OF d refl, of 0 1] by simp
qed

end
