(* ===== verification/InstanceCtrl.thy ===== *)
theory InstanceCtrl
imports Flux
begin

text \<open>
  \<^verbatim>\<open>internal/controller/dployinstance_controller.go\<close>: the controller that turns one
  \<open>DployInstance\<close> into a workload namespace and a \<open>HelmRelease\<close>, projects what Flux reports
  back onto its status, deletes it at its deadline, and takes everything down in order when it is
  deleted. \<open>reconcileInstance\<close> and \<open>reconcileInstanceRead\<close> are \<^verbatim>\<open>Reconcile\<close> up to the
  pinned UUID, \<open>provision\<close> renders, \<open>materialize\<close> creates, and \<open>observeRelease\<close> projects.
\<close>

definition provisioningRequeue :: Duration where "provisioningRequeue = 15 * second"
definition failureRequeue :: Duration where "failureRequeue = 30 * second"
definition deletionRequeue :: Duration where "deletionRequeue = 5 * second"

section \<open>Metadata\<close>

definition instanceWant :: "DployInstance \<Rightarrow> (string \<times> string) list" where
  "instanceWant inst =
     [(LabelManaged, ''true''), (LabelTemplate, iTemplateRef (iSpec inst))]
     @ (if iPooled (iSpec inst) then [(LabelPooled, ''true'')] else [])
     @ (if sanitize (iOwner (iSpec inst)) \<noteq> [] then [(LabelOwner, sanitize (iOwner (iSpec inst)))]
        else [])"

definition ensureInstanceMeta :: "api \<Rightarrow> DployInstance \<Rightarrow> bool \<times> DployInstance" where
  "ensureInstanceMeta A inst =
     (let missing = \<not> hasFinalizer A (iMeta inst) InstanceFinalizer;
          meta = (if missing then addFinalizer A (iMeta inst) InstanceFinalizer else iMeta inst);
          (changed, l) = stampLabels (instanceWant inst) (Labels meta) in
      (missing \<or> changed, inst\<lparr>iMeta := meta\<lparr>Labels := l\<rparr>\<rparr>))"

section \<open>Status writes\<close>

text \<open>The result is the caller's instance afterwards.\<close>

definition patchInstance ::
  "api \<Rightarrow> DployInstance \<Rightarrow> DployInstance \<Rightarrow> (error + DployInstance) io" where
  "patchInstance A original inst = do {
     let inst1 = iStatus_update (\<lambda>s. s\<lparr>iObservedGeneration := Generation (iMeta inst)\<rparr>) inst;
     r \<leftarrow> patchInstanceStatus A original inst1;
     case r of
       Inl e \<Rightarrow> if IsNotFound e then ok inst1
                else throw (wrapErr ''patch DployInstance status'' e)
     | Inr stored \<Rightarrow> ok stored }"

definition setInstanceCondition ::
  "api \<Rightarrow> DployInstance \<Rightarrow> ConditionStatus \<Rightarrow> string \<Rightarrow> string \<Rightarrow> DployInstance io" where
  "setInstanceCondition A inst st reason message = do {
     cs \<leftarrow> setStatusCondition A (iConditions (iStatus inst))
       (condition ''Ready'' st reason message (Generation (iMeta inst)));
     give (iStatus_update (\<lambda>s. s\<lparr>iConditions := cs\<rparr>) inst) }"

definition setPhase :: "InstancePhase \<Rightarrow> string \<Rightarrow> DployInstance \<Rightarrow> DployInstance" where
  "setPhase ph health inst = iStatus_update (\<lambda>s. s\<lparr>iPhase := ph, iHealth := health\<rparr>) inst"

definition failInstance ::
  "api \<Rightarrow> DployInstance \<Rightarrow> DployInstance \<Rightarrow> string \<Rightarrow> string \<Rightarrow> result io" where
  "failInstance A original inst reason message = do {
     inst1 \<leftarrow> setInstanceCondition A (setPhase PhaseFailed ''Degraded'' inst) CondFalse reason message;
     tryE (patchInstance A original inst1) (\<lambda>_. ok failureRequeue) }"

definition phaseFor :: "DployInstance \<Rightarrow> helmReleaseState \<Rightarrow> InstancePhase" where
  "phaseFor inst state =
     (case hsReadiness state of
        ReadinessFailed \<Rightarrow> PhaseFailed
      | ReadinessReady \<Rightarrow>
          if iPooled (iSpec inst)
          then (if iOwner (iSpec inst) = [] then PhaseAvailable else PhaseClaimed)
          else PhaseReady
      | ReadinessInProgress \<Rightarrow> PhaseProvisioning)"

section \<open>Rendering\<close>

definition buildData :: "DployInstance \<Rightarrow> DployTemplate \<Rightarrow> Effective \<Rightarrow> string \<Rightarrow> Data" where
  "buildData inst tmpl eff targetNS =
     (let owner = (if iPooled (iSpec inst) then [] else iOwner (iSpec inst));
          params = (if iPooled (iSpec inst) then Map.empty else iParams (iSpec inst)) in
      \<lparr>dOwner = sanitize owner, dUUID = iUUID (iStatus inst), dBaseDomain = eBaseDomain eff,
       dHost = defaultHost (iTemplateRef (iSpec inst)) (iUUID (iStatus inst)) (eBaseDomain eff),
       dURL = [], dConnectionURL = [], dNamespace = targetNS, dTemplate = tmpl,
       dParams = params, dConfigValues = eValues eff\<rparr>)"

definition resolveURL :: "api \<Rightarrow> DployTemplate \<Rightarrow> Effective \<Rightarrow> Data \<Rightarrow> error + string" where
  "resolveURL A tmpl eff dat =
     (let urlTmpl = firstNonEmpty [tConnectionURLTemplate (tSpec tmpl), eConnectionURLTemplate eff] in
      if urlTmpl \<noteq> []
      then (case Render A ''connectionURL'' urlTmpl dat of Inl e \<Rightarrow> Inl e | Inr out \<Rightarrow> Inr (TrimSpace out))
      else Inr (''https://'' @ dHost dat))"

definition resolveConnectionType :: "DployTemplate \<Rightarrow> Effective \<Rightarrow> ConnectionType" where
  "resolveConnectionType tmpl eff =
     (let t = firstNonEmpty [tConnectionType (tSpec tmpl), eDefaultConnectionType eff] in
      if t = [] then ConnectionWeb else t)"

definition resolveMessage ::
  "api \<Rightarrow> DployTemplate \<Rightarrow> Effective \<Rightarrow> Data \<Rightarrow> string \<Rightarrow> error + string" where
  "resolveMessage A tmpl eff dat url =
     (if resolveConnectionType tmpl eff \<noteq> ConnectionInstructions then Inr []
      else (let msgTmpl = firstNonEmpty
              [tConnectionMessageTemplate (tSpec tmpl), eConnectionMessageTemplate eff] in
            if msgTmpl \<noteq> []
            then (case Render A ''connectionMessage'' msgTmpl dat of
                Inl e \<Rightarrow> Inl e | Inr out \<Rightarrow> Inr (TrimSpace out))
            else Inr url))"

definition renderValues :: "api \<Rightarrow> DployTemplate \<Rightarrow> Data \<Rightarrow> (string \<times> error) + string" where
  "renderValues A tmpl dat =
     (if TrimSpace (tValuesTemplate (tSpec tmpl)) \<noteq> []
      then (case Render A ''values'' (tValuesTemplate (tSpec tmpl)) dat of
          Inl e \<Rightarrow> Inl (''ValuesTemplateError'', e)
        | Inr rendered \<Rightarrow> (case yamlToJSON A rendered of
            Inl e \<Rightarrow> Inl (''ValuesYAMLError'', e) | Inr j \<Rightarrow> Inr j))
      else Inr [])"

text \<open>The status fields rendering fills in as it goes, so that a failure records those already
  filled; and the values of the release. A failure carries its reason and its error.\<close>

definition setConnection :: "ConnectionType \<Rightarrow> string \<Rightarrow> DployInstance \<Rightarrow> DployInstance" where
  "setConnection t msg inst =
     iStatus_update (\<lambda>s. s\<lparr>iConnectionType := t, iConnectionMessage := msg\<rparr>) inst"

definition renderInstance ::
  "api \<Rightarrow> DployInstance \<Rightarrow> DployTemplate \<Rightarrow> Effective \<Rightarrow> string
   \<Rightarrow> DployInstance \<times> ((string \<times> error) + string)" where
  "renderInstance A inst tmpl eff targetNS =
     (let dat = buildData inst tmpl eff targetNS in
      case resolveURL A tmpl eff dat of
        Inl e \<Rightarrow> (inst, Inl (''ConnectionURLTemplateError'', e))
      | Inr url \<Rightarrow>
         (let inst1 = iStatus_update (\<lambda>s. s\<lparr>iURL := url\<rparr>) inst;
              dat1 = dat\<lparr>dURL := url, dConnectionURL := url\<rparr>;
              connType = resolveConnectionType tmpl eff in
          case resolveMessage A tmpl eff dat1 url of
            Inl e \<Rightarrow> (setConnection connType [] inst1, Inl (''ConnectionMessageTemplateError'', e))
          | Inr msg \<Rightarrow> (setConnection connType msg inst1, renderValues A tmpl dat1)))"

section \<open>Time to live\<close>

definition isActiveInstance :: "DployInstance \<Rightarrow> bool" where
  "isActiveInstance inst \<longleftrightarrow> iPhase (iStatus inst) = PhaseReady \<or> iPhase (iStatus inst) = PhaseClaimed"

definition setInstanceExpiry :: "Time option \<Rightarrow> DployInstance \<Rightarrow> DployInstance" where
  "setInstanceExpiry e inst = iStatus_update (\<lambda>s. s\<lparr>iExpiresAt := e\<rparr>) inst"

text \<open>The switch: \<open>None\<close> is one of its returns, otherwise the deadline is in the status. Both also
  carry the caller's instance.\<close>

definition resolveExpiry :: "api \<Rightarrow> DployInstance \<Rightarrow> (Time option \<times> DployInstance) io" where
  "resolveExpiry A inst =
     (if iTTLSeconds (iSpec inst) = -1 then give (None, setInstanceExpiry None inst)
      else if iSpecExpiresAt (iSpec inst) \<noteq> None
      then give (iSpecExpiresAt (iSpec inst), setInstanceExpiry (iSpecExpiresAt (iSpec inst)) inst)
      else if iTTLSeconds (iSpec inst) > 0 \<and> isActiveInstance inst
      then (case iExpiresAt (iStatus inst) of
          Some e \<Rightarrow> give (Some e, inst)
        | None \<Rightarrow> do {
            now \<leftarrow> timeNow A;
            let e = now + seconds (iTTLSeconds (iSpec inst));
            give (Some e, setInstanceExpiry (Some e) inst) })
      else give (None, inst))"

definition deleteExpired ::
  "api \<Rightarrow> DployInstance \<Rightarrow> DployInstance \<Rightarrow> (error + Duration \<times> bool \<times> DployInstance) io" where
  "deleteExpired A original inst =
     tryE (patchInstance A original (setPhase PhaseExpiring ''Progressing'' inst)) (\<lambda>inst1. do {
       r \<leftarrow> deleteInstance A (objectKey (iMeta inst1)) None;
       case r of
         Inl e \<Rightarrow> if IsNotFound e then ok (0, True, inst1)
                  else throw (wrapErr ''delete expired instance'' e)
       | Inr _ \<Rightarrow> ok (0, True, inst1) })"

definition applyTTL ::
  "api \<Rightarrow> DployInstance \<Rightarrow> DployInstance \<Rightarrow> (error + Duration \<times> bool \<times> DployInstance) io" where
  "applyTTL A original inst = do {
     (deadline, inst1) \<leftarrow> resolveExpiry A inst;
     case deadline of
       None \<Rightarrow> ok (0, False, inst1)
     | Some e \<Rightarrow> do {
         now \<leftarrow> timeNow A;
         if now < e then do { now' \<leftarrow> timeNow A; ok (timeSub e now', False, inst1) }
         else deleteExpired A original inst1 } }"

section \<open>Deletion\<close>

definition releaseKey :: "DployInstance \<Rightarrow> NamespacedName" where
  "releaseKey inst = \<lparr>nnNamespace = Namespace (iMeta inst), nnName = engineResourceName inst\<rparr>"

text \<open>The release is still there: ask for its deletion once, record, and come back. The error of the
  status write is discarded.\<close>

definition awaitUninstall ::
  "api \<Rightarrow> DployInstance \<Rightarrow> DployInstance \<Rightarrow> HelmRelease \<Rightarrow> result io" where
  "awaitUninstall A original inst hr =
     tryE (if isZeroPtr (DeletionTimestamp (hrMeta hr))
           then do {
             r \<leftarrow> deleteRelease A (objectKey (hrMeta hr));
             case r of Inl e \<Rightarrow> if IsNotFound e then ok () else throw (wrapErr ''delete HelmRelease'' e)
               | Inr _ \<Rightarrow> ok () }
           else ok ()) (\<lambda>_. do {
       _ \<leftarrow> patchInstance A original inst;
       ok deletionRequeue })"

definition dropNamespace :: "api \<Rightarrow> DployInstance \<Rightarrow> (error + unit) io" where
  "dropNamespace A inst =
     (if iWorkloadNamespace (iStatus inst) = [] then ok ()
      else do {
        r \<leftarrow> deleteNamespace A (iWorkloadNamespace (iStatus inst));
        case r of
          Inl e \<Rightarrow> if IsNotFound e then ok () else throw (wrapErr ''delete namespace'' e)
        | Inr _ \<Rightarrow> ok () })"

definition dropFinalizer :: "api \<Rightarrow> DployInstance \<Rightarrow> result io" where
  "dropFinalizer A inst = do {
     r \<leftarrow> updateInstance A (inst\<lparr>iMeta := removeFinalizer A (iMeta inst) InstanceFinalizer\<rparr>);
     case r of Inl e \<Rightarrow> throw (wrapErr ''remove finalizer'' e) | Inr _ \<Rightarrow> ok 0 }"

definition reconcileDelete :: "api \<Rightarrow> DployInstance \<Rightarrow> result io" where
  "reconcileDelete A original =
     (if \<not> hasFinalizer A (iMeta original) InstanceFinalizer then ok 0
      else do {
        let inst = setPhase PhaseExpiring ''Progressing'' original;
        r \<leftarrow> getRelease A (releaseKey inst);
        case r of
          Inr hr \<Rightarrow> awaitUninstall A original inst hr
        | Inl e \<Rightarrow>
            if \<not> IsNotFound e then throw (wrapErr ''get HelmRelease'' e)
            else tryE (dropNamespace A inst) (\<lambda>_. dropFinalizer A inst) })"

section \<open>Materialising\<close>

definition isCreateRace :: "error \<Rightarrow> bool" where
  "isCreateRace e \<longleftrightarrow> IsAlreadyExists e \<or> IsConflict e"

definition instanceDelay :: "helmReleaseState \<Rightarrow> Duration \<Rightarrow> Duration" where
  "instanceDelay state after =
     (if hsReadiness state = ReadinessInProgress \<and> (after = 0 \<or> after > provisioningRequeue)
      then provisioningRequeue else after)"

text \<open>Project what Flux reports, then enforce the deadline.\<close>

definition observeRelease :: "api \<Rightarrow> DployInstance \<Rightarrow> DployInstance \<Rightarrow> HelmRelease \<Rightarrow> result io" where
  "observeRelease A original inst hr = do {
     let state = translateHelmRelease A hr;
     let inst1 = iStatus_update (\<lambda>s. s\<lparr>iHealth := hsHealth state\<rparr>) inst;
     inst2 \<leftarrow> setInstanceCondition A inst1 (hsStatus state) (hsReason state) (hsMessage state);
     let inst3 = iStatus_update (\<lambda>s. s\<lparr>iPhase := phaseFor inst2 state\<rparr>) inst2;
     tryE (applyTTL A original inst3) (\<lambda>(requeueAfter, expired, inst4).
       if expired then ok 0
       else tryE (patchInstance A original inst4) (\<lambda>_. ok (instanceDelay state requeueAfter))) }"

definition projectRelease :: "api \<Rightarrow> DployInstance \<Rightarrow> DployInstance \<Rightarrow> result io" where
  "projectRelease A original inst0 = do {
     let inst = iStatus_update (\<lambda>s. s\<lparr>iEngineRef := engineResourceName inst0\<rparr>) inst0;
     r \<leftarrow> getRelease A (releaseKey inst);
     case r of
       Inl e \<Rightarrow> if IsNotFound e then observeRelease A original inst emptyRelease else throw e
     | Inr hr \<Rightarrow> observeRelease A original inst hr }"

text \<open>The template's verdict is still missing or negative: record it and wait.\<close>

definition holdBack :: "api \<Rightarrow> DployInstance \<Rightarrow> DployInstance \<Rightarrow> string \<Rightarrow> string \<Rightarrow> result io" where
  "holdBack A original inst reason message = do {
     inst1 \<leftarrow> setInstanceCondition A (setPhase PhaseProvisioning ''Progressing'' inst) CondFalse reason message;
     tryE (patchInstance A original inst1) (\<lambda>_. ok provisioningRequeue) }"

definition ensureReleaseWhenReady ::
  "api \<Rightarrow> DployInstance \<Rightarrow> DployInstance \<Rightarrow> DployTemplate \<Rightarrow> Effective \<Rightarrow> string \<Rightarrow> string
   \<Rightarrow> string \<Rightarrow> string \<Rightarrow> result io" where
  "ensureReleaseWhenReady A original inst tmpl eff targetNS valuesJSON srcKind srcName =
     (case templateSourceReady A tmpl of (ready, reason, message) \<Rightarrow>
        if \<not> ready then holdBack A original inst reason message
        else do {
          r \<leftarrow> ensureHelmRelease A inst tmpl eff srcKind srcName targetNS valuesJSON;
          case r of
            Inl e \<Rightarrow> failInstance A original inst ''HelmReleaseError'' (errText e)
          | Inr _ \<Rightarrow> projectRelease A original inst })"

text \<open>What an error on a shared object means.\<close>

definition raceOrFail ::
  "api \<Rightarrow> DployInstance \<Rightarrow> DployInstance \<Rightarrow> string \<Rightarrow> error \<Rightarrow> result io" where
  "raceOrFail A original inst reason e =
     (if isCreateRace e then ok continueRequeue else failInstance A original inst reason (errText e))"

definition materialize ::
  "api \<Rightarrow> DployInstance \<Rightarrow> DployInstance \<Rightarrow> DployTemplate \<Rightarrow> Effective \<Rightarrow> string \<Rightarrow> string
   \<Rightarrow> result io" where
  "materialize A original inst tmpl eff targetNS valuesJSON = do {
     r \<leftarrow> ensureNamespace A targetNS inst;
     case r of
       Inl e \<Rightarrow> raceOrFail A original inst ''NamespaceError'' e
     | Inr _ \<Rightarrow> do {
         s \<leftarrow> ensureSource A tmpl eff;
         case s of
           Inl e \<Rightarrow> raceOrFail A original inst ''SourceError'' e
         | Inr (srcKind, srcName) \<Rightarrow>
             ensureReleaseWhenReady A original inst tmpl eff targetNS valuesJSON srcKind srcName } }"

section \<open>Reconcile\<close>

definition targetNamespace :: "DployInstance \<Rightarrow> string" where
  "targetNamespace inst =
     (if iWorkloadNamespace (iStatus inst) = []
      then workloadNamespace (iOwner (iSpec inst)) (iTemplateRef (iSpec inst)) (iUUID (iStatus inst))
      else iWorkloadNamespace (iStatus inst))"

definition pinNamespace :: "DployInstance \<Rightarrow> DployInstance" where
  "pinNamespace inst = iStatus_update
     (\<lambda>s. s\<lparr>iWorkloadNamespace := targetNamespace inst, iEngine := EngineFlux\<rparr>) inst"

definition provision :: "api \<Rightarrow> DployInstance \<Rightarrow> DployTemplate \<Rightarrow> Effective \<Rightarrow> result io" where
  "provision A original tmpl eff =
     (let targetNS = targetNamespace original in
      case renderInstance A (pinNamespace original) tmpl eff targetNS of
        (inst, Inl (reason, e)) \<Rightarrow> failInstance A original inst reason (errText e)
      | (inst, Inr valuesJSON) \<Rightarrow> materialize A original inst tmpl eff targetNS valuesJSON)"

definition assignUUID :: "api \<Rightarrow> DployInstance \<Rightarrow> result io" where
  "assignUUID A original = do {
     u \<leftarrow> freshUUID A;
     let inst = iStatus_update (\<lambda>s. s\<lparr>iUUID := shortUUID u, iPhase := PhasePending,
       iEngine := EngineFlux\<rparr>) original;
     tryE (patchInstance A original inst) (\<lambda>_. ok continueRequeue) }"

definition reconcileLiveInstance :: "api \<Rightarrow> DployInstance \<Rightarrow> result io" where
  "reconcileLiveInstance A inst = do {
     r \<leftarrow> getTemplate A \<lparr>nnNamespace = Namespace (iMeta inst), nnName = iTemplateRef (iSpec inst)\<rparr>;
     case r of
       Inl e \<Rightarrow>
         if IsNotFound e
         then failInstance A inst inst ''TemplateNotFound''
           (''DployTemplate '' @ goQuote (iTemplateRef (iSpec inst)) @ '' not found in namespace ''
            @ goQuote (Namespace (iMeta inst)))
         else throw e
     | Inr tmpl \<Rightarrow> tryE (Resolve A) (\<lambda>eff.
         if iUUID (iStatus inst) = [] then assignUUID A inst else provision A inst tmpl eff) }"

definition reconcileInstanceRead :: "api \<Rightarrow> DployInstance \<Rightarrow> result io" where
  "reconcileInstanceRead A inst0 =
     (if \<not> isZeroPtr (DeletionTimestamp (iMeta inst0)) then reconcileDelete A inst0
      else (let (changed, inst) = ensureInstanceMeta A inst0 in
        if changed
        then do {
          r \<leftarrow> updateInstance A inst;
          case r of Inl e \<Rightarrow> give (ignoreNotFound 0 e) | Inr _ \<Rightarrow> ok continueRequeue }
        else reconcileLiveInstance A inst))"

definition reconcileInstance :: "api \<Rightarrow> NamespacedName \<Rightarrow> result io" where
  "reconcileInstance A req = do {
     r \<leftarrow> getInstance A ClientCache req;
     case r of Inl e \<Rightarrow> give (ignoreNotFound 0 e) | Inr inst \<Rightarrow> reconcileInstanceRead A inst }"

end
