(* ===== verification/InstanceProps.thy ===== *)
theory InstanceProps
imports InstanceCtrl Samples
begin

text \<open>
  The properties of the instance controller, read off its call log. \<open>instanceGuard\<close> says for every
  write what the same run must have read or done before; every operation keeps it for every reply
  of the API server, and the properties at the end are its consequences.
\<close>

section \<open>What the log of a run shows\<close>

definition templateKey :: "DployInstance \<Rightarrow> NamespacedName" where
  "templateKey i = \<lparr>nnNamespace = Namespace (iMeta i), nnName = iTemplateRef (iSpec i)\<rparr>"

text \<open>Helm has nothing left of the instance, and its namespace is deleted or was never pinned.\<close>

definition releaseGone :: "DployInstance \<Rightarrow> log \<Rightarrow> bool" where
  "releaseGone i h \<longleftrightarrow> (\<exists>e. EGetRelease (releaseKey i) (Inl e) \<in> set h \<and> IsNotFound e)"

definition namespaceGone :: "DployInstance \<Rightarrow> log \<Rightarrow> bool" where
  "namespaceGone i h \<longleftrightarrow> iWorkloadNamespace (iStatus i) = []
     \<or> (\<exists>r. EDeleteNamespace (iWorkloadNamespace (iStatus i)) r \<in> set h \<and> gone r)"

definition releaseSeen :: "DployInstance \<Rightarrow> log \<Rightarrow> HelmRelease \<Rightarrow> bool" where
  "releaseSeen i h hr \<longleftrightarrow> EGetRelease (releaseKey i) (Inr hr) \<in> set h
     \<or> hr = emptyRelease \<and> releaseGone i h"

text \<open>The deadline an instance is held to, and that it had passed at a time the run read.\<close>

definition isDeadline :: "DployInstance \<Rightarrow> log \<Rightarrow> Time \<Rightarrow> bool" where
  "isDeadline i h d \<longleftrightarrow> iTTLSeconds (iSpec i) \<noteq> -1
     \<and> (iSpecExpiresAt (iSpec i) = Some d
        \<or> iSpecExpiresAt (iSpec i) = None \<and> iTTLSeconds (iSpec i) > 0
          \<and> \<not> (iPooled (iSpec i) \<and> iOwner (iSpec i) = [])
          \<and> (iExpiresAt (iStatus i) = Some d
             \<or> iExpiresAt (iStatus i) = None
               \<and> (\<exists>t. ENow t \<in> set h \<and> d = t + seconds (iTTLSeconds (iSpec i)))))"

definition overdue :: "DployInstance \<Rightarrow> log \<Rightarrow> bool" where
  "overdue i h \<longleftrightarrow> (\<exists>d t. isDeadline i h d \<and> ENow t \<in> set h \<and> d \<le> t)"

text \<open>A create lost to a concurrent reconcile, on one of the two kinds of objects instances share.\<close>

definition raceOn :: "event \<Rightarrow> bool" where
  "raceOn e = (case e of
      EFetchNamespace _ (Inl x) \<Rightarrow> isCreateRace x
    | EApplyNamespace _ (Inl x) \<Rightarrow> isCreateRace x
    | EFetchSource _ _ (Inl x) \<Rightarrow> isCreateRace x
    | EApplySource _ _ (Inl x) \<Rightarrow> isCreateRace x
    | _ \<Rightarrow> False)"

definition clean :: "log \<Rightarrow> bool" where
  "clean h \<longleftrightarrow> (\<forall>e\<in>set h. \<not> raceOn e)"

section \<open>What may be written\<close>

definition keepsIdentity :: "DployInstance \<Rightarrow> DployInstance \<Rightarrow> bool" where
  "keepsIdentity i x \<longleftrightarrow> iMeta x = iMeta i \<and> iSpec x = iSpec i
     \<and> (iUUID (iStatus i) \<noteq> [] \<longrightarrow> iUUID (iStatus x) = iUUID (iStatus i))
     \<and> (iWorkloadNamespace (iStatus i) \<noteq> [] \<longrightarrow> iWorkloadNamespace (iStatus x) = iWorkloadNamespace (iStatus i))"

text \<open>A phase that says the environment is up is one Flux reported, and fits the instance; a failed
  one is degraded.\<close>

definition phaseHonest :: "api \<Rightarrow> DployInstance \<Rightarrow> log \<Rightarrow> DployInstance \<Rightarrow> bool" where
  "phaseHonest A i h x \<longleftrightarrow>
     (iPhase (iStatus x) \<in> {PhaseReady, PhaseAvailable, PhaseClaimed} \<longrightarrow>
        (\<exists>hr. releaseSeen i h hr \<and> hsReadiness (translateHelmRelease A hr) = ReadinessReady)
        \<and> iHealth (iStatus x) = ''Healthy''
        \<and> iPhase (iStatus x) = (if \<not> iPooled (iSpec i) then PhaseReady
            else if iOwner (iSpec i) = [] then PhaseAvailable else PhaseClaimed))
     \<and> (iPhase (iStatus x) = PhaseFailed \<longrightarrow> iHealth (iStatus x) = ''Degraded'')"

definition statusWrite :: "api \<Rightarrow> DployInstance \<Rightarrow> log \<Rightarrow> DployInstance \<Rightarrow> bool" where
  "statusWrite A i h x \<longleftrightarrow> keepsIdentity i x \<and> phaseHonest A i h x
     \<and> iObservedGeneration (iStatus x) = Generation (iMeta i)"

definition finalizerDropped :: "api \<Rightarrow> DployInstance \<Rightarrow> DployInstance" where
  "finalizerDropped A i = (setPhase PhaseExpiring ''Progressing'' i)
     \<lparr>iMeta := removeFinalizer A (iMeta i) InstanceFinalizer\<rparr>"

definition namespaceEnsured :: "log \<Rightarrow> bool" where
  "namespaceEnsured h \<longleftrightarrow> (\<exists>n. EApplyNamespace n (Inr ()) \<in> set h)"

definition sourceEnsured :: "log \<Rightarrow> bool" where
  "sourceEnsured h \<longleftrightarrow> (\<exists>k s. EApplySource k s (Inr ()) \<in> set h)"

lemma ensured_here [simp]:
  "namespaceEnsured (h @ [e, EApplyNamespace n (Inr ())])" "sourceEnsured (h @ [e, EApplySource k s (Inr ())])"
  by (auto simp: namespaceEnsured_def sourceEnsured_def)

lemma ensured_grow [grow_intros]:
  "namespaceEnsured h \<Longrightarrow> namespaceEnsured (h @ es)" "sourceEnsured h \<Longrightarrow> sourceEnsured (h @ es)"
  by (auto simp: namespaceEnsured_def sourceEnsured_def)

definition releaseWrite :: "api \<Rightarrow> DployInstance \<Rightarrow> log \<Rightarrow> HelmRelease \<Rightarrow> bool" where
  "releaseWrite A i h hr \<longleftrightarrow> (\<exists>tmpl eff inst v cur kd nm.
     EGetTemplate (templateKey i) (Inr tmpl) \<in> set h \<and> configRead A h eff
     \<and> fst (templateSourceReady A tmpl)
     \<and> namespaceEnsured h \<and> sourceEnsured h
     \<and> renderInstance A (pinNamespace i) tmpl eff (targetNamespace i) = (inst, Inr v)
     \<and> EFetchRelease (releaseKey i) (Inr cur) \<in> set h
     \<and> desiredRelease A inst tmpl eff kd nm (targetNamespace i) v cur = Inr hr)"

text \<open>What the caller holds after a status write.\<close>

definition storedBy :: "DployInstance \<Rightarrow> error + DployInstance \<Rightarrow> DployInstance" where
  "storedBy x st = (case st of Inl e \<Rightarrow> x | Inr s \<Rightarrow> s)"

lemma storedBy_simps [simp]: "storedBy x (Inl e) = x" "storedBy x (Inr s) = s"
  by (simp_all add: storedBy_def)

definition expiryWrite :: "DployInstance \<Rightarrow> log \<Rightarrow> NamespacedName \<Rightarrow> bool" where
  "expiryWrite i h k \<longleftrightarrow> overdue i h
     \<and> (\<exists>x st. EPatchInstanceStatus i x st \<in> set h \<and> iPhase (iStatus x) = PhaseExpiring
          \<and> k = objectKey (iMeta (storedBy x st)))"

definition instanceGuard :: "api \<Rightarrow> DployInstance \<Rightarrow> log \<Rightarrow> event \<Rightarrow> bool" where
  "instanceGuard A i h e \<longleftrightarrow> clean h \<and> (isRead e \<or>
     (if \<not> isZeroPtr (DeletionTimestamp (iMeta i))
      then (case e of
          EDeleteRelease _ _ \<Rightarrow> True
        | EPatchInstanceStatus i0 x _ \<Rightarrow> i0 = i \<and> statusWrite A i h x
        | EDeleteNamespace n _ \<Rightarrow> releaseGone i h \<and> n = iWorkloadNamespace (iStatus i) \<and> n \<noteq> []
        | EUpdateInstance x _ \<Rightarrow> releaseGone i h \<and> namespaceGone i h \<and> x = finalizerDropped A i
        | _ \<Rightarrow> False)
      else (case e of
          EUpdateInstance x _ \<Rightarrow> x = snd (ensureInstanceMeta A i)
        | EPatchInstanceStatus i0 x _ \<Rightarrow> i0 = i \<and> statusWrite A i h x
        | EApplyNamespace n _ \<Rightarrow> \<exists>x. EFetchNamespace (targetNamespace i) (Inr x) \<in> set h
            \<and> n = x\<lparr>nsLabels := nsLabels x ++ managedLabels i\<rparr>
        | EApplySource _ _ _ \<Rightarrow> True
        | EApplyRelease hr _ \<Rightarrow> releaseWrite A i h hr
        | EDeleteInstance k p _ \<Rightarrow> p = None \<and> expiryWrite i h k
        | _ \<Rightarrow> False)))"

lemma instanceGuard_reads [simp]: "isRead e \<Longrightarrow> clean h \<Longrightarrow> instanceGuard A i h e"
  by (simp add: instanceGuard_def)

lemma clean_simps [simp]:
  "clean []" "clean (h @ h') \<longleftrightarrow> clean h \<and> clean h'" "clean (e # h) \<longleftrightarrow> \<not> raceOn e \<and> clean h"
  by (auto simp: clean_def)

lemma raceOn_simps [simp]:
  "\<not> raceOn (ENow t)" "\<not> raceOn (EFreshUUID u)" "\<not> raceOn (EGetTemplate k r1)" "\<not> raceOn (EGetConfig k r2)"
  "\<not> raceOn (EGetInstance rd k r3)" "\<not> raceOn (EGetRelease k r4)" "\<not> raceOn (EPatchInstanceStatus i0 i1 r5)"
  "\<not> raceOn (EUpdateInstance i1 r5)" "\<not> raceOn (EDeleteInstance k p r6)" "\<not> raceOn (EDeleteRelease k r6)"
  "\<not> raceOn (EDeleteNamespace n r6)" "\<not> raceOn (EFetchRelease k r4)" "\<not> raceOn (EApplyRelease hr r6)"
  "raceOn (EFetchNamespace n r7) \<longleftrightarrow> (\<exists>x. r7 = Inl x \<and> isCreateRace x)"
  "raceOn (EApplyNamespace no r6) \<longleftrightarrow> (\<exists>x. r6 = Inl x \<and> isCreateRace x)"
  "raceOn (EFetchSource kd k r8) \<longleftrightarrow> (\<exists>x. r8 = Inl x \<and> isCreateRace x)"
  "raceOn (EApplySource kd s r6) \<longleftrightarrow> (\<exists>x. r6 = Inl x \<and> isCreateRace x)"
  by (auto simp: raceOn_def split: sum.splits)

lemma isCreateRace_wrapErr [simp]: "isCreateRace (wrapErr s e) = isCreateRace e"
  by (simp add: isCreateRace_def)

lemma releaseGone_grow [grow_intros]: "releaseGone i h \<Longrightarrow> releaseGone i (h @ es)"
  by (auto simp: releaseGone_def)

lemma releaseSeen_grow [grow_intros]: "releaseSeen i h hr \<Longrightarrow> releaseSeen i (h @ es) hr"
  by (auto simp: releaseSeen_def intro: grow_intros)

lemma isDeadline_grow [grow_intros]: "isDeadline i h d \<Longrightarrow> isDeadline i (h @ es) d"
  by (auto simp: isDeadline_def)

lemma releaseWrite_grow: "releaseWrite A i h hr \<Longrightarrow> releaseWrite A i (h @ es) hr"
  unfolding releaseWrite_def set_append by (blast intro: grow_intros)

text \<open>How a run ends: nothing after a lost race but coming back.\<close>

definition ending :: "result \<Rightarrow> log \<Rightarrow> bool" where
  "ending r h \<longleftrightarrow> clean h \<or> r = Inr continueRequeue"

lemma ending_clean [simp]: "clean h \<Longrightarrow> ending r h"
  by (simp add: ending_def)

section \<open>Writing the status\<close>

definition observed :: "DployInstance \<Rightarrow> DployInstance" where
  "observed inst = iStatus_update (\<lambda>s. s\<lparr>iObservedGeneration := Generation (iMeta inst)\<rparr>) inst"

definition recorded :: "DployInstance \<Rightarrow> DployInstance \<Rightarrow> DployInstance \<Rightarrow> log \<Rightarrow> bool" where
  "recorded i inst stored h \<longleftrightarrow> (\<exists>st. EPatchInstanceStatus i (observed inst) st \<in> set h
     \<and> stored = storedBy (observed inst) st)"

lemma statusWrite_observed:
  "keepsIdentity i inst \<Longrightarrow> phaseHonest A i h inst \<Longrightarrow> statusWrite A i h (observed inst)"
  by (auto simp: statusWrite_def observed_def keepsIdentity_def phaseHonest_def)

lemma guard_patch:
  "clean h \<Longrightarrow> statusWrite A i h x \<Longrightarrow> instanceGuard A i h (EPatchInstanceStatus i x r)"
  by (simp add: instanceGuard_def)

lemma patchInstance_spec:
  assumes "clean h" and "keepsIdentity i inst" and "phaseHonest A i h inst"
  shows "wpe (instanceGuard A i) (patchInstance A i inst)
    (\<lambda>r h'. clean h' \<and> okTo (recorded i inst) r h') h"
proof -
  have g: "instanceGuard A i h (EPatchInstanceStatus i (observed inst) r)" for r
    by (rule guard_patch [OF assms(1) statusWrite_observed [OF assms(2,3)]])
  have rec: "recorded i inst (observed inst) (h @ [EPatchInstanceStatus i (observed inst) (Inl e)])"
    "recorded i inst s (h @ [EPatchInstanceStatus i (observed inst) (Inr s)])" for e s
    unfolding recorded_def by (rule exI [of _ "Inl e"], simp) (rule exI [of _ "Inr s"], simp)
  show ?thesis
    unfolding patchInstance_def observed_def [symmetric] Let_def
    by (auto simp: g assms(1) rec intro!: wpe_rules split: sum.split)
qed

lemma keepsIdentity_refl [simp]: "keepsIdentity i i"
  by (simp add: keepsIdentity_def)

lemma keepsIdentity_upd [simp]:
  "keepsIdentity i (iStatus_update (\<lambda>s. s\<lparr>iPhase := ph\<rparr>) x) = keepsIdentity i x"
  "keepsIdentity i (iStatus_update (\<lambda>s. s\<lparr>iHealth := hl\<rparr>) x) = keepsIdentity i x"
  "keepsIdentity i (iStatus_update (\<lambda>s. s\<lparr>iConditions := cs\<rparr>) x) = keepsIdentity i x"
  "keepsIdentity i (iStatus_update (\<lambda>s. s\<lparr>iEngineRef := ref\<rparr>) x) = keepsIdentity i x"
  "keepsIdentity i (setPhase ph hl x) = keepsIdentity i x"
  "keepsIdentity i (setInstanceExpiry e x) = keepsIdentity i x"
  by (simp_all add: keepsIdentity_def setPhase_def setInstanceExpiry_def)

lemma wpe_setInstanceCondition [wpe_rules]:
  assumes "\<And>t cs. P h (ENow t) \<and> Q (iStatus_update (\<lambda>s. s\<lparr>iConditions := cs\<rparr>) x) (h @ [ENow t])"
  shows "wpe P (setInstanceCondition A x st reason message) Q h"
  unfolding setInstanceCondition_def
  by (intro wpe_bind wpe_setStatusCondition) (simp add: assms wpe_return)

lemma phaseHonest_setPhase [simp]:
  "phaseHonest A i h (iStatus_update (\<lambda>s. s\<lparr>iConditions := cs\<rparr>) x) = phaseHonest A i h x"
  "phaseHonest A i h (setPhase PhaseFailed ''Degraded'' x)"
  "phaseHonest A i h (setPhase PhaseExpiring hl x)"
  "phaseHonest A i h (setPhase PhaseProvisioning hl x)"
  by (simp_all add: phaseHonest_def setPhase_def)

text \<open>The shape of every run of the controller and of its parts.\<close>

definition runs :: "api \<Rightarrow> DployInstance \<Rightarrow> result io \<Rightarrow> log \<Rightarrow> bool" where
  "runs A i m h \<longleftrightarrow> wpe (instanceGuard A i) m ending h"

lemma runs_patch:
  assumes "clean h" and "keepsIdentity i inst" and "phaseHonest A i h inst"
  shows "runs A i (tryE (patchInstance A i inst) (\<lambda>_. ok d)) h"
  unfolding runs_def
  by (rule wpe_tryE, rule wpe_mono [OF patchInstance_spec [OF assms]])
    (auto intro!: wpe_return split: sum.splits)

lemma runs_failInstance:
  assumes "clean h" and "keepsIdentity i inst"
  shows "runs A i (failInstance A i inst reason message) h"
  unfolding failInstance_def runs_def
  by (auto simp: assms intro!: wpe_bind wpe_setInstanceCondition runs_patch [unfolded runs_def])

lemma runs_holdBack:
  assumes "clean h" and "keepsIdentity i inst"
  shows "runs A i (holdBack A i inst reason message) h"
  unfolding holdBack_def runs_def
  by (auto simp: assms intro!: wpe_bind wpe_setInstanceCondition runs_patch [unfolded runs_def])

lemma runs_assignUUID:
  assumes "clean h" and "iUUID (iStatus i) = []"
  shows "runs A i (assignUUID A i) h"
  unfolding assignUUID_def Let_def runs_def
  by (auto simp: assms keepsIdentity_def phaseHonest_def
      intro!: wpe_bind wpe_calls runs_patch [unfolded runs_def])

section \<open>The deadline\<close>

lemma phaseHonest_grow [grow_intros]: "phaseHonest A i h x \<Longrightarrow> phaseHonest A i (h @ es) x"
  unfolding phaseHonest_def by (blast intro: grow_intros)

lemma overdue_grow [grow_intros]: "overdue i h \<Longrightarrow> overdue i (h @ es)"
  unfolding overdue_def set_append by (blast intro: grow_intros)

text \<open>What the TTL step keeps of the instance it is given.\<close>

definition ttlInput :: "api \<Rightarrow> DployInstance \<Rightarrow> log \<Rightarrow> DployInstance \<Rightarrow> bool" where
  "ttlInput A i h x \<longleftrightarrow> keepsIdentity i x \<and> phaseHonest A i h x
     \<and> iExpiresAt (iStatus x) = iExpiresAt (iStatus i)"

definition ttlOutput :: "api \<Rightarrow> DployInstance \<Rightarrow> log \<Rightarrow> DployInstance \<Rightarrow> bool" where
  "ttlOutput A i h x \<longleftrightarrow> keepsIdentity i x \<and> phaseHonest A i h x"

lemma ttlOutput_grow [grow_intros]: "ttlOutput A i h x \<Longrightarrow> ttlOutput A i (h @ es) x"
  by (auto simp: ttlOutput_def intro: grow_intros)

lemma ttlOutput_expiry:
  "ttlInput A i h x \<Longrightarrow> ttlOutput A i h (setInstanceExpiry e x)" "ttlInput A i h x \<Longrightarrow> ttlOutput A i h x"
  by (auto simp: ttlInput_def ttlOutput_def phaseHonest_def setInstanceExpiry_def keepsIdentity_def)

lemma active_claimed:
  "phaseHonest A i h x \<Longrightarrow> isActiveInstance x \<Longrightarrow> \<not> (iPooled (iSpec i) \<and> iOwner (iSpec i) = [])"
  by (auto simp: phaseHonest_def isActiveInstance_def split: if_splits)

definition expiryResolved :: "api \<Rightarrow> DployInstance \<Rightarrow> Time option \<times> DployInstance \<Rightarrow> log \<Rightarrow> bool" where
  "expiryResolved A i r h \<longleftrightarrow> clean h \<and> ttlOutput A i h (snd r)
     \<and> (\<forall>d. fst r = Some d \<longrightarrow> isDeadline i h d)"

lemma resolveExpiry_spec:
  assumes "clean h" and inp: "ttlInput A i h x"
  shows "wpe (instanceGuard A i) (resolveExpiry A x) (expiryResolved A i) h"
proof -
  have spec: "iSpec x = iSpec i" and hon: "phaseHonest A i h x"
    and ex: "iExpiresAt (iStatus x) = iExpiresAt (iStatus i)"
    using inp by (auto simp: ttlInput_def keepsIdentity_def)
  note out = ttlOutput_expiry [OF inp]
  show ?thesis
    unfolding resolveExpiry_def spec ex
    using active_claimed [OF hon] out assms(1)
    by (auto simp: Let_def expiryResolved_def isDeadline_def
        intro!: wpe_rules ttlOutput_grow split: option.split)
qed

lemma deleteExpired_spec:
  assumes "clean h" and "keepsIdentity i x" and "overdue i h"
    and "isZeroPtr (DeletionTimestamp (iMeta i))"
  shows "wpe (instanceGuard A i) (deleteExpired A i x)
    (\<lambda>r h'. clean h' \<and> okTo (\<lambda>(d, ex, y) h'. ex) r h') h"
proof -
  let ?x = "setPhase PhaseExpiring ''Progressing'' x"
  have g: "instanceGuard A i (h @ es) (EDeleteInstance (objectKey (iMeta y)) None r)"
    if "clean (h @ es)" "recorded i ?x y (h @ es)" "isZeroPtr (DeletionTimestamp (iMeta i))" for es y r
  proof -
    have "iPhase (iStatus (observed ?x)) = PhaseExpiring" by (simp add: observed_def setPhase_def)
    then have "expiryWrite i (h @ es) (objectKey (iMeta y))"
      using that(2) overdue_grow [OF assms(3), of es] unfolding recorded_def expiryWrite_def by blast
    then show ?thesis using that(1,3) by (simp add: instanceGuard_def)
  qed
  have del: "wpe (instanceGuard A i) (do {
       r \<leftarrow> deleteInstance A (objectKey (iMeta y)) None;
       case r of
         Inl e \<Rightarrow> if IsNotFound e then ok (0, True, y) else throw (wrapErr ''delete expired instance'' e)
       | Inr _ \<Rightarrow> ok (0, True, y) })
      (\<lambda>r h'. clean h' \<and> okTo (\<lambda>(d, ex, y) h'. ex) r h') (h @ es)"
    if "clean (h @ es)" "recorded i ?x y (h @ es)" for y es
    using that by (auto simp: g assms(4) intro!: wpe_rules split: sum.split)
  show ?thesis
    unfolding deleteExpired_def
    by (rule wpe_tryE, rule wpe_mono [OF patchInstance_spec [where inst = ?x]])
      (auto simp: assms split: sum.splits intro!: del [simplified])
qed

lemma applyTTL_spec:
  assumes "clean h" and "ttlInput A i h x" and "isZeroPtr (DeletionTimestamp (iMeta i))"
  shows "wpe (instanceGuard A i) (applyTTL A i x)
    (\<lambda>r h'. clean h' \<and> okTo (\<lambda>(d, ex, y) h'. \<not> ex \<longrightarrow> ttlOutput A i h' y) r h') h"
proof -
  have del: "wpe (instanceGuard A i) (deleteExpired A i y)
      (\<lambda>r h'. clean h' \<and> okTo (\<lambda>(d, ex, y) h'. \<not> ex \<longrightarrow> ttlOutput A i h' y) r h') (h' @ [ENow t])"
    if "clean h'" "ttlOutput A i h' y" "isDeadline i h' d" "\<not> t < d" for h' y d t
  proof (rule wpe_mono [OF deleteExpired_spec])
    show "overdue i (h' @ [ENow t])"
      unfolding overdue_def using that(4) isDeadline_grow [OF that(3)] by fastforce
  qed (use that assms(3) in \<open>auto simp: ttlOutput_def okTo_def split: sum.splits\<close>)
  have rest: "wpe (instanceGuard A i) (case p of (deadline, inst1) \<Rightarrow> (case deadline of
       None \<Rightarrow> ok (0, False, inst1)
     | Some e \<Rightarrow> do {
         now \<leftarrow> timeNow A;
         if now < e then do { now' \<leftarrow> timeNow A; ok (timeSub e now', False, inst1) }
         else deleteExpired A i inst1 }))
      (\<lambda>r h'. clean h' \<and> okTo (\<lambda>(d, ex, y) h'. \<not> ex \<longrightarrow> ttlOutput A i h' y) r h') h'"
    if "expiryResolved A i p h'" for p h'
    using that by (cases p)
      (auto simp: expiryResolved_def intro!: wpe_rules del ttlOutput_grow split: option.split)
  show ?thesis
    unfolding applyTTL_def
    by (rule wpe_bind, rule wpe_mono [OF resolveExpiry_spec [OF assms(1,2)]], rule rest)
qed

section \<open>Projecting the release\<close>

lemma runs_observeRelease:
  assumes "clean h" and "keepsIdentity i inst" and "releaseSeen i h hr"
    and "iExpiresAt (iStatus inst) = iExpiresAt (iStatus i)"
    and "isZeroPtr (DeletionTimestamp (iMeta i))"
  shows "runs A i (observeRelease A i inst hr) h"
proof -
  let ?state = "translateHelmRelease A hr"
  have spec: "iSpec inst = iSpec i" using assms(2) by (simp add: keepsIdentity_def)
  have ready: "hsReadiness ?state = ReadinessReady \<Longrightarrow> hsHealth ?state = ''Healthy''"
    "hsReadiness ?state = ReadinessFailed \<Longrightarrow> hsHealth ?state = ''Degraded''"
    by (auto simp: translateHelmRelease_def Let_def split: option.splits ConditionStatus.splits if_splits)
  have inp: "ttlInput A i (h @ [ENow t]) (iStatus_update (\<lambda>s. s\<lparr>iPhase := phaseFor y ?state\<rparr>) y)"
    if "y = iStatus_update (\<lambda>s. s\<lparr>iConditions := cs\<rparr>) (iStatus_update (\<lambda>s. s\<lparr>iHealth := hsHealth ?state\<rparr>) inst)"
    for y cs t
    unfolding ttlInput_def
    using assms(2,4) releaseSeen_grow [OF assms(3), of "[ENow t]"] spec ready that
    by (auto simp: phaseHonest_def phaseFor_def keepsIdentity_def split: readiness.splits)
  have tail: "runs A i (tryE (applyTTL A i y) (\<lambda>(requeueAfter, expired, inst4).
       if expired then ok 0
       else tryE (patchInstance A i inst4) (\<lambda>_. ok (instanceDelay ?state requeueAfter)))) h'"
    if "clean h'" "ttlInput A i h' y" for y h'
    unfolding runs_def
    by (rule wpe_tryE, rule wpe_mono [OF applyTTL_spec [OF that assms(5)]])
      (auto simp: ttlOutput_def intro!: wpe_return runs_patch [unfolded runs_def] split: sum.splits)
  show ?thesis
    unfolding observeRelease_def runs_def Let_def
    by (intro wpe_bind wpe_setInstanceCondition conjI tail [unfolded runs_def] inp [OF refl])
      (simp_all add: assms(1))
qed

lemma runs_projectRelease:
  assumes "clean h" and "keepsIdentity i inst"
    and "iExpiresAt (iStatus inst) = iExpiresAt (iStatus i)"
    and "isZeroPtr (DeletionTimestamp (iMeta i))"
  shows "runs A i (projectRelease A i inst) h"
proof -
  have k: "releaseKey (iStatus_update (\<lambda>s. s\<lparr>iEngineRef := ref\<rparr>) inst) = releaseKey i" for ref
    using assms(2) by (simp add: releaseKey_def engineResourceName_def keepsIdentity_def)
  have gone: "releaseSeen i (h @ [EGetRelease (releaseKey i) (Inl e)]) emptyRelease" if "IsNotFound e" for e
    using that by (auto simp: releaseSeen_def releaseGone_def)
  have seen: "releaseSeen i (h @ [EGetRelease (releaseKey i) (Inr hr)]) hr" for hr
    by (simp add: releaseSeen_def)
  show ?thesis
    unfolding projectRelease_def runs_def Let_def k
    by (auto simp: assms seen gone intro!: wpe_rules runs_observeRelease [unfolded runs_def] split: sum.split)
qed

section \<open>Materialising\<close>

text \<open>What rendering leaves alone.\<close>

definition sameFrame :: "DployInstance \<Rightarrow> DployInstance \<Rightarrow> bool" where
  "sameFrame x y \<longleftrightarrow> iMeta y = iMeta x \<and> iSpec y = iSpec x \<and> iUUID (iStatus y) = iUUID (iStatus x)
     \<and> iWorkloadNamespace (iStatus y) = iWorkloadNamespace (iStatus x)
     \<and> iExpiresAt (iStatus y) = iExpiresAt (iStatus x)"

lemma render_frame: "renderInstance A x tmpl eff ns = (y, r) \<Longrightarrow> sameFrame x y"
  by (auto simp: renderInstance_def Let_def sameFrame_def setConnection_def split: sum.splits)

lemma pin_frame:
  "keepsIdentity i (pinNamespace i)" "iExpiresAt (iStatus (pinNamespace i)) = iExpiresAt (iStatus i)"
  "iUUID (iStatus (pinNamespace i)) = iUUID (iStatus i)" "iSpec (pinNamespace i) = iSpec i"
  by (auto simp: pinNamespace_def targetNamespace_def keepsIdentity_def)

text \<open>What \<open>provision\<close> has established when it starts to create.\<close>

definition rendered :: "api \<Rightarrow> DployInstance \<Rightarrow> log \<Rightarrow> DployTemplate \<Rightarrow> Effective \<Rightarrow> DployInstance \<Rightarrow> string \<Rightarrow> bool" where
  "rendered A i h tmpl eff inst v \<longleftrightarrow> isZeroPtr (DeletionTimestamp (iMeta i))
     \<and> EGetTemplate (templateKey i) (Inr tmpl) \<in> set h \<and> configRead A h eff
     \<and> renderInstance A (pinNamespace i) tmpl eff (targetNamespace i) = (inst, Inr v)"

lemma rendered_grow [grow_intros]: "rendered A i h tmpl eff inst v \<Longrightarrow> rendered A i (h @ es) tmpl eff inst v"
  by (auto simp: rendered_def intro: grow_intros)

lemma rendered_frame:
  assumes "rendered A i h tmpl eff inst v"
  shows "keepsIdentity i inst" "iExpiresAt (iStatus inst) = iExpiresAt (iStatus i)"
    "managedLabels inst = managedLabels i" "releaseKey inst = releaseKey i"
    "isZeroPtr (DeletionTimestamp (iMeta i))"
proof -
  have f: "sameFrame (pinNamespace i) inst" and live: "isZeroPtr (DeletionTimestamp (iMeta i))"
    using assms render_frame by (auto simp: rendered_def)
  then show "isZeroPtr (DeletionTimestamp (iMeta i))" by simp
  show "keepsIdentity i inst" "iExpiresAt (iStatus inst) = iExpiresAt (iStatus i)"
    using f pin_frame [of i] by (auto simp: sameFrame_def keepsIdentity_def)
  show "managedLabels inst = managedLabels i" "releaseKey inst = releaseKey i"
    using f pin_frame [of i]
    by (auto simp: sameFrame_def keepsIdentity_def managedLabels_def releaseKey_def engineResourceName_def)
qed

lemma ensureNamespace_spec:
  assumes "clean h" and "isZeroPtr (DeletionTimestamp (iMeta i))" and "managedLabels inst = managedLabels i"
  shows "wpe (instanceGuard A i) (ensureNamespace A (targetNamespace i) inst)
    (\<lambda>r h'. case r of Inl e \<Rightarrow> isCreateRace e \<or> clean h'
       | Inr u \<Rightarrow> clean h' \<and> namespaceEnsured h') h"
proof -
  have g: "instanceGuard A i (h @ [EFetchNamespace (targetNamespace i) (Inr x)])
      (EApplyNamespace (x\<lparr>nsLabels := nsLabels x ++ managedLabels i\<rparr>) r)" for x r
    using assms by (auto simp: instanceGuard_def)
  show ?thesis
    unfolding ensureNamespace_def desiredNamespace_def assms(3)
    by (auto simp: g assms(1) intro!: wpe_rules split: sum.split)
qed

lemma ensureSource_spec:
  assumes "clean h" and "isZeroPtr (DeletionTimestamp (iMeta i))"
  shows "wpe (instanceGuard A i) (ensureSource A tmpl eff)
    (\<lambda>r h'. case r of Inl e \<Rightarrow> isCreateRace e \<or> clean h'
       | Inr u \<Rightarrow> clean h' \<and> sourceEnsured h') h"
proof -
  have g: "instanceGuard A i h' (EApplySource kd s r)" if "clean h'" for h' kd s r
    using assms(2) that by (auto simp: instanceGuard_def)
  show ?thesis
    unfolding ensureSource_def Let_def
    by (auto simp: g assms(1) intro!: wpe_rules split: sum.split)
qed

lemma ensureHelmRelease_spec:
  assumes "clean h" and "rendered A i h tmpl eff inst v" and "fst (templateSourceReady A tmpl)"
    and "namespaceEnsured h" and "sourceEnsured h"
  shows "wpe (instanceGuard A i) (ensureHelmRelease A inst tmpl eff kd nm (targetNamespace i) v)
    (\<lambda>r. clean) h"
proof -
  have key: "\<lparr>nnNamespace = Namespace (iMeta inst), nnName = engineResourceName inst\<rparr> = releaseKey i"
    using rendered_frame(4) [OF assms(2)] by (simp add: releaseKey_def)
  have g: "instanceGuard A i (h @ [EFetchRelease (releaseKey i) (Inr cur)]) (EApplyRelease hr r)"
    if "desiredRelease A inst tmpl eff kd nm (targetNamespace i) v cur = Inr hr" for cur hr r
  proof -
    have "releaseWrite A i (h @ [EFetchRelease (releaseKey i) (Inr cur)]) hr"
      using assms(2-5) that unfolding releaseWrite_def rendered_def set_append
      by (fastforce intro: grow_intros)
    then show ?thesis using rendered_frame(5) [OF assms(2)] assms(1) by (simp add: instanceGuard_def)
  qed
  show ?thesis
    unfolding ensureHelmRelease_def key
    by (auto simp: g assms(1) intro!: wpe_rules split: sum.split)
qed

lemma runs_ensureReleaseWhenReady:
  assumes "clean h" and "rendered A i h tmpl eff inst v" and "namespaceEnsured h" and "sourceEnsured h"
  shows "runs A i (ensureReleaseWhenReady A i inst tmpl eff (targetNamespace i) v kd nm) h"
proof -
  obtain ready reason message where r: "templateSourceReady A tmpl = (ready, reason, message)"
    by (cases "templateSourceReady A tmpl")
  note frame = rendered_frame [OF assms(2)]
  have rest: "wpe (instanceGuard A i)
      (case x of Inl e \<Rightarrow> failInstance A i inst ''HelmReleaseError'' (errText e)
         | Inr u \<Rightarrow> projectRelease A i inst) ending (h @ es)"
    if "clean (h @ es)" for x :: "error + unit" and es
    using that frame(1,2,5) runs_failInstance [of "h @ es"] runs_projectRelease [of "h @ es"]
    by (auto simp: runs_def split: sum.split)
  show ?thesis
  proof (cases ready)
    case False
    then show ?thesis
      using runs_holdBack [OF assms(1) frame(1)] by (simp add: ensureReleaseWhenReady_def r)
  next
    case True
    with r have "fst (templateSourceReady A tmpl)" by simp
    note ens = ensureHelmRelease_spec [OF assms(1,2) this assms(3,4)]
    show ?thesis
      unfolding ensureReleaseWhenReady_def r runs_def using True
      by (auto intro!: wpe_bind wpe_mono [OF ens] rest)
  qed
qed

lemma runs_raceOrFail:
  assumes "isCreateRace e \<or> clean h" and "keepsIdentity i inst"
  shows "runs A i (raceOrFail A i inst reason e) h"
  using assms runs_failInstance [of h i inst A]
  by (auto simp: raceOrFail_def runs_def ending_def intro: wpe_return)

lemma runs_materialize:
  assumes "clean h" and "rendered A i h tmpl eff inst v"
  shows "runs A i (materialize A i inst tmpl eff (targetNamespace i) v) h"
proof -
  note frame = rendered_frame [OF assms(2)]
  have src: "runs A i (do {
         s \<leftarrow> ensureSource A tmpl eff;
         case s of
           Inl e \<Rightarrow> raceOrFail A i inst ''SourceError'' e
         | Inr (srcKind, srcName) \<Rightarrow>
             ensureReleaseWhenReady A i inst tmpl eff (targetNamespace i) v srcKind srcName }) h'"
    if "clean h'" "rendered A i h' tmpl eff inst v" "namespaceEnsured h'" for h'
    unfolding runs_def
    using runs_raceOrFail [OF _ frame(1)] that(2,3)
    by (auto intro!: wpe_bind wpe_mono [OF ensureSource_spec [OF that(1) frame(5)]]
        runs_ensureReleaseWhenReady [unfolded runs_def]
        runs_raceOrFail [OF _ frame(1), unfolded runs_def] grow_intros split: sum.splits)
  show ?thesis
    unfolding materialize_def runs_def
    by (rule wpe_bind, rule wpe_mono [OF ensureNamespace_spec [OF assms(1) frame(5,3)]])
      (auto intro!: src [unfolded runs_def] runs_raceOrFail [OF _ frame(1), unfolded runs_def]
        rendered_grow [OF assms(2)] split: sum.splits)
qed

lemma runs_provision:
  assumes "clean h" and "isZeroPtr (DeletionTimestamp (iMeta i))"
    and "EGetTemplate (templateKey i) (Inr tmpl) \<in> set h" and "configRead A h eff"
  shows "runs A i (provision A i tmpl eff) h"
proof -
  obtain inst r where r: "renderInstance A (pinNamespace i) tmpl eff (targetNamespace i) = (inst, r)"
    by (cases "renderInstance A (pinNamespace i) tmpl eff (targetNamespace i)")
  have keeps: "keepsIdentity i inst"
    using render_frame [OF r] pin_frame [of i] by (auto simp: sameFrame_def keepsIdentity_def)
  show ?thesis
  proof (cases r)
    case (Inl p)
    then show ?thesis
      using runs_failInstance [OF assms(1) keeps] by (cases p) (simp add: provision_def Let_def r)
  next
    case (Inr v)
    then have "rendered A i h tmpl eff inst v" using assms r by (simp add: rendered_def)
    from runs_materialize [OF assms(1) this] show ?thesis
      using Inr by (simp add: provision_def Let_def r)
  qed
qed

section \<open>Deletion\<close>

lemma deleting_keeps: "keepsIdentity i (setPhase PhaseExpiring ''Progressing'' i)" by simp

lemma runs_awaitUninstall:
  assumes "clean h" and "\<not> isZeroPtr (DeletionTimestamp (iMeta i))"
  shows "runs A i (awaitUninstall A i (setPhase PhaseExpiring ''Progressing'' i) hr) h"
proof -
  have g: "instanceGuard A i h (EDeleteRelease k r)" for k r
    using assms by (simp add: instanceGuard_def)
  have last: "wpe (instanceGuard A i) (do {
       _ \<leftarrow> patchInstance A i (setPhase PhaseExpiring ''Progressing'' i); ok deletionRequeue }) ending h'"
    if "clean h'" for h'
    by (rule wpe_bind, rule wpe_mono [OF patchInstance_spec [OF that]]) (auto intro: wpe_return)
  show ?thesis
    unfolding awaitUninstall_def runs_def
    by (rule wpe_tryE) (auto simp: g assms(1) intro!: wpe_bind [OF wpe_calls(23)] wpe_return last [simplified] split: sum.split)
qed

lemma dropNamespace_spec:
  assumes "clean h" and "\<not> isZeroPtr (DeletionTimestamp (iMeta i))" and "releaseGone i h"
    and "iWorkloadNamespace (iStatus x) = iWorkloadNamespace (iStatus i)"
  shows "wpe (instanceGuard A i) (dropNamespace A x)
    (\<lambda>r h'. clean h' \<and> okTo (\<lambda>_. namespaceGone i) r h') h"
proof -
  have g: "instanceGuard A i h (EDeleteNamespace (iWorkloadNamespace (iStatus i)) r)"
    if "iWorkloadNamespace (iStatus i) \<noteq> []" for r
    using assms(1-3) that by (simp add: instanceGuard_def)
  have away: "namespaceGone i (h @ [EDeleteNamespace (iWorkloadNamespace (iStatus i)) r])" if "gone r" for r
    using that by (auto simp: namespaceGone_def)
  have none: "namespaceGone i h" if "iWorkloadNamespace (iStatus i) = []"
    using that by (simp add: namespaceGone_def)
  show ?thesis
    unfolding dropNamespace_def assms(4)
    by (auto simp: g assms(1) gone_def none intro!: wpe_rules away split: sum.split)
qed

lemma runs_reconcileDelete:
  assumes "clean h" and "\<not> isZeroPtr (DeletionTimestamp (iMeta i))"
  shows "runs A i (reconcileDelete A i) h"
proof -
  let ?x = "setPhase PhaseExpiring ''Progressing'' i"
  have key: "releaseKey ?x = releaseKey i"
    by (simp add: setPhase_def releaseKey_def engineResourceName_def)
  have fin: "wpe (instanceGuard A i) (dropFinalizer A ?x) ending h'"
    if "clean h'" "releaseGone i h'" "namespaceGone i h'" for h'
  proof -
    have x: "?x\<lparr>iMeta := removeFinalizer A (iMeta ?x) InstanceFinalizer\<rparr> = finalizerDropped A i"
      by (simp add: finalizerDropped_def setPhase_def)
    have "instanceGuard A i h' (EUpdateInstance (finalizerDropped A i) r)" for r
      using that assms(2) by (simp add: instanceGuard_def)
    then show ?thesis
      unfolding dropFinalizer_def x using that(1) by (auto intro!: wpe_rules split: sum.split)
  qed
  have drop: "wpe (instanceGuard A i) (tryE (dropNamespace A ?x) (\<lambda>_. dropFinalizer A ?x)) ending h'"
    if "clean h'" "releaseGone i h'" for h'
  proof (rule wpe_tryE, rule wpe_mono [OF dropNamespace_spec [OF that(1) assms(2) that(2)]])
    show "iWorkloadNamespace (iStatus ?x) = iWorkloadNamespace (iStatus i)" by (simp add: setPhase_def)
  qed (auto intro!: fin releaseGone_grow that(2) split: sum.split)
  have absent: "releaseGone i (h @ [EGetRelease (releaseKey i) (Inl e)])" if "IsNotFound e" for e
    using that by (auto simp: releaseGone_def)
  show ?thesis
    unfolding reconcileDelete_def runs_def Let_def key
    by (auto simp: assms absent intro!: wpe_bind [OF wpe_calls(7)] wpe_return drop
        runs_awaitUninstall [unfolded runs_def] split: sum.split)
qed

section \<open>A whole run\<close>

lemma ensureInstanceMeta_same:
  assumes "ensureInstanceMeta A i = (False, x)"
  shows "x = i"
proof -
  obtain changed l where s: "stampLabels (instanceWant i) (Labels (iMeta i)) = (changed, l)"
    by (cases "stampLabels (instanceWant i) (Labels (iMeta i))")
  have h: "hasFinalizer A (iMeta i) InstanceFinalizer" "\<not> changed" "x = i\<lparr>iMeta := (iMeta i)\<lparr>Labels := l\<rparr>\<rparr>"
    using assms s by (auto simp: ensureInstanceMeta_def Let_def split: if_splits prod.splits)
  then have "l = Labels (iMeta i)" using stampLabels_unchanged [of "instanceWant i" "Labels (iMeta i)" l] s by auto
  with h(3) show ?thesis by simp
qed

lemma runs_reconcileLiveInstance:
  assumes "clean h" and "isZeroPtr (DeletionTimestamp (iMeta i))"
  shows "runs A i (reconcileLiveInstance A i) h"
proof -
  have conf: "configRead A ((h @ [EGetTemplate k r']) @ [EGetConfig configKey r]) eff"
    if "effectiveOf A r = Inr eff" for r eff k r'
    using that by (auto simp: configRead_def)
  have body: "wpe (instanceGuard A i) (tryE (Resolve A) (\<lambda>eff.
         if iUUID (iStatus i) = [] then assignUUID A i else provision A i tmpl eff)) ending
      (h @ [EGetTemplate (templateKey i) (Inr tmpl)])" for tmpl
    by (rule wpe_tryE, rule wpe_Resolve)
      (auto simp: assms intro!: runs_assignUUID [unfolded runs_def] runs_provision [unfolded runs_def]
        conf [simplified] split: sum.split)
  show ?thesis
    unfolding reconcileLiveInstance_def templateKey_def [symmetric] runs_def
    by (rule wpe_bind, rule wpe_calls)
      (auto simp: assms intro!: body runs_failInstance [unfolded runs_def] wpe_return split: sum.split)
qed

lemma runs_reconcileInstanceRead:
  assumes "clean h"
  shows "runs A i (reconcileInstanceRead A i) h"
proof (cases "isZeroPtr (DeletionTimestamp (iMeta i))")
  case False
  then show ?thesis
    using runs_reconcileDelete [OF assms False] by (simp add: reconcileInstanceRead_def)
next
  case True
  obtain changed x where m: "ensureInstanceMeta A i = (changed, x)" by (cases "ensureInstanceMeta A i")
  have g: "instanceGuard A i h (EUpdateInstance x r)" for r
    using True assms m by (simp add: instanceGuard_def)
  show ?thesis
  proof (cases changed)
    case False
    with m have "x = i" using ensureInstanceMeta_same by simp
    then show ?thesis
      using True False m runs_reconcileLiveInstance [OF assms True] by (simp add: reconcileInstanceRead_def)
  next
    case change: True
    show ?thesis
      unfolding reconcileInstanceRead_def m runs_def using True change
      by (auto simp: g assms intro!: wpe_rules split: sum.split)
  qed
qed

definition instanceRun :: "api \<Rightarrow> NamespacedName \<Rightarrow> log \<Rightarrow> event \<Rightarrow> bool" where
  "instanceRun A req h e \<longleftrightarrow> h = [] \<and> (\<exists>r. e = EGetInstance ClientCache req r)
     \<or> (\<exists>i. h \<noteq> [] \<and> hd h = EGetInstance ClientCache req (Inr i) \<and> instanceGuard A i h e)"

lemma instanceRun_step:
  assumes "wpe (instanceGuard A i) m Q h" and "h \<noteq> []" and "hd h = EGetInstance ClientCache req (Inr i)"
  shows "wpe (instanceRun A req) m Q h"
proof -
  have "all_steps (instanceRun A req) h es" if "all_steps (instanceGuard A i) h es" for es
    using that assms(2,3)
  proof (induction es arbitrary: h)
    case (Cons e es)
    then show ?case by (auto simp: instanceRun_def)
  qed simp
  then show ?thesis using assms(1) by (auto simp: wpe_def)
qed

lemma reconcileInstance_spec:
  "wpe (instanceRun A req) (reconcileInstance A req) ending []"
proof -
  have body: "wpe (instanceRun A req) (reconcileInstanceRead A i) ending
      [EGetInstance ClientCache req (Inr i)]" for i
    by (rule instanceRun_step [OF runs_reconcileInstanceRead [unfolded runs_def]]) auto
  show ?thesis
    unfolding reconcileInstance_def
    by (auto simp: instanceRun_def intro!: wpe_bind wpe_calls wpe_return body split: sum.split)
qed

interpretation instance_run: guarded_run "reconcileInstance A req" "instanceRun A req" ending for A req
  by unfold_locales (rule reconcileInstance_spec)

section \<open>Properties\<close>

definition readFirst :: "NamespacedName \<Rightarrow> log \<Rightarrow> DployInstance \<Rightarrow> bool" where
  "readFirst req h i \<longleftrightarrow> h \<noteq> [] \<and> hd h = EGetInstance ClientCache req (Inr i)"

definition deleting :: "DployInstance \<Rightarrow> bool" where
  "deleting i \<longleftrightarrow> \<not> isZeroPtr (DeletionTimestamp (iMeta i))"

text \<open>Read off the guard, event by event.\<close>

lemma instance_steps:
  assumes "\<And>h e i. readFirst req h i \<Longrightarrow> instanceGuard A i h e \<Longrightarrow> P h e"
    and "\<And>h r. P h (EGetInstance ClientCache req r)"
  shows "all_steps P [] (logged (reconcileInstance A req) [])"
  by (rule instance_run.steps) (use assms in \<open>auto simp: instanceRun_def readFirst_def\<close>)

definition gatedRelease :: "api \<Rightarrow> NamespacedName \<Rightarrow> log \<Rightarrow> event \<Rightarrow> bool" where
  "gatedRelease A req h e = (case e of
      EApplyRelease hr r \<Rightarrow> (\<exists>i. readFirst req h i \<and> \<not> deleting i \<and> releaseWrite A i h hr)
    | _ \<Rightarrow> True)"

text \<open>C8. A \<open>HelmRelease\<close> is written only behind the template's verdict. Whatever the API server
  answers, a run applies a release only for a live instance, after it read the instance's template
  and found its chart source verified, after the workload namespace and the shared source were
  written in the same run, and only the release rendered from that template, that configuration
  and the pinned namespace.\<close>

theorem release_gated_on_verdict:
  "all_steps (gatedRelease A req) [] (logged (reconcileInstance A req) [])"
proof (rule instance_steps)
  fix h e i
  assume "readFirst req h i" "instanceGuard A i h e"
  then show "gatedRelease A req h e"
    by (cases e) (auto simp: gatedRelease_def instanceGuard_def deleting_def isRead_def split: if_splits)
qed (simp add: gatedRelease_def)

definition orderedTeardown :: "api \<Rightarrow> NamespacedName \<Rightarrow> log \<Rightarrow> event \<Rightarrow> bool" where
  "orderedTeardown A req h e = (case e of
      EDeleteRelease k r \<Rightarrow> (\<exists>i. readFirst req h i \<and> deleting i)
    | EDeleteNamespace n r \<Rightarrow> (\<exists>i. readFirst req h i \<and> deleting i \<and> releaseGone i h
        \<and> n = iWorkloadNamespace (iStatus i) \<and> n \<noteq> [])
    | EUpdateInstance x r \<Rightarrow> (\<exists>i. readFirst req h i
        \<and> (if deleting i then releaseGone i h \<and> namespaceGone i h \<and> x = finalizerDropped A i
           else x = snd (ensureInstanceMeta A i)))
    | EApplyNamespace n r \<Rightarrow> (\<exists>i. readFirst req h i \<and> \<not> deleting i)
    | EApplyRelease hr r \<Rightarrow> (\<exists>i. readFirst req h i \<and> \<not> deleting i)
    | _ \<Rightarrow> True)"

text \<open>C9. An environment is taken down in order and leaves nothing behind. The workload namespace
  is deleted only after the API server reported the \<open>HelmRelease\<close> gone, and it is the pinned one;
  the finalizer is dropped only after that and after the namespace is gone too, so an instance
  whose release or namespace still exists cannot disappear. Nothing is created for an instance
  that is being deleted, and nothing is torn down for one that is not.\<close>

theorem teardown_in_order:
  "all_steps (orderedTeardown A req) [] (logged (reconcileInstance A req) [])"
proof (rule instance_steps)
  fix h e i
  assume "readFirst req h i" "instanceGuard A i h e"
  then show "orderedTeardown A req h e"
    by (cases e) (auto simp: orderedTeardown_def instanceGuard_def deleting_def isRead_def split: if_splits)
qed (simp add: orderedTeardown_def)

definition honestStatus :: "api \<Rightarrow> NamespacedName \<Rightarrow> log \<Rightarrow> event \<Rightarrow> bool" where
  "honestStatus A req h e = (case e of
      EPatchInstanceStatus orig x r \<Rightarrow> readFirst req h orig \<and> statusWrite A orig h x
    | _ \<Rightarrow> True)"

text \<open>C19. The recorded status is honest and the identity of an environment never moves. Every status
  write leaves metadata and spec alone, keeps the UUID and the workload namespace once they are
  set, and observes the current generation; it says Ready, Available or Claimed only when Flux
  reported the release ready in the same run, only the one of the three that fits the instance, and
  then health is Healthy; a Failed instance is Degraded.\<close>

theorem instance_status_honest:
  "all_steps (honestStatus A req) [] (logged (reconcileInstance A req) [])"
proof (rule instance_steps)
  fix h e i
  assume "readFirst req h i" "instanceGuard A i h e"
  then show "honestStatus A req h e"
    by (cases e) (auto simp: honestStatus_def instanceGuard_def isRead_def split: if_splits)
qed (simp add: honestStatus_def)

definition justifiedDelete :: "NamespacedName \<Rightarrow> log \<Rightarrow> event \<Rightarrow> bool" where
  "justifiedDelete req h e = (case e of
      EDeleteInstance k p r \<Rightarrow> (\<exists>i. readFirst req h i \<and> \<not> deleting i \<and> expiryWrite i h k
        \<and> iTTLSeconds (iSpec i) \<noteq> -1
        \<and> (iPooled (iSpec i) \<and> iOwner (iSpec i) = [] \<longrightarrow>
             (\<exists>d t. iSpecExpiresAt (iSpec i) = Some d \<and> ENow t \<in> set h \<and> d \<le> t)))
    | _ \<Rightarrow> True)"

text \<open>No environment is deleted before its time. The controller deletes an instance only when
  its deadline (the one the claim wrote, or the one counted from when it became active) was at or
  before a time the run read, after recording it as expiring; never one without a time limit; and a
  warm pool member nobody holds never by its time to live, only by an explicit deadline in its spec.\<close>

theorem deleted_only_overdue:
  "all_steps (justifiedDelete req) [] (logged (reconcileInstance A req) [])"
proof (rule instance_steps)
  fix h e i
  assume "readFirst req h i" "instanceGuard A i h e"
  then show "justifiedDelete req h e"
    by (cases e)
      (auto simp: justifiedDelete_def instanceGuard_def deleting_def isRead_def expiryWrite_def
        overdue_def isDeadline_def split: if_splits)
qed (simp add: justifiedDelete_def)

definition raceLost :: "log \<Rightarrow> bool" where
  "raceLost h \<longleftrightarrow> (\<exists>e\<in>set h. raceOn e)"

definition endsAfterRace :: "result \<Rightarrow> log \<Rightarrow> bool" where
  "endsAfterRace r h \<longleftrightarrow> (if raceLost h then r = Inr continueRequeue else True)"

text \<open>C30. A lost create race is never reported as a failure. Once the write of the workload
  namespace or of the shared source answered ``already exists'' or ``conflict'', the run makes no
  further call, so it records nothing, and it asks to come back after the short delay.\<close>

theorem lost_race_only_retries:
  "all_steps (\<lambda>h e. \<not> raceLost h) [] (logged (reconcileInstance A req) [])
   \<and> endsAfterRace (returned (reconcileInstance A req) []) (logged (reconcileInstance A req) [])"
proof
  show "all_steps (\<lambda>h e. \<not> raceLost h) [] (logged (reconcileInstance A req) [])"
    by (rule instance_run.steps) (auto simp: instanceRun_def instanceGuard_def raceLost_def clean_def)
  show "endsAfterRace (returned (reconcileInstance A req) []) (logged (reconcileInstance A req) [])"
    using instance_run.ends [of A req]
    by (auto simp: ending_def raceLost_def clean_def endsAfterRace_def)
qed

text \<open>Claiming, as far as the instance's spec goes.\<close>

definition claimedBy :: "string \<Rightarrow> smap \<Rightarrow> DployInstance \<Rightarrow> DployInstance" where
  "claimedBy owner params i = iSpec_update (\<lambda>s. s\<lparr>iOwner := owner, iParams := params\<rparr>) i"

lemma claimedBy_simps [simp]:
  "iMeta (claimedBy o1 p i) = iMeta i" "iStatus (claimedBy o1 p i) = iStatus i"
  "iPooled (iSpec (claimedBy o1 p i)) = iPooled (iSpec i)"
  "iTemplateRef (iSpec (claimedBy o1 p i)) = iTemplateRef (iSpec i)"
  by (simp_all add: claimedBy_def)

lemma buildData_claimedBy:
  "iPooled (iSpec i) \<Longrightarrow> buildData (claimedBy o1 p i) tmpl eff ns = buildData i tmpl eff ns"
  by (simp add: buildData_def)

lemma claimedBy_status: "iStatus_update f (claimedBy o1 p i) = claimedBy o1 p (iStatus_update f i)"
  by (simp add: claimedBy_def)

lemma renderInstance_claimedBy:
  assumes "iPooled (iSpec i)"
  shows "renderInstance A (claimedBy o1 p i) tmpl eff ns
    = map_prod (claimedBy o1 p) id (renderInstance A i tmpl eff ns)"
  unfolding renderInstance_def buildData_claimedBy [OF assms]
  by (auto simp: Let_def setConnection_def claimedBy_status split: sum.split)

text \<open>C31. A warm instance is anonymous. Binding a pool member to an owner with parameters moves
  neither its workload namespace, once pinned, nor anything rendered for it: URL, connection
  message and Helm values, or the error of rendering, are those it had without an owner, and the
  release that is written differs from the unclaimed one in its metadata only.\<close>

theorem pooled_instance_anonymous:
  assumes "iPooled (iSpec i)" and "iWorkloadNamespace (iStatus i) \<noteq> []"
  shows "targetNamespace (claimedBy owner params i) = targetNamespace i
    \<and> renderInstance A (pinNamespace (claimedBy owner params i)) tmpl eff (targetNamespace i)
      = map_prod (claimedBy owner params) id (renderInstance A (pinNamespace i) tmpl eff (targetNamespace i))
    \<and> (case (desiredRelease A i tmpl eff kd nm ns v hr,
              desiredRelease A (claimedBy owner params i) tmpl eff kd nm ns v hr) of
        (Inr r, Inr r') \<Rightarrow> r' = r\<lparr>hrMeta := hrMeta r'\<rparr> | _ \<Rightarrow> True)"
proof -
  have ns: "targetNamespace (claimedBy owner params i) = targetNamespace i"
    using assms(2) by (simp add: targetNamespace_def)
  have pin: "pinNamespace (claimedBy owner params i) = claimedBy owner params (pinNamespace i)"
    unfolding pinNamespace_def ns by (simp add: claimedBy_status)
  have "iPooled (iSpec (pinNamespace i))" using assms(1) by (simp add: pinNamespace_def)
  then show ?thesis
    unfolding pin using ns renderInstance_claimedBy
    by (auto simp: desiredRelease_def split: sum.split)
qed

definition sampleInstance :: DployInstance where
  "sampleInstance = emptyInstance\<lparr>iMeta := emptyMeta\<lparr>Name := ''web-pool-1'', Namespace := ''dploy''\<rparr>,
     iSpec := \<lparr>iTemplateRef = ''web'', iOwner = [], iParams = Map.empty, iPooled = True,
       iTTLSeconds = 0, iSpecExpiresAt = None\<rparr>\<rparr>"

definition warmInstance :: DployInstance where
  "warmInstance = iStatus_update (\<lambda>s. s\<lparr>iUUID := ''0f8fad5b'', iWorkloadNamespace := ''pool-web-0f8fad5b''\<rparr>)
     sampleInstance"

theorem pooled_instance_anonymous_witness:
  "targetNamespace (claimedBy ''alice'' (Map.empty(''size'' \<mapsto> ''big'')) warmInstance) = ''pool-web-0f8fad5b''
   \<and> iURL (iStatus (fst (renderInstance stubApi (pinNamespace (claimedBy ''alice'' Map.empty warmInstance))
        emptyTemplate fallbacks ''pool-web-0f8fad5b''))) = ''https://web-0f8fad5b.''"
proof -
  have w: "iPooled (iSpec warmInstance)" "iWorkloadNamespace (iStatus warmInstance) \<noteq> []"
    by (simp_all add: warmInstance_def sampleInstance_def)
  have t: "targetNamespace warmInstance = ''pool-web-0f8fad5b''" by code_simp
  have u: "iURL (iStatus (fst (renderInstance stubApi (pinNamespace warmInstance)
        emptyTemplate fallbacks ''pool-web-0f8fad5b''))) = ''https://web-0f8fad5b.''" by code_simp
  show ?thesis
    using pooled_instance_anonymous [OF w, of "''alice''" "Map.empty(''size'' \<mapsto> ''big'')"]
      pooled_instance_anonymous [OF w, of "''alice''" Map.empty stubApi emptyTemplate fallbacks] u
    unfolding t by (simp add: prod.case_eq_if)
qed

definition recordsFailed :: "DployInstance \<Rightarrow> log \<Rightarrow> bool" where
  "recordsFailed i h \<longleftrightarrow> (\<exists>x st. EPatchInstanceStatus i x st \<in> set h \<and> iPhase (iStatus x) = PhaseFailed)"

lemma wp_failInstance:
  "wp (failInstance A i inst reason message) (\<lambda>r h'. recordsFailed i h') h"
proof -
  have p: "recordsFailed i (h' @ [e, EPatchInstanceStatus i x st])" if "iPhase (iStatus x) = PhaseFailed" for h' e x st
    using that by (auto simp: recordsFailed_def)
  show ?thesis
    unfolding failInstance_def setInstanceCondition_def patchInstance_def Let_def
    by (simp add: wp_simps split: sum.split) (simp add: p setPhase_def)
qed

text \<open>A conflict on the instance's own \<open>HelmRelease\<close> is not treated like one on the shared
  objects: although the environment is fine and the next run will succeed, this run records the
  instance Failed.\<close>

theorem release_conflict_marks_failed:
  assumes "fst (templateSourceReady A tmpl)"
    and "reFetchRelease A h (releaseKey inst) = Inr cur"
    and "desiredRelease A inst tmpl eff kd nm ns v cur = Inr hr"
    and "reApplyRelease A (h @ [EFetchRelease (releaseKey inst) (Inr cur)]) hr = Inl e" and "IsConflict e"
  shows "isCreateRace e \<and> recordsFailed i (logged (ensureReleaseWhenReady A i inst tmpl eff ns v kd nm) h)"
proof -
  obtain reason message where r: "templateSourceReady A tmpl = (True, reason, message)"
    using assms(1) by (cases "templateSourceReady A tmpl") auto
  have "wp (ensureReleaseWhenReady A i inst tmpl eff ns v kd nm) (\<lambda>x h'. recordsFailed i h') h"
    unfolding ensureReleaseWhenReady_def r ensureHelmRelease_def releaseKey_def [symmetric]
    by (simp add: wp_simps assms wp_failInstance)
  then show ?thesis using assms(5) by (simp add: wp_logged isCreateRace_def)
qed

definition readyTemplate :: DployTemplate where
  "readyTemplate = tStatus_update (\<lambda>s. s\<lparr>tConditions :=
     [condition ConditionSourceReady CondTrue ''ChartResolved'' ''ok'' 1]\<rparr>) emptyTemplate"

definition conflictApi :: api where
  "conflictApi = stubApi\<lparr>reApplyRelease := (\<lambda>h r. Inl (ApiError Conflict ''the object has been modified''))\<rparr>"

theorem release_conflict_marks_failed_witness:
  "recordsFailed warmInstance
     (logged (ensureReleaseWhenReady conflictApi warmInstance warmInstance readyTemplate fallbacks ''ns'' [] ''k'' ''n'') [])"
proof -
  let ?cur = "emptyRelease\<lparr>hrMeta := emptyMeta\<lparr>Name := ''web-pool-1'', Namespace := ''dploy''\<rparr>\<rparr>"
  have 1: "fst (templateSourceReady conflictApi readyTemplate)" by code_simp
  have 2: "reFetchRelease conflictApi [] (releaseKey warmInstance) = Inr ?cur"
    by (simp add: conflictApi_def stubApi_def releaseKey_def warmInstance_def sampleInstance_def
        engineResourceName_def emptyRelease_def)
  obtain hr where 3: "desiredRelease conflictApi warmInstance readyTemplate fallbacks ''k'' ''n'' ''ns'' [] ?cur = Inr hr"
    by (auto simp: desiredRelease_def conflictApi_def stubApi_def addController_def emptyRelease_def emptyMeta_def)
  show ?thesis
    using release_conflict_marks_failed [OF 1 2 3, of "ApiError Conflict ''the object has been modified''"]
    by (simp add: conflictApi_def)
qed

end
