(* ===== verification/KubeClient.thy ===== *)
theory KubeClient
imports Ttl
begin

text \<open>
  The API server's side of the custom resources: \<^verbatim>\<open>internal/kube/owner.go\<close>, which derives
  owner keys from a token, and \<^verbatim>\<open>internal/kube/client.go\<close>, which reads the catalog and
  records, extends and deletes the one claim of an owner for a template. The configured namespace is
  an argument of each operation.
\<close>

section \<open>Token claims (owner.go)\<close>

text \<open>A decoded JSON value. A number carries the text \<^verbatim>\<open>strconv.FormatFloat\<close> gives it and
  an object the text of \<open>%v\<close>, which is all the code uses of either.\<close>

datatype jsonValue =
    JNull | JString string | JStrings "string list" | JArray "jsonValue list"
  | JNumber string | JBool bool | JOther string

type_synonym tokenClaims = "string \<rightharpoonup> jsonValue"

fun stringItems :: "jsonValue list \<Rightarrow> string list" where
  "stringItems [] = []"
| "stringItems (JString s # vs) = (if s \<noteq> [] then s # stringItems vs else stringItems vs)"
| "stringItems (v # vs) = stringItems vs"

definition claimValues :: "jsonValue option \<Rightarrow> string list" where
  "claimValues v =
     (case v of
        None \<Rightarrow> []
      | Some JNull \<Rightarrow> []
      | Some (JString s) \<Rightarrow> if s = [] then [] else [s]
      | Some (JStrings ss) \<Rightarrow> ss
      | Some (JArray vs) \<Rightarrow> stringItems vs
      | Some (JNumber s) \<Rightarrow> [s]
      | Some (JBool b) \<Rightarrow> [if b then ''true'' else ''false'']
      | Some (JOther s) \<Rightarrow> [s])"

text \<open>The owner key and whether there is one.\<close>

definition ResolveOwner :: "tokenClaims \<Rightarrow> string \<Rightarrow> string \<Rightarrow> string \<times> bool" where
  "ResolveOwner claims claim fallbackUsername =
     (if claim = []
      then (let o1 = sanitizeOwner fallbackUsername in (o1, o1 \<noteq> []))
      else (case find (\<lambda>v. sanitizeOwner v \<noteq> []) (claimValues (claims claim)) of
          Some v \<Rightarrow> (sanitizeOwner v, True) | None \<Rightarrow> ([], False)))"

definition addIdentity :: "string list \<Rightarrow> string \<Rightarrow> string list" where
  "addIdentity out s =
     (let o1 = sanitizeOwner s in if o1 = [] \<or> o1 \<in> set out then out else out @ [o1])"

fun addIdentities :: "tokenClaims \<Rightarrow> string list \<Rightarrow> string list \<Rightarrow> string list" where
  "addIdentities claims [] out = out"
| "addIdentities claims (c # cs) out =
     addIdentities claims cs
       (if c = [] then out else foldl addIdentity out (claimValues (claims c)))"

definition Identities :: "tokenClaims \<Rightarrow> string list \<Rightarrow> string \<Rightarrow> string list" where
  "Identities claims ownerClaims fallbackUsername =
     addIdentities claims ownerClaims (addIdentity [] fallbackUsername)"

section \<open>Errors of an extension\<close>

text \<open>\<open>NilBoundAt\<close> is no error value of the code: it stands for the nil dereference of
  \<^verbatim>\<open>claim.Status.BoundAt\<close> when the patched claim comes back without an anchor.\<close>

datatype extendError = ErrUnlimitedTTL | ErrMaxExtends Duration | ErrNotBound | ErrKube error | NilBoundAt

text \<open>\<^verbatim>\<open>Duration.String\<close>: hours, minutes and seconds with the fraction trimmed of trailing
  zeros, or one smaller unit below a second.\<close>

definition fracText :: "nat \<Rightarrow> int \<Rightarrow> string" where
  "fracText digits u =
     (let padded = map (\<lambda>k. char_of (nat (48 + u div 10 ^ k mod 10))) (rev [0..<digits]);
          short = rev (dropWhile (\<lambda>c. c = CHR ''0'') (rev padded)) in
      showInt (u div 10 ^ digits) @ (if short = [] then [] else CHR ''.'' # short))"

definition durationBody :: "int \<Rightarrow> string" where
  "durationBody u =
     (if u = 0 then ''0s''
      else if u < 1000 then showInt u @ ''ns''
      else if u < 1000000 then fracText 3 u @ [char_of (194 :: nat), char_of (181 :: nat), CHR ''s'']
      else if u < second then fracText 6 u @ ''ms''
      else (let s = u div second; m = s div 60; hours = m div 60 in
        (if hours > 0 then showInt hours @ ''h'' else [])
        @ (if m > 0 then showInt (m mod 60) @ ''m'' else [])
        @ fracText 9 (u mod (60 * second)) @ ''s''))"

definition durationText :: "Duration \<Rightarrow> string" where
  "durationText d = (if d < 0 then CHR ''-'' # durationBody (- d) else durationBody d)"

fun extendErrorText :: "extendError \<Rightarrow> string" where
  "extendErrorText ErrUnlimitedTTL = ''environment has unlimited TTL, no extension needed''"
| "extendErrorText (ErrMaxExtends d) = ''maximum extensions reached ('' @ durationText d @ '')''"
| "extendErrorText ErrNotBound = ''environment is not running yet, nothing to extend''"
| "extendErrorText (ErrKube e) = errText e"
| "extendErrorText NilBoundAt = []"

lemma durationText_examples:
  "durationText (90000 * second) = ''25h0m0s''" "durationText (1500 * millisecond) = ''1.5s''"
  "durationText (- 60 * second) = ''-1m0s''" "durationText 0 = ''0s''"
  by code_simp+

section \<open>Catalog and instances (client.go)\<close>

text \<open>The readiness probe lists at most one template and looks at the error only.\<close>

definition ClientReady :: "api \<Rightarrow> string \<Rightarrow> (error + unit) io" where
  "ClientReady A ns = tryE (listTemplates A ns) (\<lambda>_. ok ())"

definition ListTemplates :: "api \<Rightarrow> string \<Rightarrow> (error + DployTemplate list) io" where
  "ListTemplates A ns = listTemplates A ns"

definition ListVisibleTemplates :: "api \<Rightarrow> string \<Rightarrow> (error + DployTemplate list) io" where
  "ListVisibleTemplates A ns =
     tryE (ListTemplates A ns) (\<lambda>all. ok (filter (\<lambda>t. tEnabled (tSpec t) \<and> IsVisible t) all))"

definition GetTemplate :: "api \<Rightarrow> string \<Rightarrow> string \<Rightarrow> (error + DployTemplate) io" where
  "GetTemplate A ns name = getTemplate A \<lparr>nnNamespace = ns, nnName = name\<rparr>"

definition ListAllInstances :: "api \<Rightarrow> string \<Rightarrow> (error + DployInstance list) io" where
  "ListAllInstances A ns = listInstances A APIServer ns []"

section \<open>Claims (client.go)\<close>

definition maxClaimNameLen :: nat where "maxClaimNameLen = 253"

definition ClaimName :: "string \<Rightarrow> string \<Rightarrow> string" where
  "ClaimName owner template =
     (let name = owner @ ''-'' @ template in
      if length name > maxClaimNameLen then trimDashes (take maxClaimNameLen name) else name)"

definition claimKey :: "string \<Rightarrow> string \<Rightarrow> string \<Rightarrow> NamespacedName" where
  "claimKey ns owner template = \<lparr>nnNamespace = ns, nnName = ClaimName owner template\<rparr>"

definition GetOwnerClaim ::
  "api \<Rightarrow> string \<Rightarrow> string \<Rightarrow> string \<Rightarrow> (error + DployInstanceClaim option) io" where
  "GetOwnerClaim A ns owner templateRef = do {
     r \<leftarrow> getClaim A (claimKey ns owner templateRef);
     case r of
       Inl e \<Rightarrow> if IsNotFound e then ok None else throw e
     | Inr claim \<Rightarrow>
         if \<not> isZeroPtr (DeletionTimestamp (cMeta claim)) then ok None else ok (Some claim) }"

definition ListOwnedClaims ::
  "api \<Rightarrow> string \<Rightarrow> string list \<Rightarrow> (error + DployInstanceClaim list) io" where
  "ListOwnedClaims A ns owners =
     (if owners = [] then ok [] else listClaimsIn A ns LabelOwner owners)"

definition newClaim ::
  "string \<Rightarrow> string \<Rightarrow> smap \<Rightarrow> DployTemplate \<Rightarrow> bool \<Rightarrow> DployInstanceClaim" where
  "newClaim ns owner params tmpl waitForPool =
     \<lparr>cMeta = emptyMeta\<lparr>Name := ClaimName owner (Name (tMeta tmpl)), Namespace := ns,
        Labels := Map.empty(LabelManaged \<mapsto> ''true'', LabelOwner \<mapsto> owner,
          LabelTemplate \<mapsto> Name (tMeta tmpl))\<rparr>,
      cSpec = \<lparr>cTemplateRef = Name (tMeta tmpl), cOwner = owner, cParams = params,
        cTTLSeconds = 0, cWaitForPool = waitForPool\<rparr>,
      cStatus = emptyClaimStatus\<rparr>"

definition createFresh ::
  "api \<Rightarrow> string \<Rightarrow> string \<Rightarrow> smap \<Rightarrow> DployTemplate \<Rightarrow> bool
   \<Rightarrow> (error + DployInstanceClaim option) io" where
  "createFresh A ns owner params tmpl waitForPool = do {
     r \<leftarrow> createClaim A (newClaim ns owner params tmpl waitForPool);
     case r of
       Inl e \<Rightarrow> if IsAlreadyExists e then GetOwnerClaim A ns owner (Name (tMeta tmpl)) else throw e
     | Inr claim \<Rightarrow> ok (Some claim) }"

definition EnsureClaim ::
  "api \<Rightarrow> string \<Rightarrow> string \<Rightarrow> smap \<Rightarrow> DployTemplate \<Rightarrow> bool
   \<Rightarrow> (error + DployInstanceClaim option) io" where
  "EnsureClaim A ns owner params tmpl waitForPool =
     tryE (GetOwnerClaim A ns owner (Name (tMeta tmpl))) (\<lambda>existing.
       case existing of
         None \<Rightarrow> createFresh A ns owner params tmpl waitForPool
       | Some claim \<Rightarrow>
           if cPhase (cStatus claim) \<noteq> ClaimExpired then ok (Some claim)
           else do {
             d \<leftarrow> deleteClaim A (objectKey (cMeta claim)) (Some (UID (cMeta claim)));
             case d of
               Inl e \<Rightarrow> if IsNotFound e then createFresh A ns owner params tmpl waitForPool else throw e
             | Inr _ \<Rightarrow> createFresh A ns owner params tmpl waitForPool })"

text \<open>The lifetime an extension asks for, or why there is none to ask for.\<close>

definition extendTo :: "DployInstanceClaim \<Rightarrow> int \<Rightarrow> extendError + int" where
  "extendTo claim extendSeconds =
     (let granted = cGrantedTTL (cStatus claim); maxTTL = cMaxTTLSeconds (cStatus claim) in
      if granted = -1 then Inl ErrUnlimitedTTL
      else (case cBoundAt (cStatus claim) of
          None \<Rightarrow> Inl ErrNotBound
        | Some boundAt \<Rightarrow>
            if granted = 0 then Inl ErrNotBound
            else if maxTTL > 0 \<and> granted \<ge> maxTTL then Inl (ErrMaxExtends (seconds maxTTL))
            else (let wanted = wrap64 (granted + extendSeconds) in
              Inr (if maxTTL > 0 \<and> wanted > maxTTL then maxTTL else wanted))))"

definition ExtendClaim :: "api \<Rightarrow> DployInstanceClaim \<Rightarrow> int \<Rightarrow> (extendError + Time) io" where
  "ExtendClaim A claim extendSeconds =
     (case extendTo claim extendSeconds of
        Inl e \<Rightarrow> throw e
      | Inr wanted \<Rightarrow> do {
          r \<leftarrow> patchClaim A claim (cSpec_update (\<lambda>s. s\<lparr>cTTLSeconds := wanted\<rparr>) claim);
          case r of
            Inl e \<Rightarrow> throw (ErrKube e)
          | Inr stored \<Rightarrow>
              (case cBoundAt (cStatus stored) of
                 Some b \<Rightarrow> ok (b + seconds wanted)
               | None \<Rightarrow> throw NilBoundAt) })"

definition DeleteClaim :: "api \<Rightarrow> DployInstanceClaim \<Rightarrow> (error + unit) io" where
  "DeleteClaim A claim = deleteClaim A (objectKey (cMeta claim)) None"

text \<open>Go's quotient rounds towards zero.\<close>

definition goDiv :: "int \<Rightarrow> int \<Rightarrow> int" where
  "goDiv a b = (if (a < 0) = (b < 0) then \<bar>a\<bar> div \<bar>b\<bar> else - (\<bar>a\<bar> div \<bar>b\<bar>))"

definition ExtendCount :: "DployInstanceClaim \<Rightarrow> int \<Rightarrow> int \<Rightarrow> int" where
  "ExtendCount claim baseTTL extendSeconds =
     (let granted = cGrantedTTL (cStatus claim) in
      if granted \<le> 0 \<or> extendSeconds \<le> 0 \<or> granted \<le> baseTTL then 0
      else goDiv (wrap64 (granted - baseTTL)) extendSeconds)"

text \<open>A nil map is read like an empty one by every caller.\<close>

definition FilterClaims :: "tokenClaims \<Rightarrow> string list \<Rightarrow> smap" where
  "FilterClaims claims allow =
     foldl (\<lambda>out key. let vals = claimValues (claims key) in
              if vals = [] then out else out(key \<mapsto> joinStr '','' vals)) Map.empty allow"

end
