(* ===== verification/ApiConfig.thy ===== *)
theory ApiConfig
imports Prelude
begin

text \<open>
  \<^verbatim>\<open>internal/config/config.go\<close>: the API server's configuration, read from environment
  variables with a default for each. The environment is an argument; an unset variable reads as the
  empty string, as \<^verbatim>\<open>os.Getenv\<close> gives it.
\<close>

record Config =
  JWKSUrl :: string
  JWTIssuer :: string
  JWTAudience :: string
  JWTUsernameClaim :: string
  OIDCIssuer :: string
  OIDCPublicIssuer :: string
  OIDCClientID :: string
  OIDCClientSecret :: string
  OIDCRedirectURL :: string
  OIDCScopes :: "string list"
  ConfigNamespace :: string
  ForwardedClaims :: "string list"
  MaxEnvironmentsPerUser :: int
  DefaultTTL :: int
  ExtendTTLDefault :: int
  ServerHost :: string
  ServerPort :: string
  CatalogEnabled :: bool
  InstancesListEnabled :: bool
  ManagerEnabled :: bool
  AdminClaim :: string
  AdminValue :: string
  Debug :: bool

type_synonym environ = "string \<Rightarrow> string"

section \<open>strconv\<close>

definition decimalDigit :: "char \<Rightarrow> bool" where
  "decimalDigit c = (let n = of_char c :: nat in 48 \<le> n \<and> n \<le> 57)"

definition digitsValue :: "string \<Rightarrow> int" where
  "digitsValue s = foldl (\<lambda>x c. x * 10 + (of_char c - 48)) 0 s"

text \<open>\<^verbatim>\<open>strconv.Atoi\<close>: an optional sign, then decimal digits, within 64 bits.\<close>

definition Atoi :: "string \<Rightarrow> int option" where
  "Atoi s =
     (let neg = (case s of c # _ \<Rightarrow> c = CHR ''-'' | [] \<Rightarrow> False);
          ds = (case s of c # t \<Rightarrow> if c = CHR ''-'' \<or> c = CHR ''+'' then t else s | [] \<Rightarrow> []);
          v = (if neg then - digitsValue ds else digitsValue ds) in
      if ds = [] \<or> \<not> list_all decimalDigit ds then None
      else if v < min64 \<or> v > max64 then None else Some v)"

definition ParseBool :: "string \<Rightarrow> bool option" where
  "ParseBool s =
     (if s \<in> {''1'', ''t'', ''T'', ''TRUE'', ''true'', ''True''} then Some True
      else if s \<in> {''0'', ''f'', ''F'', ''FALSE'', ''false'', ''False''} then Some False
      else None)"

section \<open>Reading one variable\<close>

definition getEnv :: "environ \<Rightarrow> string \<Rightarrow> string \<Rightarrow> string" where
  "getEnv env key defaultValue = (if env key \<noteq> [] then env key else defaultValue)"

definition getEnvAsInt :: "environ \<Rightarrow> string \<Rightarrow> int \<Rightarrow> int" where
  "getEnvAsInt env key defaultValue =
     (if env key = [] then defaultValue
      else (case Atoi (env key) of None \<Rightarrow> defaultValue | Some v \<Rightarrow> v))"

definition isSeparator :: "char \<Rightarrow> bool" where
  "isSeparator c \<longleftrightarrow> c = CHR '','' \<or> c = CHR '' '' \<or> c = CHR 0x09 \<or> c = CHR 0x0A"

text \<open>\<^verbatim>\<open>strings.FieldsFunc\<close>: the maximal runs of characters that are no separators.\<close>

fun fieldsFrom :: "string \<Rightarrow> string \<Rightarrow> string list" where
  "fieldsFrom cur [] = (if cur = [] then [] else [cur])"
| "fieldsFrom cur (c # s) =
     (if isSeparator c then (if cur = [] then fieldsFrom [] s else cur # fieldsFrom [] s)
      else fieldsFrom (cur @ [c]) s)"

definition fieldsOf :: "string \<Rightarrow> string list" where "fieldsOf s = fieldsFrom [] s"

definition getEnvAsList :: "environ \<Rightarrow> string \<Rightarrow> string list \<Rightarrow> string list" where
  "getEnvAsList env key defaultValue =
     (if env key = [] then defaultValue
      else (let fields = fieldsOf (env key) in if fields = [] then defaultValue else fields))"

definition getEnvAsBool :: "environ \<Rightarrow> string \<Rightarrow> bool \<Rightarrow> bool" where
  "getEnvAsBool env key defaultValue =
     (if env key = [] then defaultValue
      else (case ParseBool (env key) of None \<Rightarrow> defaultValue | Some v \<Rightarrow> v))"

section \<open>Load\<close>

definition defaultScopes :: "string list" where
  "defaultScopes = [''openid'', ''profile'', ''email'']"

definition defaultForwarded :: "string list" where
  "defaultForwarded = [''sub'', ''preferred_username'', ''email'', ''name'', ''groups'']"

definition readConfig :: "environ \<Rightarrow> Config" where
  "readConfig env = \<lparr>
     JWKSUrl = getEnv env ''JWKS_URL'' [],
     JWTIssuer = getEnv env ''JWT_ISSUER'' [],
     JWTAudience = getEnv env ''JWT_AUDIENCE'' ''dploy'',
     JWTUsernameClaim = getEnv env ''JWT_USERNAME_CLAIM'' ''name'',
     OIDCIssuer = getEnv env ''OIDC_ISSUER'' (getEnv env ''JWT_ISSUER'' []),
     OIDCPublicIssuer = getEnv env ''OIDC_PUBLIC_ISSUER'' (getEnv env ''OIDC_ISSUER'' []),
     OIDCClientID = getEnv env ''OIDC_CLIENT_ID'' ''dploy'',
     OIDCClientSecret = getEnv env ''OIDC_CLIENT_SECRET'' ''dploy-secret'',
     OIDCRedirectURL = getEnv env ''OIDC_REDIRECT_URL'' ''http://localhost:8080/auth/callback'',
     OIDCScopes = getEnvAsList env ''OIDC_SCOPES'' defaultScopes,
     ConfigNamespace = getEnv env ''DPLOY_NAMESPACE'' ''dploy-system'',
     ForwardedClaims = getEnvAsList env ''FORWARDED_CLAIMS'' defaultForwarded,
     MaxEnvironmentsPerUser = getEnvAsInt env ''MAX_ENVIRONMENTS_PER_USER'' 5,
     DefaultTTL = getEnvAsInt env ''DEFAULT_TTL'' 86400,
     ExtendTTLDefault = getEnvAsInt env ''EXTEND_TTL'' 7200,
     ServerHost = getEnv env ''SERVER_HOST'' ''0.0.0.0'',
     ServerPort = getEnv env ''SERVER_PORT'' ''8080'',
     CatalogEnabled = getEnvAsBool env ''CATALOG_ENABLED'' True,
     InstancesListEnabled = getEnvAsBool env ''INSTANCES_LIST_ENABLED'' True,
     ManagerEnabled = getEnvAsBool env ''MANAGER_ENABLED'' True,
     AdminClaim = getEnv env ''ADMIN_CLAIM'' ''is_admin'',
     AdminValue = getEnv env ''ADMIN_VALUE'' ''true'',
     Debug = getEnvAsBool env ''DEBUG'' False\<rparr>"

text \<open>The scopes always hold \<open>openid\<close>; two variables have no default.\<close>

definition Load :: "environ \<Rightarrow> string + Config" where
  "Load env =
     (let cfg = readConfig env;
          cfg1 = (if ''openid'' \<in> set (OIDCScopes cfg) then cfg
                  else cfg\<lparr>OIDCScopes := ''openid'' # OIDCScopes cfg\<rparr>) in
      if JWKSUrl cfg1 = [] then Inl ''JWKS_URL is required''
      else if JWTIssuer cfg1 = [] then Inl ''JWT_ISSUER is required''
      else Inr cfg1)"

section \<open>Facts\<close>

lemma fieldsOf_examples:
  "fieldsOf ''a, b,,c '' = [''a'', ''b'', ''c'']" "fieldsOf '' ,, '' = []" "fieldsOf [] = []"
  by code_simp+

lemma Atoi_examples:
  "Atoi ''-12'' = Some (-12)" "Atoi ''+7'' = Some 7" "Atoi ''7x'' = None" "Atoi ''-'' = None"
  "Atoi ''9223372036854775807'' = Some max64" "Atoi ''9223372036854775808'' = None"
  by code_simp+

definition cleanField :: "string \<Rightarrow> bool" where
  "cleanField f \<longleftrightarrow> f \<noteq> [] \<and> (\<forall>c\<in>set f. \<not> isSeparator c)"

lemma fieldsFrom_clean:
  "(\<forall>c\<in>set cur. \<not> isSeparator c) \<Longrightarrow> \<forall>f\<in>set (fieldsFrom cur s). cleanField f"
proof (induction cur s rule: fieldsFrom.induct)
  case (1 cur)
  then show ?case by (simp add: cleanField_def)
next
  case (2 cur c s)
  show ?case
  proof (cases "isSeparator c")
    case True
    have "\<forall>f\<in>set (fieldsFrom [] s). cleanField f"
      using 2(1,2) True by (cases "cur = []") simp_all
    moreover have "cur \<noteq> [] \<Longrightarrow> cleanField cur" using 2(4) by (simp add: cleanField_def)
    ultimately show ?thesis using True by simp
  next
    case False
    with 2(3,4) show ?thesis by simp
  qed
qed

lemma getEnvAsList_clean:
  "\<forall>f\<in>set d. cleanField f \<Longrightarrow> \<forall>f\<in>set (getEnvAsList env key d). cleanField f"
  using fieldsFrom_clean [of "[]" "env key"] by (auto simp: getEnvAsList_def fieldsOf_def Let_def)

lemma cleanField_code: "cleanField f \<longleftrightarrow> f \<noteq> [] \<and> list_all (\<lambda>c. \<not> isSeparator c) f"
  by (simp add: cleanField_def list_all_iff)

lemma defaults_clean:
  "\<forall>f\<in>set defaultScopes. cleanField f" "\<forall>f\<in>set defaultForwarded. cleanField f" "cleanField ''openid''"
  by code_simp+

definition usableConfig :: "Config \<Rightarrow> bool" where
  "usableConfig cfg \<longleftrightarrow> JWKSUrl cfg \<noteq> [] \<and> JWTIssuer cfg \<noteq> [] \<and> OIDCIssuer cfg \<noteq> []
     \<and> ''openid'' \<in> set (OIDCScopes cfg)
     \<and> (\<forall>f\<in>set (OIDCScopes cfg) \<union> set (ForwardedClaims cfg). cleanField f)"

lemma getEnv_nonempty: "d \<noteq> [] \<Longrightarrow> getEnv env k d \<noteq> []" "getEnv env k [] = env k"
  by (simp_all add: getEnv_def)

lemma readConfig_fields:
  "JWKSUrl (readConfig env) = env ''JWKS_URL''" "JWTIssuer (readConfig env) = env ''JWT_ISSUER''"
  "OIDCIssuer (readConfig env) = getEnv env ''OIDC_ISSUER'' (getEnv env ''JWT_ISSUER'' [])"
  "OIDCScopes (readConfig env) = getEnvAsList env ''OIDC_SCOPES'' defaultScopes"
  "ForwardedClaims (readConfig env) = getEnvAsList env ''FORWARDED_CLAIMS'' defaultForwarded"
  by (simp_all add: readConfig_def getEnv_nonempty)

text \<open>Whatever the environment holds, a configuration that loads can authenticate. It names a
  key set and an issuer, requests the \<open>openid\<close> scope, and no scope or forwarded claim is empty or
  holds a separator; and loading fails exactly when the key set or the issuer is missing.\<close>

theorem load_usable:
  "case Load env of
     Inl e \<Rightarrow> env ''JWKS_URL'' = [] \<or> env ''JWT_ISSUER'' = []
   | Inr cfg \<Rightarrow> usableConfig cfg"
proof (cases "env ''JWKS_URL'' = [] \<or> env ''JWT_ISSUER'' = []")
  case True
  then show ?thesis by (auto simp: Load_def Let_def readConfig_fields split: sum.split)
next
  case False
  have lists: "\<forall>f\<in>set (OIDCScopes (readConfig env)) \<union> set (ForwardedClaims (readConfig env)). cleanField f"
    using getEnvAsList_clean [OF defaults_clean(1)] getEnvAsList_clean [OF defaults_clean(2)]
    by (auto simp only: readConfig_fields)
  have iss: "OIDCIssuer (readConfig env) \<noteq> []"
    using False by (simp add: readConfig_fields getEnv_nonempty(2)) (simp add: getEnv_nonempty(1))
  show ?thesis
    using False lists iss defaults_clean(3)
    by (auto simp: Load_def Let_def usableConfig_def readConfig_fields(1,2) split: if_splits)
qed

end
