(* ===== verification/Auth.thy ===== *)
theory Auth
imports KubeClient ApiConfig
begin

text \<open>
  \<^verbatim>\<open>internal/auth\<close>: who a request comes from (\<^verbatim>\<open>jwt.go\<close>,
  \<^verbatim>\<open>middleware.go\<close>), whether the requester is an administrator (\<^verbatim>\<open>admin.go\<close>),
  and the login flow with its return path (\<^verbatim>\<open>oidc.go\<close>). Token verification and the code
  exchange belong to go-oidc and oauth2 and are arguments; \<^verbatim>\<open>net/url\<close> is modelled for the
  one form of input that reaches it, a path that starts with a slash.
\<close>

section \<open>Administrators\<close>

definition matchesAdmin :: "string \<Rightarrow> jsonValue \<Rightarrow> bool" where
  "matchesAdmin value v =
     (case v of
        JBool b \<Rightarrow> b = (value = ''true'')
      | JString s \<Rightarrow> s = value
      | JArray vs \<Rightarrow> \<exists>w\<in>set vs. w = JString value
      | JStrings ss \<Rightarrow> value \<in> set ss
      | _ \<Rightarrow> False)"

definition IsAdmin :: "tokenClaims option \<Rightarrow> string \<Rightarrow> string \<Rightarrow> bool" where
  "IsAdmin claims claimName value =
     (if claimName = [] then False
      else (case claims of
          None \<Rightarrow> False
        | Some m \<Rightarrow> (case m claimName of None \<Rightarrow> False | Some v \<Rightarrow> matchesAdmin value v)))"

section \<open>Bearer tokens\<close>

text \<open>What verification yields: the nonce, and the claims or the error of decoding them.\<close>

record idToken =
  idNonce :: string
  idClaims :: "error + tokenClaims"

type_synonym verifier = "string \<Rightarrow> error + idToken"

definition Validate :: "verifier \<Rightarrow> string \<Rightarrow> string \<Rightarrow> string + string \<times> tokenClaims" where
  "Validate verify usernameClaim tokenString =
     (case verify tokenString of
        Inl e \<Rightarrow> Inl (''token parsing failed: '' @ errText e)
      | Inr tok \<Rightarrow> (case idClaims tok of
          Inl e \<Rightarrow> Inl (''decode claims: '' @ errText e)
        | Inr claims \<Rightarrow>
            (let rawUsername = (case claims usernameClaim of Some (JString s) \<Rightarrow> s | _ \<Rightarrow> []) in
             if rawUsername = [] then Inl (''missing or invalid '' @ usernameClaim @ '' claim'')
             else Inr (SanitizeUsername rawUsername, claims))))"

definition trimPrefix :: "string \<Rightarrow> string \<Rightarrow> string" where
  "trimPrefix p s = (if take (length p) s = p then drop (length p) s else s)"

text \<open>The error of a 401, or the user and claims the request goes on with.\<close>

definition Middleware :: "verifier \<Rightarrow> string \<Rightarrow> string \<Rightarrow> string + string \<times> tokenClaims" where
  "Middleware verify usernameClaim authHeader =
     (if authHeader = [] then Inl ''Missing Authorization header''
      else (let tokenString = trimPrefix ''Bearer '' authHeader in
        if tokenString = authHeader then Inl ''Invalid Authorization header format''
        else Validate verify usernameClaim tokenString))"

section \<open>net/url for a path\<close>

definition hexValue :: "char \<Rightarrow> nat option" where
  "hexValue c = (let n = of_char c :: nat in
     if 48 \<le> n \<and> n \<le> 57 then Some (n - 48)
     else if 97 \<le> n \<and> n \<le> 102 then Some (n - 87)
     else if 65 \<le> n \<and> n \<le> 70 then Some (n - 55) else None)"

definition upperHex :: "nat \<Rightarrow> char" where
  "upperHex n = char_of (if n < 10 then 48 + n else 55 + n)"

text \<open>The bytes that stay as they are in a path.\<close>

definition isAlnum :: "char \<Rightarrow> bool" where
  "isAlnum c = (let n = of_char c :: nat in
     (97 \<le> n \<and> n \<le> 122) \<or> (65 \<le> n \<and> n \<le> 90) \<or> (48 \<le> n \<and> n \<le> 57))"

definition shouldEscape :: "char \<Rightarrow> bool" where
  "shouldEscape c \<longleftrightarrow> \<not> (isAlnum c \<or> c \<in> set ''-_.~$&+,/:;=@'')"

definition escapeChar :: "char \<Rightarrow> string" where
  "escapeChar c =
     (if shouldEscape c
      then [CHR ''%'', upperHex (of_char c div 16), upperHex (of_char c mod 16)] else [c])"

definition escapePath :: "string \<Rightarrow> string" where
  "escapePath s = concat (map escapeChar s)"

fun unescape :: "string \<Rightarrow> string option" where
  "unescape [] = Some []"
| "unescape (c # s) =
     (if c \<noteq> CHR ''%'' then map_option ((#) c) (unescape s)
      else (case s of
          a # b # t \<Rightarrow> (case (hexValue a, hexValue b) of
              (Some x, Some y) \<Rightarrow> map_option ((#) (char_of (16 * x + y))) (unescape t)
            | _ \<Rightarrow> None)
        | _ \<Rightarrow> None))"

definition validEncoded :: "string \<Rightarrow> bool" where
  "validEncoded s \<longleftrightarrow> list_all (\<lambda>c. c \<in> set ''!$&()*+,;=:@[]%'' \<or> c = CHR 0x27 \<or> \<not> shouldEscape c) s"

record relURL =
  uPath :: string
  uRawPath :: string
  uForceQuery :: bool
  uRawQuery :: string

definition cutAt :: "char \<Rightarrow> string \<Rightarrow> string \<times> string" where
  "cutAt d s = (takeWhile (\<lambda>c. c \<noteq> d) s, drop 1 (dropWhile (\<lambda>c. c \<noteq> d) s))"

definition isControl :: "char \<Rightarrow> bool" where
  "isControl c = (let n = of_char c :: nat in n < 32 \<or> n = 127)"

definition splitQuery :: "string \<Rightarrow> string \<times> bool \<times> string" where
  "splitQuery s =
     (if s \<noteq> [] \<and> last s = CHR ''?'' \<and> count_list s (CHR ''?'') = 1
      then (butlast s, True, [])
      else (case cutAt (CHR ''?'') s of (rest, query) \<Rightarrow> (rest, False, query)))"

text \<open>\<^verbatim>\<open>url.Parse\<close> of a string that starts with one slash: no scheme, user or host can
  come out of it, and the fragment has only to decode.\<close>

definition parseRelative :: "string \<Rightarrow> relURL option" where
  "parseRelative s =
     (case cutAt (CHR ''#'') s of (body, fragment) \<Rightarrow>
      if list_ex isControl body then None
      else (case splitQuery body of (rest, force, query) \<Rightarrow>
        (case (unescape rest, unescape fragment) of
           (Some path, Some _) \<Rightarrow> Some \<lparr>uPath = path,
             uRawPath = (if escapePath path = rest then [] else rest),
             uForceQuery = force, uRawQuery = query\<rparr>
         | _ \<Rightarrow> None)))"

definition EscapedPath :: "relURL \<Rightarrow> string" where
  "EscapedPath u =
     (if uRawPath u \<noteq> [] \<and> validEncoded (uRawPath u) \<and> unescape (uRawPath u) = Some (uPath u)
      then uRawPath u
      else if uPath u = ''*'' then ''*'' else escapePath (uPath u))"

text \<open>\<^verbatim>\<open>u.String()\<close> once the fragment is dropped.\<close>

definition urlString :: "relURL \<Rightarrow> string" where
  "urlString u = EscapedPath u
     @ (if uForceQuery u \<or> uRawQuery u \<noteq> [] then CHR ''?'' # uRawQuery u else [])"

section \<open>The return path of a login\<close>

definition backslash :: char where "backslash = CHR 0x5C"

definition sanitizeRelativePath :: "string \<Rightarrow> string option" where
  "sanitizeRelativePath s =
     (if take 1 s \<noteq> ''/'' \<or> take 2 s = ''//'' \<or> take 2 s = [CHR ''/'', backslash] then None
      else (case parseRelative s of
          None \<Rightarrow> None
        | Some u \<Rightarrow> if backslash \<in> set (uPath u) then None else Some (urlString u)))"

definition cleanReturn :: "string \<Rightarrow> string" where
  "cleanReturn s = (case sanitizeRelativePath s of Some r \<Rightarrow> r | None \<Rightarrow> ''/'')"

lemma sanitize_examples:
  "sanitizeRelativePath ''/foo?x=1#frag'' = Some ''/foo?x=1''" "sanitizeRelativePath ''//evil.com/x'' = None"
  "sanitizeRelativePath ''/%5cevil.com/x'' = None" "sanitizeRelativePath ''foo/bar'' = None"
  "sanitizeRelativePath ''/'' = Some ''/''" "sanitizeRelativePath ''/a b'' = Some ''/a%20b''"
  by code_simp+

section \<open>Login and callback\<close>

text \<open>The four cookies of a flow; a missing one reads as the empty string.\<close>

record flowCookies =
  ckState :: string
  ckVerifier :: string
  ckNonce :: string
  ckReturn :: string

datatype loginResponse = AuthError nat string | RedirectTo string

text \<open>The random values and the URL of the identity provider are arguments; the result is the
  cookies that are set, if any, and the response.\<close>

definition Login ::
  "(string \<Rightarrow> string \<Rightarrow> string \<Rightarrow> string) \<Rightarrow> string \<Rightarrow> error + string \<Rightarrow> error + string \<Rightarrow> string
   \<Rightarrow> flowCookies option \<times> loginResponse" where
  "Login authCodeURL returnQuery mintState mintNonce pkce =
     (let returnURL = cleanReturn (if returnQuery = [] then ''/'' else returnQuery) in
      case mintState of
        Inl e \<Rightarrow> (None, AuthError 500 ''failed to mint state'')
      | Inr state \<Rightarrow> (case mintNonce of
          Inl e \<Rightarrow> (None, AuthError 500 ''failed to mint nonce'')
        | Inr nonce \<Rightarrow>
            (Some \<lparr>ckState = state, ckVerifier = pkce, ckNonce = nonce, ckReturn = returnURL\<rparr>,
             RedirectTo (authCodeURL state pkce nonce))))"

text \<open>The code exchange yields the \<open>id_token\<close> of the token response, where there is one. All four
  cookies are cleared before anything is checked, so the response is all there is to return.\<close>

definition Callback ::
  "(string \<Rightarrow> string \<Rightarrow> error + string option) \<Rightarrow> verifier \<Rightarrow> flowCookies \<Rightarrow> (string \<Rightarrow> string)
   \<Rightarrow> loginResponse" where
  "Callback exchange verify ck query =
     (if query ''error'' \<noteq> []
      then AuthError 400 (''identity provider rejected the login: '' @ query ''error'')
      else if ckState ck = [] \<or> ckVerifier ck = [] \<or> ckNonce ck = []
      then AuthError 400 ''missing or expired login session''
      else if query ''state'' \<noteq> ckState ck then AuthError 400 ''state mismatch''
      else if query ''code'' = [] then AuthError 400 ''missing authorization code''
      else (case exchange (query ''code'') (ckVerifier ck) of
          Inl e \<Rightarrow> AuthError 502 ''token exchange failed''
        | Inr None \<Rightarrow> AuthError 502 ''no id_token in token response''
        | Inr (Some rawIDToken) \<Rightarrow> (case verify rawIDToken of
            Inl e \<Rightarrow> AuthError 502 ''id_token verification failed''
          | Inr tok \<Rightarrow>
              if idNonce tok \<noteq> ckNonce ck then AuthError 400 ''nonce mismatch''
              else RedirectTo (cleanReturn (ckReturn ck) @ ''#token='' @ rawIDToken))))"

definition Logout :: loginResponse where "Logout = RedirectTo ''/''"

section \<open>Escaping\<close>

lemma hexValue_upperHex: "n < 16 \<Longrightarrow> hexValue (upperHex n) = Some n"
  by (auto simp: hexValue_def upperHex_def Let_def)

lemma byte_split: "char_of (16 * (of_char c div 16) + of_char c mod 16) = c"
  by simp

lemma of_char_lt: "of_char (c :: char) < (256 :: nat)"
  by (simp add: of_char_def)

lemma high_nibble: "of_char (c :: char) div 16 < (16 :: nat)"
  by (rule less_mult_imp_div_less) (use of_char_lt [of c] in simp)

lemma percent_escaped: "shouldEscape (CHR ''%'')"
  by (simp add: shouldEscape_def isAlnum_def)

lemma unescape_escape: "unescape (escapeChar c @ s) = map_option ((#) c) (unescape s)"
proof (cases "shouldEscape c")
  case True
  note lt = high_nibble [of c]
  show ?thesis using True lt by (simp add: escapeChar_def hexValue_upperHex)
next
  case False
  then have "c \<noteq> CHR ''%''" using percent_escaped by auto
  with False show ?thesis by (simp add: escapeChar_def)
qed

lemma unescape_escapePath: "unescape (escapePath s) = Some s"
  by (induction s) (simp_all add: escapePath_def unescape_escape)

lemma hex_alnum: "n < 16 \<Longrightarrow> isAlnum (upperHex n)"
  by (auto simp: isAlnum_def upperHex_def)

definition pathChar :: "char \<Rightarrow> bool" where
  "pathChar c \<longleftrightarrow> c \<noteq> CHR ''?'' \<and> c \<noteq> CHR ''#'' \<and> c \<noteq> backslash \<and> \<not> isControl c"

lemma valid_chars:
  assumes "validEncoded s" and "c \<in> set s"
  shows "pathChar c"
proof -
  have "c \<in> set ''!$&()*+,;=:@[]%'' \<or> c = CHR 0x27 \<or> \<not> shouldEscape c"
    using assms by (auto simp: validEncoded_def list_all_iff)
  then show ?thesis
    by (auto simp: shouldEscape_def isAlnum_def pathChar_def isControl_def backslash_def Let_def)
qed

lemma valid_escapeChar: "validEncoded (escapeChar c)"
proof (cases "shouldEscape c")
  case True
  note lt = high_nibble [of c]
  have "\<not> shouldEscape (upperHex n)" if "n < 16" for n
    using hex_alnum [OF that] by (simp add: shouldEscape_def)
  then show ?thesis using True lt by (simp add: escapeChar_def validEncoded_def)
qed (simp add: escapeChar_def validEncoded_def)

lemma valid_escapePath: "validEncoded (escapePath s)"
  using valid_escapeChar by (induction s) (simp_all add: escapePath_def validEncoded_def)

section \<open>Sanitising twice\<close>

text \<open>What comes out of the sanitiser: an encoded path, and what followed the first question mark.\<close>

definition canonicalURL :: "string \<Rightarrow> string \<Rightarrow> bool \<Rightarrow> string \<Rightarrow> bool" where
  "canonicalURL p path force query \<longleftrightarrow> validEncoded p \<and> unescape p = Some path \<and> hd p = CHR ''/'' \<and> p \<noteq> []
     \<and> backslash \<notin> set path \<and> CHR ''#'' \<notin> set query \<and> \<not> list_ex isControl query
     \<and> (force \<longrightarrow> query = [])"

lemma cutAt_none: "d \<notin> set s \<Longrightarrow> cutAt d s = (s, [])"
  by (induction s) (auto simp: cutAt_def)

lemma cutAt_app: "d \<notin> set s \<Longrightarrow> cutAt d (s @ d # t) = (s, t)"
  by (induction s) (auto simp: cutAt_def)

lemma cutAt_parts: "cutAt d s = (a, b) \<Longrightarrow> d \<notin> set a \<and> set a \<subseteq> set s \<and> set b \<subseteq> set s"
  by (auto simp: cutAt_def dest: set_takeWhileD in_set_dropD set_dropWhileD)

lemma unescape_hd: "s \<noteq> [] \<Longrightarrow> hd s = CHR ''/'' \<Longrightarrow> unescape s = Some path \<Longrightarrow> path \<noteq> [] \<and> hd path = CHR ''/''"
  by (cases s) (auto simp: map_option_case split: option.splits)

lemma escapePath_hd: "path \<noteq> [] \<Longrightarrow> hd path = CHR ''/'' \<Longrightarrow> escapePath path \<noteq> [] \<and> hd (escapePath path) = CHR ''/''"
  by (cases path) (auto simp: escapePath_def escapeChar_def shouldEscape_def)

definition queryText :: "bool \<Rightarrow> string \<Rightarrow> string" where
  "queryText force query = (if force \<or> query \<noteq> [] then CHR ''?'' # query else [])"

lemma splitQuery_canonical:
  assumes "CHR ''?'' \<notin> set p" and "p \<noteq> []" and "force \<longrightarrow> query = []"
  shows "splitQuery (p @ queryText force query) = (p, force, query)"
proof -
  have n: "count_list p (CHR ''?'') = 0" using assms(1) by (simp add: count_list_0_iff)
  have l: "last p \<noteq> CHR ''?''" using assms(1,2) last_in_set by metis
  have q: "\<not> (last query = CHR ''?'' \<and> count_list query (CHR ''?'') = 0)" if "query \<noteq> []"
    using that last_in_set [of query] by (metis count_list_0_iff)
  show ?thesis
    using assms n l q
    by (auto simp: queryText_def splitQuery_def cutAt_none cutAt_app butlast_append)
qed

lemma question_plain: "\<not> isControl (CHR ''?'')"
  by (simp add: isControl_def)

lemma parse_canonical:
  assumes "canonicalURL p path force query"
  shows "\<exists>u. parseRelative (p @ queryText force query) = Some u \<and> uPath u = path
    \<and> urlString u = p @ queryText force query"
proof -
  note c = assms [unfolded canonicalURL_def]
  have chars: "\<forall>x\<in>set p. pathChar x" using c valid_chars by blast
  then have qm: "CHR ''?'' \<notin> set p" and hp: "CHR ''#'' \<notin> set p" and cp: "\<not> list_ex isControl p"
    unfolding pathChar_def list_ex_iff by blast+
  have hash: "CHR ''#'' \<notin> set (p @ queryText force query)"
    using hp c by (simp add: queryText_def)
  have ctl: "\<not> list_ex isControl (p @ queryText force query)"
    using cp c by (simp add: queryText_def question_plain)
  let ?raw = "if escapePath path = p then [] else p"
  let ?u = "\<lparr>uPath = path, uRawPath = ?raw, uForceQuery = force, uRawQuery = query\<rparr>"
  have parse: "parseRelative (p @ queryText force query) = Some ?u"
    unfolding parseRelative_def cutAt_none [OF hash]
    using c ctl splitQuery_canonical [OF qm] by simp
  have "path \<noteq> ''*''" using c unescape_hd [of p path] by auto
  then have "EscapedPath ?u = p" using c by (auto simp: EscapedPath_def)
  then have "urlString ?u = p @ queryText force query" by (simp add: urlString_def queryText_def)
  with parse show ?thesis by force
qed

lemma sanitize_canonical_form:
  assumes "sanitizeRelativePath s = Some r"
  shows "\<exists>p path force query. canonicalURL p path force query \<and> r = p @ queryText force query"
proof -
  obtain u where p: "parseRelative s = Some u" "backslash \<notin> set (uPath u)" "r = urlString u" "take 1 s = ''/''"
    using assms by (auto simp: sanitizeRelativePath_def split: if_splits option.splits)
  obtain body frag where b: "cutAt (CHR ''#'') s = (body, frag)" by force
  obtain rest force query where sp: "splitQuery body = (rest, force, query)" by (cases "splitQuery body")
  have nc: "\<not> list_ex isControl body" and un: "unescape rest = Some (uPath u)"
    and u: "uRawPath u = (if escapePath (uPath u) = rest then [] else rest)" "uForceQuery u = force" "uRawQuery u = query"
    using p(1) by (auto simp: parseRelative_def b sp split: if_splits option.splits)
  have hb: "CHR ''#'' \<notin> set body" using cutAt_parts [OF b] by blast
  have bs: "body \<noteq> [] \<and> hd body = CHR ''/''"
    using p(4) b by (cases s) (auto simp: cutAt_def)
  have rest: "rest \<noteq> [] \<and> hd rest = CHR ''/''"
  proof (cases "body \<noteq> [] \<and> last body = CHR ''?'' \<and> count_list body (CHR ''?'') = 1")
    case True
    then show ?thesis using sp bs by (cases body) (auto simp: splitQuery_def split: if_splits)
  next
    case False
    then show ?thesis using sp bs by (cases body) (auto simp: splitQuery_def cutAt_def split: if_splits)
  qed
  have q: "set query \<subseteq> set body" "force \<longrightarrow> query = []"
    using sp cutAt_parts [of "CHR ''?''" body] by (auto simp: splitQuery_def split: if_splits prod.splits)
  have path: "uPath u \<noteq> []" "hd (uPath u) = CHR ''/''" using unescape_hd [OF _ _ un] rest by auto
  have ns: "uPath u \<noteq> ''*''"
  proof
    assume "uPath u = ''*''"
    with path(2) show False by simp
  qed
  have ep: "EscapedPath u = rest \<and> validEncoded rest \<or> EscapedPath u = escapePath (uPath u)"
  proof (cases "uRawPath u \<noteq> [] \<and> validEncoded (uRawPath u) \<and> unescape (uRawPath u) = Some (uPath u)")
    case True
    then have "uRawPath u = rest" using u(1) by metis
    with True show ?thesis by (simp add: EscapedPath_def)
  next
    case False
    with ns show ?thesis by (simp only: EscapedPath_def if_False) simp
  qed
  have "CHR ''#'' \<notin> set query" "\<not> list_ex isControl query"
    using q(1) nc hb unfolding list_ex_iff by blast+
  then have tail: "backslash \<notin> set (uPath u) \<and> CHR ''#'' \<notin> set query \<and> \<not> list_ex isControl query
     \<and> (force \<longrightarrow> query = [])" using p(2) q(2) by blast
  have "validEncoded (EscapedPath u) \<and> unescape (EscapedPath u) = Some (uPath u)
      \<and> hd (EscapedPath u) = CHR ''/'' \<and> EscapedPath u \<noteq> []"
    using ep
  proof
    assume "EscapedPath u = rest \<and> validEncoded rest"
    with rest un show ?thesis by simp
  next
    assume e: "EscapedPath u = escapePath (uPath u)"
    show ?thesis
      unfolding e using valid_escapePath unescape_escapePath escapePath_hd [OF path] by blast
  qed
  with tail have "canonicalURL (EscapedPath u) (uPath u) force query"
    unfolding canonicalURL_def by blast
  moreover have "r = EscapedPath u @ queryText force query"
    using p(3) u by (simp add: urlString_def queryText_def)
  ultimately show ?thesis by blast
qed

text \<open>The second pass changes nothing: what the sanitiser returns is a fixed point of its encoding, so
  what it accepts again it returns as it is.\<close>

lemma sanitize_twice:
  assumes "sanitizeRelativePath s = Some r" and "sanitizeRelativePath r = Some r'"
  shows "r' = r"
proof -
  obtain p path force query where c: "canonicalURL p path force query" "r = p @ queryText force query"
    using sanitize_canonical_form [OF assms(1)] by blast
  then obtain u where "parseRelative r = Some u" "urlString u = r" using parse_canonical by blast
  with assms(2) show ?thesis by (auto simp: sanitizeRelativePath_def split: if_splits)
qed

text \<open>A reference that a browser resolves against the host it is on: one leading slash, and no
  fragment of its own.\<close>

definition staysOnHost :: "string \<Rightarrow> bool" where
  "staysOnHost r \<longleftrightarrow> take 1 r = ''/'' \<and> take 2 r \<noteq> ''//'' \<and> take 2 r \<noteq> [CHR ''/'', backslash]
     \<and> CHR ''#'' \<notin> set r"

lemma sanitize_no_fragment:
  assumes "sanitizeRelativePath s = Some r"
  shows "CHR ''#'' \<notin> set r"
proof -
  obtain p path force query where c: "canonicalURL p path force query" "r = p @ queryText force query"
    using sanitize_canonical_form [OF assms] by blast
  then have "\<forall>x\<in>set p. pathChar x" "CHR ''#'' \<notin> set query"
    using valid_chars unfolding canonicalURL_def by blast+
  then have "CHR ''#'' \<notin> set p" unfolding pathChar_def by blast
  with \<open>CHR ''#'' \<notin> set query\<close> c(2) show ?thesis by (simp add: queryText_def)
qed

lemma staysOnHost_root: "staysOnHost ''/''"
  by (simp add: staysOnHost_def)

section \<open>Properties\<close>

text \<open>C29. A login sends the browser back to the host it started on, whatever return path the request
  asked for: the path Login stores, sanitised again by Callback, has exactly one leading slash (no
  second slash and no backslash after it) and no fragment, so the token fragment is the only one.\<close>

theorem login_returns_to_host: "staysOnHost (cleanReturn (cleanReturn raw))"
proof (cases "sanitizeRelativePath (cleanReturn raw)")
  case None
  then show ?thesis using staysOnHost_root by (simp add: cleanReturn_def)
next
  case (Some r)
  have "r = cleanReturn raw"
  proof (cases "sanitizeRelativePath raw")
    case None
    then have "cleanReturn raw = ''/''" by (simp add: cleanReturn_def)
    moreover have "sanitizeRelativePath ''/'' = Some ''/''" by (rule sanitize_examples)
    ultimately show ?thesis using Some by simp
  next
    case raw: (Some c)
    then have "cleanReturn raw = c" by (simp add: cleanReturn_def)
    then show ?thesis using sanitize_twice [OF raw] Some by simp
  qed
  moreover have "take 1 (cleanReturn raw) = ''/''" "take 2 (cleanReturn raw) \<noteq> ''//''"
    "take 2 (cleanReturn raw) \<noteq> [CHR ''/'', backslash]"
    using Some unfolding sanitizeRelativePath_def by (auto split: if_splits)
  moreover have "cleanReturn (cleanReturn raw) = r" using Some by (simp add: cleanReturn_def [of "cleanReturn raw"])
  ultimately show ?thesis
    unfolding staysOnHost_def using sanitize_no_fragment [OF Some] by simp
qed

text \<open>One pass of the sanitiser is not enough. A path with an encoded slash and one byte that is
  not allowed in a path passes every check, and is returned re-encoded from its decoded form, which
  starts with two slashes and names another host. Only the second pass in Callback catches it, and
  a return cookie that did not go through Login has no second pass.\<close>

theorem one_pass_leaves_host:
  "sanitizeRelativePath ''/%2fevil.com/^'' = Some ''//evil.com/%5E''
   \<and> \<not> staysOnHost (cleanReturn ''/%2fevil.com/^'')"
proof
  show s: "sanitizeRelativePath ''/%2fevil.com/^'' = Some ''//evil.com/%5E''" by code_simp
  show "\<not> staysOnHost (cleanReturn ''/%2fevil.com/^'')"
    by (simp add: cleanReturn_def s staysOnHost_def)
qed

text \<open>Callback redirects with a token exactly when the provider reported no error, the browser
  still holds the state, verifier and nonce of a login, the state in the query is that state, the
  code was exchanged with that verifier for a token that verifies, and the nonce in the token is
  that nonce. Every other request gets an error and no token.\<close>

lemma Callback_redirects_iff:
  "Callback exchange verify ck query = RedirectTo target \<longleftrightarrow>
     query ''error'' = [] \<and> ckState ck \<noteq> [] \<and> ckVerifier ck \<noteq> [] \<and> ckNonce ck \<noteq> []
     \<and> query ''state'' = ckState ck \<and> query ''code'' \<noteq> []
     \<and> (\<exists>raw tok. exchange (query ''code'') (ckVerifier ck) = Inr (Some raw) \<and> verify raw = Inr tok
          \<and> idNonce tok = ckNonce ck \<and> target = cleanReturn (ckReturn ck) @ ''#token='' @ raw)"
proof -
  let ?go = "case exchange (query ''code'') (ckVerifier ck) of
      Inl e \<Rightarrow> AuthError 502 ''token exchange failed''
    | Inr None \<Rightarrow> AuthError 502 ''no id_token in token response''
    | Inr (Some rawIDToken) \<Rightarrow> (case verify rawIDToken of
        Inl e \<Rightarrow> AuthError 502 ''id_token verification failed''
      | Inr tok \<Rightarrow>
          if idNonce tok \<noteq> ckNonce ck then AuthError 400 ''nonce mismatch''
          else RedirectTo (cleanReturn (ckReturn ck) @ ''#token='' @ rawIDToken))"
  have "?go = RedirectTo target \<longleftrightarrow>
     (\<exists>raw tok. exchange (query ''code'') (ckVerifier ck) = Inr (Some raw) \<and> verify raw = Inr tok
          \<and> idNonce tok = ckNonce ck \<and> target = cleanReturn (ckReturn ck) @ ''#token='' @ raw)"
    by (auto split: sum.split option.split)
  then show ?thesis unfolding Callback_def by simp
qed

text \<open>Nobody is an administrator without a claim that says so, except by the boolean rule. A
  missing claim, no claims at all and a claim name left empty never match; a string, a list and a
  set of strings match only the configured value itself. But a boolean is compared with whether
  that value is the text \<open>true\<close>, so for every other value the claim \<open>false\<close> makes an
  administrator, and \<open>true\<close> does not.\<close>

theorem admin_rule:
  "\<not> IsAdmin None name value \<and> \<not> IsAdmin (Some m) [] value
   \<and> (m name = None \<longrightarrow> \<not> IsAdmin (Some m) name value)
   \<and> (name \<noteq> [] \<longrightarrow> (IsAdmin (Some (m(name \<mapsto> JString s))) name value \<longleftrightarrow> s = value)
       \<and> (IsAdmin (Some (m(name \<mapsto> JStrings ss))) name value \<longleftrightarrow> value \<in> set ss)
       \<and> (IsAdmin (Some (m(name \<mapsto> JBool b))) name value \<longleftrightarrow> b = (value = ''true'')))"
  by (simp add: IsAdmin_def matchesAdmin_def)

theorem admin_rule_witness:
  "IsAdmin (Some (Map.empty(''is_admin'' \<mapsto> JBool False))) ''is_admin'' ''yes''
   \<and> \<not> IsAdmin (Some (Map.empty(''is_admin'' \<mapsto> JBool True))) ''is_admin'' ''yes''"
  using admin_rule [of "''is_admin''" "''yes''" Map.empty undefined undefined False]
    admin_rule [of "''is_admin''" "''yes''" Map.empty undefined undefined True] by simp

end
