(* ===== verification/Handlers.thy ===== *)
theory Handlers
imports Auth Ordering
begin

text \<open>
  The HTTP handlers of the API server (\<^verbatim>\<open>internal/handlers\<close>), the bodies they answer with
  (\<^verbatim>\<open>internal/models/responses.go\<close>) and the routes of \<^verbatim>\<open>cmd/api/main.go\<close>. A
  handler is a program over the Kubernetes API that ends in an outcome: the status and body it
  responded with, or a nil dereference, which the recover middleware turns into a 500. The request
  carries what fiber hands to a handler; its query parsing is an argument.
\<close>

section \<open>Response bodies (responses.go)\<close>

record AvailableEnvironmentResponse =
  avName :: string
  avDescription :: string
  avIcon :: string
  avCategory :: string
  avTTL :: int
  avExtendTTL :: int
  avMaxExtends :: int
  avIsUnlimited :: bool

record UserEnvironmentResponse =
  ueName :: string
  ueDescription :: string
  ueUUID :: string
  ueStatus :: string
  ueURL :: string
  ueExpiresAt :: string
  ueIcon :: string
  ueExtendCount :: int
  ueMaxExtends :: int
  ueExtendTTL :: int
  ueIsUnlimited :: bool
  ueOwner :: string
  ueShared :: bool
  ueMessage :: string
  ueConnectionType :: string
  ueConnectionMessage :: string

record UserEnvironmentsListResponse =
  ulEnvironments :: "UserEnvironmentResponse list"
  ulCount :: nat
  ulLimit :: int

record RunEnvironmentResponse =
  reUUID :: string
  reStatus :: string
  reURL :: string
  reExpiresAt :: string
  reOwner :: string
  reShared :: bool
  reMessage :: string
  reConnectionType :: string
  reConnectionMessage :: string

text \<open>The status response has the same fields.\<close>

type_synonym StatusResponse = RunEnvironmentResponse

record UIConfigResponse =
  uiCatalogEnabled :: bool
  uiInstancesEnabled :: bool
  uiManagerEnabled :: bool

record MeResponse =
  meUsername :: string
  meOwner :: string
  meAdmin :: bool

record AdminInstanceRow =
  aiName :: string
  aiTemplate :: string
  aiOwner :: string
  aiPhase :: string
  aiURL :: string
  aiExpiresAt :: string
  aiCreatedAt :: string
  aiNamespace :: string
  aiClaim :: string
  aiUUID :: string
  aiIsUnlimited :: bool

record AdminTemplateRow =
  atName :: string
  atDisplayName :: string
  atMethod :: string
  atEnabled :: bool
  atVisible :: bool
  atPoolSize :: int
  atAvailable :: int
  atClaimed :: int
  atChartType :: string
  atChartRepo :: string
  atChartRef :: string
  atRevision :: string
  atCreatedAt :: string

text \<open>The two admin lists carry their length as the count.\<close>

datatype body =
    ErrorBody string
  | RunBody RunEnvironmentResponse
  | StatusBody StatusResponse
  | ExtendBody string
  | NoBody
  | AvailableBody "AvailableEnvironmentResponse list"
  | UserListBody UserEnvironmentsListResponse
  | MeBody MeResponse
  | AdminInstancesBody "AdminInstanceRow list" nat
  | AdminTemplatesBody "AdminTemplateRow list" nat
  | HealthBody string
  | UIConfigBody UIConfigResponse
  | IndexPage

datatype outcome = Responded nat body | Panicked

section \<open>Requests\<close>

record request =
  qUser :: "string option"
  qClaims :: "tokenClaims option"
  qEnv :: string
  qQuery :: "string \<Rightarrow> string"
  qQueryBool :: "string \<Rightarrow> bool \<Rightarrow> bool"

definition claimsMap :: "request \<Rightarrow> tokenClaims" where
  "claimsMap q = (case qClaims q of Some m \<Rightarrow> m | None \<Rightarrow> Map.empty)"

definition usernameOf :: "request \<Rightarrow> string" where
  "usernameOf q = (case qUser q of Some u \<Rightarrow> u | None \<Rightarrow> [])"

definition jsonError :: "nat \<Rightarrow> string \<Rightarrow> outcome" where
  "jsonError status msg = Responded status (ErrorBody msg)"

definition unauthorized :: outcome where
  "unauthorized = jsonError 401 ''unauthorized: missing user context''"

definition notFound :: "string \<Rightarrow> outcome" where "notFound msg = jsonError 404 msg"
definition internalError :: "error \<Rightarrow> outcome" where "internalError e = jsonError 500 (errText e)"

section \<open>Reading a claim (run.go)\<close>

definition isShared :: "request \<Rightarrow> string \<Rightarrow> bool" where
  "isShared q owner =
     (if owner = [] then False else owner \<noteq> fst (ResolveOwner (claimsMap q) [] (usernameOf q)))"

definition instancePhaseStatus :: "InstancePhase \<Rightarrow> string \<Rightarrow> string" where
  "instancePhaseStatus phase health =
     (if phase \<in> {PhaseReady, PhaseClaimed, PhaseAvailable}
      then (if health \<noteq> [] then health else ''Healthy'')
      else if phase = PhaseProvisioning then ''Progressing''
      else if phase = PhaseFailed then ''Degraded''
      else if phase = PhaseExpiring then ''Deleting'' else ''pending'')"

definition claimStatus :: "DployInstanceClaim \<Rightarrow> string" where
  "claimStatus claim =
     (case cPhase (cStatus claim) of
        ClaimBound \<Rightarrow> instancePhaseStatus (cInstancePhase (cStatus claim)) (cHealth (cStatus claim))
      | ClaimRejected \<Rightarrow> ''Degraded''
      | ClaimExpired \<Rightarrow> ''Deleting''
      | _ \<Rightarrow> ''pending'')"

definition claimExpiresAt :: "DployInstanceClaim \<Rightarrow> string" where
  "claimExpiresAt claim =
     (case cExpiresAt (cStatus claim) of None \<Rightarrow> [] | Some t \<Rightarrow> formatRFC3339 t)"

definition claimMessage :: "api \<Rightarrow> DployInstanceClaim \<Rightarrow> string" where
  "claimMessage A claim =
     (if cPhase (cStatus claim) = ClaimBound then []
      else (case findCond A (cConditions (cStatus claim)) ConditionBound of
          Some c \<Rightarrow> condMessage c | None \<Rightarrow> []))"

definition envResponse :: "api \<Rightarrow> request \<Rightarrow> DployInstanceClaim \<Rightarrow> RunEnvironmentResponse" where
  "envResponse A q claim = \<lparr>reUUID = cUUID (cStatus claim), reStatus = claimStatus claim,
     reURL = cConnectionURL (cStatus claim), reExpiresAt = claimExpiresAt claim,
     reOwner = cOwner (cSpec claim), reShared = isShared q (cOwner (cSpec claim)),
     reMessage = claimMessage A claim, reConnectionType = cConnectionType (cStatus claim),
     reConnectionMessage = cConnectionMessage (cStatus claim)\<rparr>"

definition respondClaim :: "api \<Rightarrow> request \<Rightarrow> DployInstanceClaim \<Rightarrow> outcome" where
  "respondClaim A q claim = Responded 200 (RunBody (envResponse A q claim))"

definition rejectedStatus :: "Condition option \<Rightarrow> nat" where
  "rejectedStatus c =
     (case c of
        None \<Rightarrow> 409
      | Some x \<Rightarrow> if condReason x = ''QuotaExceeded'' then 403
          else if condReason x = ''TemplateNotFound'' \<or> condReason x = ''TemplateDisabled'' then 404
          else 409)"

definition respondRejected :: "api \<Rightarrow> DployInstanceClaim \<Rightarrow> outcome" where
  "respondRejected A claim =
     (let m = claimMessage A claim; msg = (if m = [] then ''the request was rejected'' else m) in
      jsonError (rejectedStatus (findCond A (cConditions (cStatus claim)) ConditionBound)) msg)"

section \<open>Parameters (run.go)\<close>

text \<open>The overlay of the declared parameters, in their order; the error names the first missing one.\<close>

fun overlayParams :: "(string \<Rightarrow> string) \<Rightarrow> TemplateParameter list \<Rightarrow> smap \<Rightarrow> string + smap" where
  "overlayParams query [] params = Inr params"
| "overlayParams query (p # ps) params =
     (let v = (if query (pName p) = [] then pDefault p else query (pName p)) in
      if v = [] \<and> pRequired p then Inl (''missing required parameter '' @ goQuote (pName p))
      else overlayParams query ps (if v \<noteq> [] then params(pName p \<mapsto> v) else params))"

definition buildParams :: "Config \<Rightarrow> request \<Rightarrow> DployTemplate \<Rightarrow> string + smap" where
  "buildParams cfg q tmpl =
     overlayParams (qQuery q) (tParameters (tSpec tmpl))
       (FilterClaims (claimsMap q) (ForwardedClaims cfg))"

section \<open>The run handlers (run.go)\<close>

definition ownerMissing :: "DployTemplate \<Rightarrow> outcome" where
  "ownerMissing tmpl =
     (let claimName = (if tOwnerClaim (tSpec tmpl) = [] then ''username'' else tOwnerClaim (tSpec tmpl)) in
      jsonError 403 (''your token has no usable '' @ goQuote claimName
        @ '' claim required to own this environment''))"

text \<open>A nil claim without an error is dereferenced.\<close>

definition recordRequest ::
  "api \<Rightarrow> Config \<Rightarrow> request \<Rightarrow> string \<Rightarrow> smap \<Rightarrow> DployTemplate \<Rightarrow> outcome io" where
  "recordRequest A cfg q owner params tmpl = do {
     r \<leftarrow> EnsureClaim A (ConfigNamespace cfg) owner params tmpl (qQueryBool q ''wait'' True);
     case r of
       Inl e \<Rightarrow> give (internalError e)
     | Inr None \<Rightarrow> give Panicked
     | Inr (Some claim) \<Rightarrow>
         give (if cPhase (cStatus claim) = ClaimRejected then respondRejected A claim
               else respondClaim A q claim) }"

definition CreateEnvironment :: "api \<Rightarrow> Config \<Rightarrow> request \<Rightarrow> outcome io" where
  "CreateEnvironment A cfg q =
     (case qUser q of
        None \<Rightarrow> give unauthorized
      | Some username \<Rightarrow> do {
          t \<leftarrow> GetTemplate A (ConfigNamespace cfg) (qEnv q);
          case t of
            Inl e \<Rightarrow> give (if IsNotFound e then notFound (''environment '' @ goQuote (qEnv q) @ '' not found'')
                           else internalError e)
          | Inr tmpl \<Rightarrow>
              if \<not> tEnabled (tSpec tmpl)
              then give (notFound (''environment '' @ goQuote (qEnv q) @ '' is disabled''))
              else (case ResolveOwner (claimsMap q) (tOwnerClaim (tSpec tmpl)) username of
                  (owner, usable) \<Rightarrow>
                    if \<not> usable then give (ownerMissing tmpl)
                    else (case buildParams cfg q tmpl of
                        Inl msg \<Rightarrow> give (jsonError 400 msg)
                      | Inr params \<Rightarrow> recordRequest A cfg q owner params tmpl)) })"

definition resolveOwner :: "api \<Rightarrow> Config \<Rightarrow> request \<Rightarrow> string \<Rightarrow> string \<Rightarrow> (string \<times> bool) io" where
  "resolveOwner A cfg q env username = do {
     t \<leftarrow> GetTemplate A (ConfigNamespace cfg) env;
     give (ResolveOwner (claimsMap q)
       (case t of Inl e \<Rightarrow> [] | Inr tmpl \<Rightarrow> tOwnerClaim (tSpec tmpl)) username) }"

text \<open>\<^verbatim>\<open>return nil, notFound(c, ...)\<close>: the second component is the error of sending the
  response, which is nil, since the body always encodes. So a caller cannot tell from it that there
  is no claim.\<close>

definition sent :: "outcome \<Rightarrow> error option" where "sent out = None"

definition requireClaim :: "api \<Rightarrow> Config \<Rightarrow> request \<Rightarrow> (DployInstanceClaim option \<times> error option) io" where
  "requireClaim A cfg q =
     (case qUser q of
        None \<Rightarrow> give (None, sent unauthorized)
      | Some username \<Rightarrow> do {
          (owner, usable) \<leftarrow> resolveOwner A cfg q (qEnv q) username;
          if \<not> usable
          then give (None, sent (notFound (''environment '' @ goQuote (qEnv q) @ '' not found'')))
          else do {
            r \<leftarrow> GetOwnerClaim A (ConfigNamespace cfg) owner (qEnv q);
            case r of
              Inl e \<Rightarrow> give (None, sent (internalError e))
            | Inr None \<Rightarrow> give (None, sent (notFound (''environment '' @ goQuote (qEnv q) @ '' not found'')))
            | Inr (Some claim) \<Rightarrow> give (Some claim, None) } })"

text \<open>The preamble of the three callers: return an error, and go on with what is there.\<close>

definition withClaim ::
  "api \<Rightarrow> Config \<Rightarrow> request \<Rightarrow> (DployInstanceClaim \<Rightarrow> outcome io) \<Rightarrow> (outcome io) \<Rightarrow> outcome io" where
  "withClaim A cfg q f nilCase = do {
     (claim, err) \<leftarrow> requireClaim A cfg q;
     case err of
       Some e \<Rightarrow> give (internalError e)
     | None \<Rightarrow> (case claim of Some c \<Rightarrow> f c | None \<Rightarrow> nilCase) }"

definition GetStatus :: "api \<Rightarrow> Config \<Rightarrow> request \<Rightarrow> outcome io" where
  "GetStatus A cfg q = withClaim A cfg q
     (\<lambda>claim. give (Responded 200 (StatusBody (envResponse A q claim)))) (give Panicked)"

definition extendOutcome :: "extendError + Time \<Rightarrow> outcome" where
  "extendOutcome r =
     (case r of
        Inl ErrUnlimitedTTL \<Rightarrow> jsonError 400 (extendErrorText ErrUnlimitedTTL)
      | Inl ErrNotBound \<Rightarrow> jsonError 400 (extendErrorText ErrNotBound)
      | Inl (ErrMaxExtends d) \<Rightarrow> jsonError 409 (extendErrorText (ErrMaxExtends d))
      | Inl (ErrKube e) \<Rightarrow> internalError e
      | Inl NilBoundAt \<Rightarrow> Panicked
      | Inr t \<Rightarrow> Responded 200 (ExtendBody (formatRFC3339 t)))"

definition extendStep :: "Config \<Rightarrow> error + DployTemplate \<Rightarrow> int" where
  "extendStep cfg t =
     (case t of
        Inr tmpl \<Rightarrow> (case tTTL (tSpec tmpl) of
            Some s \<Rightarrow> if ttlExtendSeconds s > 0 then ttlExtendSeconds s else ExtendTTLDefault cfg
          | None \<Rightarrow> ExtendTTLDefault cfg)
      | Inl e \<Rightarrow> ExtendTTLDefault cfg)"

text \<open>The template is read before the claim is looked at, in the nil case too.\<close>

definition ExtendTTL :: "api \<Rightarrow> Config \<Rightarrow> request \<Rightarrow> outcome io" where
  "ExtendTTL A cfg q = withClaim A cfg q
     (\<lambda>claim. do {
        t \<leftarrow> GetTemplate A (ConfigNamespace cfg) (qEnv q);
        r \<leftarrow> ExtendClaim A claim (extendStep cfg t);
        give (extendOutcome r) })
     (do { _ \<leftarrow> GetTemplate A (ConfigNamespace cfg) (qEnv q); give Panicked })"

text \<open>\<open>Delete\<close> of a nil object answers with an error or panics (\<open>deleteNil\<close>); where it did neither,
  the log line would dereference the claim.\<close>

definition nilDelete :: "api \<Rightarrow> outcome" where
  "nilDelete A = (case deleteNil A of Some e \<Rightarrow> internalError e | None \<Rightarrow> Panicked)"

definition DeleteEnvironment :: "api \<Rightarrow> Config \<Rightarrow> request \<Rightarrow> outcome io" where
  "DeleteEnvironment A cfg q = withClaim A cfg q
     (\<lambda>claim. do {
        r \<leftarrow> DeleteClaim A claim;
        case r of Inl e \<Rightarrow> give (internalError e) | Inr _ \<Rightarrow> give (Responded 204 NoBody) })
     (give (nilDelete A))"

section \<open>The lists (environments.go)\<close>

definition templateTTL :: "DployTemplate \<Rightarrow> Config \<Rightarrow> int \<times> int \<times> int \<times> bool" where
  "templateTTL tmpl cfg =
     (let (ttl, step, maxExt) = (case tTTL (tSpec tmpl) of
            None \<Rightarrow> (DefaultTTL cfg, ExtendTTLDefault cfg, 0)
          | Some s \<Rightarrow> (if ttlSeconds s \<noteq> 0 then ttlSeconds s else DefaultTTL cfg,
              if ttlExtendSeconds s \<noteq> 0 then ttlExtendSeconds s else ExtendTTLDefault cfg,
              ttlMaxExtends s)) in
      (ttl, step, maxExt, ttl = -1))"

definition availableEntry :: "Config \<Rightarrow> DployTemplate \<Rightarrow> AvailableEnvironmentResponse" where
  "availableEntry cfg t = (case templateTTL t cfg of (ttl, step, maxExt, unlimited) \<Rightarrow>
     \<lparr>avName = Name (tMeta t), avDescription = tDescription (tSpec t), avIcon = tIcon (tSpec t),
      avCategory = tCategory (tSpec t), avTTL = ttl, avExtendTTL = step, avMaxExtends = maxExt,
      avIsUnlimited = unlimited\<rparr>)"

definition ListAvailable :: "api \<Rightarrow> Config \<Rightarrow> outcome io" where
  "ListAvailable A cfg = do {
     r \<leftarrow> ListVisibleTemplates A (ConfigNamespace cfg);
     case r of
       Inl e \<Rightarrow> give (internalError e)
     | Inr tmpls \<Rightarrow> give (Responded 200 (AvailableBody (map (availableEntry cfg) tmpls))) }"

text \<open>The index by name; a later template of the same name replaces an earlier one.\<close>

definition indexTemplates :: "DployTemplate list \<Rightarrow> (string \<rightharpoonup> DployTemplate)" where
  "indexTemplates all = foldl (\<lambda>m t. m(Name (tMeta t) \<mapsto> t)) Map.empty all"

definition ownerClaimsOf :: "DployTemplate list \<Rightarrow> string list" where
  "ownerClaimsOf all = filter (\<lambda>c. c \<noteq> []) (map (\<lambda>t. tOwnerClaim (tSpec t)) all)"

definition userEntry ::
  "api \<Rightarrow> Config \<Rightarrow> (string \<rightharpoonup> DployTemplate) \<Rightarrow> string \<Rightarrow> DployInstanceClaim \<Rightarrow> UserEnvironmentResponse" where
  "userEntry A cfg tmplByName selfOwner claim =
     (let (icon, description, baseTTL, extendTTL, maxExtends) =
            (case tmplByName (cTemplateRef (cSpec claim)) of
               None \<Rightarrow> (''default'', [], DefaultTTL cfg, ExtendTTLDefault cfg, 0)
             | Some t \<Rightarrow> (case templateTTL t cfg of (b, x, m, _) \<Rightarrow>
                 (tIcon (tSpec t), tDescription (tSpec t), b, x, m))) in
      \<lparr>ueName = cTemplateRef (cSpec claim), ueDescription = description, ueUUID = cUUID (cStatus claim),
       ueStatus = claimStatus claim, ueURL = cConnectionURL (cStatus claim),
       ueExpiresAt = claimExpiresAt claim, ueIcon = icon,
       ueExtendCount = ExtendCount claim baseTTL extendTTL, ueMaxExtends = maxExtends,
       ueExtendTTL = extendTTL, ueIsUnlimited = (cGrantedTTL (cStatus claim) = -1),
       ueOwner = cOwner (cSpec claim),
       ueShared = (cOwner (cSpec claim) \<noteq> [] \<and> cOwner (cSpec claim) \<noteq> selfOwner),
       ueMessage = claimMessage A claim, ueConnectionType = cConnectionType (cStatus claim),
       ueConnectionMessage = cConnectionMessage (cStatus claim)\<rparr>)"

definition ListUserEnvironments :: "api \<Rightarrow> Config \<Rightarrow> request \<Rightarrow> outcome io" where
  "ListUserEnvironments A cfg q =
     (case qUser q of
        None \<Rightarrow> give unauthorized
      | Some username \<Rightarrow> do {
          t \<leftarrow> ListTemplates A (ConfigNamespace cfg);
          let all = (case t of Inl e \<Rightarrow> [] | Inr ts \<Rightarrow> ts);
          r \<leftarrow> ListOwnedClaims A (ConfigNamespace cfg) (Identities (claimsMap q) (ownerClaimsOf all) username);
          case r of
            Inl e \<Rightarrow> give (internalError e)
          | Inr claims \<Rightarrow> give (Responded 200 (UserListBody
              \<lparr>ulEnvironments = map (userEntry A cfg (indexTemplates all)
                  (fst (ResolveOwner (claimsMap q) [] username))) claims,
               ulCount = length claims, ulLimit = MaxEnvironmentsPerUser cfg\<rparr>)) })"

section \<open>The manager views (admin.go)\<close>

definition byTemplateThenName :: "DployInstance \<Rightarrow> DployInstance \<Rightarrow> bool" where
  "byTemplateThenName a b =
     (if iTemplateRef (iSpec a) \<noteq> iTemplateRef (iSpec b)
      then iTemplateRef (iSpec a) < iTemplateRef (iSpec b) else Name (iMeta a) < Name (iMeta b))"

definition phaseText :: "InstancePhase \<Rightarrow> string" where
  "phaseText ph = (case ph of
      PhaseUnset \<Rightarrow> [] | PhasePending \<Rightarrow> ''Pending'' | PhaseProvisioning \<Rightarrow> ''Provisioning''
    | PhaseReady \<Rightarrow> ''Ready'' | PhaseAvailable \<Rightarrow> ''Available'' | PhaseClaimed \<Rightarrow> ''Claimed''
    | PhaseExpiring \<Rightarrow> ''Expiring'' | PhaseFailed \<Rightarrow> ''Failed'')"

definition instanceExpiresAt :: "DployInstance \<Rightarrow> string" where
  "instanceExpiresAt inst =
     (case iExpiresAt (iStatus inst) of
        Some t \<Rightarrow> formatRFC3339 t
      | None \<Rightarrow> (case iSpecExpiresAt (iSpec inst) of Some t \<Rightarrow> formatRFC3339 t | None \<Rightarrow> []))"

definition instanceRow :: "DployInstance \<Rightarrow> AdminInstanceRow" where
  "instanceRow inst = \<lparr>aiName = Name (iMeta inst), aiTemplate = iTemplateRef (iSpec inst),
     aiOwner = iOwner (iSpec inst),
     aiPhase = (let p = phaseText (iPhase (iStatus inst)) in if p = [] then ''Pending'' else p),
     aiURL = iURL (iStatus inst), aiExpiresAt = instanceExpiresAt inst,
     aiCreatedAt = formatRFC3339 (CreationTimestamp (iMeta inst)),
     aiNamespace = iWorkloadNamespace (iStatus inst), aiClaim = get (Labels (iMeta inst)) LabelClaim,
     aiUUID = iUUID (iStatus inst), aiIsUnlimited = (iTTLSeconds (iSpec inst) = -1)\<rparr>"

definition AdminListInstances :: "api \<Rightarrow> Config \<Rightarrow> outcome io" where
  "AdminListInstances A cfg = do {
     r \<leftarrow> ListAllInstances A (ConfigNamespace cfg);
     case r of
       Inl e \<Rightarrow> give (internalError e)
     | Inr insts \<Rightarrow> give (Responded 200 (AdminInstancesBody
         (map instanceRow (sortSlice byTemplateThenName insts)) (length insts))) }"

definition methodText :: "TemplateMethod \<Rightarrow> string" where
  "methodText m = (case m of MethodUnset \<Rightarrow> [] | MethodOnDemand \<Rightarrow> ''on-demand'' | MethodPool \<Rightarrow> ''pool'')"

definition chartTypeText :: "ChartSourceType \<Rightarrow> string" where
  "chartTypeText c = (case c of ChartSourceUnset \<Rightarrow> [] | ChartSourceGit \<Rightarrow> ''git'' | ChartSourceHelm \<Rightarrow> ''helm'')"

definition templateRow :: "DployTemplate \<Rightarrow> AdminTemplateRow" where
  "templateRow t =
     (let c = tChart (tSpec t); m = methodText (tMethod (tSpec t)) in
      \<lparr>atName = Name (tMeta t), atDisplayName = tDisplayName (tSpec t),
       atMethod = (if m = [] then ''on-demand'' else m), atEnabled = tEnabled (tSpec t),
       atVisible = IsVisible t,
       atPoolSize = (case tPool (tSpec t) of None \<Rightarrow> 0 | Some p \<Rightarrow> poolSize p),
       atAvailable = tPoolAvailable (tStatus t), atClaimed = tPoolClaimed (tStatus t),
       atChartType = chartTypeText (csType c), atChartRepo = csRepoURL c,
       atChartRef = (if csType c = ChartSourceGit \<or> csChart c = [] then csPath c else csChart c),
       atRevision = csTargetRevision c,
       atCreatedAt = formatRFC3339 (CreationTimestamp (tMeta t))\<rparr>)"

definition AdminListTemplates :: "api \<Rightarrow> Config \<Rightarrow> outcome io" where
  "AdminListTemplates A cfg = do {
     r \<leftarrow> ListTemplates A (ConfigNamespace cfg);
     case r of
       Inl e \<Rightarrow> give (internalError e)
     | Inr ts \<Rightarrow> give (Responded 200 (AdminTemplatesBody
         (map templateRow (sortSlice (\<lambda>a b. Name (tMeta a) < Name (tMeta b)) ts)) (length ts))) }"

section \<open>The requester and health (me.go, health.go)\<close>

definition MeGet :: "Config \<Rightarrow> request \<Rightarrow> outcome" where
  "MeGet cfg q = Responded 200 (MeBody \<lparr>meUsername = usernameOf q,
     meOwner = fst (ResolveOwner (claimsMap q) [] (usernameOf q)),
     meAdmin = IsAdmin (qClaims q) (AdminClaim cfg) (AdminValue cfg)\<rparr>)"

definition Health :: outcome where "Health = Responded 200 (HealthBody ''ok'')"

definition Ready :: "api \<Rightarrow> Config \<Rightarrow> outcome io" where
  "Ready A cfg = do {
     r \<leftarrow> ClientReady A (ConfigNamespace cfg);
     give (case r of Inl e \<Rightarrow> jsonError 503 ''Service not ready''
       | Inr _ \<Rightarrow> Responded 200 (HealthBody ''ready'')) }"

section \<open>Routes (cmd/api/main.go)\<close>

datatype protectedRoute =
    GetEnvironments | GetRun | GetRunStatus | PostExtend | DeleteRun | GetMe
  | GetAdminInstances | GetAdminTemplates

datatype route =
    GetHealth | GetReady | GetUIConfig | GetAvailable | GetPage | Protected protectedRoute

text \<open>What arrives: the authorization header, the environment of the path and the query.\<close>

record incoming =
  inAuthorization :: string
  inEnv :: string
  inQuery :: "string \<Rightarrow> string"
  inQueryBool :: "string \<Rightarrow> bool \<Rightarrow> bool"

definition AdminMiddleware :: "Config \<Rightarrow> request \<Rightarrow> outcome io \<Rightarrow> outcome io" where
  "AdminMiddleware cfg q next_handler =
     (if \<not> IsAdmin (qClaims q) (AdminClaim cfg) (AdminValue cfg)
      then give (jsonError 403 ''admin required'') else next_handler)"

definition managerGate :: "Config \<Rightarrow> outcome io \<Rightarrow> outcome io" where
  "managerGate cfg next_handler =
     (if \<not> ManagerEnabled cfg then give (jsonError 404 ''manager disabled'') else next_handler)"

definition serveProtected :: "api \<Rightarrow> Config \<Rightarrow> request \<Rightarrow> protectedRoute \<Rightarrow> outcome io" where
  "serveProtected A cfg q r =
     (case r of
        GetEnvironments \<Rightarrow>
          if \<not> InstancesListEnabled cfg then give (jsonError 404 ''instances list disabled'')
          else ListUserEnvironments A cfg q
      | GetRun \<Rightarrow> CreateEnvironment A cfg q
      | GetRunStatus \<Rightarrow> GetStatus A cfg q
      | PostExtend \<Rightarrow> ExtendTTL A cfg q
      | DeleteRun \<Rightarrow> DeleteEnvironment A cfg q
      | GetMe \<Rightarrow> give (MeGet cfg q)
      | GetAdminInstances \<Rightarrow> managerGate cfg (AdminMiddleware cfg q (AdminListInstances A cfg))
      | GetAdminTemplates \<Rightarrow> managerGate cfg (AdminMiddleware cfg q (AdminListTemplates A cfg)))"

definition uiConfig :: "Config \<Rightarrow> UIConfigResponse" where
  "uiConfig cfg = \<lparr>uiCatalogEnabled = CatalogEnabled cfg,
     uiInstancesEnabled = InstancesListEnabled cfg, uiManagerEnabled = ManagerEnabled cfg\<rparr>"

text \<open>The error handler behind the recover middleware.\<close>

definition recovered :: "outcome \<Rightarrow> outcome" where
  "recovered out = (case out of
      Panicked \<Rightarrow> jsonError 500 ''runtime error: invalid memory address or nil pointer dereference''
    | _ \<Rightarrow> out)"

definition dispatch :: "api \<Rightarrow> verifier \<Rightarrow> Config \<Rightarrow> incoming \<Rightarrow> route \<Rightarrow> outcome io" where
  "dispatch A verify cfg i r =
     (case r of
        GetHealth \<Rightarrow> give Health
      | GetReady \<Rightarrow> Ready A cfg
      | GetUIConfig \<Rightarrow> give (Responded 200 (UIConfigBody (uiConfig cfg)))
      | GetAvailable \<Rightarrow>
          if \<not> CatalogEnabled cfg then give (jsonError 404 ''catalog disabled'')
          else ListAvailable A cfg
      | GetPage \<Rightarrow> give (Responded 200 IndexPage)
      | Protected p \<Rightarrow> (case Middleware verify (JWTUsernameClaim cfg) (inAuthorization i) of
          Inl msg \<Rightarrow> give (jsonError 401 msg)
        | Inr (username, claims) \<Rightarrow> serveProtected A cfg
            \<lparr>qUser = Some username, qClaims = Some claims, qEnv = inEnv i, qQuery = inQuery i,
             qQueryBool = inQueryBool i\<rparr> p))"

definition serve :: "api \<Rightarrow> verifier \<Rightarrow> Config \<Rightarrow> incoming \<Rightarrow> route \<Rightarrow> outcome io" where
  "serve A verify cfg i r = do { out \<leftarrow> dispatch A verify cfg i r; give (recovered out) }"

end
