(* ===== verification/ApiProps.thy ===== *)
theory ApiProps
imports Handlers Samples
begin

text \<open>
  The properties of the API server. \<open>requestGuard\<close> says which calls a request may cause, in terms
  of what the same request read before; every handler keeps it for every reply of the API server.
  Beside it: owner keys and parameters derived from a token, the one claim per owner and template,
  and extensions.
\<close>

section \<open>What a request may cause\<close>

definition wrote :: "log \<Rightarrow> bool" where "wrote h \<longleftrightarrow> (\<exists>e\<in>set h. \<not> isRead e)"

definition onlyDeleted :: "log \<Rightarrow> bool" where
  "onlyDeleted h \<longleftrightarrow> (\<forall>e\<in>set h. isRead e \<or> (\<exists>k u r. e = EDeleteClaim k (Some u) r))"

definition envKey :: "Config \<Rightarrow> request \<Rightarrow> NamespacedName" where
  "envKey cfg q = \<lparr>nnNamespace = ConfigNamespace cfg, nnName = qEnv q\<rparr>"

definition ownerClaimIn :: "error + DployTemplate \<Rightarrow> string" where
  "ownerClaimIn t = (case t of Inl e \<Rightarrow> [] | Inr tmpl \<Rightarrow> tOwnerClaim (tSpec tmpl))"

text \<open>The owner key the token gives for the template the request read.\<close>

definition ownsAs :: "Config \<Rightarrow> request \<Rightarrow> log \<Rightarrow> string \<Rightarrow> bool" where
  "ownsAs cfg q h owner \<longleftrightarrow> (\<exists>t user. EGetTemplate (envKey cfg q) t \<in> set h \<and> qUser q = Some user
     \<and> ResolveOwner (claimsMap q) (ownerClaimIn t) user = (owner, True))"

definition claimRead :: "Config \<Rightarrow> log \<Rightarrow> string \<Rightarrow> string \<Rightarrow> DployInstanceClaim \<Rightarrow> bool" where
  "claimRead cfg h owner env c \<longleftrightarrow> EGetClaim (claimKey (ConfigNamespace cfg) owner env) (Inr c) \<in> set h"

text \<open>The owner has no live claim under the name: none, one being deleted, or a tombstone.\<close>

definition noLiveClaim :: "Config \<Rightarrow> log \<Rightarrow> string \<Rightarrow> string \<Rightarrow> bool" where
  "noLiveClaim cfg h owner env \<longleftrightarrow> (\<exists>r. EGetClaim (claimKey (ConfigNamespace cfg) owner env) r \<in> set h
     \<and> (case r of Inl e \<Rightarrow> IsNotFound e
        | Inr c \<Rightarrow> \<not> isZeroPtr (DeletionTimestamp (cMeta c)) \<or> cPhase (cStatus c) = ClaimExpired))"

definition mayCreateClaim :: "Config \<Rightarrow> request \<Rightarrow> log \<Rightarrow> DployInstanceClaim \<Rightarrow> bool" where
  "mayCreateClaim cfg q h c \<longleftrightarrow> onlyDeleted h \<and> (\<exists>owner params tmpl.
     EGetTemplate (envKey cfg q) (Inr tmpl) \<in> set h \<and> tEnabled (tSpec tmpl)
     \<and> ownsAs cfg q h owner \<and> buildParams cfg q tmpl = Inr params
     \<and> noLiveClaim cfg h owner (Name (tMeta tmpl))
     \<and> c = newClaim (ConfigNamespace cfg) owner params tmpl (qQueryBool q ''wait'' True))"

definition mayPatchClaim :: "Config \<Rightarrow> request \<Rightarrow> log \<Rightarrow> DployInstanceClaim \<Rightarrow> DployInstanceClaim \<Rightarrow> bool" where
  "mayPatchClaim cfg q h c c' \<longleftrightarrow> \<not> wrote h \<and> (\<exists>owner. ownsAs cfg q h owner \<and> claimRead cfg h owner (qEnv q) c)
     \<and> (\<exists>t wanted. EGetTemplate (envKey cfg q) t \<in> set h \<and> extendTo c (extendStep cfg t) = Inr wanted
          \<and> c' = cSpec_update (\<lambda>s. s\<lparr>cTTLSeconds := wanted\<rparr>) c)"

definition mayDeleteClaim :: "Config \<Rightarrow> request \<Rightarrow> log \<Rightarrow> NamespacedName \<Rightarrow> string option \<Rightarrow> bool" where
  "mayDeleteClaim cfg q h k p \<longleftrightarrow> \<not> wrote h \<and> (\<exists>owner env c. ownsAs cfg q h owner
     \<and> claimRead cfg h owner env c \<and> k = objectKey (cMeta c)
     \<and> (p = None \<and> env = qEnv q \<or> p = Some (UID (cMeta c)) \<and> cPhase (cStatus c) = ClaimExpired))"

definition requestGuard :: "Config \<Rightarrow> request \<Rightarrow> log \<Rightarrow> event \<Rightarrow> bool" where
  "requestGuard cfg q h e = (case e of
      EListInstances _ _ _ _ \<Rightarrow> ManagerEnabled cfg \<and> IsAdmin (qClaims q) (AdminClaim cfg) (AdminValue cfg)
    | ECreateClaim c _ \<Rightarrow> mayCreateClaim cfg q h c
    | EPatchClaim c c' _ \<Rightarrow> mayPatchClaim cfg q h c c'
    | EDeleteClaim k p _ \<Rightarrow> mayDeleteClaim cfg q h k p
    | _ \<Rightarrow> isRead e)"

lemma requestGuard_reads [simp]:
  "requestGuard cfg q h (EGetTemplate k r1)" "requestGuard cfg q h (EGetClaim k r2)"
  "requestGuard cfg q h (EListTemplates ns r3)" "requestGuard cfg q h (EListClaimsIn ns ky vs r4)"
  by (simp_all add: requestGuard_def)

lemma wrote_simps [simp]:
  "\<not> wrote []" "wrote (h @ h') \<longleftrightarrow> wrote h \<or> wrote h'" "wrote (e # h) \<longleftrightarrow> \<not> isRead e \<or> wrote h"
  by (auto simp: wrote_def)

lemma onlyDeleted_quiet: "\<not> wrote h \<Longrightarrow> onlyDeleted h"
  by (auto simp: wrote_def onlyDeleted_def)

lemma onlyDeleted_simps [simp]:
  "onlyDeleted (h @ [EDeleteClaim k (Some u) r]) \<longleftrightarrow> onlyDeleted h"
  by (auto simp: onlyDeleted_def)

lemma ownsAs_grow [grow_intros]: "ownsAs cfg q h owner \<Longrightarrow> ownsAs cfg q (h @ es) owner"
  unfolding ownsAs_def set_append by blast

lemma claimRead_grow [grow_intros]: "claimRead cfg h owner env c \<Longrightarrow> claimRead cfg (h @ es) owner env c"
  by (simp add: claimRead_def)

lemma noLiveClaim_grow [grow_intros]: "noLiveClaim cfg h owner env \<Longrightarrow> noLiveClaim cfg (h @ es) owner env"
  unfolding noLiveClaim_def set_append by blast

section \<open>The one claim of an owner\<close>

definition ownerClaimIs :: "Config \<Rightarrow> string \<Rightarrow> string \<Rightarrow> log \<Rightarrow> error + DployInstanceClaim option \<Rightarrow> log \<Rightarrow> bool" where
  "ownerClaimIs cfg owner env h r h' \<longleftrightarrow> (wrote h' \<longrightarrow> wrote h) \<and> (case r of Inl e \<Rightarrow> True
     | Inr None \<Rightarrow> noLiveClaim cfg h' owner env | Inr (Some c) \<Rightarrow> claimRead cfg h' owner env c)"

lemma GetOwnerClaim_spec:
  "wpe (requestGuard cfg q) (GetOwnerClaim A (ConfigNamespace cfg) owner env) (ownerClaimIs cfg owner env h) h"
proof -
  have none: "noLiveClaim cfg (h @ [EGetClaim (claimKey (ConfigNamespace cfg) owner env) (Inl e)]) owner env"
    if "IsNotFound e" for e
    unfolding noLiveClaim_def using that by (intro exI [of _ "Inl e"]) simp
  have gone: "noLiveClaim cfg (h @ [EGetClaim (claimKey (ConfigNamespace cfg) owner env) (Inr c)]) owner env"
    if "\<not> isZeroPtr (DeletionTimestamp (cMeta c))" for c
    unfolding noLiveClaim_def using that by (intro exI [of _ "Inr c"]) simp
  show ?thesis
    unfolding GetOwnerClaim_def
    by (auto simp: ownerClaimIs_def claimRead_def none gone intro!: wpe_bind wpe_calls wpe_return split: sum.split)
qed

lemma createFresh_spec:
  assumes "mayCreateClaim cfg q h (newClaim (ConfigNamespace cfg) owner params tmpl wait)"
  shows "wpe (requestGuard cfg q) (createFresh A (ConfigNamespace cfg) owner params tmpl wait) (\<lambda>_ _. True) h"
proof -
  have g: "requestGuard cfg q h (ECreateClaim (newClaim (ConfigNamespace cfg) owner params tmpl wait) r)" for r
    using assms by (simp add: requestGuard_def)
  show ?thesis
    unfolding createFresh_def
    by (auto simp: g intro!: wpe_bind wpe_calls(13) wpe_return wpe_mono [OF GetOwnerClaim_spec] split: sum.split)
qed

lemma EnsureClaim_spec:
  assumes "\<not> wrote h" and "EGetTemplate (envKey cfg q) (Inr tmpl) \<in> set h" and "tEnabled (tSpec tmpl)"
    and "ownsAs cfg q h owner" and "buildParams cfg q tmpl = Inr params"
  shows "wpe (requestGuard cfg q) (EnsureClaim A (ConfigNamespace cfg) owner params tmpl (qQueryBool q ''wait'' True))
    (\<lambda>_ _. True) h"
proof -
  let ?env = "Name (tMeta tmpl)"
  let ?fresh = "createFresh A (ConfigNamespace cfg) owner params tmpl (qQueryBool q ''wait'' True)"
  have create: "wpe (requestGuard cfg q) ?fresh (\<lambda>_ _. True) (h @ es)"
    if "onlyDeleted (h @ es)" "noLiveClaim cfg (h @ es) owner ?env" for es
  proof (rule createFresh_spec)
    show "mayCreateClaim cfg q (h @ es) (newClaim (ConfigNamespace cfg) owner params tmpl (qQueryBool q ''wait'' True))"
      unfolding mayCreateClaim_def using that assms(2,3,5) ownsAs_grow [OF assms(4), of es] by auto
  qed
  have replace: "wpe (requestGuard cfg q) (do {
       d \<leftarrow> deleteClaim A (objectKey (cMeta c)) (Some (UID (cMeta c)));
       case d of Inl e \<Rightarrow> if IsNotFound e then ?fresh else throw e | Inr _ \<Rightarrow> ?fresh }) (\<lambda>_ _. True) (h @ es)"
    if "\<not> wrote (h @ es)" "claimRead cfg (h @ es) owner ?env c" "cPhase (cStatus c) = ClaimExpired" for c es
  proof -
    have g: "requestGuard cfg q (h @ es) (EDeleteClaim (objectKey (cMeta c)) (Some (UID (cMeta c))) d)" for d
    proof -
      have "mayDeleteClaim cfg q (h @ es) (objectKey (cMeta c)) (Some (UID (cMeta c)))"
        unfolding mayDeleteClaim_def using that ownsAs_grow [OF assms(4), of es] by blast
      then show ?thesis by (simp add: requestGuard_def)
    qed
    have "noLiveClaim cfg (h @ es) owner ?env"
      unfolding noLiveClaim_def using that(2,3) by (intro exI [of _ "Inr c"]) (simp add: claimRead_def)
    then have live: "noLiveClaim cfg (h @ es @ [e]) owner ?env" for e
      using noLiveClaim_grow [of cfg "h @ es" owner ?env "[e]"] by simp
    have "onlyDeleted (h @ es)" using that(1) by (rule onlyDeleted_quiet)
    then have del: "onlyDeleted (h @ es @ [EDeleteClaim k (Some u) r])" for k u r
      using onlyDeleted_simps [of "h @ es"] by simp
    show ?thesis
      using g by (auto intro!: wpe_bind wpe_calls(15) wpe_return create live del split: sum.split)
  qed
  show ?thesis
    unfolding EnsureClaim_def
    by (rule wpe_tryE, rule wpe_mono [OF GetOwnerClaim_spec])
      (auto simp: ownerClaimIs_def assms(1) intro!: wpe_return create replace onlyDeleted_quiet
        split: sum.splits option.splits)
qed

section \<open>The handlers\<close>

text \<open>Every handler starts with an empty log and has no postcondition beyond its guard.\<close>

definition guarded :: "Config \<Rightarrow> request \<Rightarrow> 'a io \<Rightarrow> log \<Rightarrow> bool" where
  "guarded cfg q m h \<longleftrightarrow> wpe (requestGuard cfg q) m (\<lambda>_ _. True) h"

lemma guarded_give [simp]: "guarded cfg q (give x) h"
  by (simp add: guarded_def wpe_return)

lemma envKey_read: "GetTemplate A (ConfigNamespace cfg) (qEnv q) = getTemplate A (envKey cfg q)"
  by (simp add: GetTemplate_def envKey_def)

lemma guarded_CreateEnvironment: "guarded cfg q (CreateEnvironment A cfg q) []"
proof (cases "qUser q")
  case None
  then show ?thesis by (simp add: CreateEnvironment_def)
next
  case (Some user)
  have rec: "wpe (requestGuard cfg q) (recordRequest A cfg q owner params tmpl) (\<lambda>_ _. True)
      [EGetTemplate (envKey cfg q) (Inr tmpl)]"
    if "tEnabled (tSpec tmpl)" "ResolveOwner (claimsMap q) (tOwnerClaim (tSpec tmpl)) user = (owner, True)"
      "buildParams cfg q tmpl = Inr params" for tmpl owner params
  proof -
    let ?h = "[EGetTemplate (envKey cfg q) (Inr tmpl)]"
    have "ownsAs cfg q ?h owner"
      unfolding ownsAs_def using Some that(2) by (auto simp: ownerClaimIn_def)
    then have "wpe (requestGuard cfg q) (EnsureClaim A (ConfigNamespace cfg) owner params tmpl (qQueryBool q ''wait'' True))
        (\<lambda>_ _. True) ?h"
      using that by (intro EnsureClaim_spec) auto
    then show ?thesis
      unfolding recordRequest_def
      by (intro wpe_bind) (auto elim!: wpe_mono intro: wpe_return split: sum.split option.split)
  qed
  show ?thesis
    unfolding CreateEnvironment_def guarded_def envKey_read Some
    by (auto intro!: wpe_bind wpe_calls(4) wpe_return rec split: sum.split prod.split)
qed

lemma guarded_withClaim:
  assumes f: "\<And>c h owner. \<not> wrote h \<Longrightarrow> ownsAs cfg q h owner \<Longrightarrow> claimRead cfg h owner (qEnv q) c \<Longrightarrow>
      guarded cfg q (f c) h"
    and n: "\<And>h. \<not> wrote h \<Longrightarrow> guarded cfg q nilCase h"
  shows "guarded cfg q (withClaim A cfg q f nilCase) []"
proof -
  define Q where "Q = (\<lambda>(p :: DployInstanceClaim option \<times> error option) h. \<not> wrote h \<and> snd p = None
     \<and> (\<forall>c. fst p = Some c \<longrightarrow> (\<exists>owner. ownsAs cfg q h owner \<and> claimRead cfg h owner (qEnv q) c)))"
  have req: "wpe (requestGuard cfg q) (requireClaim A cfg q) Q []"
  proof (cases "qUser q")
    case None
    then show ?thesis by (simp add: requireClaim_def Q_def sent_def wpe_return)
  next
    case (Some user)
    have look: "wpe (requestGuard cfg q) (do {
            r \<leftarrow> GetOwnerClaim A (ConfigNamespace cfg) owner (qEnv q);
            case r of
              Inl e \<Rightarrow> give (None, sent (failed e))
            | Inr None \<Rightarrow> give (None, sent missed)
            | Inr (Some claim) \<Rightarrow> give (Some claim, None) }) Q [EGetTemplate (envKey cfg q) t]"
      if "ResolveOwner (claimsMap q) (ownerClaimIn t) user = (owner, True)" for owner t missed and failed :: "error \<Rightarrow> outcome"
    proof -
      have own: "ownsAs cfg q ([EGetTemplate (envKey cfg q) t] @ es) owner" for es
        unfolding ownsAs_def using Some that by auto
      have found: "Q (Some c, None) ([EGetTemplate (envKey cfg q) t] @ es)"
        if "\<not> wrote es" "claimRead cfg ([EGetTemplate (envKey cfg q) t] @ es) owner (qEnv q) c" for c es
        using that own [of es] by (auto simp: Q_def)
      have missing: "Q (None, sent out) ([EGetTemplate (envKey cfg q) t] @ es)" if "\<not> wrote es" for out es
        using that by (simp add: Q_def sent_def)
      have answered: "wpe (requestGuard cfg q) (case r of
              Inl e \<Rightarrow> give (None, sent (failed e))
            | Inr None \<Rightarrow> give (None, sent missed)
            | Inr (Some claim) \<Rightarrow> give (Some claim, None)) Q ([EGetTemplate (envKey cfg q) t] @ es)"
        if "ownerClaimIs cfg owner (qEnv q) [EGetTemplate (envKey cfg q) t] r ([EGetTemplate (envKey cfg q) t] @ es)"
        for r es
        using that found [of es] missing [of es]
        by (auto simp: ownerClaimIs_def intro!: wpe_return split: sum.splits option.splits)
      show ?thesis
        by (rule wpe_bind, rule wpe_mono [OF GetOwnerClaim_spec], rule answered)
    qed
    have nobody: "Q (None, sent out) [EGetTemplate (envKey cfg q) t]" for out t
      by (simp add: Q_def sent_def)
    show ?thesis
      unfolding requireClaim_def resolveOwner_def envKey_read Some ownerClaimIn_def [symmetric]
      by (auto intro!: wpe_bind wpe_calls(4) wpe_return look nobody split: prod.split)
  qed
  have rest: "wpe (requestGuard cfg q) (case p of (claim, err) \<Rightarrow> (case err of
       Some e \<Rightarrow> give (internalError e)
     | None \<Rightarrow> (case claim of Some c \<Rightarrow> f c | None \<Rightarrow> nilCase))) (\<lambda>_ _. True) h" if "Q p h" for p h
    using that f n unfolding Q_def guarded_def by (auto split: prod.split option.split)
  show ?thesis
    unfolding withClaim_def guarded_def
    by (rule wpe_bind, rule wpe_mono [OF req]) (rule rest, simp)
qed

lemma guarded_GetStatus: "guarded cfg q (GetStatus A cfg q) []"
  unfolding GetStatus_def by (rule guarded_withClaim) simp_all

lemma guarded_DeleteEnvironment: "guarded cfg q (DeleteEnvironment A cfg q) []"
  unfolding DeleteEnvironment_def
proof (rule guarded_withClaim)
  fix c h owner
  assume *: "\<not> wrote h" "ownsAs cfg q h owner" "claimRead cfg h owner (qEnv q) c"
  then have "requestGuard cfg q h (EDeleteClaim (objectKey (cMeta c)) None r)" for r
    unfolding requestGuard_def mayDeleteClaim_def by auto
  then show "guarded cfg q (do {
        r \<leftarrow> DeleteClaim A c;
        case r of Inl e \<Rightarrow> give (internalError e) | Inr _ \<Rightarrow> give (Responded 204 NoBody) }) h"
    unfolding guarded_def DeleteClaim_def
    by (auto intro!: wpe_bind wpe_calls(15) wpe_return split: sum.split)
qed simp

lemma guarded_ExtendTTL: "guarded cfg q (ExtendTTL A cfg q) []"
  unfolding ExtendTTL_def
proof (rule guarded_withClaim)
  fix c h owner
  assume *: "\<not> wrote h" "ownsAs cfg q h owner" "claimRead cfg h owner (qEnv q) c"
  have g: "requestGuard cfg q (h @ [EGetTemplate (envKey cfg q) t])
      (EPatchClaim c (cSpec_update (\<lambda>s. s\<lparr>cTTLSeconds := wanted\<rparr>) c) r)"
    if "extendTo c (extendStep cfg t) = Inr wanted" for t wanted r
  proof -
    have "mayPatchClaim cfg q (h @ [EGetTemplate (envKey cfg q) t]) c (cSpec_update (\<lambda>s. s\<lparr>cTTLSeconds := wanted\<rparr>) c)"
      unfolding mayPatchClaim_def
      using * that ownsAs_grow [OF *(2)] claimRead_grow [OF *(3)] by auto
    then show ?thesis by (simp add: requestGuard_def)
  qed
  show "guarded cfg q (do {
        t \<leftarrow> GetTemplate A (ConfigNamespace cfg) (qEnv q);
        r \<leftarrow> ExtendClaim A c (extendStep cfg t);
        give (extendOutcome r) }) h"
    unfolding guarded_def envKey_read ExtendClaim_def
    by (auto intro!: wpe_bind wpe_calls(4) wpe_calls(14) wpe_return g split: sum.split option.split)
next
  fix h :: log
  show "guarded cfg q (do { _ \<leftarrow> GetTemplate A (ConfigNamespace cfg) (qEnv q); give Panicked }) h"
    unfolding guarded_def envKey_read by (auto intro!: wpe_bind wpe_calls(4) wpe_return)
qed

lemma guarded_lists:
  "guarded cfg q (ListUserEnvironments A cfg q) []" "guarded cfg q (ListAvailable A cfg) []"
  "guarded cfg q (Ready A cfg) []" "guarded cfg q (AdminListTemplates A cfg) []"
  unfolding guarded_def ListUserEnvironments_def ListTemplates_def ListOwnedClaims_def ListAvailable_def
    ListVisibleTemplates_def Ready_def ClientReady_def AdminListTemplates_def
  by (auto simp: Let_def intro!: wpe_bind wpe_tryE wpe_calls wpe_return split: sum.split option.split)

lemma guarded_AdminListInstances:
  assumes "ManagerEnabled cfg" and "IsAdmin (qClaims q) (AdminClaim cfg) (AdminValue cfg)"
  shows "guarded cfg q (AdminListInstances A cfg) []"
  using assms unfolding guarded_def AdminListInstances_def ListAllInstances_def
  by (auto simp: requestGuard_def intro!: wpe_bind wpe_calls(8) wpe_return split: sum.split)

lemma guarded_serveProtected: "guarded cfg q (serveProtected A cfg q r) []"
  by (cases r) (simp_all add: serveProtected_def managerGate_def AdminMiddleware_def guarded_lists
      guarded_CreateEnvironment guarded_GetStatus guarded_ExtendTTL guarded_DeleteEnvironment
      guarded_AdminListInstances)

section \<open>Whole requests\<close>

definition requestOf :: "incoming \<Rightarrow> string \<times> tokenClaims \<Rightarrow> request" where
  "requestOf i p = \<lparr>qUser = Some (fst p), qClaims = Some (snd p), qEnv = inEnv i, qQuery = inQuery i,
     qQueryBool = inQueryBool i\<rparr>"

text \<open>Reads only, unless the token is valid; then what the guard of its request allows.\<close>

definition servedCall :: "verifier \<Rightarrow> Config \<Rightarrow> incoming \<Rightarrow> route \<Rightarrow> log \<Rightarrow> event \<Rightarrow> bool" where
  "servedCall verify cfg i r h e \<longleftrightarrow>
     (case r of
        Protected p \<Rightarrow> (\<exists>u. Middleware verify (JWTUsernameClaim cfg) (inAuthorization i) = Inr u
          \<and> requestGuard cfg (requestOf i u) h e)
      | _ \<Rightarrow> (\<exists>ns reply. e = EListTemplates ns reply))"

lemma serve_guarded: "wpe (servedCall verify cfg i r) (serve A verify cfg i r) (\<lambda>_ _. True) []"
proof -
  have "wpe (servedCall verify cfg i r) (dispatch A verify cfg i r) (\<lambda>_ _. True) []"
  proof (cases r)
    case (Protected p)
    show ?thesis
    proof (cases "Middleware verify (JWTUsernameClaim cfg) (inAuthorization i)")
      case (Inl msg)
      then show ?thesis by (simp add: dispatch_def Protected wpe_return)
    next
      case (Inr u)
      have "guarded cfg (requestOf i u) (serveProtected A cfg (requestOf i u) p) []"
        by (rule guarded_serveProtected)
      then have "wpe (servedCall verify cfg i r) (serveProtected A cfg (requestOf i u) p) (\<lambda>_ _. True) []"
        unfolding guarded_def wpe_def
        by (auto elim!: all_steps_mono simp: servedCall_def Protected Inr)
      then show ?thesis by (cases u) (simp add: dispatch_def Protected Inr requestOf_def)
    qed
  next
    case GetAvailable
    then show ?thesis
      by (auto simp: dispatch_def servedCall_def ListAvailable_def ListVisibleTemplates_def ListTemplates_def
          intro!: wpe_bind wpe_tryE wpe_calls(10) wpe_return split: sum.split)
  next
    case GetReady
    then show ?thesis
      by (auto simp: dispatch_def servedCall_def Ready_def ClientReady_def
          intro!: wpe_bind wpe_tryE wpe_calls(10) wpe_return split: sum.split)
  qed (auto simp: dispatch_def intro: wpe_return)
  then show ?thesis
    unfolding serve_def by (auto intro!: wpe_bind wpe_return elim!: wpe_mono)
qed

interpretation api_run:
  guarded_run "serve A verify cfg i r" "servedCall verify cfg i r" "\<lambda>_ _. True" for A verify cfg i r
  by unfold_locales (rule serve_guarded)

text \<open>C5. The API server can do nothing but manage the claims filed under the requester's names.
  Whatever the API server of the cluster answers, a route without authentication reads at most the catalog; a
  protected one makes no call at all without a valid token, lists instances only for an
  administrator and only while the manager is on, and never writes an instance, a template or any
  other object. A claim is created only for an enabled template, under the owner key the token
  gives for it, with the parameters allowed by that template, after that owner was seen to hold no
  live claim for it. It is extended or deleted only if it was read under the name computed for the
  requester and the environment; whose claim it is the code does not check beyond that name, which
  two owners can share.\<close>

theorem api_touches_own_claims:
  "all_steps (servedCall verify cfg i r) [] (logged (serve A verify cfg i r) [])"
  by (rule api_run.steps)

end
