(* ===== verification/Binding.thy ===== *)
theory Binding
imports Cluster ClaimProps TemplateProps InstanceProps ApiProps
begin

text \<open>
  The controllers and the API server together. Every actor runs any number of runs, one call at a
  time and interleaved with all others, against one store of instances (theory \<open>Cluster\<close>). Each
  actor meets one contract, the locale \<open>actor\<close>: what it writes is based on a version there was,
  and what it destroys it may destroy. On top of it: no environment is ever bound to two claims, and
  none is destroyed but by the claim that holds it, by its own deadline, or while unclaimed.
\<close>

section \<open>A claim run reads its claim once\<close>

definition otherRead :: "event \<Rightarrow> bool" where
  "otherRead e \<longleftrightarrow> (\<forall>k r. e \<noteq> EGetClaim k r)"

lemma otherRead_simps [simp]:
  "otherRead (ENow t)" "otherRead (EGetTemplate k r2)" "otherRead (EGetInstance rd k r3)"
  "otherRead (EGetConfig k r4)" "otherRead (EListInstances rd ns sel r6)" "otherRead (EListClaims ns sel r7)"
  "otherRead (EUpdateClaim c r8)" "otherRead (EPatchClaimStatus c0 c1 r9)" "otherRead (ECreateInstance i r10)"
  "otherRead (EUpdateInstance i r10)" "otherRead (EDeleteInstance k p r11)"
  by (simp_all add: otherRead_def)

named_theorems once_rules

abbreviation once :: "'a io \<Rightarrow> bool" where "once m \<equiv> emits (\<lambda>h e. otherRead e) m"

lemma once_tryCandidates [once_rules]: "once (tryCandidates A c b xs s n)"
  by (induction n arbitrary: s) (auto simp: Let_def intro!: emits_rules split: sum.split)

lemma once_small [once_rules]:
  "once (boundInstance A R c)" "once (ownedInstances A R c)" "once (templateInstances A R ns t)"
  "once (patchStatus A orig c)" "once (setClaimCondition A c ty st re ms)" "once (syncInstance A c i ttl e)"
  "once (deleteIfThere A w i)" "once (createOnDemand A c tmpl b ttl e)"
  unfolding boundInstance_def lookupBound_def ownedInstances_def templateInstances_def patchStatus_def
    setClaimCondition_def syncInstance_def deleteIfThere_def createOnDemand_def Let_def
  by (auto intro!: emits_rules split: sum.split)

lemma once_quota [once_rules]:
  "once (overQuota A R c t eff)" "once (overMaxSize A R t)" "once (evictIfOverQuota A R c t eff i)"
  "once (evictIfOverMaxSize A R t i)" "once (acquirePooled A c t b)" "once (releaseHeld A R c)"
  "once (observe A orig c)" "once (project A c i)"
  unfolding overQuota_def overMaxSize_def evictIfOverQuota_def evictIfOverMaxSize_def acquirePooled_def
    releaseHeld_def observe_def project_def Let_def
  by (auto intro!: emits_rules once_rules split: sum.split option.split)

lemma once_status [once_rules]:
  "once (pending A orig c re ms)" "once (reject A R orig c re ms)" "once (expire A orig c held)"
  "once (bindClaim A R c t b ttl e)" "once (finish A orig c i ttl s)"
  unfolding pending_def reject_def expire_def bindClaim_def finish_def Let_def
  by (auto intro!: emits_rules once_rules split: sum.split option.split)

lemma once_bound [once_rules]:
  "once (reconcileBound A R orig c t eff ttl i)"
  unfolding reconcileBound_def settle_def Let_def
  by (auto intro!: emits_rules once_rules split: sum.split option.split prod.split)

lemma once_unbound [once_rules]:
  "once (reconcileUnbound A R orig c t eff ttl)"
  unfolding reconcileUnbound_def Let_def
  by (auto intro!: emits_rules once_rules split: sum.split option.split prod.split)

lemma once_read [once_rules]: "once (reconcileRead A R c)"
  unfolding reconcileRead_def reconcileLive_def Let_def
  by (auto intro!: emits_rules once_rules split: sum.split option.split prod.split ClaimPhase.split)

lemma Reconcile_reads_once:
  assumes "logged (Reconcile A R req) [] = pre @ EGetClaim k r # post"
  shows "pre = []"
proof -
  have "emits (\<lambda>h e. h = [] \<or> otherRead e) (reconcileRead A R c)" for c
    by (rule emits_mono [OF once_read]) simp
  then have "wpe (\<lambda>h e. h = [] \<or> otherRead e) (Reconcile A R req) (\<lambda>_ _. True) []"
    unfolding Reconcile_def
    by (auto intro!: wpe_bind wpe_calls(3) wpe_emits emits_return split: sum.split)
  from wpe_all_steps [OF this] have "pre = [] \<or> otherRead (EGetClaim k r)"
    unfolding assms using all_steps_split by fastforce
  then show ?thesis by (simp add: otherRead_def)
qed

lemma one_claim:
  assumes "logged (Reconcile A R req) [] = h @ post"
    and "EGetClaim k (Inr c) \<in> set h" and "EGetClaim k' (Inr c') \<in> set h"
  shows "c = c'"
proof -
  have "\<exists>rest. h = EGetClaim k (Inr c) # rest" if "EGetClaim k (Inr c) \<in> set h" for k c
  proof -
    from that obtain pre rest where h: "h = pre @ EGetClaim k (Inr c) # rest"
      by (auto simp: in_set_conv_decomp)
    then have "logged (Reconcile A R req) [] = pre @ EGetClaim k (Inr c) # (rest @ post)"
      using assms(1) by simp
    then have "pre = []" by (rule Reconcile_reads_once)
    with h show ?thesis by simp
  qed
  from this [OF assms(2)] this [OF assms(3)] show ?thesis by auto
qed

section \<open>The system\<close>

datatype actorRun =
    ClaimRun "reader option" NamespacedName
  | TemplateRun "reader option" NamespacedName
  | InstanceRun NamespacedName
  | ConfigRun NamespacedName
  | RequestRun verifier Config incoming route

definition runLog :: "api \<Rightarrow> actorRun \<Rightarrow> log" where
  "runLog A w = (case w of
      ClaimRun R req \<Rightarrow> logged (Reconcile A R req) []
    | TemplateRun R req \<Rightarrow> logged (reconcileTemplate A R req) []
    | InstanceRun req \<Rightarrow> logged (reconcileInstance A req) []
    | ConfigRun req \<Rightarrow> logged (reconcileConfig A req) []
    | RequestRun verify cfg i r \<Rightarrow> logged (serve A verify cfg i r) [])"

text \<open>The last field remembers who destroyed which version, with the log of the run up to then.\<close>

record system =
  store :: cluster
  running :: "nat \<Rightarrow> actorRun"
  logs :: "nat \<Rightarrow> log"
  destroyed :: "(actorRun \<times> log \<times> DployInstance) set"

definition removed :: "cluster \<Rightarrow> event \<Rightarrow> cluster \<Rightarrow> DployInstance set" where
  "removed c e c' = {cur. \<exists>k p r. e = EDeleteInstance k p r \<and> stored c k = Some cur \<and> meets p cur \<and> c' \<noteq> c}"

inductive step :: "system \<Rightarrow> system \<Rightarrow> bool" where
  act: "lawful A \<Longrightarrow> runLog A (running s j) = logs s j @ e # post \<Longrightarrow> effect (store s) e c'
    \<Longrightarrow> step s (s\<lparr>store := c', logs := (logs s)(j := logs s j @ [e]),
          destroyed := destroyed s \<union> (\<lambda>i. (running s j, logs s j, i)) ` removed (store s) e c'\<rparr>)"
| start: "step s (s\<lparr>running := (running s)(j := w), logs := (logs s)(j := [])\<rparr>)"
| collect: "step s (s\<lparr>store := (store s)\<lparr>stored := (stored (store s))(k := None)\<rparr>\<rparr>)"

definition initial :: "system \<Rightarrow> bool" where
  "initial s \<longleftrightarrow> logs s = (\<lambda>j. []) \<and> destroyed s = {}
     \<and> history (store s) = ran (stored (store s))
     \<and> (\<forall>k i. stored (store s) k = Some i \<longrightarrow>
          objectKey (iMeta i) = k \<and> UID (iMeta i) \<noteq> [] \<and> ResourceVersion (iMeta i) \<noteq> [])
     \<and> (\<forall>k i k' i'. stored (store s) k = Some i \<longrightarrow> stored (store s) k' = Some i'
          \<longrightarrow> UID (iMeta i) = UID (iMeta i') \<longrightarrow> k = k')"

inductive reachable :: "system \<Rightarrow> bool" where
  init: "initial s \<Longrightarrow> reachable s"
| next_step: "reachable s \<Longrightarrow> step s t \<Longrightarrow> reachable t"

text \<open>Who may have destroyed an instance.\<close>

definition mayDestroy :: "actorRun \<Rightarrow> log \<Rightarrow> DployInstance \<Rightarrow> bool" where
  "mayDestroy w h i = (case w of
      ClaimRun R req \<Rightarrow> \<exists>c. EGetClaim req (Inr c) \<in> set h \<and> claimUID i = UID (cMeta c)
    | TemplateRun R req \<Rightarrow> claimUID i = [] \<and> iOwner (iSpec i) = []
    | InstanceRun req \<Rightarrow> \<exists>i0. readFirst req h i0 \<and> overdue i0 h \<and> UID (iMeta i0) = UID (iMeta i)
    | _ \<Rightarrow> False)"

section \<open>What each run contributes\<close>

lemma claimUID_stamp [simp]: "claimUID (stampBoundAt i t) = claimUID i"
  by (simp add: claimUID_def)

lemma get_Some [simp]: "get (m(k \<mapsto> v)) k = v"
  by (simp add: get_def)

lemma lawfulD:
  assumes "lawful A"
  shows "setControllerRef A r m = Inr m' \<Longrightarrow> sameIdentity m m'"
    and "sameIdentity m (addFinalizer A m f)" and "sameIdentity m (removeFinalizer A m f)"
  using assms unfolding lawful_def by blast+

lemma basedOn_meta:
  assumes "sameIdentity (iMeta i) (iMeta x)"
  shows "basedOn i x"
  using assms by (simp add: basedOn_def sameIdentity_def claimUID_def anchorOf_def)

text \<open>Stamping leaves an anchor alone.\<close>

lemma anchorOf_stamp: "anchorOf i \<noteq> [] \<Longrightarrow> anchorOf (stampBoundAt i b) = anchorOf i"
  by (simp add: anchorOf_def stampBoundAt_def)

lemma basedOn_candidate:
  assumes "isClaimable j"
  shows "basedOn j (claimCandidate c b j)"
  using assms by (auto simp: basedOn_def claimCandidate_def isClaimable_def claimUID_def objectKey_def anchorOf_def
      stampBoundAt_def)

lemma claimUID_candidate: "claimUID (claimCandidate c b j) = UID (cMeta c)"
  by (simp add: claimCandidate_def claimUID_def)

lemma desiredBinding_identity:
  assumes "lawful A" and "desiredBinding A claim ttl e cur = Inr x"
  shows "claimUID x = UID (cMeta claim)" and "objectKey (iMeta x) = objectKey (iMeta cur)"
    and "UID (iMeta x) = UID (iMeta cur)" and "ResourceVersion (iMeta x) = ResourceVersion (iMeta cur)"
    and "anchorOf cur = [] \<or> anchorOf x = anchorOf cur"
proof -
  obtain m where m: "setControllerRef A (ownerRef ''DployInstanceClaim'' (cMeta claim))
      ((iMeta cur)\<lparr>OwnerReferences := []\<rparr>) = Inr m"
    using assms(2) by (auto simp: desiredBinding_def split: sum.splits)
  have "sameIdentity ((iMeta cur)\<lparr>OwnerReferences := []\<rparr>) m" by (rule lawfulD(1) [OF assms(1) m])
  then show "claimUID x = UID (cMeta claim)" "objectKey (iMeta x) = objectKey (iMeta cur)"
    "UID (iMeta x) = UID (iMeta cur)" "ResourceVersion (iMeta x) = ResourceVersion (iMeta cur)"
    "anchorOf cur = [] \<or> anchorOf x = anchorOf cur"
    using assms(2) m by (auto simp: desiredBinding_def Let_def claimUID_def sameIdentity_def objectKey_def
        anchorOf_def stampBoundAt_def split: option.splits if_splits)
qed

lemma createsFrom_claimUID:
  assumes "lawful A" and "createsFrom A R c h tmpl x"
  shows "claimUID x = UID (cMeta c)"
proof -
  obtain b ttl e m where m: "setControllerRef A (ownerRef ''DployInstanceClaim'' (cMeta c))
         (iMeta (onDemandInstance c tmpl b ttl e)) = Inr m"
    "x = (onDemandInstance c tmpl b ttl e)\<lparr>iMeta := m\<rparr>"
    using assms(2) by (auto simp: createsFrom_def)
  have "sameIdentity (iMeta (onDemandInstance c tmpl b ttl e)) m" by (rule lawfulD(1) [OF assms(1) m(1)])
  then show ?thesis using m(2) by (simp add: claimUID_def sameIdentity_def onDemandInstance_def)
qed

text \<open>Facts of one run of the claim controller, up to some point of its log.\<close>

definition claimRunOf :: "api \<Rightarrow> reader option \<Rightarrow> NamespacedName \<Rightarrow> DployInstance set \<Rightarrow> log \<Rightarrow> bool" where
  "claimRunOf A R req H h \<longleftrightarrow> lawful A \<and> (\<exists>post. logged (Reconcile A R req) [] = h @ post)
     \<and> (\<forall>e\<in>set h. seenIn H e)"

lemma claimRun_before: "claimRunOf A R req H (h @ es) \<Longrightarrow> claimRunOf A R req H h"
  by (auto simp: claimRunOf_def)

lemma claimRun_guard:
  assumes "logged (Reconcile A R req) [] = h @ e # post" and "\<not> isRead e" and "\<And>c r. e \<noteq> EUpdateClaim c r"
  obtains c where "EGetClaim req (Inr c) \<in> set h" and "claimGuard A R c h e"
  using claim_run.at [OF assms(1)] assms(2,3) unfolding runGuard_def by (metis (full_types))

lemma claimRun_writes:
  assumes run: "claimRunOf A R req H h" and c: "EGetClaim req (Inr c) \<in> set h"
    and x: "EUpdateInstance x (Inr i) \<in> set h \<or> ECreateInstance x (Inr i) \<in> set h"
  shows "claimUID i = UID (cMeta c) \<and> i \<in> H"
proof -
  obtain post where log: "logged (Reconcile A R req) [] = h @ post" using run by (auto simp: claimRunOf_def)
  obtain e where e: "e \<in> set h" "e = EUpdateInstance x (Inr i) \<or> e = ECreateInstance x (Inr i)" using x by auto
  obtain h1 h2 where h: "h = h1 @ e # h2" using e(1) by (auto simp: in_set_conv_decomp)
  have log': "logged (Reconcile A R req) [] = h1 @ e # (h2 @ post)" using log h by simp
  obtain c' where c': "EGetClaim req (Inr c') \<in> set h1" "claimGuard A R c' h1 e"
    by (rule claimRun_guard [OF log']) (use e(2) in auto)
  have "c' = c" using one_claim [OF log _ c] c'(1) h by auto
  moreover have "lawful A" using run by (simp add: claimRunOf_def)
  ultimately have "claimUID x = UID (cMeta c)"
    using e(2) c'(2) by (auto simp: claimGuard_simps bindsFrom_def claimUID_candidate syncsFrom_def sameObject_def
        desiredBinding_identity(1) createsFrom_claimUID)
  moreover have "seenIn H e" using run e(1) by (simp add: claimRunOf_def)
  ultimately show ?thesis using e(2) by (auto simp: seenIn_def)
qed

lemma claimRun_held:
  assumes run: "claimRunOf A R req H h" and c: "EGetClaim req (Inr c) \<in> set h" and k: "heldKey c h k"
  shows "\<exists>i\<in>H. objectKey (iMeta i) = k \<and> claimUID i = UID (cMeta c)"
proof -
  have listed: "i \<in> H \<and> claimUID i = UID (cMeta c)"
    if "EListInstances rd (Namespace (cMeta c)) (uidSelector c) (Inr items) \<in> set h" "i \<in> set items" for rd items i
  proof -
    have "seenIn H (EListInstances rd (Namespace (cMeta c)) (uidSelector c) (Inr items))"
      using run that(1) by (simp add: claimRunOf_def)
    then show ?thesis using that(2) by (auto simp: seenIn_def uidSelector_def claimUID_def)
  qed
  show ?thesis
    using k listed claimRun_writes [OF run c] unfolding heldKey_def by metis
qed

lemma claimRun_uid:
  "claimRunOf A R req H h \<Longrightarrow> EGetClaim req (Inr c) \<in> set h \<Longrightarrow> UID (cMeta c) \<noteq> []"
  unfolding claimRunOf_def seenIn_def by fastforce

text \<open>A binding reaches every later version the claim reads.\<close>

lemma claimRun_update:
  assumes s: "sound c0" and run: "claimRunOf A R req (history c0) h"
    and log: "logged (Reconcile A R req) [] = h @ EUpdateInstance x r # post"
  shows "\<exists>cur\<in>history c0. basedOn cur x"
proof -
  have A: "lawful A" using run by (simp add: claimRunOf_def)
  obtain c where c: "EGetClaim req (Inr c) \<in> set h" "claimGuard A R c h (EUpdateInstance x r)"
    by (rule claimRun_guard [OF log]) auto
  from c(2) consider (bind) tmpl where "bindsFrom c h tmpl x" | (sync) "syncsFrom A c h x"
    by (auto simp: claimGuard_simps)
  then show ?thesis
  proof cases
    case bind
    then obtain items j b sel where j: "EListInstances ClientCache (Namespace (cMeta c)) sel (Inr items) \<in> set h"
      "j \<in> set items" "isClaimable j" "x = claimCandidate c b j"
      by (auto simp: bindsFrom_def)
    then have "seenIn (history c0) (EListInstances ClientCache (Namespace (cMeta c)) sel (Inr items))"
      using run by (simp add: claimRunOf_def)
    then show ?thesis using j basedOn_candidate [OF j(3)] by (auto simp: seenIn_def)
  next
    case sync
    then obtain k cur claim ttl e where d: "heldKey c h k" "EGetInstance ClientCache k (Inr cur) \<in> set h"
      "sameObject c claim" "desiredBinding A claim ttl e cur = Inr x"
      by (auto simp: syncsFrom_def)
    obtain i where i: "i \<in> history c0" "objectKey (iMeta i) = k" "claimUID i = UID (cMeta c)"
      using claimRun_held [OF run c(1) d(1)] by blast
    have "seenIn (history c0) (EGetInstance ClientCache k (Inr cur))" using run d(2) by (simp add: claimRunOf_def)
    then have cur: "cur \<in> history c0" "objectKey (iMeta cur) = k" by (simp_all add: seenIn_def)
    have u: "UID (iMeta cur) = UID (iMeta i)"
      using versionedD(4) [OF soundD(1) [OF s] cur(1) i(1)] cur(2) i(2) by simp
    have "claimUID cur = [] \<or> claimUID cur = UID (cMeta c)"
      using soundD(2) [OF s cur(1) i(1) u] i(3) claimRun_uid [OF run c(1)] by metis
    then show ?thesis
      using desiredBinding_identity [OF A d(4)] d(3) cur(1) by (auto simp: basedOn_def sameObject_def)
  qed
qed

lemma claimRun_delete:
  assumes s: "sound c0" and run: "claimRunOf A R req (history c0) h"
    and log: "logged (Reconcile A R req) [] = h @ EDeleteInstance k p r # post"
    and cur: "stored c0 k = Some cur"
  shows "mayDestroy (ClaimRun R req) h cur"
proof -
  obtain c where c: "EGetClaim req (Inr c) \<in> set h" "claimGuard A R c h (EDeleteInstance k p r)"
    by (rule claimRun_guard [OF log]) auto
  obtain i where i: "i \<in> history c0" "objectKey (iMeta i) = k" "claimUID i = UID (cMeta c)"
    using claimRun_held [OF run c(1)] c(2) by (auto simp: claimGuard_simps)
  note ver = soundD(1) [OF s]
  have "UID (iMeta i) = UID (iMeta cur)"
    using versionedD(1) [OF ver cur] versionedD(4) [OF ver i(1), of cur] i(2) by simp
  then have "claimUID cur = UID (cMeta c)"
    using soundD(3) [OF s cur i(1)] i(3) claimRun_uid [OF run c(1)] by simp
  then show ?thesis using c(1) by (auto simp: mayDestroy_def)
qed

text \<open>Of the other runs. Neither the configuration controller nor a request writes an instance.\<close>

lemma instanceRun_at:
  assumes "logged (reconcileInstance A req) [] = h @ e # post" and "\<not> isRead e"
  obtains i rest where "h = EGetInstance ClientCache req (Inr i) # rest" and "instanceGuard A i h e"
proof -
  from instance_run.at [OF assms(1)] assms(2) obtain i where "h \<noteq> []" "hd h = EGetInstance ClientCache req (Inr i)" "instanceGuard A i h e"
    by (auto simp: instanceRun_def)
  then show ?thesis using that by (cases h) auto
qed

lemma ensureInstanceMeta_based:
  assumes "lawful A"
  shows "basedOn i (snd (ensureInstanceMeta A i))"
proof -
  let ?m = "if hasFinalizer A (iMeta i) InstanceFinalizer then iMeta i
    else addFinalizer A (iMeta i) InstanceFinalizer"
  have id: "sameIdentity (iMeta i) ?m"
    using lawfulD(2) [OF assms] by (auto simp: sameIdentity_def)
  obtain changed l where l: "stampLabels (instanceWant i) (Labels ?m) = (changed, l)" by fastforce
  have "LabelClaimUID \<notin> fst ` set (instanceWant i)" by (auto simp: instanceWant_def)
  then have "get l LabelClaimUID = get (Labels ?m) LabelClaimUID"
    using stampLabels_other [of LabelClaimUID "instanceWant i" "Labels ?m"] l by simp
  moreover have "snd (ensureInstanceMeta A i) = i\<lparr>iMeta := ?m\<lparr>Labels := l\<rparr>\<rparr>"
    using l by (auto simp: ensureInstanceMeta_def Let_def)
  ultimately show ?thesis
    using id by (simp add: basedOn_def sameIdentity_def claimUID_def anchorOf_def objectKey_def)
qed

lemma instanceRun_update:
  assumes "lawful A" and "\<forall>e\<in>set h. seenIn H e"
    and log: "logged (reconcileInstance A req) [] = h @ EUpdateInstance x r # post"
  shows "\<exists>cur\<in>H. basedOn cur x"
proof -
  obtain i rest where i: "h = EGetInstance ClientCache req (Inr i) # rest" "instanceGuard A i h (EUpdateInstance x r)"
    by (rule instanceRun_at [OF log]) (simp_all add: isRead_def)
  have "i \<in> H" using assms(2) i(1) by (simp add: seenIn_def)
  moreover have "basedOn i (finalizerDropped A i)"
    by (rule basedOn_meta) (simp add: finalizerDropped_def lawfulD(3) [OF assms(1)])
  ultimately show ?thesis
    using i(2) ensureInstanceMeta_based [OF assms(1)]
    by (auto simp: instanceGuard_def isRead_def split: if_splits)
qed

lemma instanceRun_delete:
  assumes s: "sound c0" and rec: "\<forall>e\<in>set h. seenIn (history c0) e"
    and log: "logged (reconcileInstance A req) [] = h @ EDeleteInstance k p r # post"
    and cur: "stored c0 k = Some cur"
  shows "mayDestroy (InstanceRun req) h cur"
proof -
  obtain i rest where i: "h = EGetInstance ClientCache req (Inr i) # rest" "instanceGuard A i h (EDeleteInstance k p r)"
    by (rule instanceRun_at [OF log]) (simp_all add: isRead_def)
  then obtain x st where x: "overdue i h" "EPatchInstanceStatus i x st \<in> set h" "k = objectKey (iMeta (storedBy x st))"
    by (auto simp: instanceGuard_def isRead_def expiryWrite_def split: if_splits)
  obtain h1 h2 where h: "h = h1 @ EPatchInstanceStatus i x st # h2" using x(2) by (auto simp: in_set_conv_decomp)
  have "logged (reconcileInstance A req) [] = h1 @ EPatchInstanceStatus i x st # (h2 @ EDeleteInstance k p r # post)"
    using log h by simp
  then obtain j rest' where j: "h1 = EGetInstance ClientCache req (Inr j) # rest'"
    "instanceGuard A j h1 (EPatchInstanceStatus i x st)"
    by (rule instanceRun_at) (simp add: isRead_def)
  then have "statusWrite A i h1 x"
    by (auto simp: instanceGuard_def isRead_def split: if_splits)
  then have "iMeta x = iMeta i" by (simp add: statusWrite_def keepsIdentity_def)
  moreover have "seenIn (history c0) (EPatchInstanceStatus i x st)" using rec x(2) by blast
  ultimately have k: "k = objectKey (iMeta i)" using x(3) by (cases st) (simp_all add: seenIn_def)
  have "i \<in> history c0" using rec i(1) by (simp add: seenIn_def)
  moreover note soundD(1) [OF s]
  ultimately have "UID (iMeta i) = UID (iMeta cur)"
    using versionedD(1) [of c0 k cur] versionedD(4) [of c0 i cur] cur k by simp
  then show ?thesis using i(1) x(1) by (auto simp: mayDestroy_def readFirst_def)
qed

lemma templateRun_at:
  assumes "logged (reconcileTemplate A R req) [] = h @ e # post" and "\<not> isRead e"
  obtains tmpl where "templateGuard A R tmpl h e"
  using template_run.at [OF assms(1)] assms(2) by (auto simp: templateRun_def)

lemma templateRun_delete:
  assumes s: "sound c0" and rec: "\<forall>e\<in>set h. seenIn (history c0) e"
    and log: "logged (reconcileTemplate A R req) [] = h @ EDeleteInstance k p r # post"
    and cur: "stored c0 k = Some cur" "meets p cur"
  shows "mayDestroy (TemplateRun R req) h cur"
proof -
  obtain tmpl where "templateGuard A R tmpl h (EDeleteInstance k p r)"
    by (rule templateRun_at [OF log]) (simp_all add: isRead_def)
  then obtain k' rd fresh where f: "EGetInstance rd k' (Inr fresh) \<in> set h" "isPurgeable fresh"
    "p = Some (UID (iMeta fresh), ResourceVersion (iMeta fresh))"
    by (auto simp: templateGuard_def isRead_def mayPurge_def)
  have "fresh \<in> history c0" using rec f(1) by (fastforce simp: seenIn_def)
  moreover note versionedD(1,3) [OF soundD(1) [OF s]]
  ultimately have "cur = fresh" using cur f(3) by (auto simp: meets_def)
  then show ?thesis using f(2) by (simp add: mayDestroy_def isPurgeable_def claimUID_def)
qed

definition noInstanceWrite :: "event \<Rightarrow> bool" where
  "noInstanceWrite e = (case e of EUpdateInstance _ _ \<Rightarrow> False | EDeleteInstance _ _ _ \<Rightarrow> False | _ \<Rightarrow> True)"

interpretation config_run: guarded_run "reconcileConfig A req" "\<lambda>_. noInstanceWrite" "\<lambda>_ _. True" for A req
proof
  have "emits (\<lambda>_. noInstanceWrite) (reconcileConfig A req)"
    unfolding reconcileConfig_def Let_def
    by (auto simp: noInstanceWrite_def intro!: emits_rules split: sum.split)
  then show "wpe (\<lambda>_. noInstanceWrite) (reconcileConfig A req) (\<lambda>_ _. True) []" by (rule wpe_emits) simp
qed

lemma configRun_quiet: "logged (reconcileConfig A req) [] = h @ e # post \<Longrightarrow> noInstanceWrite e"
  by (rule config_run.at)

lemma requestRun_quiet: "logged (serve A verify cfg i r) [] = h @ e # post \<Longrightarrow> noInstanceWrite e"
  by (drule api_run.at, cases e)
    (auto simp: noInstanceWrite_def servedCall_def requestGuard_def isRead_def split: route.splits)

section \<open>The contract of an actor\<close>

locale actor =
  fixes run :: "api \<Rightarrow> log"
    and may :: "log \<Rightarrow> DployInstance \<Rightarrow> bool"
  assumes updates: "sound c \<Longrightarrow> \<forall>e\<in>set h. seenIn (history c) e \<Longrightarrow> lawful A
      \<Longrightarrow> run A = h @ EUpdateInstance x r # post \<Longrightarrow> \<exists>cur\<in>history c. basedOn cur x"
    and deletes: "sound c \<Longrightarrow> \<forall>e\<in>set h. seenIn (history c) e \<Longrightarrow> lawful A
      \<Longrightarrow> run A = h @ EDeleteInstance k p d # post \<Longrightarrow> stored c k = Some cur \<Longrightarrow> meets p cur \<Longrightarrow> may h cur"
begin

lemma keeps:
  assumes "sound c" and "\<forall>e\<in>set h. seenIn (history c) e" and "lawful A"
    and "run A = h @ e # post" and "effect c e c'"
  shows "sound c' \<and> history c \<subseteq> history c' \<and> seenIn (history c') e \<and> (\<forall>i\<in>removed c e c'. may h i)"
  using effect_sound [OF assms(1,5)] updates [OF assms(1,2,3)] deletes [OF assms(1,2,3)] assms(4)
  by (auto simp: removed_def)

end

interpretation claim_actor: actor "\<lambda>A. runLog A (ClaimRun R req)" "mayDestroy (ClaimRun R req)" for R req
proof
  fix c h A x r post
  assume a: "sound c" "\<forall>e\<in>set h. seenIn (history c) e" "lawful A"
    and "runLog A (ClaimRun R req) = h @ EUpdateInstance x r # post"
  then show "\<exists>cur\<in>history c. basedOn cur x"
    by (intro claimRun_update [of c A R req h x r post]) (auto simp: claimRunOf_def runLog_def)
next
  fix c h A k p d post cur
  assume a: "sound c" "\<forall>e\<in>set h. seenIn (history c) e" "lawful A"
    and l: "runLog A (ClaimRun R req) = h @ EDeleteInstance k p d # post" and cur: "stored c k = Some cur"
  have "claimRunOf A R req (history c) h" using a l by (auto simp: claimRunOf_def runLog_def)
  then show "mayDestroy (ClaimRun R req) h cur"
    using claimRun_delete [OF a(1) _ _ cur] l by (auto simp: runLog_def)
qed

interpretation template_actor:
  actor "\<lambda>A. runLog A (TemplateRun R req)" "mayDestroy (TemplateRun R req)" for R req
proof
  fix c h A x r post
  assume "runLog A (TemplateRun R req) = h @ EUpdateInstance x r # post"
  then have "logged (reconcileTemplate A R req) [] = h @ EUpdateInstance x r # post" by (simp add: runLog_def)
  then show "\<exists>cur\<in>history c. basedOn cur x" by (rule templateRun_at) (auto simp: isRead_def templateGuard_def)
qed (use templateRun_delete in \<open>auto simp: runLog_def\<close>)

interpretation instance_actor: actor "\<lambda>A. runLog A (InstanceRun req)" "mayDestroy (InstanceRun req)" for req
  by unfold_locales (use instanceRun_update instanceRun_delete in \<open>auto simp: runLog_def\<close>)

interpretation config_actor: actor "\<lambda>A. runLog A (ConfigRun req)" "mayDestroy (ConfigRun req)" for req
  by unfold_locales (auto simp: runLog_def noInstanceWrite_def dest!: configRun_quiet)

interpretation request_actor:
  actor "\<lambda>A. runLog A (RequestRun verify cfg i r)" "mayDestroy (RequestRun verify cfg i r)" for verify cfg i r
  by unfold_locales (auto simp: runLog_def noInstanceWrite_def dest!: requestRun_quiet)

lemma run_keeps:
  assumes "sound c" and "\<forall>e\<in>set h. seenIn (history c) e" and "lawful A"
    and "runLog A w = h @ e # post" and "effect c e c'"
  shows "sound c' \<and> history c \<subseteq> history c' \<and> seenIn (history c') e \<and> (\<forall>i\<in>removed c e c'. mayDestroy w h i)"
proof (cases w)
  case (ClaimRun R req)
  with assms show ?thesis using claim_actor.keeps by blast
next
  case (TemplateRun R req)
  with assms show ?thesis using template_actor.keeps by blast
next
  case (InstanceRun req)
  with assms show ?thesis using instance_actor.keeps by blast
next
  case (ConfigRun req)
  with assms show ?thesis using config_actor.keeps by blast
next
  case (RequestRun verify cfg i r)
  with assms show ?thesis using request_actor.keeps by blast
qed

section \<open>Every step keeps the invariant\<close>

definition invariant :: "system \<Rightarrow> bool" where
  "invariant s \<longleftrightarrow> sound (store s) \<and> (\<forall>j. \<forall>e\<in>set (logs s j). seenIn (history (store s)) e)
     \<and> (\<forall>(w, h, i)\<in>destroyed s. mayDestroy w h i)"

lemma seenIn_mono: "seenIn H e \<Longrightarrow> H \<subseteq> H' \<Longrightarrow> seenIn H' e"
  unfolding seenIn_def by (auto split: event.splits sum.splits)

lemma invariant_initial: "initial s \<Longrightarrow> invariant s"
proof -
  assume i: "initial s"
  let ?c = "store s"
  have st: "objectKey (iMeta x) = k \<and> UID (iMeta x) \<noteq> [] \<and> ResourceVersion (iMeta x) \<noteq> []"
    if "stored ?c k = Some x" for k x
    using i that by (simp add: initial_def)
  have key: "k = k'" if "stored ?c k = Some x" "stored ?c k' = Some x'" "UID (iMeta x) = UID (iMeta x')" for k k' x x'
    using i that unfolding initial_def by blast
  have hist: "\<exists>k. stored ?c k = Some x" if "x \<in> history ?c" for x
    using i that by (auto simp: initial_def ran_def)
  have one: "x = x'" if "x \<in> history ?c" "x' \<in> history ?c" "UID (iMeta x) = UID (iMeta x')" for x x'
  proof -
    note ex = hist [OF that(1)] hist [OF that(2)]
    obtain k k' where k: "stored ?c k = Some x" "stored ?c k' = Some x'" using ex by blast
    then have "k = k'" by (rule key) (rule that(3))
    with k show ?thesis by simp
  qed
  have same: "x = x'" if "x \<in> history ?c" "x' \<in> history ?c" "objectKey (iMeta x) = objectKey (iMeta x')" for x x'
  proof -
    note ex = hist [OF that(1)] hist [OF that(2)]
    obtain k k' where k: "stored ?c k = Some x" "stored ?c k' = Some x'" using ex by blast
    then have "k = k'" using st [OF k(1)] st [OF k(2)] that(3) by simp
    with k show ?thesis by simp
  qed
  have mem: "x \<in> history ?c" if "stored ?c k = Some x" for k x
    using i that by (auto simp: initial_def ran_def)
  have ne: "UID (iMeta x) \<noteq> [] \<and> ResourceVersion (iMeta x) \<noteq> []" if "x \<in> history ?c" for x
    using hist [OF that] st by blast
  have iff: "objectKey (iMeta x) = objectKey (iMeta x') \<longleftrightarrow> UID (iMeta x) = UID (iMeta x')"
    if "x \<in> history ?c" "x' \<in> history ?c" for x x'
    using one [OF that] same [OF that] by metis
  have "versioned ?c"
    unfolding versioned_def
  proof (intro conjI allI impI ballI)
    fix k x assume "stored ?c k = Some x"
    then show "x \<in> history ?c" "objectKey (iMeta x) = k" using mem st by auto
  next
    fix x assume "x \<in> history ?c"
    then show "UID (iMeta x) \<noteq> []" "ResourceVersion (iMeta x) \<noteq> []" using ne by auto
  next
    fix x x' assume h: "x \<in> history ?c" "x' \<in> history ?c"
    then show "objectKey (iMeta x) = objectKey (iMeta x') \<longleftrightarrow> UID (iMeta x) = UID (iMeta x')" by (rule iff)
    assume "UID (iMeta x) = UID (iMeta x')"
    then show "x = x'" by (rule one [OF h])
  qed
  moreover have "exclusive ?c" unfolding exclusive_def using one by blast
  moreover have "keptBinding ?c" unfolding keptBinding_def using one mem by blast
  moreover have "keptAnchor ?c" unfolding keptAnchor_def using one mem by blast
  ultimately show ?thesis using i by (simp add: invariant_def sound_def initial_def)
qed

lemma invariant_step:
  assumes inv: "invariant s" and step: "step s t"
  shows "invariant t"
  using step
proof cases
  case (act A j e post c')
  have k: "sound c' \<and> history (store s) \<subseteq> history c' \<and> seenIn (history c') e
      \<and> (\<forall>i\<in>removed (store s) e c'. mayDestroy (running s j) (logs s j) i)"
    by (rule run_keeps [OF _ _ act(2,3,4)]) (use inv in \<open>simp_all add: invariant_def\<close>)
  then have "seenIn (history c') f" if "f \<in> set (logs s n)" for n f
    using inv that by (auto simp: invariant_def intro: seenIn_mono)
  with inv k show ?thesis unfolding act(1) by (auto simp: invariant_def)
next
  case (start j w)
  then show ?thesis using inv by (simp add: invariant_def)
next
  case (collect k)
  then show ?thesis using inv sound_forget [of "store s" k] by (simp add: invariant_def)
qed

lemma reachable_invariant: "reachable s \<Longrightarrow> invariant s"
  by (induction rule: reachable.induct) (auto intro: invariant_initial invariant_step)

section \<open>Properties\<close>

text \<open>C1. No environment is ever bound to two claims. However the runs of all controllers and all
  requests interleave, whatever stale versions they read and whichever of their writes fail, are
  lost or are carried out with an error, two versions of one instance that name a claim name the
  same one; and an instance once bound stays bound to that claim for as long as it exists, and keeps
  the anchor its deadline is counted from, so that nobody's lifetime starts again.\<close>

theorem environment_exclusive:
  assumes "reachable s" and "i \<in> history (store s)" and "claimUID i \<noteq> []"
  shows "(\<forall>i'\<in>history (store s). UID (iMeta i') = UID (iMeta i) \<longrightarrow> claimUID i' \<in> {[], claimUID i})
    \<and> (\<forall>k cur. stored (store s) k = Some cur \<longrightarrow> UID (iMeta cur) = UID (iMeta i)
          \<longrightarrow> claimUID cur = claimUID i \<and> (anchorOf i \<noteq> [] \<longrightarrow> anchorOf cur = anchorOf i))"
proof -
  have s: "sound (store s)" using reachable_invariant [OF assms(1)] by (simp add: invariant_def)
  show ?thesis
    using soundD(2) [OF s _ assms(2) _ _ assms(3)] soundD(3) [OF s _ assms(2) _ assms(3)]
      soundD(4) [OF s _ assms(2)] by auto
qed

text \<open>C2. What a destruction rests on. Whatever the pool controller destroyed was unclaimed and unowned
  at that moment, and whatever the claim controller destroyed was at that moment bound to the very
  claim the run reconciled. What the instance controller destroyed was overdue in the version the
  run had read: its delete carries no precondition, so an environment that was extended between
  that read and the delete is destroyed all the same. The configuration controller and the API
  server destroy nothing.\<close>

theorem destroyed_by_holder:
  assumes "reachable s" and "(w, h, i) \<in> destroyed s"
  shows "mayDestroy w h i"
  using reachable_invariant [OF assms(1)] assms(2) by (auto simp: invariant_def)

section \<open>Two concrete runs\<close>

lemma reachable_reads:
  assumes "reachable s" and "lawful A"
  shows "runLog A (running s j) = logs s j @ es @ post \<Longrightarrow> \<forall>e\<in>set es. effect (store s) e (store s)
    \<Longrightarrow> reachable (s\<lparr>logs := (logs s)(j := logs s j @ es)\<rparr>)"
proof (induction es arbitrary: post rule: rev_induct)
  case Nil
  then show ?case using assms(1) by simp
next
  case (snoc e es)
  let ?t = "s\<lparr>logs := (logs s)(j := logs s j @ es)\<rparr>"
  have "reachable ?t" using snoc.IH [of "e # post"] snoc.prems
    by (simp del: fun_upd_apply)
  moreover have "step ?t (?t\<lparr>store := store s, logs := (logs ?t)(j := logs ?t j @ [e]),
      destroyed := destroyed ?t \<union> (\<lambda>i. (running ?t j, logs ?t j, i)) ` removed (store ?t) e (store s)\<rparr>)"
    by (rule step.act [OF assms(2), of ?t j e post]) (use snoc.prems in simp_all)
  ultimately have "reachable (?t\<lparr>store := store s, logs := (logs ?t)(j := logs ?t j @ [e]),
      destroyed := destroyed ?t \<union> (\<lambda>i. (running ?t j, logs ?t j, i)) ` removed (store ?t) e (store s)\<rparr>)"
    by (rule next_step)
  then show ?case by (simp add: removed_def fun_upd_same del: fun_upd_apply)
qed

lemma reachable_act:
  assumes "reachable s" and "lawful A" and "runLog A (running s j) = logs s j @ es @ e # post"
    and "\<forall>f\<in>set es. effect (store s) f (store s)" and "effect (store s) e c'"
  shows "reachable (s\<lparr>store := c', logs := (logs s)(j := logs s j @ es @ [e]),
     destroyed := destroyed s \<union> (\<lambda>i. (running s j, logs s j @ es, i)) ` removed (store s) e c'\<rparr>)"
proof -
  let ?t = "s\<lparr>logs := (logs s)(j := logs s j @ es)\<rparr>"
  have "reachable ?t" by (rule reachable_reads [OF assms(1,2,3,4)])
  moreover have "step ?t (?t\<lparr>store := c', logs := (logs ?t)(j := logs ?t j @ [e]),
      destroyed := destroyed ?t \<union> (\<lambda>i. (running ?t j, logs ?t j, i)) ` removed (store ?t) e c'\<rparr>)"
    by (rule step.act [OF assms(2), of ?t j e post]) (use assms in simp_all)
  ultimately have "reachable (?t\<lparr>store := c', logs := (logs ?t)(j := logs ?t j @ [e]),
      destroyed := destroyed ?t \<union> (\<lambda>i. (running ?t j, logs ?t j, i)) ` removed (store ?t) e c'\<rparr>)"
    by (rule next_step)
  then show ?thesis by simp
qed

text \<open>One instance in the store, and one actor.\<close>

definition oneInstance :: "string \<Rightarrow> DployInstance" where
  "oneInstance holder = iSpec_update (\<lambda>s. s\<lparr>iPooled := True\<rparr>) (emptyInstance\<lparr>iMeta := emptyMeta\<lparr>Name := ''web'',
     Namespace := ''dploy'', UID := ''x'', ResourceVersion := ''1'', Labels := Map.empty(LabelClaimUID \<mapsto> holder)\<rparr>\<rparr>)"

definition webKey :: NamespacedName where
  "webKey = \<lparr>nnNamespace = ''dploy'', nnName = ''web''\<rparr>"

definition startOf :: "actorRun \<Rightarrow> string \<Rightarrow> system" where
  "startOf w holder = \<lparr>store = \<lparr>stored = Map.empty(webKey \<mapsto> oneInstance holder), history = {oneInstance holder}\<rparr>,
     running = (\<lambda>j. w), logs = (\<lambda>j. []), destroyed = {}\<rparr>"

definition demoApi :: "string \<Rightarrow> api" where
  "demoApi holder = stubApi\<lparr>reGetInstance := (\<lambda>h rd k. Inr (oneInstance holder)),
     reListInstances := (\<lambda>h rd ns sel. Inr [oneInstance holder]),
     reGetTemplate := (\<lambda>h k. Inr emptyTemplate),
     reUpdateInstance := (\<lambda>h x. Inr (iMeta_update (\<lambda>m. m\<lparr>ResourceVersion := ''2''\<rparr>) x))\<rparr>"

lemma oneInstance_simps [simp]:
  "objectKey (iMeta (oneInstance u)) = webKey" "UID (iMeta (oneInstance u)) = ''x''"
  "ResourceVersion (iMeta (oneInstance u)) = ''1''" "claimUID (oneInstance u) = u"
  "DeletionTimestamp (iMeta (oneInstance u)) = None" "Finalizers (iMeta (oneInstance u)) = []"
  "iSpec (oneInstance u) = \<lparr>iTemplateRef = [], iOwner = [], iParams = Map.empty, iPooled = True,
     iTTLSeconds = 0, iSpecExpiresAt = None\<rparr>"
  by (simp_all add: oneInstance_def emptyInstance_def emptyMeta_def objectKey_def webKey_def claimUID_def)

lemma reachable_start: "reachable (startOf w u)"
  by (rule reachable.init) (auto simp: initial_def startOf_def split: if_splits)

lemma lawful_demo: "lawful (demoApi u)"
  by (auto simp: lawful_def demoApi_def stubApi_def addController_def sameIdentity_def objectKey_def split: if_splits)

lemma demo_update:
  "runLog (demoApi u) (InstanceRun webKey) = [EGetInstance ClientCache webKey (Inr (oneInstance u))]
     @ EUpdateInstance (snd (ensureInstanceMeta (demoApi u) (oneInstance u)))
         (Inr (iMeta_update (\<lambda>m. m\<lparr>ResourceVersion := ''2''\<rparr>) (snd (ensureInstanceMeta (demoApi u) (oneInstance u))))) # []"
proof -
  have "fst (ensureInstanceMeta (demoApi u) (oneInstance u))"
    by (simp add: ensureInstanceMeta_def Let_def demoApi_def stubApi_def split: prod.split)
  then obtain x where x: "ensureInstanceMeta (demoApi u) (oneInstance u) = (True, x)"
    by (cases "ensureInstanceMeta (demoApi u) (oneInstance u)") simp
  have r: "reGetInstance (demoApi u) h rd k = Inr (oneInstance u)"
    "reUpdateInstance (demoApi u) h i = Inr (iMeta_update (\<lambda>m. m\<lparr>ResourceVersion := ''2''\<rparr>) i)" for h rd k i
    by (simp_all add: demoApi_def)
  show ?thesis
    unfolding runLog_def reconcileInstance_def reconcileInstanceRead_def actorRun.case
    by (simp add: logged_def perform_def call_defs r x isZeroPtr_def)
qed

theorem environment_exclusive_witness:
  "\<exists>s i cur. reachable s \<and> i \<in> history (store s) \<and> stored (store s) webKey = Some cur \<and> cur \<noteq> i
     \<and> claimUID i = ''u1'' \<and> claimUID cur = ''u1''"
proof -
  let ?i = "oneInstance ''u1''" and ?s = "startOf (InstanceRun webKey) ''u1''" and ?A = "demoApi ''u1''"
  let ?x = "snd (ensureInstanceMeta ?A ?i)"
  let ?y = "iMeta_update (\<lambda>m. m\<lparr>ResourceVersion := ''2''\<rparr>) ?x"
  have x: "objectKey (iMeta ?x) = webKey" "UID (iMeta ?x) = ''x''" "ResourceVersion (iMeta ?x) = ''1''"
    using ensureInstanceMeta_based [OF lawful_demo [of "''u1''"], of ?i] by (simp_all add: basedOn_def)
  have y: "objectKey (iMeta ?y) = webKey" "UID (iMeta ?y) = ''x''" "ResourceVersion (iMeta ?y) = ''2''"
    using x by (simp_all add: objectKey_def)
  let ?t = "?s\<lparr>store := putVersion ?y (store ?s), logs := (logs ?s)(0 := logs ?s 0
      @ [EGetInstance ClientCache webKey (Inr ?i)] @ [EUpdateInstance ?x (Inr ?y)]),
     destroyed := destroyed ?s \<union> (\<lambda>i. (running ?s 0, logs ?s 0 @ [EGetInstance ClientCache webKey (Inr ?i)], i))
        ` removed (store ?s) (EUpdateInstance ?x (Inr ?y)) (putVersion ?y (store ?s))\<rparr>"
  have t: "reachable ?t"
  proof (rule reachable_act [OF reachable_start lawful_demo, where post = "[]"])
    show "runLog ?A (running ?s 0) = logs ?s 0 @ [EGetInstance ClientCache webKey (Inr ?i)] @ [EUpdateInstance ?x (Inr ?y)]"
      using demo_update by (simp add: startOf_def)
    show "\<forall>f\<in>set [EGetInstance ClientCache webKey (Inr ?i)]. effect (store ?s) f (store ?s)"
      by (simp add: effect_def startOf_def)
    show "effect (store ?s) (EUpdateInstance ?x (Inr ?y)) (putVersion ?y (store ?s))"
      using x y by (auto simp: effect_def startOf_def updated_def newVersion_def objectKey_def)
  qed
  have "stored (store ?t) webKey = Some ?y" using y(1) by (simp add: startOf_def)
  moreover have "UID (iMeta ?y) = UID (iMeta ?i)" using y(2) by simp
  moreover have "\<forall>k cur. stored (store ?t) k = Some cur \<longrightarrow> UID (iMeta cur) = UID (iMeta ?i)
      \<longrightarrow> claimUID cur = claimUID ?i \<and> (anchorOf ?i \<noteq> [] \<longrightarrow> anchorOf cur = anchorOf ?i)"
    by (rule conjunct2 [OF environment_exclusive [OF t, of ?i]]) (simp_all add: startOf_def)
  ultimately have "claimUID ?y = claimUID ?i" by blast
  moreover have "?y \<noteq> ?i"
  proof
    assume "?y = ?i"
    with y(3) have "ResourceVersion (iMeta ?i) = ''2''" by (simp only:)
    then show False by simp
  qed
  ultimately show ?thesis using t y(1) by (intro exI [of _ ?t] exI [of _ ?i] exI [of _ ?y]) (simp add: startOf_def)
qed

definition purgeReads :: log where
  "purgeReads = [EGetTemplate webKey (Inr emptyTemplate), EGetConfig configKey (Inl missing),
     EListInstances ClientCache [] [(LabelTemplate, [])] (Inr [oneInstance []]),
     EGetInstance ClientCache webKey (Inr (oneInstance []))]"

lemma demo_purge:
  "\<exists>post. runLog (demoApi []) (TemplateRun None webKey)
     = purgeReads @ EDeleteInstance webKey (Some (''x'', ''1'')) (Inr ()) # post"
proof -
  have r: "reGetInstance (demoApi []) h rd k = Inr (oneInstance [])"
    "reListInstances (demoApi []) h rd ns sel = Inr [oneInstance []]"
    "reGetTemplate (demoApi []) h k = Inr emptyTemplate" "reGetConfig (demoApi []) h k = Inl missing"
    "reDeleteInstance (demoApi []) h k p = Inr ()" for h rd k ns sel p
    by (simp_all add: demoApi_def)
  have t: "tally [oneInstance []] emptyTally = emptyTally\<lparr>ptTotal := 1, ptUnclaimed := [oneInstance []]\<rparr>"
    "isPurgeable (oneInstance [])" "sortPurgeVictims [oneInstance []] = [oneInstance []]"
    by (simp_all add: emptyTally_def isPurgeable_def alive_def isZeroPtr_def claimUID_def [symmetric] sortPurgeVictims_def
        oneInstance_def emptyInstance_def emptyMeta_def)
  have e: "effectiveOf (demoApi []) (Inl missing) = Inr fallbacks" "chartRef emptyTemplate = []"
    "tPool (tSpec emptyTemplate) = None" "desiredWarm emptyTemplate = 0" "tMeta emptyTemplate = emptyMeta"
    "Namespace emptyMeta = []" "Name emptyMeta = []"
    "alive (oneInstance [])" "iPhase (iStatus (oneInstance [])) \<noteq> PhaseAvailable"
    by (simp_all add: effectiveOf_def chartRef_def desiredWarm_def emptyTemplate_def emptyMeta_def alive_def
        isZeroPtr_def oneInstance_def emptyInstance_def)
  have "wp (reconcileTemplate (demoApi []) None webKey) (\<lambda>_ h. \<exists>post. h = purgeReads
      @ EDeleteInstance webKey (Some (''x'', ''1'')) (Inr ()) # post) []"
    unfolding purgeReads_def
    by (simp add: reconcileTemplate_def listAndReconcile_def reconcilePool_def Resolve_def syncSource_def fill_def
        shrink_def purgeSurplus_def templateReader_def emptyTally_def record_status_def wp_simps r t e split: sum.split)
  then show ?thesis by (simp add: wp_logged runLog_def)
qed

theorem destroyed_by_holder_witness:
  "\<exists>s i. reachable s \<and> (TemplateRun None webKey, purgeReads, i) \<in> destroyed s
     \<and> stored (store s) webKey = None \<and> claimUID i = [] \<and> iOwner (iSpec i) = []"
proof -
  let ?w = "TemplateRun None webKey" and ?e = "EDeleteInstance webKey (Some (''x'', ''1'')) (Inr ())"
  let ?s = "startOf ?w []"
  let ?c = "(store ?s)\<lparr>stored := (stored (store ?s))(webKey := None)\<rparr>"
  have l: "get (Labels (iMeta (oneInstance []))) LabelTemplate = []"
    by (simp add: oneInstance_def emptyInstance_def emptyMeta_def get_def label_defs)
  obtain post where log: "runLog (demoApi []) ?w = purgeReads @ ?e # post" using demo_purge by blast
  let ?t = "?s\<lparr>store := ?c, logs := (logs ?s)(0 := logs ?s 0 @ purgeReads @ [?e]),
     destroyed := destroyed ?s \<union> (\<lambda>i. (running ?s 0, logs ?s 0 @ purgeReads, i)) ` removed (store ?s) ?e ?c\<rparr>"
  have t: "reachable ?t"
  proof (rule reachable_act [OF reachable_start lawful_demo, where post = post])
    show "runLog (demoApi []) (running ?s 0) = logs ?s 0 @ purgeReads @ ?e # post"
      using log by (simp add: startOf_def)
    show "\<forall>f\<in>set purgeReads. effect (store ?s) f (store ?s)"
      using l by (simp add: purgeReads_def effect_def startOf_def)
    show "effect (store ?s) ?e ?c"
      by (simp add: effect_def startOf_def deleted_def meets_def)
  qed
  have "?c \<noteq> store ?s"
  proof
    assume "?c = store ?s"
    then have "stored ?c webKey = stored (store ?s) webKey" by (rule arg_cong)
    then show False by (simp add: startOf_def)
  qed
  then have "oneInstance [] \<in> removed (store ?s) ?e ?c"
    by (simp add: removed_def) (simp add: startOf_def meets_def)
  then have d: "(?w, purgeReads, oneInstance []) \<in> destroyed ?t" by (simp add: startOf_def)
  have "mayDestroy ?w purgeReads (oneInstance [])" by (rule destroyed_by_holder [OF t d])
  with t d show ?thesis
    by (intro exI [of _ ?t] exI [of _ "oneInstance []"]) (simp add: mayDestroy_def startOf_def)
qed

end
