(* ===== verification/ClientProps.thy ===== *)
theory ClientProps
imports ApiProps
begin

text \<open>
  Further properties of the API server, most of them against what the operator does with the same
  objects: how many extensions a claim gets, which owner keys a requester can list, where the
  parameters of a claim come from, and two faults: claim names that collide and missing
  environments that answer 500.
\<close>

section \<open>Extensions against the operator's ceiling\<close>

text \<open>What the operator records on a claim it reconciles, and the claim an extension leaves.\<close>

definition regrant :: "DployTemplate \<Rightarrow> Effective \<Rightarrow> DployInstanceClaim \<Rightarrow> DployInstanceClaim" where
  "regrant tmpl eff c = (case resolveClaimTTL c tmpl eff of (ttl, maxTTL) \<Rightarrow>
     cStatus_update (\<lambda>s. s\<lparr>cGrantedTTL := ttl, cMaxTTLSeconds := maxTTL\<rparr>) c)"

definition askFor :: "int \<Rightarrow> DployInstanceClaim \<Rightarrow> DployInstanceClaim" where
  "askFor wanted c = cSpec_update (\<lambda>s. s\<lparr>cTTLSeconds := wanted\<rparr>) c"

fun extendTimes ::
  "nat \<Rightarrow> int \<Rightarrow> DployTemplate \<Rightarrow> Effective \<Rightarrow> DployInstanceClaim \<Rightarrow> extendError + DployInstanceClaim" where
  "extendTimes 0 step tmpl eff c = Inr c"
| "extendTimes (Suc k) step tmpl eff c =
     (case extendTo c step of
        Inl e \<Rightarrow> Inl e
      | Inr wanted \<Rightarrow> extendTimes k step tmpl eff (regrant tmpl eff (askFor wanted c)))"

lemma regrant_fields [simp]:
  "cGrantedTTL (cStatus (regrant tmpl eff c)) = fst (resolveClaimTTL c tmpl eff)"
  "cMaxTTLSeconds (cStatus (regrant tmpl eff c)) = snd (resolveClaimTTL c tmpl eff)"
  "cBoundAt (cStatus (regrant tmpl eff c)) = cBoundAt (cStatus c)"
  "cTTLSeconds (cSpec (askFor wanted c)) = wanted"
  "cBoundAt (cStatus (askFor wanted c)) = cBoundAt (cStatus c)"
  by (simp_all add: regrant_def askFor_def split: prod.split)

lemma extend_within:
  assumes "0 < granted" and "granted < maxTTL" and "0 < step" and "granted + step \<le> maxTTL"
    and "maxTTL \<le> max64"
    and "cGrantedTTL (cStatus c) = granted" and "cMaxTTLSeconds (cStatus c) = maxTTL"
    and "cBoundAt (cStatus c) = Some b"
  shows "extendTo c step = Inr (granted + step)"
  using assms wrap64_id [of "granted + step"] by (simp add: extendTo_def min64_def)

lemma extendTimes_from:
  assumes "base = resolveInstanceTTL tmpl eff" and "0 < base"
    and "extendBudget tmpl eff = (int n, step)" and "0 < n" and "0 < step"
    and "base + int n * step \<le> max64"
  shows "j \<le> n \<Longrightarrow> cGrantedTTL (cStatus c) = base + int j * step
     \<Longrightarrow> cMaxTTLSeconds (cStatus c) = base + int n * step \<Longrightarrow> cBoundAt (cStatus c) = Some b
     \<Longrightarrow> (case extendTimes k step tmpl eff c of
            Inl e \<Rightarrow> n < j + k \<and> e = ErrMaxExtends (seconds (base + int n * step))
          | Inr c' \<Rightarrow> j + k \<le> n \<and> cGrantedTTL (cStatus c') = base + int (j + k) * step
              \<and> cBoundAt (cStatus c') = Some b)"
proof (induction k arbitrary: j c)
  case 0
  then show ?case by simp
next
  case (Suc k)
  have pos: "0 \<le> int j * step" "0 < base + int n * step" "0 < base + int j * step"
    using assms(2,5) by (simp_all add: add_pos_nonneg)
  show ?case
  proof (cases "j = n")
    case True
    then have "extendTo c step = Inl (ErrMaxExtends (seconds (base + int n * step)))"
      using Suc.prems pos by (simp add: extendTo_def)
    then show ?thesis using True by simp
  next
    case False
    then have j: "Suc j \<le> n" using Suc.prems(1) by simp
    let ?w = "base + int (Suc j) * step"
    have le: "int (Suc j) * step \<le> int n * step"
      using j assms(5) by (intro mult_right_mono) simp_all
    have lt: "int j * step < int n * step" using j assms(5) by simp
    have w: "?w = base + int j * step + step" by (simp add: algebra_simps)
    have le': "int j * step + step \<le> int n * step" using le by (simp add: algebra_simps)
    have "extendTo c step = Inr ?w"
      unfolding w
      by (rule extend_within [OF pos(3)])
        (use lt le w assms(5,6) Suc.prems in \<open>simp_all add: algebra_simps\<close>)
    moreover have "resolveClaimTTL (askFor ?w c) tmpl eff = (?w, base + int n * step)"
      using granted_in_budget [OF assms(1,2,3) _ assms(5,6) refl, of "askFor ?w c"] assms(2,4,5) le' pos w
      by (simp add: min_def)
    ultimately show ?thesis
      using Suc.IH [of "Suc j" "regrant tmpl eff (askFor ?w c)"] Suc.prems(4) j
      by (simp split: sum.splits)
  qed
qed

lemma ExtendCount_steps:
  assumes "0 < base" and "0 < step" and "base + int k * step \<le> max64"
    and "cGrantedTTL (cStatus c) = base + int k * step"
  shows "ExtendCount c base step = int k"
proof -
  have "0 \<le> int k * step" using assms(2) by simp
  then have "wrap64 (int k * step) = int k * step" "0 < base + int k * step"
    using assms(1,3) by (simp_all add: wrap64_id min64_def)
  then show ?thesis using assms by (simp add: ExtendCount_def goDiv_def mult_le_0_iff mult_less_0_iff)
qed

text \<open>C12. The extend budget of a template is the number of extensions a user gets. With a finite
  lifetime and \<open>n\<close> extends of the step the API server uses, each of the first \<open>n\<close> extensions of a
  bound claim succeeds, is granted in full when the operator next looks, is counted by the list of
  environments, and yields the deadline the API server announced; every further one is refused
  as over the maximum. That both sides use the same step is a hypothesis: it holds where the
  template sets one; otherwise each side takes the default of its own configuration.\<close>

theorem exactly_max_extends:
  assumes "base = resolveInstanceTTL tmpl eff" and "0 < base"
    and "extendBudget tmpl eff = (int n, step)" and "0 < n" and "0 < step"
    and "base + int n * step \<le> max64" and "extendStep cfg (Inr tmpl) = step"
    and "cTTLSeconds (cSpec c) = 0" and "cBoundAt (cStatus c) = Some b"
  shows "case extendTimes k (extendStep cfg (Inr tmpl)) tmpl eff (regrant tmpl eff c) of
      Inl e \<Rightarrow> n < k \<and> e = ErrMaxExtends (seconds (base + int n * step))
    | Inr c' \<Rightarrow> k \<le> n \<and> cGrantedTTL (cStatus c') = base + int k * step
        \<and> ExtendCount c' base step = int k
        \<and> expiryFrom b (cGrantedTTL (cStatus c')) = Some (b + seconds (base + int k * step))"
proof -
  have g: "resolveClaimTTL c tmpl eff = (base, base + int n * step)"
    using granted_in_budget [OF assms(1,2,3) _ assms(5,6) refl, of c] assms(4,8) by simp
  have "base + int k * step \<le> max64" if "k \<le> n"
  proof -
    have "int k * step \<le> int n * step" using that assms(5) by (intro mult_right_mono) simp_all
    then show ?thesis using assms(6) by linarith
  qed
  moreover have "0 < base + int k * step" using assms(2,5) by (simp add: add_pos_nonneg)
  ultimately show ?thesis
    using extendTimes_from [OF assms(1-6), of 0 "regrant tmpl eff c" b k] g assms(2,5,7,9)
      ExtendCount_steps [OF assms(2,5)]
    by (auto simp: expiryFrom_def split: sum.splits)
qed

definition boundSample :: DployInstanceClaim where
  "boundSample = cStatus_update (\<lambda>s. s\<lparr>cBoundAt := Some 0\<rparr>) (sampleClaim 0)"

theorem exactly_max_extends_witness:
  "extendTimes 3 600 sampleTemplate fallbacks (regrant sampleTemplate fallbacks boundSample)
     = Inl (ErrMaxExtends (4800 * second))
   \<and> (\<exists>c. extendTimes 2 600 sampleTemplate fallbacks (regrant sampleTemplate fallbacks boundSample) = Inr c
        \<and> cGrantedTTL (cStatus c) = 4800)"
proof -
  let ?cfg = "readConfig (\<lambda>k. [])" and ?run = "\<lambda>k. extendTimes k 600 sampleTemplate fallbacks
    (regrant sampleTemplate fallbacks boundSample)"
  have h: "resolveInstanceTTL sampleTemplate fallbacks = 3600"
    "extendBudget sampleTemplate fallbacks = (int 2, 600)"
    by code_simp+
  have s: "extendStep ?cfg (Inr sampleTemplate) = 600"
    by (simp add: extendStep_def sampleTemplate_def)
  have t: "cTTLSeconds (cSpec boundSample) = 0" "cBoundAt (cStatus boundSample) = Some 0"
    by (simp_all add: boundSample_def sampleClaim_def)
  have r: "case ?run k of Inl e \<Rightarrow> 2 < k \<and> e = ErrMaxExtends (seconds (3600 + int 2 * 600))
      | Inr c' \<Rightarrow> k \<le> 2 \<and> cGrantedTTL (cStatus c') = 3600 + int k * 600
          \<and> ExtendCount c' 3600 600 = int k
          \<and> expiryFrom 0 (cGrantedTTL (cStatus c')) = Some (0 + seconds (3600 + int k * 600))" for k
    using exactly_max_extends [OF h(1) [symmetric] _ h(2) _ _ _ s t, of k] s by (simp add: max64_def)
  have "seconds 4800 = 4800 * second" by (rule seconds_exact) simp_all
  moreover have "?run 3 = Inl (ErrMaxExtends (seconds 4800))"
    using r [of 3] by (cases "?run 3") simp_all
  moreover have "\<exists>c. ?run 2 = Inr c \<and> cGrantedTTL (cStatus c) = 4800"
    using r [of 2] by (cases "?run 2") simp_all
  ultimately show ?thesis by simp
qed

section \<open>Owner keys\<close>

lemma find_in: "find P xs = Some v \<Longrightarrow> v \<in> set xs \<and> P v"
  by (induction xs) (auto split: if_splits)

lemma addIdentity_set: "set (addIdentity out s) = set out \<union> (if sanitizeOwner s = [] then {} else {sanitizeOwner s})"
  by (auto simp: addIdentity_def Let_def)

lemma distinct_addIdentity: "distinct out \<Longrightarrow> distinct (addIdentity out s)"
  by (simp add: addIdentity_def Let_def)

lemma foldl_addIdentity:
  "set (foldl addIdentity out vs) = set out \<union> (sanitizeOwner ` set vs - {[]})"
  "distinct out \<Longrightarrow> distinct (foldl addIdentity out vs)"
  by (induction vs arbitrary: out) (auto simp: addIdentity_set distinct_addIdentity)

lemma addIdentities_set:
  "set (addIdentities claims cs out) = set out
     \<union> (\<Union>c\<in>set cs - {[]}. sanitizeOwner ` set (claimValues (claims c)) - {[]})"
  by (induction claims cs out rule: addIdentities.induct)
    (simp_all add: foldl_addIdentity Un_assoc insert_Diff_if Un_Diff)

lemma distinct_addIdentities: "distinct out \<Longrightarrow> distinct (addIdentities claims cs out)"
  by (induction claims cs out rule: addIdentities.induct) (simp_all add: foldl_addIdentity)

text \<open>C32. Whatever a requester can own, he can list. The owner key a token gives for a template is
  one of the identities the list of environments asks for, provided the template's owner claim is
  among those collected; identities carry no duplicates, and each is a value fit for a label: not
  empty, at most 63 characters, and unchanged by the operator's own normalisation, so the label
  the API server writes on a claim is the one the operator files its instance under.\<close>

theorem owner_is_identity:
  assumes "ResolveOwner claims ownerClaim user = (owner, True)"
    and "ownerClaim = [] \<or> ownerClaim \<in> set ownerClaims"
  shows "owner \<in> set (Identities claims ownerClaims user) \<and> distinct (Identities claims ownerClaims user)
    \<and> (\<forall>o1\<in>set (Identities claims ownerClaims user). o1 \<noteq> [] \<and> length o1 \<le> 63 \<and> sanitize o1 = o1)"
proof (intro conjI)
  have s: "set (Identities claims ownerClaims user) = ({sanitizeOwner user} - {[]})
      \<union> (\<Union>c\<in>set ownerClaims - {[]}. sanitizeOwner ` set (claimValues (claims c)) - {[]})"
    unfolding Identities_def addIdentities_set by (auto simp: addIdentity_set)
  show "owner \<in> set (Identities claims ownerClaims user)"
    unfolding s using assms
    by (force simp: ResolveOwner_def Let_def split: if_splits option.splits dest: find_in)
  show "distinct (Identities claims ownerClaims user)"
    unfolding Identities_def by (intro distinct_addIdentities distinct_addIdentity) simp
  show "\<forall>o1\<in>set (Identities claims ownerClaims user). o1 \<noteq> [] \<and> length o1 \<le> 63 \<and> sanitize o1 = o1"
    unfolding s by (auto simp: sanitizeOwner_length sanitize_sanitizeOwner)
qed

theorem owner_is_identity_witness:
  "''red'' \<in> set (Identities (Map.empty(''groups'' \<mapsto> JStrings [''Red'', ''Blue''])) [''groups''] ''Alice'')
   \<and> Identities (Map.empty(''groups'' \<mapsto> JStrings [''Red'', ''Blue''])) [''groups''] ''Alice''
       = [''alice'', ''red'', ''blue'']"
proof
  have "ResolveOwner (Map.empty(''groups'' \<mapsto> JStrings [''Red'', ''Blue''])) ''groups'' ''Alice'' = (''red'', True)"
    by code_simp
  then show "''red'' \<in> set (Identities (Map.empty(''groups'' \<mapsto> JStrings [''Red'', ''Blue''])) [''groups''] ''Alice'')"
    using owner_is_identity [of "Map.empty(''groups'' \<mapsto> JStrings [''Red'', ''Blue''])" "''groups''" "''Alice''"
        "''red''" "[''groups'']"] by simp
qed code_simp

section \<open>Parameters\<close>

definition paramValue :: "request \<Rightarrow> TemplateParameter \<Rightarrow> string" where
  "paramValue q p = (if qQuery q (pName p) = [] then pDefault p else qQuery q (pName p))"

definition paramMissing :: "request \<Rightarrow> TemplateParameter \<Rightarrow> bool" where
  "paramMissing q p \<longleftrightarrow> pRequired p \<and> paramValue q p = []"

definition paramResult :: "request \<Rightarrow> TemplateParameter list \<Rightarrow> smap \<Rightarrow> smap \<Rightarrow> bool" where
  "paramResult q ps base params \<longleftrightarrow> dom params \<subseteq> dom base \<union> pName ` set ps
     \<and> (\<forall>p\<in>set ps. params (pName p) = (if paramValue q p \<noteq> [] then Some (paramValue q p) else base (pName p)))
     \<and> (\<forall>k. k \<notin> pName ` set ps \<longrightarrow> params k = base k)"

lemma overlayParams_missing:
  "overlayParams (qQuery q) ps m = Inl msg \<Longrightarrow> \<exists>p\<in>set ps. paramMissing q p"
  by (induction "qQuery q" ps m rule: overlayParams.induct)
    (auto simp: Let_def paramMissing_def paramValue_def split: if_splits)

lemma overlayParams_result:
  "overlayParams (qQuery q) ps m = Inr params \<Longrightarrow> distinct (map pName ps)
     \<Longrightarrow> paramResult q ps m params \<and> (\<forall>p\<in>set ps. \<not> paramMissing q p)"
proof (induction ps arbitrary: m)
  case Nil
  then show ?case by (simp add: paramResult_def)
next
  case (Cons p ps)
  define m' where "m' = (if paramValue q p \<noteq> [] then m(pName p \<mapsto> paramValue q p) else m)"
  have here: "\<not> paramMissing q p" and rest: "overlayParams (qQuery q) ps m' = Inr params"
    using Cons.prems(1) unfolding m'_def
    by (auto simp: Let_def paramMissing_def paramValue_def split: if_splits)
  have fresh: "pName p \<notin> pName ` set ps" and d: "distinct (map pName ps)"
    using Cons.prems(2) by auto
  have r: "paramResult q ps m' params" "\<forall>p\<in>set ps. \<not> paramMissing q p"
    using Cons.IH [OF rest d] by blast+
  have m': "m' k = m k" if "k \<noteq> pName p" for k using that by (simp add: m'_def)
  have new: "params (pName p) = (if paramValue q p \<noteq> [] then Some (paramValue q p) else m (pName p))"
    using r(1) fresh by (simp add: paramResult_def m'_def)
  have "dom m' \<subseteq> insert (pName p) (dom m)" by (auto simp: m'_def)
  then have "dom params \<subseteq> dom m \<union> pName ` set (p # ps)"
    using r(1) unfolding paramResult_def list.set image_insert by blast
  moreover have "params (pName x) = (if paramValue q x \<noteq> [] then Some (paramValue q x) else m (pName x))"
    if "x \<in> set (p # ps)" for x
  proof (cases "x = p")
    case False
    then have x: "x \<in> set ps" using that by simp
    then have "pName x \<noteq> pName p" using fresh by (metis imageI)
    with x show ?thesis using r(1) m' by (simp add: paramResult_def)
  qed (simp add: new)
  moreover have "params k = m k" if "k \<notin> pName ` set (p # ps)" for k
    using that r(1) m' by (simp add: paramResult_def)
  ultimately show ?case using r(2) here unfolding paramResult_def list.set by blast
qed

lemma foldl_FilterClaims:
  "dom (foldl (\<lambda>out key. let vals = claimValues (claims key) in
      if vals = [] then out else out(key \<mapsto> joinStr '','' vals)) m allow) \<subseteq> dom m \<union> set allow"
proof (induction allow arbitrary: m)
  case (Cons k ks)
  let ?m = "let vals = claimValues (claims k) in if vals = [] then m else m(k \<mapsto> joinStr '','' vals)"
  have "dom ?m \<subseteq> insert k (dom m)" by (auto simp: Let_def)
  then show ?case using Cons.IH [of ?m] unfolding foldl.simps list.set by blast
qed simp

lemma FilterClaims_dom: "dom (FilterClaims claims allow) \<subseteq> set allow"
  using foldl_FilterClaims [of claims Map.empty allow] by (simp add: FilterClaims_def)

definition confined :: "Config \<Rightarrow> request \<Rightarrow> DployTemplate \<Rightarrow> string + smap \<Rightarrow> bool" where
  "confined cfg q tmpl r = (case r of
      Inl msg \<Rightarrow> \<exists>p\<in>set (tParameters (tSpec tmpl)). paramMissing q p
    | Inr params \<Rightarrow>
        dom params \<subseteq> set (ForwardedClaims cfg) \<union> pName ` set (tParameters (tSpec tmpl))
        \<and> paramResult q (tParameters (tSpec tmpl)) (FilterClaims (claimsMap q) (ForwardedClaims cfg)) params
        \<and> (\<forall>p\<in>set (tParameters (tSpec tmpl)). \<not> paramMissing q p))"

text \<open>C33. A template sees the parameters it declared and the token claims the operator of the service
  chose to forward, and nothing else of the request: a query parameter it did not declare never
  reaches the claim. A declared parameter has the value of the query, else its default, and
  overrides a forwarded claim of its name; the request is refused exactly when a required
  parameter has neither.\<close>

theorem parameters_confined:
  assumes "distinct (map pName (tParameters (tSpec tmpl)))"
  shows "confined cfg q tmpl (buildParams cfg q tmpl)"
proof (cases "buildParams cfg q tmpl")
  case (Inl msg)
  then show ?thesis
    unfolding confined_def buildParams_def by (auto dest: overlayParams_missing)
next
  case (Inr params)
  then have r: "paramResult q (tParameters (tSpec tmpl)) (FilterClaims (claimsMap q) (ForwardedClaims cfg)) params"
    "\<forall>p\<in>set (tParameters (tSpec tmpl)). \<not> paramMissing q p"
    using overlayParams_result [OF _ assms] unfolding buildParams_def by blast+
  have "dom params \<subseteq> set (ForwardedClaims cfg) \<union> pName ` set (tParameters (tSpec tmpl))"
    using r(1) FilterClaims_dom [of "claimsMap q" "ForwardedClaims cfg"] unfolding paramResult_def by blast
  then show ?thesis using Inr r by (simp add: confined_def)
qed

definition portTemplate :: DployTemplate where
  "portTemplate = tSpec_update (\<lambda>s. s\<lparr>tParameters :=
     [\<lparr>pName = ''port'', pDescription = [], pRequired = True, pDefault = []\<rparr>]\<rparr>) emptyTemplate"

definition portRequest :: "string \<Rightarrow> request" where
  "portRequest port = \<lparr>qUser = Some ''alice'', qClaims = Some Map.empty, qEnv = ''web'',
     qQuery = (\<lambda>k. if k = ''port'' then port else ''x''), qQueryBool = (\<lambda>k d. d)\<rparr>"

theorem parameters_confined_witness:
  "confined (readConfig (\<lambda>k. [])) (portRequest ''80'') portTemplate
     (buildParams (readConfig (\<lambda>k. [])) (portRequest ''80'') portTemplate)
   \<and> (\<exists>msg. buildParams (readConfig (\<lambda>k. [])) (portRequest []) portTemplate = Inl msg)"
proof
  show "confined (readConfig (\<lambda>k. [])) (portRequest ''80'') portTemplate
     (buildParams (readConfig (\<lambda>k. [])) (portRequest ''80'') portTemplate)"
    by (rule parameters_confined) (simp add: portTemplate_def)
  show "\<exists>msg. buildParams (readConfig (\<lambda>k. [])) (portRequest []) portTemplate = Inl msg"
    by (simp add: buildParams_def portTemplate_def portRequest_def)
qed

section \<open>Two faults\<close>

text \<open>C39. Claims are keyed by a name that does not determine their owner: the owner \<open>a\<close> of the template
  \<open>b-t\<close> and the owner \<open>a-b\<close> of the template \<open>t\<close> have the same claim name. Looking up either gives the
  other, and a request of the second for its own environment is answered with the claim of the
  first, whoever owns that.\<close>

theorem claim_names_collide:
  assumes "\<And>h. reGetClaim A h (claimKey ns a (b @ ''-'' @ t)) = Inr c"
    and "isZeroPtr (DeletionTimestamp (cMeta c))" and "cPhase (cStatus c) \<noteq> ClaimExpired"
    and "Name (tMeta tmpl) = t"
  shows "ClaimName (a @ ''-'' @ b) t = ClaimName a (b @ ''-'' @ t)
    \<and> GetOwnerClaim A ns (a @ ''-'' @ b) t = GetOwnerClaim A ns a (b @ ''-'' @ t)
    \<and> returned (EnsureClaim A ns (a @ ''-'' @ b) params tmpl wait) h = Inr (Some c)"
proof -
  have n: "ClaimName (a @ ''-'' @ b) t = ClaimName a (b @ ''-'' @ t)" by (simp add: ClaimName_def)
  then have k: "claimKey ns (a @ ''-'' @ b) t = claimKey ns a (b @ ''-'' @ t)" by (simp add: claimKey_def)
  define key where "key = claimKey ns a (b @ ''-'' @ t)"
  have reply: "reGetClaim A h' key = Inr c" for h' unfolding key_def by (rule assms(1))
  have "wp (EnsureClaim A ns (a @ ''-'' @ b) params tmpl wait) (\<lambda>r _. r = Inr (Some c)) h"
    unfolding EnsureClaim_def GetOwnerClaim_def assms(4) k key_def [symmetric]
    using assms(2,3) by (simp add: wp_simps reply)
  then show ?thesis using n k by (simp add: wp_returned GetOwnerClaim_def)
qed

theorem claim_names_collide_witness:
  "returned (EnsureClaim (stubApi\<lparr>reGetClaim := (\<lambda>h k. Inr (sampleClaim 0))\<rparr>) ''dploy'' ''alice-web''
      Map.empty (tMeta_update (\<lambda>m. m\<lparr>Name := ''term''\<rparr>) emptyTemplate) True) [] = Inr (Some (sampleClaim 0))
   \<and> cOwner (cSpec (sampleClaim 0)) = ''alice''"
proof -
  let ?A = "stubApi\<lparr>reGetClaim := (\<lambda>h k. Inr (sampleClaim 0))\<rparr>"
  let ?t = "tMeta_update (\<lambda>m. m\<lparr>Name := ''term''\<rparr>) emptyTemplate"
  have c: "isZeroPtr (DeletionTimestamp (cMeta (sampleClaim 0)))" "cPhase (cStatus (sampleClaim 0)) \<noteq> ClaimExpired"
    "cOwner (cSpec (sampleClaim 0)) = ''alice''"
    by (simp_all add: sampleClaim_def emptyMeta_def isZeroPtr_def emptyClaimStatus_def)
  have "returned (EnsureClaim ?A ''dploy'' (''alice'' @ ''-'' @ ''web'') Map.empty ?t True) [] = Inr (Some (sampleClaim 0))"
    using claim_names_collide [of ?A "''dploy''" "''alice''" "''web''" "''term''" "sampleClaim 0" ?t Map.empty True "[]"] c(1,2)
    by simp
  then show ?thesis using c(3) by simp
qed

text \<open>C40. Asking for an environment the requester does not have is answered as an internal error.
  Where the owner of the template cannot be resolved from the token, or its claim does not exist,
  the status, the extension and the deletion of the environment all answer 500 and not 404: the
  404 that was prepared is lost with a nil claim.\<close>

theorem missing_environment_is_internal_error:
  assumes "Middleware verify (JWTUsernameClaim cfg) (inAuthorization i) = Inr (user, claims)"
    and "ResolveOwner claims (ownerClaimIn (reGetTemplate A []
       \<lparr>nnNamespace = ConfigNamespace cfg, nnName = inEnv i\<rparr>)) user = (owner, usable)"
    and "\<And>h. reGetClaim A h (claimKey (ConfigNamespace cfg) owner (inEnv i)) = Inl e" and "IsNotFound e"
    and "r \<in> {GetRunStatus, PostExtend, DeleteRun}"
  shows "\<exists>msg. returned (serve A verify cfg i (Protected r)) [] = Responded 500 (ErrorBody msg)"
proof -
  let ?q = "requestOf i (user, claims)"
  have look: "wp (withClaim A cfg ?q f nilCase) Q []"
    if "\<And>h. wp nilCase Q h" for f and nilCase :: "outcome io" and Q
    unfolding withClaim_def requireClaim_def resolveOwner_def GetTemplate_def GetOwnerClaim_def
    using assms(2,4) that
    by (simp add: wp_simps assms(3) requestOf_def claimsMap_def ownerClaimIn_def sent_def)
  have "wp (serveProtected A cfg ?q r) (\<lambda>out _. \<exists>msg. recovered out = Responded 500 (ErrorBody msg)) []"
    using assms(5)
    by (auto simp: serveProtected_def GetStatus_def ExtendTTL_def DeleteEnvironment_def GetTemplate_def
        nilDelete_def internalError_def recovered_def jsonError_def wp_simps intro!: look split: option.split)
  then have "wp (serve A verify cfg i (Protected r)) (\<lambda>out _. \<exists>msg. out = Responded 500 (ErrorBody msg)) []"
    unfolding serve_def dispatch_def
    by (simp add: assms(1) wp_bind requestOf_def) (erule wp_mono, simp add: wp_return)
  then show ?thesis by (simp add: wp_returned)
qed

definition aliceToken :: verifier where
  "aliceToken raw = Inr \<lparr>idNonce = [], idClaims = Inr (Map.empty(''sub'' \<mapsto> JString ''alice''))\<rparr>"

definition deleteRequest :: incoming where
  "deleteRequest = \<lparr>inAuthorization = ''Bearer t'', inEnv = ''web'', inQuery = (\<lambda>k. []),
     inQueryBool = (\<lambda>k d. d)\<rparr>"

definition plainConfig :: Config where
  "plainConfig = (readConfig (\<lambda>k. []))\<lparr>JWTUsernameClaim := ''sub''\<rparr>"

theorem missing_environment_is_internal_error_witness:
  "\<exists>msg. returned (serve stubApi aliceToken plainConfig deleteRequest (Protected DeleteRun)) []
     = Responded 500 (ErrorBody msg)"
proof -
  have m: "Middleware aliceToken (JWTUsernameClaim plainConfig) (inAuthorization deleteRequest)
      = Inr (''alice'', Map.empty(''sub'' \<mapsto> JString ''alice''))"
  proof -
    have "SanitizeUsername ''alice'' = ''alice''" by code_simp
    then show ?thesis
      by (simp add: Middleware_def Validate_def aliceToken_def plainConfig_def deleteRequest_def trimPrefix_def Let_def)
  qed
  have o: "ResolveOwner (Map.empty(''sub'' \<mapsto> JString ''alice'')) (ownerClaimIn (reGetTemplate stubApi []
       \<lparr>nnNamespace = ConfigNamespace plainConfig, nnName = inEnv deleteRequest\<rparr>)) ''alice'' = (''alice'', True)"
  proof -
    have "sanitizeOwner ''alice'' = ''alice''" by code_simp
    then show ?thesis by (simp add: stubApi_def ownerClaimIn_def ResolveOwner_def)
  qed
  show ?thesis
    by (rule missing_environment_is_internal_error [OF m o, of missing]) simp_all
qed

end
