(* ===== verification/Settling.thy ===== *)
theory Settling
imports ClaimGuarantee Samples
begin

text \<open>
  The claim controller comes to rest: once a bound claim has been reconciled, the next reconcile of
  what was written finds nothing to do. The run itself is the one of \<open>ClaimCtrl\<close>; this theory adds
  what apimachinery documents of its helpers, a world that holds still between the reads of a run,
  and the world that a run leaves behind.
\<close>

section \<open>What the helpers promise\<close>

definition sameCondition :: "Condition \<Rightarrow> Condition \<Rightarrow> bool" where
  "sameCondition d c \<longleftrightarrow> condStatus d = condStatus c \<and> condReason d = condReason c \<and> condMessage d = condMessage c
     \<and> condObservedGeneration d = condObservedGeneration c"

text \<open>\<^verbatim>\<open>SetStatusCondition\<close> leaves a condition that says the same alone, and the others always.\<close>

definition conditionLaws :: "api \<Rightarrow> bool" where
  "conditionLaws A \<longleftrightarrow>
     (\<forall>t cs c d. findCond A cs (condType c) = Some d \<longrightarrow> sameCondition d c \<longrightarrow> setCond A t cs c = cs)
   \<and> (\<forall>t cs c. \<exists>d. findCond A (setCond A t cs c) (condType c) = Some d \<and> sameCondition d c)
   \<and> (\<forall>t cs c ty. ty \<noteq> condType c \<longrightarrow> findCond A (setCond A t cs c) ty = findCond A cs ty)"

text \<open>\<^verbatim>\<open>SetControllerReference\<close> changes the owner references only, and by the namespace and the
  references it finds.\<close>

definition referenceLaw :: "api \<Rightarrow> bool" where
  "referenceLaw A \<longleftrightarrow> (\<forall>r m m'. setControllerRef A r m = Inr m' \<longrightarrow>
     (\<exists>xs. m' = m\<lparr>OwnerReferences := xs\<rparr>
       \<and> (\<forall>n. Namespace n = Namespace m \<longrightarrow> OwnerReferences n = OwnerReferences m \<longrightarrow>
            setControllerRef A r n = Inr (n\<lparr>OwnerReferences := xs\<rparr>))))"

lemma set_refs:
  assumes "referenceLaw A" and "setControllerRef A r m = Inr m'"
  obtains xs where "m' = m\<lparr>OwnerReferences := xs\<rparr>"
    and "\<forall>n. Namespace n = Namespace m \<longrightarrow> OwnerReferences n = OwnerReferences m \<longrightarrow>
      setControllerRef A r n = Inr (n\<lparr>OwnerReferences := xs\<rparr>)"
  using assms unfolding referenceLaw_def by blast

definition helperLaws :: "api \<Rightarrow> bool" where
  "helperLaws A \<longleftrightarrow> conditionLaws A \<and> referenceLaw A \<and> (\<forall>x. deepEqual A x x)"

section \<open>Writes\<close>

definition writes :: "log \<Rightarrow> log" where
  "writes h = filter (\<lambda>e. \<not> isRead e) h"

lemma writes_simps [simp]:
  "writes [] = []" "writes (h @ h') = writes h @ writes h'"
  "writes (e # h) = (if isRead e then writes h else e # writes h)"
  by (simp_all add: writes_def)

lemma not_read [simp]: "\<not> isRead (EUpdateInstance x r1)" "\<not> isRead (EPatchClaimStatus c d r2)"
  by (simp_all add: isRead_def)

section \<open>A world that holds still\<close>

text \<open>Every read of a run gives the same objects, the clock is past the settling window of the binding
  and before its deadline, and an update of the instance is accepted.\<close>

definition bumpI :: "string \<Rightarrow> int \<Rightarrow> DployInstance \<Rightarrow> DployInstance" where
  "bumpI v g = iMeta_update (\<lambda>m. m\<lparr>ResourceVersion := v, Generation := g\<rparr>)"

definition bumpC :: "string \<Rightarrow> DployInstanceClaim \<Rightarrow> DployInstanceClaim" where
  "bumpC v = cMeta_update (\<lambda>m. m\<lparr>ResourceVersion := v\<rparr>)"

definition templateKey :: "DployInstanceClaim \<Rightarrow> NamespacedName" where
  "templateKey c = \<lparr>nnNamespace = Namespace (cMeta c), nnName = cTemplateRef (cSpec c)\<rparr>"

definition steady :: "api \<Rightarrow> DployInstanceClaim \<Rightarrow> DployTemplate \<Rightarrow> Effective \<Rightarrow> DployInstance \<Rightarrow> Time \<Rightarrow> bool" where
  "steady A c tmpl eff inst b \<longleftrightarrow>
     (\<forall>h. reGetClaim A h (objectKey (cMeta c)) = Inr c)
   \<and> (\<forall>h. reGetTemplate A h (templateKey c) = Inr tmpl) \<and> tEnabled (tSpec tmpl)
   \<and> (\<forall>h. effectiveOf A (reGetConfig A h configKey) = Inr eff)
   \<and> (\<forall>h rd. reListInstances A h rd (Namespace (cMeta c)) [(LabelClaimUID, UID (cMeta c))] = Inr [inst])
   \<and> (\<forall>h. reGetInstance A h ClientCache (objectKey (iMeta inst)) = Inr inst)
   \<and> (\<forall>h x. \<exists>v g. reUpdateInstance A h x = Inr (bumpI v g x))
   \<and> (\<forall>h. quotaSettleWindow \<le> timeSub (reNow A h) b)
   \<and> (\<forall>h. case expiryFrom b (fst (resolveClaimTTL c tmpl eff)) of None \<Rightarrow> True | Some e \<Rightarrow> reNow A h < e)"

text \<open>The claim is bound since \<open>b\<close> and not over its recorded deadline, its instance is there and has
  not failed.\<close>

definition boundSince :: "api \<Rightarrow> DployInstanceClaim \<Rightarrow> DployInstance \<Rightarrow> Time \<Rightarrow> bool" where
  "boundSince A c inst b \<longleftrightarrow> isZeroPtr (DeletionTimestamp (cMeta c)) \<and> \<not> fst (ensureMeta c)
     \<and> cPhase (cStatus c) = ClaimBound \<and> cBoundAt (cStatus c) = Some b \<and> (\<forall>h. \<not> isExpired c (reNow A h))
     \<and> live inst \<and> iPhase (iStatus inst) \<noteq> PhaseFailed"

section \<open>What a run writes\<close>

text \<open>The claim with its lifetime and deadline, the instance it is synchronised with, and the status
  recorded, with the instants of the two condition updates.\<close>

definition dated :: "DployInstanceClaim \<Rightarrow> DployTemplate \<Rightarrow> Effective \<Rightarrow> Time \<Rightarrow> DployInstanceClaim" where
  "dated c tmpl eff b = (let (ttl, maxTTL) = resolveClaimTTL c tmpl eff in
     setExpiresAt (expiryFrom b ttl) (setBoundAt (Some b)
       (cStatus_update (\<lambda>s. s\<lparr>cGrantedTTL := ttl, cMaxTTLSeconds := maxTTL\<rparr>) c)))"

definition boundCondition :: "int \<Rightarrow> string \<Rightarrow> Condition" where
  "boundCondition g name = condition ConditionBound CondTrue ''Bound'' (''bound to DployInstance '' @ goQuote name) g"

definition readyCondition :: "int \<Rightarrow> Condition option \<Rightarrow> Condition" where
  "readyCondition g rdy = (case rdy of
     None \<Rightarrow> condition ConditionReady CondFalse ''Provisioning'' ''instance is converging'' g
   | Some c \<Rightarrow> condition ConditionReady (condStatus c) (condReason c) (condMessage c) g)"

definition conditionsAt :: "api \<Rightarrow> Time \<Rightarrow> Time \<Rightarrow> Condition list \<Rightarrow> int \<Rightarrow> string \<Rightarrow> Condition option \<Rightarrow> Condition list" where
  "conditionsAt A t1 t2 cs g name rdy =
     setCond A t2 (setCond A t1 cs (boundCondition g name)) (readyCondition g rdy)"

definition projectedAt :: "api \<Rightarrow> Time \<Rightarrow> Time \<Rightarrow> DployInstanceClaim \<Rightarrow> DployInstance \<Rightarrow> DployInstanceClaim" where
  "projectedAt A t1 t2 claim inst =
      cStatus_update (\<lambda>s. s\<lparr>cPhase := ClaimBound, cInstanceRef := Name (iMeta inst), cUUID := iUUID (iStatus inst),
        cConnectionURL := iURL (iStatus inst), cConnectionType := iConnectionType (iStatus inst),
        cConnectionMessage := iConnectionMessage (iStatus inst), cInstancePhase := iPhase (iStatus inst),
        cHealth := iHealth (iStatus inst),
        cConditions := conditionsAt A t1 t2 (cConditions s) (Generation (cMeta claim)) (Name (iMeta inst))
          (findCond A (iConditions (iStatus inst)) ConditionReady)\<rparr>) claim"

lemma wp_project: "wp (project A claim inst) Q h =
    (let t1 = reNow A h; h1 = h @ [ENow t1]; t2 = reNow A h1 in Q (projectedAt A t1 t2 claim inst) (h1 @ [ENow t2]))"
  by (cases claim) (simp add: project_def projectedAt_def conditionsAt_def boundCondition_def readyCondition_def
      setClaimCondition_def wp_simps Let_def split: option.split)

definition recorded :: "api \<Rightarrow> Time \<Rightarrow> Time \<Rightarrow> DployInstanceClaim \<Rightarrow> DployInstance \<Rightarrow> DployInstanceClaim" where
  "recorded A t1 t2 claim inst = (let c = projectedAt A t1 t2 claim inst in
     cStatus_update (\<lambda>s. s\<lparr>cObservedGeneration := Generation (cMeta c)\<rparr>) c)"

section \<open>The first run\<close>

lemma wp_retry_ok: "wp m (\<lambda>r h'. (\<exists>x. r = Inr x) \<and> Q r h') h \<Longrightarrow> wp (retryOnConflict n m) Q h"
  by (cases n) (auto simp: wp_simps elim: wp_mono)

text \<open>What a finished synchronisation leaves: the instance as it is, or the accepted update.\<close>

definition syncedTo :: "api \<Rightarrow> DployInstance \<Rightarrow> DployInstance \<Rightarrow> DployInstance \<Rightarrow> bool" where
  "syncedTo A inst d inst1 \<longleftrightarrow> (if deepEqual A inst d then inst1 = inst else \<exists>v g. inst1 = bumpI v g d)"

definition updates :: "api \<Rightarrow> DployInstance \<Rightarrow> DployInstance \<Rightarrow> DployInstance \<Rightarrow> log" where
  "updates A inst d inst1 = (if deepEqual A inst d then [] else [EUpdateInstance d (Inr inst1)])"

lemma wp_sync:
  assumes "\<And>h. reGetInstance A h ClientCache (objectKey (iMeta inst)) = Inr inst"
    and "\<And>h x. \<exists>v g. reUpdateInstance A h x = Inr (bumpI v g x)" and "desiredBinding A claim ttl e inst = Inr d"
    and "\<And>inst1 es. syncedTo A inst d inst1 \<Longrightarrow> writes es = updates A inst d inst1 \<Longrightarrow> Q (Inr inst1) (h @ es)"
  shows "wp (syncInstance A claim inst ttl e) Q h"
  unfolding syncInstance_def
proof (rule wp_retry_ok)
  let ?get = "EGetInstance ClientCache (objectKey (iMeta inst)) (Inr inst)"
  obtain v g where u: "reUpdateInstance A (h @ [?get]) d = Inr (bumpI v g d)" using assms(2) by blast
  show "wp (tryE (getInstance A ClientCache (objectKey (iMeta inst))) (\<lambda>cur.
          case desiredBinding A claim ttl e cur of Inl e \<Rightarrow> throw e
          | Inr desired \<Rightarrow> if deepEqual A cur desired then ok inst else updateInstance A desired))
      (\<lambda>r h'. (\<exists>x. r = Inr x) \<and> Q r h') h"
  proof (cases "deepEqual A inst d")
    case True
    with assms(4) [of inst "[?get]"] show ?thesis
      by (simp add: wp_simps assms(1,3) syncedTo_def updates_def)
  next
    case False
    then have "syncedTo A inst d (bumpI v g d)" unfolding syncedTo_def by auto
    with False assms(4) [of "bumpI v g d" "[?get, EUpdateInstance d (Inr (bumpI v g d))]"] show ?thesis
      by (simp add: wp_simps assms(1,3) u updates_def)
  qed
qed

lemma wp_patchStatus:
  assumes "\<And>r. Q r (h @ [EPatchClaimStatus original c2 (rePatchClaimStatus A h original c2)])"
    and "c2 = cStatus_update (\<lambda>s. s\<lparr>cObservedGeneration := Generation (cMeta c1)\<rparr>) c1"
  shows "wp (patchStatus A original c1) Q h"
  using assms(1) by (auto simp: patchStatus_def wp_simps Let_def assms(2) split: sum.split)

definition finished ::
  "api \<Rightarrow> DployInstanceClaim \<Rightarrow> DployInstanceClaim \<Rightarrow> DployInstance \<Rightarrow> DployInstance \<Rightarrow> log \<Rightarrow> log \<Rightarrow> bool" where
  "finished A original claim inst d h0 h \<longleftrightarrow> (\<exists>t1 t2 inst1 h1. syncedTo A inst d inst1
     \<and> writes h = writes h0 @ updates A inst d inst1 @ [EPatchClaimStatus original (recorded A t1 t2 claim inst1)
         (rePatchClaimStatus A h1 original (recorded A t1 t2 claim inst1))])"

lemma wp_finish:
  assumes "\<And>h. reGetInstance A h ClientCache (objectKey (iMeta inst)) = Inr inst"
    and "\<And>h x. \<exists>v g. reUpdateInstance A h x = Inr (bumpI v g x)"
    and "desiredBinding A claim ttl (cExpiresAt (cStatus claim)) inst = Inr d"
  shows "wp (finish A original claim inst ttl settling) (\<lambda>_. finished A original claim inst d h0) h0"
  unfolding finish_def wp_tryE
proof (rule wp_sync [OF assms], unfold sum.case wp_bind wp_project Let_def wp_tryE, goal_cases)
  case (1 inst1 es)
  define h1 where "h1 = h0 @ es"
  define h' where "h' = (h1 @ [ENow (reNow A h1)]) @ [ENow (reNow A (h1 @ [ENow (reNow A h1)]))]"
  define c2 where "c2 = recorded A (reNow A h1) (reNow A (h1 @ [ENow (reNow A h1)])) claim inst1"
  have fin: "finished A original claim inst d h0 (h' @ EPatchClaimStatus original c2 (rePatchClaimStatus A h' original c2) # l)"
    if "writes l = []" for l
    unfolding finished_def
    by (rule exI [of _ "reNow A h1"], rule exI [of _ "reNow A (h1 @ [ENow (reNow A h1)])"], rule exI [of _ inst1],
        rule exI [of _ h']) (use 1 that in \<open>simp add: h'_def h1_def c2_def\<close>)
  show ?case
    unfolding h1_def [symmetric] h'_def [symmetric]
    by (rule wp_patchStatus [where ?c2.0 = c2])
      (use fin [of "[]"] fin [of "[ENow t]" for t] in
        \<open>auto simp: wp_simps c2_def recorded_def Let_def split: sum.split option.split\<close>)
qed

lemma deadline_ahead:
  assumes "steady A c tmpl eff inst b"
  shows "\<not> isExpired (dated c tmpl eff b) (reNow A h)"
  using assms by (auto simp: steady_def isExpired_def dated_def setExpiresAt_def setBoundAt_def split: prod.splits option.splits)

text \<open>A run on a claim that holds an instance past the settling window goes straight to \<open>finish\<close>. The
  anchor is the recorded one, or the one stamped on the instance.\<close>

definition heldSince :: "api \<Rightarrow> DployInstanceClaim \<Rightarrow> DployInstance \<Rightarrow> Time \<Rightarrow> bool" where
  "heldSince A c inst b \<longleftrightarrow> isZeroPtr (DeletionTimestamp (cMeta c)) \<and> \<not> fst (ensureMeta c)
     \<and> cPhase (cStatus c) \<noteq> ClaimExpired \<and> cPhase (cStatus c) \<noteq> ClaimRejected
     \<and> (cBoundAt (cStatus c) = Some b \<or> cBoundAt (cStatus c) = None \<and> stampedAt inst = Some b)
     \<and> (\<forall>h. \<not> isExpired c (reNow A h)) \<and> live inst \<and> iPhase (iStatus inst) \<noteq> PhaseFailed"

lemma bound_held: "boundSince A c inst b \<Longrightarrow> heldSince A c inst b"
  by (simp add: boundSince_def heldSince_def)

lemma wp_held_run:
  assumes "steady A c tmpl eff inst b" and "heldSince A c inst b"
    and "\<And>h0. writes h0 = [] \<Longrightarrow> wp (finish A c (dated c tmpl eff b) inst (fst (resolveClaimTTL c tmpl eff)) False) Q h0"
  shows "wp (Reconcile A R (objectKey (cMeta c))) Q []"
proof -
  obtain ttl maxTTL where ttl: "resolveClaimTTL c tmpl eff = (ttl, maxTTL)" by fastforce
  have same: "ensureMeta c = (False, c)"
    using assms(2) ensureMeta_same [of c] by (cases "ensureMeta c") (auto simp: heldSince_def)
  let ?claim = "cStatus_update (\<lambda>s. s\<lparr>cGrantedTTL := ttl, cMaxTTLSeconds := maxTTL\<rparr>) c"
  have claim: "isExpired ?claim t = isExpired c t" "cMeta ?claim = cMeta c" "cBoundAt (cStatus ?claim) = cBoundAt (cStatus c)"
    "setExpiresAt (expiryFrom b ttl) (setBoundAt (Some b) ?claim) = dated c tmpl eff b" for t
    by (simp_all add: isExpired_def dated_def ttl)
  have late: "\<not> timeSub (reNow A h) b < quotaSettleWindow" for h
    using assms(1) by (simp add: steady_def not_less)
  have grace: "\<not> instanceFailureGrace < 0" by (simp add: instanceFailureGrace_def second_def)
  note world = assms(1) [unfolded steady_def] and since = assms(2) [unfolded heldSince_def]
  have anchor: "wp (case cBoundAt (cStatus c) of Some b \<Rightarrow> give b | None \<Rightarrow> boundAtOf A inst) P h = P b h" for P h
    using since by (auto simp: wp_simps boundAtOf_def)
  have key: "\<lparr>nnNamespace = Namespace (cMeta c), nnName = cTemplateRef (cSpec c)\<rparr> = templateKey c"
    by (simp add: templateKey_def)
  have bound: "wp (reconcileBound A R c ?claim tmpl eff ttl inst) Q h0" if "writes h0 = []" for h0
    unfolding reconcileBound_def wp_bind claim(3) anchor
    using since assms(3) deadline_ahead [OF assms(1)] that
    by (simp add: wp_simps Let_def claim late grace failedFor_def ttl)
  show ?thesis
    using world since bound
    by (cases "cPhase (cStatus c)")
      (simp_all add: Reconcile_def reconcileRead_def reconcileLive_def same wp_simps Let_def
        Resolve_def ttl key claim boundInstance_def lookupBound_def)
qed

lemma wp_bound_run:
  assumes "steady A c tmpl eff inst b" and "boundSince A c inst b"
    and "\<And>h0. writes h0 = [] \<Longrightarrow> wp (finish A c (dated c tmpl eff b) inst (fst (resolveClaimTTL c tmpl eff)) False) Q h0"
  shows "wp (Reconcile A R (objectKey (cMeta c))) Q []"
  by (rule wp_held_run [OF assms(1) bound_held [OF assms(2)] assms(3)])

section \<open>The second run\<close>

text \<open>What the next run reads: the claim and the instance as the first one left them.\<close>

definition nextWorld :: "api \<Rightarrow> DployInstanceClaim \<Rightarrow> DployInstance \<Rightarrow> api" where
  "nextWorld A c inst = A\<lparr>reGetClaim := (\<lambda>h k. Inr c), reListInstances := (\<lambda>h rd ns sel. Inr [inst]),
     reGetInstance := (\<lambda>h rd k. Inr inst)\<rparr>"

lemma nextWorld_simps [simp]:
  "reGetClaim (nextWorld A c i) h k = Inr c" "reListInstances (nextWorld A c i) h rd ns sel = Inr [i]"
  "reGetInstance (nextWorld A c i) h rd k = Inr i" "reGetTemplate (nextWorld A c i) = reGetTemplate A"
  "reGetConfig (nextWorld A c i) = reGetConfig A" "reUpdateInstance (nextWorld A c i) = reUpdateInstance A"
  "reNow (nextWorld A c i) = reNow A" "setCond (nextWorld A c i) = setCond A"
  "findCond (nextWorld A c i) = findCond A" "setControllerRef (nextWorld A c i) = setControllerRef A"
  "deepEqual (nextWorld A c i) = deepEqual A" "decodeValues (nextWorld A c i) = decodeValues A"
  by (simp_all add: nextWorld_def)

lemma nextWorld_decode: "decodeConfigValues (nextWorld A c i) = decodeConfigValues A"
  by (intro ext) (simp add: decodeConfigValues_def split: option.split list.split)

lemma nextWorld_config [simp]: "effectiveOf (nextWorld A c i) r = effectiveOf A r"
  by (simp add: effectiveOf_def nextWorld_decode split: sum.split)

lemma nextWorld_binding [simp]: "desiredBinding (nextWorld A c i) = desiredBinding A"
  by (intro ext) (simp add: desiredBinding_def)

lemma nextWorld_recorded [simp]: "recorded (nextWorld A c i) = recorded A"
  by (intro ext) (simp add: recorded_def projectedAt_def conditionsAt_def)

lemma bump_simps [simp]:
  "objectKey (cMeta (bumpC v c)) = objectKey (cMeta c)" "cSpec (bumpC v c) = cSpec c" "cStatus (bumpC v c) = cStatus c"
  "Namespace (cMeta (bumpC v c)) = Namespace (cMeta c)" "Labels (cMeta (bumpC v c)) = Labels (cMeta c)"
  "UID (cMeta (bumpC v c)) = UID (cMeta c)" "Name (cMeta (bumpC v c)) = Name (cMeta c)"
  "Generation (cMeta (bumpC v c)) = Generation (cMeta c)"
  "DeletionTimestamp (cMeta (bumpC v c)) = DeletionTimestamp (cMeta c)"
  "iSpec (bumpI v g i) = iSpec i" "iStatus (bumpI v g i) = iStatus i" "Name (iMeta (bumpI v g i)) = Name (iMeta i)"
  "objectKey (iMeta (bumpI v g i)) = objectKey (iMeta i)" "live (bumpI v g i) = live i"
  by (simp_all add: bumpC_def bumpI_def objectKey_def live_def)

lemma resolve_spec: "cSpec c' = cSpec c \<Longrightarrow> resolveClaimTTL c' tmpl eff = resolveClaimTTL c tmpl eff"
  by (simp add: resolveClaimTTL_def)

lemma ensureMeta_cong:
  "cSpec c' = cSpec c \<Longrightarrow> Labels (cMeta c') = Labels (cMeta c) \<Longrightarrow> fst (ensureMeta c') = fst (ensureMeta c)"
  by (simp add: ensureMeta_def claimWant_def split: prod.split)

lemma recorded_simps [simp]:
  "cMeta (recorded A t1 t2 claim inst) = cMeta claim" "cSpec (recorded A t1 t2 claim inst) = cSpec claim"
  "cPhase (cStatus (recorded A t1 t2 claim inst)) = ClaimBound"
  "cBoundAt (cStatus (recorded A t1 t2 claim inst)) = cBoundAt (cStatus claim)"
  "cExpiresAt (cStatus (recorded A t1 t2 claim inst)) = cExpiresAt (cStatus claim)"
  "cGrantedTTL (cStatus (recorded A t1 t2 claim inst)) = cGrantedTTL (cStatus claim)"
  "cMaxTTLSeconds (cStatus (recorded A t1 t2 claim inst)) = cMaxTTLSeconds (cStatus claim)"
  by (simp_all add: recorded_def projectedAt_def Let_def)

lemma dated_simps [simp]:
  "cMeta (dated c tmpl eff b) = cMeta c" "cSpec (dated c tmpl eff b) = cSpec c"
  "cBoundAt (cStatus (dated c tmpl eff b)) = Some b"
  "cExpiresAt (cStatus (dated c tmpl eff b)) = expiryFrom b (fst (resolveClaimTTL c tmpl eff))"
  "cGrantedTTL (cStatus (dated c tmpl eff b)) = fst (resolveClaimTTL c tmpl eff)"
  "cMaxTTLSeconds (cStatus (dated c tmpl eff b)) = snd (resolveClaimTTL c tmpl eff)"
  by (simp_all add: dated_def setExpiresAt_def setBoundAt_def split: prod.split)

text \<open>Lifetime and deadline are already those of the claim.\<close>

lemma dated_again:
  assumes "cSpec c' = cSpec c" and "cBoundAt (cStatus c') = Some b"
    and "cExpiresAt (cStatus c') = expiryFrom b (fst (resolveClaimTTL c tmpl eff))"
    and "cGrantedTTL (cStatus c') = fst (resolveClaimTTL c tmpl eff)"
    and "cMaxTTLSeconds (cStatus c') = snd (resolveClaimTTL c tmpl eff)"
  shows "dated c' tmpl eff b = c'"
proof -
  have r: "resolveClaimTTL c' tmpl eff = (cGrantedTTL (cStatus c'), cMaxTTLSeconds (cStatus c'))"
    using assms(4,5) by (simp add: resolve_spec [OF assms(1)] prod_eq_iff)
  have "expiryFrom b (cGrantedTTL (cStatus c')) = cExpiresAt (cStatus c')"
    using assms(3,4) by simp
  then show ?thesis
    using assms(2) unfolding dated_def r by (simp add: setExpiresAt_def setBoundAt_def)
qed

text \<open>Conditions that were recorded are recorded unchanged, and so is the status.\<close>

lemma conditionsAt_again:
  assumes "conditionLaws A"
  shows "conditionsAt A t3 t4 (conditionsAt A t1 t2 cs0 g name rdy) g name rdy = conditionsAt A t1 t2 cs0 g name rdy"
proof -
  let ?B = "boundCondition g name" and ?Y = "readyCondition g rdy"
  define cs where "cs = setCond A t2 (setCond A t1 cs0 ?B) ?Y"
  have ty: "condType ?B = ConditionBound" "condType ?Y = ConditionReady" "ConditionBound \<noteq> ConditionReady"
    by (simp_all add: boundCondition_def readyCondition_def condition_def ConditionBound_def ConditionReady_def
        split: option.split)
  obtain y where y: "findCond A cs ConditionReady = Some y" "sameCondition y ?Y"
    using assms(1) ty unfolding conditionLaws_def cs_def by metis
  obtain d where "findCond A (setCond A t1 cs0 ?B) ConditionBound = Some d" and d: "sameCondition d ?B"
    using assms(1) ty unfolding conditionLaws_def by metis
  then have "findCond A cs ConditionBound = Some d"
    using assms(1) ty unfolding conditionLaws_def cs_def by metis
  then have "setCond A t3 cs ?B = cs" using assms(1) ty d unfolding conditionLaws_def by metis
  moreover have "setCond A t4 cs ?Y = cs" using assms(1) ty y unfolding conditionLaws_def by metis
  ultimately show ?thesis by (simp add: conditionsAt_def cs_def)
qed

lemma recorded_again:
  assumes "conditionLaws A" and "iStatus inst' = iStatus inst" and "Name (iMeta inst') = Name (iMeta inst)"
  shows "recorded A t3 t4 (bumpC v (recorded A t1 t2 claim inst)) inst' = bumpC v (recorded A t1 t2 claim inst)"
  using conditionsAt_again [OF assms(1)] assms(2,3)
  by (cases claim) (simp add: recorded_def projectedAt_def Let_def bumpC_def)

text \<open>The instance that was bound is bound already.\<close>

lemma stamp_again: "stampBoundAt (stampBoundAt i b) b = stampBoundAt i b"
  by (simp add: stampBoundAt_def)

lemma binding_fields:
  assumes "referenceLaw A" and "desiredBinding A claim ttl e inst = Inr d"
  shows "iStatus d = iStatus inst" "Name (iMeta d) = Name (iMeta inst)" "live d = live inst"
    "objectKey (iMeta d) = objectKey (iMeta inst)"
proof -
  obtain m where m: "setControllerRef A (ownerRef ''DployInstanceClaim'' (cMeta claim))
      ((iMeta inst)\<lparr>OwnerReferences := []\<rparr>) = Inr m"
    using assms(2) by (auto simp: desiredBinding_def split: sum.splits)
  obtain xs where "m = (iMeta inst)\<lparr>OwnerReferences := []\<rparr>\<lparr>OwnerReferences := xs\<rparr>" by (rule set_refs [OF assms(1) m])
  with m assms(2) show "iStatus d = iStatus inst" "Name (iMeta d) = Name (iMeta inst)" "live d = live inst"
    "objectKey (iMeta d) = objectKey (iMeta inst)"
    by (auto simp: desiredBinding_def Let_def stampBoundAt_def live_def objectKey_def split: option.splits if_splits)
qed

lemma binding_cong:
  assumes "cSpec claim' = cSpec claim" and "Name (cMeta claim') = Name (cMeta claim)" and "UID (cMeta claim') = UID (cMeta claim)"
    and "cBoundAt (cStatus claim') = cBoundAt (cStatus claim)"
  shows "desiredBinding A claim' ttl e inst = desiredBinding A claim ttl e inst"
  using assms by (simp add: desiredBinding_def ownerRef_def Let_def cong: sum.case_cong)

lemma binding_again:
  assumes "referenceLaw A" and "desiredBinding A claim ttl e inst = Inr d" and "cBoundAt (cStatus claim) = Some b"
  shows "desiredBinding A claim ttl e (bumpI v g d) = Inr (bumpI v g d)"
proof -
  let ?r = "ownerRef ''DployInstanceClaim'' (cMeta claim)" and ?n = "(iMeta inst)\<lparr>OwnerReferences := []\<rparr>"
  obtain m where m: "setControllerRef A ?r ?n = Inr m" using assms(2) by (auto simp: desiredBinding_def split: sum.splits)
  obtain xs where xs: "m = ?n\<lparr>OwnerReferences := xs\<rparr>" and "\<forall>n. Namespace n = Namespace ?n
      \<longrightarrow> OwnerReferences n = OwnerReferences ?n \<longrightarrow> setControllerRef A ?r n = Inr (n\<lparr>OwnerReferences := xs\<rparr>)"
    by (rule set_refs [OF assms(1) m])
  then have again: "\<And>n. Namespace n = Namespace (iMeta inst)
      \<Longrightarrow> OwnerReferences n = [] \<Longrightarrow> setControllerRef A ?r n = Inr (n\<lparr>OwnerReferences := xs\<rparr>)" by simp
  let ?l = "\<lambda>l. l(LabelClaim \<mapsto> Name (cMeta claim), LabelClaimUID \<mapsto> UID (cMeta claim),
      LabelOwner \<mapsto> sanitize (cOwner (cSpec claim)))"
  have twice: "?l (?l l) = ?l l" for l by (auto simp: fun_upd_def label_defs)
  show ?thesis
  proof (cases "get (Annotations (iMeta inst)) AnnotationBoundAt = []")
    case True
    then show ?thesis
      using assms(2,3) m again twice unfolding desiredBinding_def xs
      by (auto simp: Let_def bumpI_def stampBoundAt_def)
  next
    case False
    then show ?thesis
      using assms(2,3) m again twice unfolding desiredBinding_def xs
      by (auto simp: Let_def bumpI_def stampBoundAt_def)
  qed
qed

text \<open>The claim a run records, and the world it leaves, in which that claim was stored.\<close>

lemma synced_fields:
  assumes "referenceLaw A" and "desiredBinding A claim ttl e inst = Inr d" and "syncedTo A inst d inst1"
  shows "iStatus inst1 = iStatus inst" "Name (iMeta inst1) = Name (iMeta inst)" "live inst1 = live inst"
  using binding_fields [OF assms(1,2)] assms(3) by (auto simp: syncedTo_def split: if_splits)

lemma left_steady:
  assumes "steady A c tmpl eff inst b" and "c1 = recorded A t1 t2 (dated c tmpl eff b) inst1"
  shows "steady (nextWorld A (bumpC v c1) inst1) (bumpC v c1) tmpl eff inst1 b"
  using assms(1) resolve_spec [of "bumpC v c1" c]
  by (simp add: steady_def templateKey_def assms(2) cong: option.case_cong)

lemma left_bound:
  assumes "boundSince A c inst b" and "steady A c tmpl eff inst b" and "c1 = recorded A t1 t2 (dated c tmpl eff b) inst1"
    and "iStatus inst1 = iStatus inst" and "live inst1 = live inst"
  shows "boundSince (nextWorld A (bumpC v c1) inst1) (bumpC v c1) inst1 b"
proof -
  have "\<not> isExpired (bumpC v c1) (reNow A h)" for h
    using deadline_ahead [OF assms(2), of h] by (simp add: isExpired_def assms(3))
  moreover have "fst (ensureMeta (bumpC v c1)) = fst (ensureMeta c)"
    by (rule ensureMeta_cong) (simp_all add: assms(3))
  ultimately show ?thesis using assms(1,4,5) by (simp add: boundSince_def assms(3))
qed

text \<open>There, synchronising finds the instance as it is wanted.\<close>

lemma left_synced:
  assumes "helperLaws A" and "desiredBinding A claim ttl e inst = Inr d" and "syncedTo A inst d inst1"
    and "cBoundAt (cStatus claim) = Some b" and "c1 = recorded A t1 t2 claim inst1"
  obtains d1 where "desiredBinding A (bumpC v c1) ttl e inst1 = Inr d1" and "deepEqual A inst1 d1"
proof -
  have r: "referenceLaw A" using assms(1) by (simp add: helperLaws_def)
  have c: "desiredBinding A (bumpC v c1) ttl e i = desiredBinding A claim ttl e i" for i
    by (rule binding_cong) (simp_all add: assms(5))
  show ?thesis
  proof (cases "deepEqual A inst d")
    case True
    with assms(2,3) c that show ?thesis by (simp add: syncedTo_def)
  next
    case False
    then obtain v g where "inst1 = bumpI v g d" using assms(3) by (auto simp: syncedTo_def)
    then have "desiredBinding A claim ttl e inst1 = Inr inst1"
      using binding_again [OF r assms(2,4)] by simp
    moreover have "deepEqual A inst1 inst1" using assms(1) by (simp add: helperLaws_def)
    ultimately show ?thesis using that c by simp
  qed
qed

text \<open>The run after it patches the status with the claim it has read.\<close>

lemma second_run:
  assumes "helperLaws A" and "steady A c tmpl eff inst b" and "boundSince A c inst b"
    and "desiredBinding A (dated c tmpl eff b) (fst (resolveClaimTTL c tmpl eff))
      (expiryFrom b (fst (resolveClaimTTL c tmpl eff))) inst = Inr d"
    and "syncedTo A inst d inst1" and "c1 = recorded A t1 t2 (dated c tmpl eff b) inst1"
  shows "\<exists>r. writes (logged (Reconcile (nextWorld A (bumpC v c1) inst1) R (objectKey (cMeta c))) [])
      = [EPatchClaimStatus (bumpC v c1) (bumpC v c1) r]"
proof -
  let ?A = "nextWorld A (bumpC v c1) inst1" and ?c = "bumpC v c1" and ?ttl = "fst (resolveClaimTTL c tmpl eff)"
  have laws: "referenceLaw A" "conditionLaws A" using assms(1) by (simp_all add: helperLaws_def)
  have key: "objectKey (cMeta c) = objectKey (cMeta ?c)" by (simp add: assms(6))
  note still = left_steady [OF assms(2,6), of v] and fields = synced_fields [OF laws(1) assms(4,5)]
  have same: "resolveClaimTTL ?c tmpl eff = resolveClaimTTL c tmpl eff"
    by (rule resolve_spec) (simp add: assms(6))
  have dated: "dated ?c tmpl eff b = ?c"
    by (rule dated_again [of _ c]) (simp_all add: assms(6))
  obtain d1 where d1: "desiredBinding ?A ?c ?ttl (cExpiresAt (cStatus ?c)) inst1 = Inr d1" "deepEqual ?A inst1 d1"
    using left_synced [OF assms(1,4,5) _ assms(6), of b v] by (auto simp: assms(6))
  have "wp (Reconcile ?A R (objectKey (cMeta ?c))) (\<lambda>_ h. \<exists>t3 t4 r. writes h
      = [EPatchClaimStatus ?c (recorded A t3 t4 ?c inst1) r]) []"
  proof (rule wp_bound_run [OF still left_bound [OF assms(3,2,6) fields(1,3)]], unfold dated same, goal_cases)
    case (1 h0)
    show ?case
      by (rule wp_mono [OF wp_finish [OF _ _ d1(1)]])
        (use still 1 d1(2) in \<open>auto simp: finished_def steady_def syncedTo_def updates_def\<close>)
  qed
  moreover have "recorded A t3 t4 ?c inst1 = ?c" for t3 t4
    unfolding assms(6) by (rule recorded_again [OF laws(2)]) simp_all
  ultimately show ?thesis unfolding wp_def key by simp
qed

text \<open>C13. A reconciled claim is at rest. Take a claim that has been bound for longer than the settling
  window, is not over its deadline, and whose instance has not failed, in a world that does not change
  by itself. Its reconcile writes the instance at most once, and then the status of the claim. The
  next reconcile, reading what was written, writes the instance not at all, and patches the status of
  the claim with the very claim it has read, which changes nothing: the controllers do not wake each
  other forever.\<close>

theorem reconciled_claim_rests:
  assumes "helperLaws A" and "steady A c tmpl eff inst b" and "boundSince A c inst b"
    and "desiredBinding A (dated c tmpl eff b) (fst (resolveClaimTTL c tmpl eff))
      (expiryFrom b (fst (resolveClaimTTL c tmpl eff))) inst = Inr d"
  shows "\<exists>c1 inst1 r.
      writes (logged (Reconcile A R (objectKey (cMeta c))) [])
        = updates A inst d inst1 @ [EPatchClaimStatus c c1 r]
      \<and> (\<forall>v. \<exists>r'. writes (logged (Reconcile (nextWorld A (bumpC v c1) inst1) R (objectKey (cMeta c))) [])
            = [EPatchClaimStatus (bumpC v c1) (bumpC v c1) r'])"
proof -
  let ?ttl = "fst (resolveClaimTTL c tmpl eff)" and ?claim = "dated c tmpl eff b"
  have world: "reGetInstance A h ClientCache (objectKey (iMeta inst)) = Inr inst"
    "\<exists>v g. reUpdateInstance A h x = Inr (bumpI v g x)" for h x
    using assms(2) by (simp_all add: steady_def)
  have binds: "desiredBinding A ?claim ?ttl (cExpiresAt (cStatus ?claim)) inst = Inr d"
    using assms(4) by simp
  have "wp (Reconcile A R (objectKey (cMeta c))) (\<lambda>_ h. \<exists>t1 t2 inst1 r. syncedTo A inst d inst1
      \<and> writes h = [] @ updates A inst d inst1 @ [EPatchClaimStatus c (recorded A t1 t2 ?claim inst1) r]) []"
    by (rule wp_bound_run [OF assms(2,3)], rule wp_mono [OF wp_finish [OF world binds]]) (auto simp: finished_def)
  then obtain t1 t2 inst1 r where "syncedTo A inst d inst1"
    and "writes (logged (Reconcile A R (objectKey (cMeta c))) [])
      = updates A inst d inst1 @ [EPatchClaimStatus c (recorded A t1 t2 ?claim inst1) r]"
    by (auto simp: wp_def)
  with second_run [OF assms this(1) refl] show ?thesis by blast
qed

section \<open>An example\<close>

lemma setCondition_same:
  "findCondition cs (condType c) = Some d \<Longrightarrow> sameCondition d c \<Longrightarrow> setCondition t cs c = cs"
  by (induction cs) (auto simp: findCondition_def sameCondition_def split: if_splits)

lemma conditionLaws_sample:
  assumes "setCond A = setCondition" and "findCond A = findCondition"
  shows "conditionLaws A"
proof -
  have "findCondition cs (condType c) = Some d \<longrightarrow> sameCondition d c \<longrightarrow> setCondition t cs c = cs" for t cs c d
    using setCondition_same by blast
  moreover have "\<exists>d. findCondition (setCondition t cs c) (condType c) = Some d \<and> sameCondition d c" for t cs c
    by (simp add: findCondition_set sameCondition_def)
  moreover have "ty \<noteq> condType c \<longrightarrow> findCondition (setCondition t cs c) ty = findCondition cs ty" for t cs c ty
    by (simp add: findCondition_set)
  ultimately show ?thesis unfolding conditionLaws_def assms by (intro conjI allI)
qed

lemma referenceLaw_sample:
  assumes "setControllerRef A = addController"
  shows "referenceLaw A"
  unfolding referenceLaw_def assms
proof (intro allI impI)
  fix r m m' assume m': "addController r m = Inr m'"
  let ?xs = "filter (\<lambda>q. refUID q \<noteq> refUID r) (OwnerReferences m) @ [r]"
  have free: "\<not> (\<exists>q\<in>set (OwnerReferences m). refController q \<and> refUID q \<noteq> refUID r)"
    using m' unfolding addController_def by (rule contrapos_pn) simp
  with m' have "m' = m\<lparr>OwnerReferences := ?xs\<rparr>" unfolding addController_def by simp
  moreover have "addController r n = Inr (n\<lparr>OwnerReferences := ?xs\<rparr>)" if "OwnerReferences n = OwnerReferences m" for n
    using free unfolding addController_def that by simp
  ultimately show "\<exists>xs. m' = m\<lparr>OwnerReferences := xs\<rparr> \<and> (\<forall>n. Namespace n = Namespace m \<longrightarrow>
      OwnerReferences n = OwnerReferences m \<longrightarrow> addController r n = Inr (n\<lparr>OwnerReferences := xs\<rparr>))" by blast
qed

definition restClaim :: DployInstanceClaim where
  "restClaim = \<lparr>cMeta = emptyMeta\<lparr>Name := ''a'', Namespace := ''d'', UID := ''u'',
       Labels := [LabelManaged \<mapsto> ''true'', LabelTemplate \<mapsto> ''web'', LabelOwner \<mapsto> ''alice'']\<rparr>,
     cSpec = \<lparr>cTemplateRef = ''web'', cOwner = ''alice'', cParams = Map.empty, cTTLSeconds = 600, cWaitForPool = False\<rparr>,
     cStatus = emptyClaimStatus\<lparr>cPhase := ClaimBound, cBoundAt := Some 0\<rparr>\<rparr>"

definition restTemplate :: DployTemplate where
  "restTemplate = tSpec_update (\<lambda>s. s\<lparr>tEnabled := True\<rparr>) emptyTemplate"

definition restInstance :: DployInstance where
  "restInstance = emptyInstance\<lparr>iMeta := emptyMeta\<lparr>Name := ''i'', Namespace := ''d'', UID := ''x''\<rparr>\<rparr>"

definition restApi :: api where
  "restApi = stubApi\<lparr>reNow := (\<lambda>h. 60 * second), reGetClaim := (\<lambda>h k. Inr restClaim),
     reGetTemplate := (\<lambda>h k. Inr restTemplate), reListInstances := (\<lambda>h rd ns sel. Inr [restInstance]),
     reGetInstance := (\<lambda>h rd k. Inr restInstance), deepEqual := (=)\<rparr>"

lemma bumpI_same: "bumpI (ResourceVersion (iMeta x)) (Generation (iMeta x)) x = x"
  by (simp add: bumpI_def)

lemma restApi_laws: "helperLaws restApi"
  by (simp add: helperLaws_def restApi_def stubApi_def conditionLaws_sample referenceLaw_sample)

lemma rest_lifetime: "fst (resolveClaimTTL restClaim restTemplate fallbacks) = 600"
  by (simp add: resolveClaimTTL_def restClaim_def restTemplate_def emptyTemplate_def fallbacks_def Let_def
      resolveInstanceTTL_def maxLifetime_def extendBudget_def defaultTTLSeconds_def defaultExtendSeconds_def
      defaultMaxExtends_def wrap64_id min64_def max64_def)

lemma restApi_steady: "steady restApi restClaim restTemplate fallbacks restInstance 0"
proof -
  have "\<exists>v g. x = bumpI v g x" for x using bumpI_same [of x] by metis
  then show ?thesis
    by (simp add: steady_def rest_lifetime expiryFrom_def seconds_exact)
       (simp add: restApi_def stubApi_def restTemplate_def effectiveOf_def missing_def quotaSettleWindow_def second_def
         timeSub_def min64_def max64_def)
qed

lemma alice_label: "sanitize ''alice'' = ''alice''" by code_simp

lemma restApi_bound: "boundSince restApi restClaim restInstance 0"
  by (simp add: boundSince_def restClaim_def restInstance_def emptyMeta_def emptyInstance_def emptyClaimStatus_def
      isZeroPtr_def isExpired_def live_def ensureMeta_def claimWant_def alice_label label_defs get_def Let_def)

theorem reconciled_claim_rests_witness:
  "\<exists>d c1 inst1 r. d \<noteq> restInstance
     \<and> writes (logged (Reconcile restApi None (objectKey (cMeta restClaim))) [])
       = [EUpdateInstance d (Inr inst1), EPatchClaimStatus restClaim c1 r]
     \<and> (\<forall>v. \<exists>r'. writes (logged (Reconcile (nextWorld restApi (bumpC v c1) inst1) None (objectKey (cMeta restClaim))) [])
           = [EPatchClaimStatus (bumpC v c1) (bumpC v c1) r'])"
proof -
  obtain d where d: "desiredBinding restApi (dated restClaim restTemplate fallbacks 0)
      (fst (resolveClaimTTL restClaim restTemplate fallbacks))
      (expiryFrom 0 (fst (resolveClaimTTL restClaim restTemplate fallbacks))) restInstance = Inr d"
    by (simp add: desiredBinding_def restApi_def stubApi_def addController_def Let_def)
  have "iOwner (iSpec d) = ''alice''"
    using d by (auto simp: desiredBinding_def Let_def restClaim_def split: sum.splits)
  then have "d \<noteq> restInstance" by (auto simp: restInstance_def emptyInstance_def)
  moreover from this have "updates restApi restInstance d inst1 = [EUpdateInstance d (Inr inst1)]" for inst1
    by (simp add: updates_def restApi_def)
  ultimately show ?thesis
    using reconciled_claim_rests [OF restApi_laws restApi_steady restApi_bound d, of None] by auto
qed

end
