(* ===== verification/Worlds.thy ===== *)
theory Worlds
imports Settling
begin

text \<open>
  One controller run again and again while nobody else acts. A world is a record \<open>api\<close> whose reads do
  not depend on what the run has done so far and which accepts every write; \<open>afterRun\<close> is the world a
  run leaves, in which what it wrote is what is read, \<open>worlds\<close> iterates it. A run is \<open>idle\<close> when none of
  its writes changes anything: a \<^verbatim>\<open>CreateOrUpdate\<close> that finds the object as it is wanted, or a
  patch between equal objects, of which the client libraries send nothing or an empty patch. The
  controllers are shown to reach such runs in \<open>Converging\<close> and \<open>PoolRest\<close>.
\<close>

section \<open>A world at rest\<close>

definition stable :: "api \<Rightarrow> bool" where
  "stable A \<longleftrightarrow>
     (\<forall>h k. reGetClaim A h k = reGetClaim A [] k)
   \<and> (\<forall>h k. reGetTemplate A h k = reGetTemplate A [] k)
   \<and> (\<forall>h rd k. reGetInstance A h rd k = reGetInstance A [] rd k)
   \<and> (\<forall>h k. reGetConfig A h k = reGetConfig A [] k)
   \<and> (\<forall>h k. reGetRelease A h k = reGetRelease A [] k)
   \<and> (\<forall>h rd ns sel. reListInstances A h rd ns sel = reListInstances A [] rd ns sel)
   \<and> (\<forall>h n. reFetchNamespace A h n = reFetchNamespace A [] n)
   \<and> (\<forall>h kd k. reFetchSource A h kd k = reFetchSource A [] kd k)
   \<and> (\<forall>h k. reFetchChart A h k = reFetchChart A [] k)
   \<and> (\<forall>h k. reFetchRelease A h k = reFetchRelease A [] k)"

lemma stableD:
  assumes "stable A"
  shows "reGetTemplate A h k = reGetTemplate A [] k" "reGetInstance A h rd k = reGetInstance A [] rd k"
    "reGetConfig A h k = reGetConfig A [] k" "reGetRelease A h k = reGetRelease A [] k"
    "reListInstances A h rd ns sel = reListInstances A [] rd ns sel"
    "reFetchNamespace A h n = reFetchNamespace A [] n" "reFetchSource A h kd k = reFetchSource A [] kd k"
    "reFetchChart A h k = reFetchChart A [] k" "reFetchRelease A h k = reFetchRelease A [] k"
    "reGetClaim A h k = reGetClaim A [] k"
  using assms unfolding stable_def by - metis+

definition bumpT :: "string \<Rightarrow> DployTemplate \<Rightarrow> DployTemplate" where
  "bumpT v = tMeta_update (\<lambda>m. m\<lparr>ResourceVersion := v\<rparr>)"

definition bumpH :: "string \<Rightarrow> HelmChart \<Rightarrow> HelmChart" where
  "bumpH v = hcMeta_update (\<lambda>m. m\<lparr>ResourceVersion := v\<rparr>)"

definition born :: "string \<Rightarrow> string \<Rightarrow> string \<Rightarrow> int \<Rightarrow> Time \<Rightarrow> DployInstance \<Rightarrow> DployInstance" where
  "born n u v g t = iMeta_update (\<lambda>m. m\<lparr>Name := n, UID := u, ResourceVersion := v, Generation := g, CreationTimestamp := t\<rparr>)"

text \<open>Every write is stored as it is, under a new version; a status write leaves the generation alone.\<close>

definition accepting :: "api \<Rightarrow> bool" where
  "accepting A \<longleftrightarrow>
     (\<forall>h x. \<exists>v g. reUpdateInstance A h x = Inr (bumpI v g x))
   \<and> (\<forall>h o' x. \<exists>v. rePatchInstanceStatus A h o' x = Inr (bumpI v (Generation (iMeta x)) x))
   \<and> (\<forall>h o' x. \<exists>v. rePatchTemplateStatus A h o' x = Inr (bumpT v x))
   \<and> (\<forall>h x. \<exists>n u v g t. reCreateInstance A h x = Inr (born n u v g t x))
   \<and> (\<forall>h k p. reDeleteInstance A h k p = Inr ())
   \<and> (\<forall>h n. reApplyNamespace A h n = Inr ())
   \<and> (\<forall>h kd s. reApplySource A h kd s = Inr ())
   \<and> (\<forall>h c. \<exists>v. reApplyChart A h c = Inr (bumpH v c))
   \<and> (\<forall>h r. reApplyRelease A h r = Inr ())
   \<and> (\<forall>h x. \<exists>v. reUpdateClaim A h x = Inr (bumpC v x))
   \<and> (\<forall>h x0 x. \<exists>v. rePatchClaimStatus A h x0 x = Inr (bumpC v x))"

lemma acceptingD:
  assumes "accepting A"
  shows "\<exists>v g. reUpdateInstance A h x = Inr (bumpI v g x)"
    "\<exists>v. rePatchInstanceStatus A h x0 x = Inr (bumpI v (Generation (iMeta x)) x)"
    "\<exists>v. rePatchTemplateStatus A h t0 t = Inr (bumpT v t)"
    "\<exists>n u v g t. reCreateInstance A h x = Inr (born n u v g t x)"
    "reDeleteInstance A h k p = Inr ()" "reApplyNamespace A h n = Inr ()" "reApplySource A h kd s = Inr ()"
    "\<exists>v. reApplyChart A h c = Inr (bumpH v c)" "reApplyRelease A h r = Inr ()"
    "\<exists>v. reUpdateClaim A h cl = Inr (bumpC v cl)" "\<exists>v. rePatchClaimStatus A h cl0 cl = Inr (bumpC v cl)"
  using assms unfolding accepting_def by - metis+

text \<open>The object a \<^verbatim>\<open>CreateOrUpdate\<close> works on is always there, under the name asked for: the one
  found, or a new one. A release that cannot be read yet is a new one that nothing is known about.\<close>

definition keyed :: "api \<Rightarrow> bool" where
  "keyed A \<longleftrightarrow>
     (\<forall>n. \<exists>x. reFetchNamespace A [] n = Inr x \<and> nsName x = n)
   \<and> (\<forall>kd k. \<exists>x. reFetchSource A [] kd k = Inr x \<and> objectKey (srcMeta x) = k)
   \<and> (\<forall>k. \<exists>x. reFetchChart A [] k = Inr x \<and> objectKey (hcMeta x) = k)
   \<and> (\<forall>k. \<exists>x. reFetchRelease A [] k = Inr x \<and> objectKey (hrMeta x) = k
         \<and> (case reGetRelease A [] k of Inr y \<Rightarrow> hrConditions y = hrConditions x
            | Inl e \<Rightarrow> IsNotFound e \<and> hrConditions x = []))"

lemma keyedD:
  assumes "keyed A"
  shows "\<exists>x. reFetchNamespace A [] n = Inr x \<and> nsName x = n"
    "\<exists>x. reFetchSource A [] kd k = Inr x \<and> objectKey (srcMeta x) = k"
    "\<exists>x. reFetchChart A [] k = Inr x \<and> objectKey (hcMeta x) = k"
    "\<exists>x. reFetchRelease A [] k = Inr x \<and> objectKey (hrMeta x) = k
       \<and> (case reGetRelease A [] k of Inr y \<Rightarrow> hrConditions y = hrConditions x
          | Inl e \<Rightarrow> IsNotFound e \<and> hrConditions x = [])"
  using assms unfolding keyed_def by - blast+

section \<open>Runs that change nothing\<close>

definition noChange :: "log \<Rightarrow> event \<Rightarrow> bool" where
  "noChange h e = (case e of
      EPatchInstanceStatus x y r \<Rightarrow> x = y
    | EPatchTemplateStatus x y r \<Rightarrow> x = y
    | EPatchClaimStatus x y r \<Rightarrow> x = y
    | EApplyNamespace n r \<Rightarrow> EFetchNamespace (nsName n) (Inr n) \<in> set h
    | EApplySource kd s r \<Rightarrow> EFetchSource kd (objectKey (srcMeta s)) (Inr s) \<in> set h
    | EApplyChart c r \<Rightarrow> EFetchChart (objectKey (hcMeta c)) (Inr c) \<in> set h
    | EApplyRelease x r \<Rightarrow> EFetchRelease (objectKey (hrMeta x)) (Inr x) \<in> set h
    | _ \<Rightarrow> isRead e)"

definition idle :: "log \<Rightarrow> bool" where
  "idle h \<longleftrightarrow> (\<forall>e\<in>set h. noChange h e)"

section \<open>The world a run leaves\<close>

definition latest :: "(event \<Rightarrow> 'a option) \<Rightarrow> log \<Rightarrow> 'a option" where
  "latest f h = foldl (\<lambda>acc e. case f e of None \<Rightarrow> acc | Some x \<Rightarrow> Some x) None h"

lemma latest_fold: "foldl (\<lambda>acc e. case f e of None \<Rightarrow> acc | Some x \<Rightarrow> Some x) a h
    = (case latest f h of None \<Rightarrow> a | Some x \<Rightarrow> Some x)"
  by (induction h rule: rev_induct) (auto simp: latest_def split: option.split)

lemma latest_simps [simp]:
  "latest f [] = None"
  "latest f (h @ h') = (case latest f h' of None \<Rightarrow> latest f h | Some x \<Rightarrow> Some x)"
  "latest f (e # h) = (case latest f h of None \<Rightarrow> f e | Some x \<Rightarrow> Some x)"
proof -
  show "latest f [] = None" by (simp add: latest_def)
  have a: "latest f (xs @ ys) = (case latest f ys of None \<Rightarrow> latest f xs | Some x \<Rightarrow> Some x)" for xs ys
    unfolding latest_def foldl_append by (rule latest_fold [unfolded latest_def])
  then show "latest f (h @ h') = (case latest f h' of None \<Rightarrow> latest f h | Some x \<Rightarrow> Some x)" .
  have "latest f [e] = f e" by (simp add: latest_def split: option.split)
  then show "latest f (e # h) = (case latest f h of None \<Rightarrow> f e | Some x \<Rightarrow> Some x)"
    by (metis a append_Cons append_Nil)
qed

definition kept :: "('k \<Rightarrow> event \<Rightarrow> 'a option) \<Rightarrow> log \<Rightarrow> ('k \<Rightarrow> 'a) \<Rightarrow> 'k \<Rightarrow> 'a" where
  "kept f h old k = (case latest (f k) h of None \<Rightarrow> old k | Some x \<Rightarrow> x)"

text \<open>What an event stores under a key.\<close>

definition at :: "('a \<Rightarrow> ObjectMeta) \<Rightarrow> NamespacedName \<Rightarrow> 'a \<Rightarrow> (error + 'a) option" where
  "at meta k x = (if objectKey (meta x) = k then Some (Inr x) else None)"

definition instanceAt :: "NamespacedName \<Rightarrow> event \<Rightarrow> (error + DployInstance) option" where
  "instanceAt k e = (case e of
      ECreateInstance x (Inr y) \<Rightarrow> at iMeta k y
    | EUpdateInstance x (Inr y) \<Rightarrow> at iMeta k y
    | EPatchInstanceStatus x0 x (Inr y) \<Rightarrow> at iMeta k y
    | EDeleteInstance k' p (Inr u) \<Rightarrow> (if k' = k then Some (Inl (ApiError NotFound ''not found'')) else None)
    | _ \<Rightarrow> None)"

definition claimAt :: "NamespacedName \<Rightarrow> event \<Rightarrow> (error + DployInstanceClaim) option" where
  "claimAt k e = (case e of
      EUpdateClaim x (Inr y) \<Rightarrow> at cMeta k y | EPatchClaimStatus x0 x (Inr y) \<Rightarrow> at cMeta k y
    | ECreateClaim x (Inr y) \<Rightarrow> at cMeta k y | EPatchClaim x0 x (Inr y) \<Rightarrow> at cMeta k y
    | EDeleteClaim k' p (Inr u) \<Rightarrow> (if k' = k then Some (Inl (ApiError NotFound ''not found'')) else None)
    | _ \<Rightarrow> None)"

definition templateAt :: "NamespacedName \<Rightarrow> event \<Rightarrow> (error + DployTemplate) option" where
  "templateAt k e = (case e of EPatchTemplateStatus x0 x (Inr y) \<Rightarrow> at tMeta k y | _ \<Rightarrow> None)"

definition namespaceAt :: "string \<Rightarrow> event \<Rightarrow> (error + NamespaceObj) option" where
  "namespaceAt n e = (case e of
      EApplyNamespace x (Inr u) \<Rightarrow> (if nsName x = n then Some (Inr x) else None) | _ \<Rightarrow> None)"

definition sourceAt :: "string \<Rightarrow> NamespacedName \<Rightarrow> event \<Rightarrow> (error + FluxSource) option" where
  "sourceAt kd k e = (case e of
      EApplySource kd' x (Inr u) \<Rightarrow> (if kd' = kd then at srcMeta k x else None) | _ \<Rightarrow> None)"

definition chartAt :: "NamespacedName \<Rightarrow> event \<Rightarrow> (error + HelmChart) option" where
  "chartAt k e = (case e of EApplyChart x (Inr y) \<Rightarrow> at hcMeta k y | _ \<Rightarrow> None)"

definition releaseAt :: "NamespacedName \<Rightarrow> event \<Rightarrow> (error + HelmRelease) option" where
  "releaseAt k e = (case e of EApplyRelease x (Inr u) \<Rightarrow> at hrMeta k x | _ \<Rightarrow> None)"

lemmas at_defs = instanceAt_def claimAt_def templateAt_def namespaceAt_def sourceAt_def chartAt_def releaseAt_def at_def

text \<open>Lists follow the writes, too.\<close>

definition selected :: "string \<Rightarrow> selector \<Rightarrow> DployInstance \<Rightarrow> bool" where
  "selected ns sel i \<longleftrightarrow> Namespace (iMeta i) = ns \<and> (\<forall>(k, v)\<in>set sel. get (Labels (iMeta i)) k = v)"

definition replaced :: "DployInstance \<Rightarrow> DployInstance list \<Rightarrow> DployInstance list" where
  "replaced y items = map (\<lambda>i. if objectKey (iMeta i) = objectKey (iMeta y) then y else i) items"

definition relisted :: "string \<Rightarrow> selector \<Rightarrow> DployInstance \<Rightarrow> DployInstance list \<Rightarrow> DployInstance list" where
  "relisted ns sel y items =
     (if objectKey (iMeta y) \<in> (\<lambda>i. objectKey (iMeta i)) ` set items
      then filter (selected ns sel) (replaced y items)
      else if selected ns sel y then items @ [y] else items)"

fun listedAfter :: "string \<Rightarrow> selector \<Rightarrow> log \<Rightarrow> DployInstance list \<Rightarrow> DployInstance list" where
  "listedAfter ns sel [] items = items"
| "listedAfter ns sel (e # h) items = listedAfter ns sel h (case e of
      ECreateInstance x (Inr y) \<Rightarrow> if selected ns sel y then items @ [y] else items
    | EUpdateInstance x (Inr y) \<Rightarrow> relisted ns sel y items
    | EPatchInstanceStatus x0 x (Inr y) \<Rightarrow> replaced y items
    | EDeleteInstance k p (Inr u) \<Rightarrow> filter (\<lambda>i. objectKey (iMeta i) \<noteq> k) items
    | _ \<Rightarrow> items)"

lemma listedAfter_append: "listedAfter ns sel (h @ h') items = listedAfter ns sel h' (listedAfter ns sel h items)"
  by (induction h arbitrary: items) simp_all

definition afterRun :: "api \<Rightarrow> log \<Rightarrow> api" where
  "afterRun A h0 = A\<lparr>
     reGetInstance := (\<lambda>h rd. kept instanceAt h0 (reGetInstance A h rd)),
     reListInstances := (\<lambda>h rd ns sel. map_sum id (listedAfter ns sel h0) (reListInstances A h rd ns sel)),
     reGetClaim := (\<lambda>h. kept claimAt h0 (reGetClaim A h)),
     reGetTemplate := (\<lambda>h. kept templateAt h0 (reGetTemplate A h)),
     reFetchNamespace := (\<lambda>h. kept namespaceAt h0 (reFetchNamespace A h)),
     reFetchSource := (\<lambda>h kd. kept (sourceAt kd) h0 (reFetchSource A h kd)),
     reFetchChart := (\<lambda>h. kept chartAt h0 (reFetchChart A h)),
     reFetchRelease := (\<lambda>h. kept releaseAt h0 (reFetchRelease A h)),
     reGetRelease := (\<lambda>h. kept releaseAt h0 (reGetRelease A h))\<rparr>"

fun worlds :: "api \<Rightarrow> (api \<Rightarrow> 'a io) \<Rightarrow> nat \<Rightarrow> api" where
  "worlds A m 0 = A"
| "worlds A m (Suc n) = afterRun (worlds A m n) (logged (m (worlds A m n)) [])"

lemma afterRun_reads [simp]:
  "reGetInstance (afterRun A h0) h rd = kept instanceAt h0 (reGetInstance A h rd)"
  "reListInstances (afterRun A h0) h rd ns sel = map_sum id (listedAfter ns sel h0) (reListInstances A h rd ns sel)"
  "reGetClaim (afterRun A h0) h = kept claimAt h0 (reGetClaim A h)"
  "reGetTemplate (afterRun A h0) h = kept templateAt h0 (reGetTemplate A h)"
  "reFetchNamespace (afterRun A h0) h = kept namespaceAt h0 (reFetchNamespace A h)"
  "reFetchSource (afterRun A h0) h kd = kept (sourceAt kd) h0 (reFetchSource A h kd)"
  "reFetchChart (afterRun A h0) h = kept chartAt h0 (reFetchChart A h)"
  "reFetchRelease (afterRun A h0) h = kept releaseAt h0 (reFetchRelease A h)"
  "reGetRelease (afterRun A h0) h = kept releaseAt h0 (reGetRelease A h)"
  by (simp_all add: afterRun_def)

lemma afterRun_same [simp]:
  "reNow (afterRun A h0) = reNow A" "reFreshUUID (afterRun A h0) = reFreshUUID A"
  "reGetConfig (afterRun A h0) = reGetConfig A" "reUpdateInstance (afterRun A h0) = reUpdateInstance A"
  "rePatchInstanceStatus (afterRun A h0) = rePatchInstanceStatus A"
  "rePatchTemplateStatus (afterRun A h0) = rePatchTemplateStatus A"
  "reCreateInstance (afterRun A h0) = reCreateInstance A" "reDeleteInstance (afterRun A h0) = reDeleteInstance A"
  "reApplyNamespace (afterRun A h0) = reApplyNamespace A" "reApplySource (afterRun A h0) = reApplySource A"
  "reApplyChart (afterRun A h0) = reApplyChart A" "reApplyRelease (afterRun A h0) = reApplyRelease A"
  "reUpdateClaim (afterRun A h0) = reUpdateClaim A" "rePatchClaimStatus (afterRun A h0) = rePatchClaimStatus A"
  "deepEqual (afterRun A h0) = deepEqual A" "conflictRetries (afterRun A h0) = conflictRetries A"
  "setCond (afterRun A h0) = setCond A" "findCond (afterRun A h0) = findCond A"
  "condIsTrue (afterRun A h0) = condIsTrue A" "setControllerRef (afterRun A h0) = setControllerRef A"
  "hasFinalizer (afterRun A h0) = hasFinalizer A" "addFinalizer (afterRun A h0) = addFinalizer A"
  "parseTemplate (afterRun A h0) = parseTemplate A" "executeTemplate (afterRun A h0) = executeTemplate A"
  "yamlToJSON (afterRun A h0) = yamlToJSON A" "decodeValues (afterRun A h0) = decodeValues A"
  "fluxReadyCondition (afterRun A h0) = fluxReadyCondition A"
  "fluxReconcilingCondition (afterRun A h0) = fluxReconcilingCondition A"
  "fluxProgressingReason (afterRun A h0) = fluxProgressingReason A"
  "fluxProgressingWithRetryReason (afterRun A h0) = fluxProgressingWithRetryReason A"
  "helmRepositoryKind (afterRun A h0) = helmRepositoryKind A" "gitRepositoryKind (afterRun A h0) = gitRepositoryKind A"
  "helmRepositoryTypeDefault (afterRun A h0) = helmRepositoryTypeDefault A"
  "helmRepositoryTypeOCI (afterRun A h0) = helmRepositoryTypeOCI A"
  by (simp_all add: afterRun_def)

lemma afterRun_config [simp]: "effectiveOf (afterRun A h0) r = effectiveOf A r"
proof -
  have "decodeConfigValues (afterRun A h0) = decodeConfigValues A"
    by (intro ext) (simp add: decodeConfigValues_def split: option.split list.split)
  then show ?thesis by (simp add: effectiveOf_def split: sum.split)
qed

lemma afterRun_stable: "stable A \<Longrightarrow> stable (afterRun A h)"
  unfolding stable_def afterRun_reads afterRun_same kept_def by metis

lemma afterRun_accepting: "accepting A \<Longrightarrow> accepting (afterRun A h)"
  by (simp add: accepting_def)

text \<open>Reading what was kept: the last object written under a key has that key.\<close>

lemma latest_cases:
  assumes "latest f h = Some x" and "\<And>e y. e \<in> set h \<Longrightarrow> f e = Some y \<Longrightarrow> P y"
  shows "P x"
  using assms by (induction h) (auto split: option.splits)

lemma kept_cases:
  assumes "P (old k)" and "\<And>e y. f k e = Some y \<Longrightarrow> P y"
  shows "P (kept f h old k)"
proof (cases "latest (f k) h")
  case (Some x)
  then have "P x" using assms(2) by (rule latest_cases)
  with Some show ?thesis by (simp add: kept_def)
qed (simp add: kept_def assms(1))

lemma afterRun_keyed:
  assumes "keyed A"
  shows "keyed (afterRun A h)"
proof -
  have "\<exists>x. kept namespaceAt h (reFetchNamespace A []) n = Inr x \<and> nsName x = n" for n
    by (rule kept_cases) (use assms in \<open>auto simp: keyed_def namespaceAt_def split: event.splits sum.splits if_splits\<close>)
  moreover have "\<exists>x. kept (sourceAt kd) h (reFetchSource A [] kd) k = Inr x \<and> objectKey (srcMeta x) = k" for kd k
    by (rule kept_cases) (use assms in \<open>auto simp: keyed_def sourceAt_def at_def split: event.splits sum.splits if_splits\<close>)
  moreover have "\<exists>x. kept chartAt h (reFetchChart A []) k = Inr x \<and> objectKey (hcMeta x) = k" for k
    by (rule kept_cases) (use assms in \<open>auto simp: keyed_def chartAt_def at_def split: event.splits sum.splits if_splits\<close>)
  moreover have "\<exists>x. kept releaseAt h (reFetchRelease A []) k = Inr x \<and> objectKey (hrMeta x) = k
      \<and> (case kept releaseAt h (reGetRelease A []) k of Inr y \<Rightarrow> hrConditions y = hrConditions x
         | Inl e \<Rightarrow> IsNotFound e \<and> hrConditions x = [])" for k
  proof (cases "latest (releaseAt k) h")
    case None
    then show ?thesis using assms by (simp add: kept_def keyed_def)
  next
    case (Some r)
    then have "\<exists>x. r = Inr x \<and> objectKey (hrMeta x) = k"
      by (rule latest_cases) (auto simp: releaseAt_def at_def split: event.splits sum.splits if_splits)
    with Some show ?thesis by (auto simp: kept_def)
  qed
  ultimately show ?thesis by (simp add: keyed_def)
qed

text \<open>The clock is not part of what is left.\<close>

definition untimed :: "log \<Rightarrow> log" where
  "untimed h = filter (\<lambda>e. \<forall>t. e \<noteq> ENow t) h"

lemma untimed_simps [simp]:
  "untimed [] = []" "untimed (h @ h') = untimed h @ untimed h'" "untimed (ENow t # h) = untimed h"
  "(\<And>t. e \<noteq> ENow t) \<Longrightarrow> untimed (e # h) = e # untimed h"
  by (simp_all add: untimed_def)

lemma latest_untimed: "(\<And>t. f (ENow t) = None) \<Longrightarrow> latest f (untimed h) = latest f h"
proof (induction h)
  case (Cons e h)
  then show ?case by (cases e) (simp_all split: option.split)
qed simp

lemma at_now: "instanceAt k (ENow t) = None" "claimAt k (ENow t) = None" "templateAt k (ENow t) = None" "namespaceAt n (ENow t) = None"
  "sourceAt kd k (ENow t) = None" "chartAt k (ENow t) = None" "releaseAt k (ENow t) = None"
  by (simp_all add: at_defs)

lemma listedAfter_untimed: "listedAfter ns sel (untimed h) items = listedAfter ns sel h items"
proof (induction h arbitrary: items)
  case (Cons e h)
  then show ?case by (cases e) simp_all
qed simp

lemma afterRun_untimed: "afterRun A (untimed h) = afterRun A h"
  by (simp add: afterRun_def kept_def fun_eq_iff latest_untimed at_now listedAfter_untimed [abs_def])

lemma idle_untimed: "idle (untimed h) \<longleftrightarrow> idle h"
proof -
  have n: "noChange (untimed h) e = noChange h e" for e by (cases e) (simp_all add: noChange_def untimed_def)
  have "noChange h (ENow t)" for t by (simp add: noChange_def)
  then show ?thesis unfolding idle_def n by (auto simp: untimed_def)
qed

end
