(* ===== verification/Provisioning.thy ===== *)
theory Provisioning
imports Worlds InstanceCtrl
begin

text \<open>
  One provisioning run of the instance controller in a world at rest (\<open>Worlds\<close>), in a form that can be
  compared with the next: \<open>planned\<close> gives the calls it makes but for the clock and the status write, the
  instance as it was rendered and how the run ends, \<open>endedAt\<close> the instance it records. In the world
  it leaves, the calls are planned again, change nothing, and end in what was recorded.
\<close>

section \<open>One provisioning run\<close>

definition sourceKind :: "api \<Rightarrow> DployTemplate \<Rightarrow> string" where
  "sourceKind A tmpl = (if csType (tChart (tSpec tmpl)) = ChartSourceHelm then helmRepositoryKind A else gitRepositoryKind A)"

definition sourceKey :: "DployTemplate \<Rightarrow> NamespacedName" where
  "sourceKey tmpl = \<lparr>nnNamespace = Namespace (tMeta tmpl), nnName = templateSourceName tmpl\<rparr>"

definition desiredSource :: "api \<Rightarrow> DployTemplate \<Rightarrow> Effective \<Rightarrow> FluxSource \<Rightarrow> error + FluxSource" where
  "desiredSource A tmpl eff s = (if csType (tChart (tSpec tmpl)) = ChartSourceHelm
     then desiredHelmRepository A tmpl eff s else desiredGitRepository A tmpl eff s)"

definition sourceError :: "DployTemplate \<Rightarrow> error \<Rightarrow> error" where
  "sourceError tmpl = wrapErr (if csType (tChart (tSpec tmpl)) = ChartSourceHelm
     then ''ensure HelmRepository'' else ''ensure GitRepository'')"

text \<open>What a \<^verbatim>\<open>CreateOrUpdate\<close> logs in such a world, and its result.\<close>

definition ensuring :: "event \<Rightarrow> ('o \<Rightarrow> event) \<Rightarrow> error + 'o \<Rightarrow> log" where
  "ensuring fetched applied wanted = fetched # (case wanted of Inl e \<Rightarrow> [] | Inr d \<Rightarrow> [applied d])"

lemma wp_ensureNamespace:
  assumes "accepting A" and "\<And>h. reFetchNamespace A h n = Inr x" and "desiredNamespace inst x = Inr d"
  shows "wp (ensureNamespace A n inst) Q h =
    Q (Inr ()) (h @ ensuring (EFetchNamespace n (Inr x)) (\<lambda>d. EApplyNamespace d (Inr ())) (Inr d))"
  by (simp add: ensureNamespace_def wp_simps assms(2,3) acceptingD [OF assms(1)] ensuring_def)

lemma wp_ensureSource:
  assumes "accepting A" and "\<And>h. reFetchSource A h (sourceKind A tmpl) (sourceKey tmpl) = Inr x"
  shows "wp (ensureSource A tmpl eff) Q h =
    Q (map_sum (sourceError tmpl) (\<lambda>_. (sourceKind A tmpl, templateSourceName tmpl)) (desiredSource A tmpl eff x))
      (h @ ensuring (EFetchSource (sourceKind A tmpl) (sourceKey tmpl) (Inr x))
        (\<lambda>d. EApplySource (sourceKind A tmpl) d (Inr ())) (desiredSource A tmpl eff x))"
  using assms(2)
  by (auto simp: ensureSource_def wp_simps acceptingD [OF assms(1)] ensuring_def desiredSource_def sourceKind_def
      sourceKey_def sourceError_def Let_def split: sum.split)

lemma wp_ensureHelmRelease:
  assumes "accepting A" and "\<And>h. reFetchRelease A h (releaseKey inst) = Inr x"
  shows "wp (ensureHelmRelease A inst tmpl eff kd nm ns vals) Q h =
    Q (map_sum (wrapErr ''ensure HelmRelease'') (\<lambda>_. ()) (desiredRelease A inst tmpl eff kd nm ns vals x))
      (h @ ensuring (EFetchRelease (releaseKey inst) (Inr x)) (\<lambda>d. EApplyRelease d (Inr ()))
        (desiredRelease A inst tmpl eff kd nm ns vals x))"
  using assms(2)
  by (auto simp: ensureHelmRelease_def wp_simps acceptingD [OF assms(1)] ensuring_def releaseKey_def split: sum.split)

text \<open>How a provisioning run ends, and the instance it records then.\<close>

datatype ending = Raced | Broke string string | Held string string | Observed helmReleaseState

definition expiryAt :: "Time \<Rightarrow> DployInstance \<Rightarrow> DployInstance" where
  "expiryAt t inst =
     (if iTTLSeconds (iSpec inst) = -1 then setInstanceExpiry None inst
      else if iSpecExpiresAt (iSpec inst) \<noteq> None then setInstanceExpiry (iSpecExpiresAt (iSpec inst)) inst
      else if iTTLSeconds (iSpec inst) > 0 \<and> isActiveInstance inst \<and> iExpiresAt (iStatus inst) = None
      then setInstanceExpiry (Some (t + seconds (iTTLSeconds (iSpec inst)))) inst else inst)"

definition statedAt :: "api \<Rightarrow> Time \<Rightarrow> ConditionStatus \<Rightarrow> string \<Rightarrow> string \<Rightarrow> DployInstance \<Rightarrow> DployInstance" where
  "statedAt A t st reason message inst = iStatus_update (\<lambda>s. s\<lparr>iConditions :=
     setCond A t (iConditions s) (condition ''Ready'' st reason message (Generation (iMeta inst)))\<rparr>) inst"

definition stamped :: "DployInstance \<Rightarrow> DployInstance" where
  "stamped inst = iStatus_update (\<lambda>s. s\<lparr>iObservedGeneration := Generation (iMeta inst)\<rparr>) inst"

definition endedAt :: "api \<Rightarrow> Time \<Rightarrow> Time \<Rightarrow> ending \<Rightarrow> DployInstance \<Rightarrow> DployInstance option" where
  "endedAt A t1 t2 en inst = (case en of
      Raced \<Rightarrow> None
    | Broke reason message \<Rightarrow>
        Some (stamped (statedAt A t1 CondFalse reason message (setPhase PhaseFailed ''Degraded'' inst)))
    | Held reason message \<Rightarrow>
        Some (stamped (statedAt A t1 CondFalse reason message (setPhase PhaseProvisioning ''Progressing'' inst)))
    | Observed state \<Rightarrow> Some (stamped (expiryAt t2
        (setPhase (phaseFor inst state) (hsHealth state) (statedAt A t1 (hsStatus state) (hsReason state) (hsMessage state) inst)))))"

definition observedRelease :: "error + HelmRelease \<Rightarrow> HelmRelease" where
  "observedRelease r = (case r of Inl e \<Rightarrow> emptyRelease | Inr hr \<Rightarrow> hr)"

definition withRelease :: "DployInstance \<Rightarrow> DployInstance" where
  "withRelease inst = iStatus_update (\<lambda>s. s\<lparr>iEngineRef := engineResourceName inst\<rparr>) inst"

text \<open>The calls of a run but for the clock and the status write, the rendered instance and the ending.\<close>

definition foundNamespace :: "api \<Rightarrow> string \<Rightarrow> NamespaceObj" where
  "foundNamespace A ns = projr (reFetchNamespace A [] ns)"

definition foundSource :: "api \<Rightarrow> DployTemplate \<Rightarrow> FluxSource" where
  "foundSource A tmpl = projr (reFetchSource A [] (sourceKind A tmpl) (sourceKey tmpl))"

definition foundRelease :: "api \<Rightarrow> DployInstance \<Rightarrow> HelmRelease" where
  "foundRelease A i = projr (reFetchRelease A [] (releaseKey i))"

definition namespaceLog :: "api \<Rightarrow> string \<Rightarrow> DployInstance \<Rightarrow> log" where
  "namespaceLog A ns i = ensuring (EFetchNamespace ns (Inr (foundNamespace A ns)))
     (\<lambda>d. EApplyNamespace d (Inr ())) (desiredNamespace i (foundNamespace A ns))"

definition sourceLog :: "api \<Rightarrow> DployTemplate \<Rightarrow> Effective \<Rightarrow> log" where
  "sourceLog A tmpl eff = ensuring (EFetchSource (sourceKind A tmpl) (sourceKey tmpl) (Inr (foundSource A tmpl)))
     (\<lambda>d. EApplySource (sourceKind A tmpl) d (Inr ())) (desiredSource A tmpl eff (foundSource A tmpl))"

definition wantedRelease ::
  "api \<Rightarrow> DployInstance \<Rightarrow> DployTemplate \<Rightarrow> Effective \<Rightarrow> string \<Rightarrow> string \<Rightarrow> error + HelmRelease" where
  "wantedRelease A i tmpl eff ns vals =
     desiredRelease A i tmpl eff (sourceKind A tmpl) (templateSourceName tmpl) ns vals (foundRelease A i)"

definition releaseLog ::
  "api \<Rightarrow> DployInstance \<Rightarrow> DployTemplate \<Rightarrow> Effective \<Rightarrow> string \<Rightarrow> string \<Rightarrow> log" where
  "releaseLog A i tmpl eff ns vals = ensuring (EFetchRelease (releaseKey i) (Inr (foundRelease A i)))
     (\<lambda>d. EApplyRelease d (Inr ())) (wantedRelease A i tmpl eff ns vals)"

definition planRelease ::
  "api \<Rightarrow> DployInstance \<Rightarrow> DployTemplate \<Rightarrow> Effective \<Rightarrow> string \<Rightarrow> string \<Rightarrow> log \<times> DployInstance \<times> ending" where
  "planRelease A i tmpl eff ns vals =
     (case templateSourceReady A tmpl of (ready, reason, message) \<Rightarrow>
        if \<not> ready then ([], i, Held reason message)
        else (case wantedRelease A i tmpl eff ns vals of
          Inl e \<Rightarrow> (releaseLog A i tmpl eff ns vals, i,
            Broke ''HelmReleaseError'' (errText (wrapErr ''ensure HelmRelease'' e)))
        | Inr _ \<Rightarrow> (let seen = reGetRelease A [] (releaseKey i) in
            (releaseLog A i tmpl eff ns vals @ [EGetRelease (releaseKey i) seen], withRelease i,
             Observed (translateHelmRelease A (observedRelease seen))))))"

definition planned :: "api \<Rightarrow> DployInstance \<Rightarrow> DployTemplate \<Rightarrow> Effective \<Rightarrow> log \<times> DployInstance \<times> ending" where
  "planned A inst tmpl eff =
     (let ns = targetNamespace inst in
      case renderInstance A (pinNamespace inst) tmpl eff ns of
        (i, Inl (reason, e)) \<Rightarrow> ([], i, Broke reason (errText e))
      | (i, Inr vals) \<Rightarrow>
          (let shared = namespaceLog A ns i @ sourceLog A tmpl eff in
           case desiredSource A tmpl eff (foundSource A tmpl) of
             Inl e \<Rightarrow> (shared, i, if isCreateRace e then Raced
               else Broke ''SourceError'' (errText (sourceError tmpl e)))
           | Inr _ \<Rightarrow> (case planRelease A i tmpl eff ns vals of (l, j, en) \<Rightarrow> (shared @ l, j, en))))"

text \<open>No deadline passes while the runs last.\<close>

definition deadlineAhead :: "api \<Rightarrow> DployInstance \<Rightarrow> bool" where
  "deadlineAhead A inst \<longleftrightarrow> iTTLSeconds (iSpec inst) = -1
     \<or> (case iSpecExpiresAt (iSpec inst) of
          Some e \<Rightarrow> \<forall>h. reNow A h < e
        | None \<Rightarrow> iTTLSeconds (iSpec inst) > 0 \<longrightarrow>
            (\<forall>h h'. reNow A h < reNow A h' + seconds (iTTLSeconds (iSpec inst)))
          \<and> (case iExpiresAt (iStatus inst) of None \<Rightarrow> True | Some e \<Rightarrow> \<forall>h. reNow A h < e))"

text \<open>The log of a run that starts after \<open>h0\<close>: its calls, then the status write if there is one.\<close>

definition provisioned ::
  "api \<Rightarrow> DployInstance \<Rightarrow> DployTemplate \<Rightarrow> Effective \<Rightarrow> log \<Rightarrow> log \<Rightarrow> bool" where
  "provisioned A inst tmpl eff h0 h \<longleftrightarrow> (case planned A inst tmpl eff of (l, i, en) \<Rightarrow>
     \<exists>t1 t2 v. untimed h = untimed h0 @ l @ (case endedAt A t1 t2 en i of None \<Rightarrow> []
        | Some fin \<Rightarrow> [EPatchInstanceStatus inst fin (Inr (bumpI v (Generation (iMeta fin)) fin))])
      \<and> (\<exists>h. t2 = reNow A h))"

lemma wp_patchInstance:
  assumes "accepting A"
    and "\<And>v. Q (Inr (bumpI v (Generation (iMeta inst)) (stamped inst)))
      (h @ [EPatchInstanceStatus original (stamped inst) (Inr (bumpI v (Generation (iMeta (stamped inst))) (stamped inst)))])"
  shows "wp (patchInstance A original inst) Q h"
proof -
  obtain v where "rePatchInstanceStatus A h original (stamped inst)
      = Inr (bumpI v (Generation (iMeta (stamped inst))) (stamped inst))"
    using acceptingD(2) [OF assms(1)] by blast
  then show ?thesis using assms(2) [of v] by (simp add: patchInstance_def wp_simps Let_def stamped_def)
qed

lemma wp_setInstanceCondition:
  "wp (setInstanceCondition A inst st reason message) Q h =
     (let t = reNow A h in Q (statedAt A t st reason message inst) (h @ [ENow t]))"
  by (cases inst) (simp add: setInstanceCondition_def wp_simps statedAt_def Let_def)

lemma patch_ends:
  assumes "accepting A" and "planned A inst tmpl eff = (l, i, en)" and "endedAt A t1 t2 en i = Some fin"
    and "fin = stamped x" and "untimed h = untimed h0 @ l" and "t2 = reNow A h2"
    and "\<And>v h'. provisioned A inst tmpl eff h0 h' \<Longrightarrow> Q (Inr (bumpI v (Generation (iMeta x)) (stamped x))) h'"
  shows "wp (patchInstance A inst x) Q h"
proof (rule wp_patchInstance [OF assms(1)])
  fix v
  have "provisioned A inst tmpl eff h0 (h @ [EPatchInstanceStatus inst (stamped x)
      (Inr (bumpI v (Generation (iMeta (stamped x))) (stamped x)))])"
    unfolding provisioned_def assms(2) prod.case
    by (rule exI [of _ t1], rule exI [of _ t2], rule exI [of _ v]) (use assms(3-6) in auto)
  then show "Q (Inr (bumpI v (Generation (iMeta x)) (stamped x)))
      (h @ [EPatchInstanceStatus inst (stamped x) (Inr (bumpI v (Generation (iMeta (stamped x))) (stamped x)))])"
    by (rule assms(7))
qed

lemma wp_failed:
  assumes "accepting A" and "planned A inst tmpl eff = (l, i, Broke reason message)" and "untimed h = untimed h0 @ l"
  shows "wp (failInstance A inst i reason message) (\<lambda>_. provisioned A inst tmpl eff h0) h"
  unfolding failInstance_def wp_bind wp_setInstanceCondition Let_def wp_tryE
  by (rule patch_ends [OF assms(1,2), where ?t1.0 = "reNow A h" and ?t2.0 = "reNow A []" and ?h2.0 = "[]"])
    (simp_all add: endedAt_def assms(3) wp_simps)

lemma wp_held:
  assumes "accepting A" and "planned A inst tmpl eff = (l, i, Held reason message)" and "untimed h = untimed h0 @ l"
  shows "wp (holdBack A inst i reason message) (\<lambda>_. provisioned A inst tmpl eff h0) h"
  unfolding holdBack_def wp_bind wp_setInstanceCondition Let_def wp_tryE
  by (rule patch_ends [OF assms(1,2), where ?t1.0 = "reNow A h" and ?t2.0 = "reNow A []" and ?h2.0 = "[]"])
    (simp_all add: endedAt_def assms(3) wp_simps)

text \<open>With the deadline ahead, the expiry step only stamps the deadline.\<close>

lemma deadlineAhead_cong:
  "iSpec i = iSpec j \<Longrightarrow> iExpiresAt (iStatus i) = iExpiresAt (iStatus j) \<Longrightarrow> deadlineAhead A i = deadlineAhead A j"
  by (simp add: deadlineAhead_def cong: option.case_cong)

lemma wp_applyTTL:
  assumes "deadlineAhead A i"
    and "\<And>d x es. untimed es = [] \<Longrightarrow> \<exists>h. x = expiryAt (reNow A h) i \<Longrightarrow> Q (Inr (d, False, x)) (h @ es)"
  shows "wp (applyTTL A original i) Q h"
proof -
  note now = assms(2) [OF _ exI [of _ h]] and steps = applyTTL_def resolveExpiry_def wp_simps expiryAt_def Let_def
  show ?thesis
  proof (cases "iTTLSeconds (iSpec i) = -1")
    case True
    then show ?thesis using now [of "[]"] by (simp add: steps)
  next
    case unlimited: False
    show ?thesis
    proof (cases "iSpecExpiresAt (iSpec i)")
      case (Some e)
      then have "reNow A h < e" for h using assms(1) unlimited by (simp add: deadlineAhead_def)
      with Some unlimited show ?thesis by (simp add: steps now)
    next
      case None
      show ?thesis
      proof (cases "iTTLSeconds (iSpec i) > 0 \<and> isActiveInstance i")
        case True
        then have "reNow A h < reNow A h' + seconds (iTTLSeconds (iSpec i))"
          and "iExpiresAt (iStatus i) = Some e \<Longrightarrow> reNow A h < e" for h h' e
          using assms(1) unlimited None by (auto simp: deadlineAhead_def)
        with True None unlimited show ?thesis by (auto simp: steps now split: option.split)
      next
        case False
        with None unlimited show ?thesis using now [of "[]"] by (auto simp: steps)
      qed
    qed
  qed
qed

lemma wp_observed:
  assumes "accepting A" and "planned A inst tmpl eff = (l, i, Observed (translateHelmRelease A hr))"
    and "untimed h = untimed h0 @ l" and "deadlineAhead A i"
  shows "wp (observeRelease A inst i hr) (\<lambda>_. provisioned A inst tmpl eff h0) h"
proof -
  let ?s = "translateHelmRelease A hr" and ?t = "reNow A h"
  let ?i = "setPhase (phaseFor i ?s) (hsHealth ?s) (statedAt A ?t (hsStatus ?s) (hsReason ?s) (hsMessage ?s) i)"
  have i: "iStatus_update (\<lambda>s. s\<lparr>iPhase := phaseFor x ?s\<rparr>) x = ?i"
    if "x = statedAt A ?t (hsStatus ?s) (hsReason ?s) (hsMessage ?s) (iStatus_update (\<lambda>s. s\<lparr>iHealth := hsHealth ?s\<rparr>) i)" for x
    unfolding that by (cases i) (simp add: statedAt_def setPhase_def phaseFor_def)
  have ahead: "deadlineAhead A ?i"
    using assms(4) by (subst deadlineAhead_cong [of _ i]) (simp_all add: setPhase_def statedAt_def)
  show ?thesis
    unfolding observeRelease_def wp_bind wp_setInstanceCondition Let_def wp_tryE i [OF refl]
  proof (rule wp_applyTTL [OF ahead], unfold sum.case prod.case wp_if if_False wp_tryE)
    fix d x es
    assume es: "untimed es = []" and "\<exists>h. x = expiryAt (reNow A h) ?i"
    then obtain h2 where "x = expiryAt (reNow A h2) ?i" by blast
    then show "wp (patchInstance A inst x) (\<lambda>r. case r of Inl e \<Rightarrow> provisioned A inst tmpl eff h0
        | Inr x \<Rightarrow> wp (ok (instanceDelay ?s d)) (\<lambda>_. provisioned A inst tmpl eff h0)) ((h @ [ENow ?t]) @ es)"
      by (intro patch_ends [OF assms(1,2), where ?t1.0 = "?t" and ?t2.0 = "reNow A h2" and ?h2.0 = h2])
        (simp_all add: endedAt_def assms(3) es wp_simps)
  qed
qed

lemma release_read: "keyed A \<Longrightarrow> reGetRelease A [] k = Inl e \<Longrightarrow> IsNotFound e"
  using keyedD(4) [of A k] by auto

lemma found:
  assumes "stable A" and "keyed A"
  shows "reFetchNamespace A h ns = Inr (foundNamespace A ns)"
    "reFetchSource A h (sourceKind A tmpl) (sourceKey tmpl) = Inr (foundSource A tmpl)"
    "reFetchRelease A h (releaseKey i) = Inr (foundRelease A i)"
  unfolding foundNamespace_def foundSource_def foundRelease_def
  using keyedD(1) [OF assms(2), of ns] keyedD(2) [OF assms(2), of "sourceKind A tmpl" "sourceKey tmpl"]
    keyedD(4) [OF assms(2), of "releaseKey i"] stableD(6,7,9) [OF assms(1)]
  by (metis sum.sel(2))+

lemma untimed_logs [simp]:
  "untimed (namespaceLog A ns i) = namespaceLog A ns i" "untimed (sourceLog A tmpl eff) = sourceLog A tmpl eff"
  "untimed (releaseLog A i tmpl eff ns vals) = releaseLog A i tmpl eff ns vals"
  by (simp_all add: namespaceLog_def sourceLog_def releaseLog_def ensuring_def split: sum.split)

lemma wp_release_part:
  assumes "stable A" and "accepting A" and "keyed A" and "deadlineAhead A (withRelease i)"
    and "planRelease A i tmpl eff ns vals = (l, j, en)" and "planned A inst tmpl eff = (shared @ l, j, en)"
    and "untimed h = untimed h0 @ shared"
  shows "wp (ensureReleaseWhenReady A inst i tmpl eff ns vals (sourceKind A tmpl) (templateSourceName tmpl))
    (\<lambda>_. provisioned A inst tmpl eff h0) h"
proof -
  let ?P = "\<lambda>_. provisioned A inst tmpl eff h0" and ?k = "releaseKey i" and ?l = "releaseLog A i tmpl eff ns vals"
  obtain ready reason message where verdict: "templateSourceReady A tmpl = (ready, reason, message)"
    by (cases "templateSourceReady A tmpl") auto
  show ?thesis
  proof (cases ready)
    case False
    then show ?thesis
      using assms(5-7) verdict by (auto simp: ensureReleaseWhenReady_def planRelease_def intro!: wp_held [OF assms(2)])
  next
    case True
    have run: "wp (ensureReleaseWhenReady A inst i tmpl eff ns vals (sourceKind A tmpl) (templateSourceName tmpl)) ?P h
        = (case map_sum (wrapErr ''ensure HelmRelease'') (\<lambda>_. ()) (wantedRelease A i tmpl eff ns vals) of
             Inl e \<Rightarrow> wp (failInstance A inst i ''HelmReleaseError'' (errText e)) ?P (h @ ?l)
           | Inr _ \<Rightarrow> wp (projectRelease A inst i) ?P (h @ ?l))"
      by (simp add: ensureReleaseWhenReady_def verdict True wp_simps wp_ensureHelmRelease [OF assms(2) found(3) [OF assms(1,3)]]
          wantedRelease_def releaseLog_def split: sum.split)
    show ?thesis
    proof (cases "wantedRelease A i tmpl eff ns vals")
      case (Inl e)
      then show ?thesis
        unfolding run using assms(5-7) verdict True
        by (auto simp: planRelease_def intro!: wp_failed [OF assms(2)])
    next
      case (Inr d)
      define seen where "seen = reGetRelease A [] ?k"
      have seen: "reGetRelease A h ?k = seen" for h unfolding seen_def by (rule stableD(4) [OF assms(1)])
      have key: "releaseKey (withRelease i) = ?k" "engineResourceName (withRelease i) = engineResourceName i"
        by (simp_all add: releaseKey_def withRelease_def engineResourceName_def)
      have "wp (observeRelease A inst (withRelease i) (observedRelease seen)) ?P ((h @ ?l) @ [EGetRelease ?k seen])"
        by (rule wp_observed [OF assms(2) _ _ assms(4)])
          (use assms(5-7) verdict True Inr in \<open>auto simp: planRelease_def Let_def seen_def\<close>)
      moreover have "seen = Inl e \<Longrightarrow> IsNotFound e" for e unfolding seen_def by (rule release_read [OF assms(3)])
      ultimately show ?thesis
        unfolding run by (cases seen) (simp_all add: Inr projectRelease_def wp_simps Let_def seen observedRelease_def
            withRelease_def [symmetric] key)
    qed
  qed
qed

lemma render_fields:
  assumes "renderInstance A (pinNamespace inst) tmpl eff ns = (i, r)"
  shows "iSpec i = iSpec inst" "iMeta i = iMeta inst" "iUUID (iStatus i) = iUUID (iStatus inst)"
    "iExpiresAt (iStatus i) = iExpiresAt (iStatus inst)" "iWorkloadNamespace (iStatus i) = targetNamespace inst"
    "iEngine (iStatus i) = EngineFlux"
  using assms by (auto simp: renderInstance_def setConnection_def pinNamespace_def Let_def split: sum.splits)

lemma wp_provision:
  assumes "stable A" and "accepting A" and "keyed A" and "deadlineAhead A inst"
  shows "wp (provision A inst tmpl eff) (\<lambda>_. provisioned A inst tmpl eff h0) h0"
proof -
  let ?P = "\<lambda>_. provisioned A inst tmpl eff h0" and ?ns = "targetNamespace inst"
  obtain i r where render: "renderInstance A (pinNamespace inst) tmpl eff ?ns = (i, r)" by fastforce
  have ahead: "deadlineAhead A (withRelease i)"
    using assms(4) by (subst deadlineAhead_cong [of _ inst]) (simp_all add: withRelease_def render_fields [OF render])
  show ?thesis
  proof (cases r)
    case (Inl re)
    obtain reason e where "re = (reason, e)" by fastforce
    with Inl render show ?thesis
      by (simp add: provision_def Let_def wp_failed [OF assms(2)] planned_def)
  next
    case (Inr vals)
    let ?w = "desiredSource A tmpl eff (foundSource A tmpl)" and ?shared = "namespaceLog A ?ns i @ sourceLog A tmpl eff"
    have "wp (materialize A inst i tmpl eff ?ns vals) ?P h0
        = (case map_sum (sourceError tmpl) (\<lambda>_. (sourceKind A tmpl, templateSourceName tmpl)) ?w of
             Inl e \<Rightarrow> wp (raceOrFail A inst i ''SourceError'' e) ?P (h0 @ ?shared)
           | Inr (kd, nm) \<Rightarrow> wp (ensureReleaseWhenReady A inst i tmpl eff ?ns vals kd nm) ?P (h0 @ ?shared))"
      by (simp add: materialize_def wp_simps wp_ensureNamespace [OF assms(2) found(1) [OF assms(1,3)]]
          wp_ensureSource [OF assms(2) found(2) [OF assms(1,3)]] desiredNamespace_def namespaceLog_def sourceLog_def
          split: sum.split)
    also have "\<dots>"
    proof (cases ?w)
      case e: (Inl e)
      have race: "isCreateRace (sourceError tmpl e) = isCreateRace e" by (simp add: isCreateRace_def sourceError_def)
      have p: "planned A inst tmpl eff
          = (?shared, i, if isCreateRace e then Raced else Broke ''SourceError'' (errText (sourceError tmpl e)))"
        using e by (simp add: planned_def Let_def render Inr)
      show ?thesis
      proof (cases "isCreateRace e")
        case True
        with p show ?thesis
          by (simp add: e raceOrFail_def race wp_simps provisioned_def endedAt_def) blast
      next
        case False
        with p show ?thesis by (simp add: e raceOrFail_def race wp_failed [OF assms(2)])
      qed
    next
      case (Inr s)
      obtain l j en where l: "planRelease A i tmpl eff ?ns vals = (l, j, en)" by (cases "planRelease A i tmpl eff ?ns vals") auto
      then have "planned A inst tmpl eff = (?shared @ l, j, en)"
        using Inr by (simp add: planned_def Let_def render \<open>r = Inr vals\<close>)
      with l Inr show ?thesis by (simp add: wp_release_part [OF assms(1-3) ahead l])
    qed
    finally show ?thesis by (simp add: provision_def Let_def render Inr)
  qed
qed

section \<open>Doing it again\<close>

text \<open>\<^verbatim>\<open>SetControllerReference\<close> finds the reference it has set, and what it refuses with is
  not an answer of the API server.\<close>

definition referenceAgain :: "api \<Rightarrow> bool" where
  "referenceAgain A \<longleftrightarrow> (\<forall>r m m'. setControllerRef A r m = Inr m' \<longrightarrow> setControllerRef A r m' = Inr m')
     \<and> (\<forall>r m e. setControllerRef A r m = Inl e \<longrightarrow> \<not> isCreateRace e)"

lemma set_reference:
  assumes "referenceLaw A" and "referenceAgain A" and "setControllerRef A r (m\<lparr>Labels := l\<rparr>) = Inr m'"
  shows "setControllerRef A r (m'\<lparr>Labels := l\<rparr>) = Inr m'" "objectKey m' = objectKey m"
proof -
  obtain xs where m': "m' = m\<lparr>Labels := l\<rparr>\<lparr>OwnerReferences := xs\<rparr>" by (rule set_refs [OF assms(1,3)])
  then have "m'\<lparr>Labels := l\<rparr> = m'" by simp
  with assms(2,3) show "setControllerRef A r (m'\<lparr>Labels := l\<rparr>) = Inr m'" by (simp add: referenceAgain_def)
  show "objectKey m' = objectKey m" by (simp add: m' objectKey_def)
qed

lemma map_add_twice: "m ++ l ++ l = m ++ l"
  by (rule ext) (simp add: map_add_def split: option.split)

lemma namespace_again:
  assumes "desiredNamespace i n = Inr d" and "managedLabels x = managedLabels i"
  shows "desiredNamespace x d = Inr d" "nsName d = nsName n"
  using assms by (auto simp: desiredNamespace_def map_add_twice)

lemma source_again:
  assumes "referenceLaw A" and "referenceAgain A" and "desiredSource A tmpl eff s = Inr d"
  shows "desiredSource A tmpl eff d = Inr d" "objectKey (srcMeta d) = objectKey (srcMeta s)"
  using assms(3) set_reference [OF assms(1,2)]
  by (auto simp: desiredSource_def desiredHelmRepository_def desiredGitRepository_def Let_def split: sum.splits if_splits)

lemma release_again:
  assumes "referenceLaw A" and "referenceAgain A" and "desiredRelease A i tmpl eff kd nm ns vals hr = Inr d"
  shows "desiredRelease A i tmpl eff kd nm ns vals d = Inr d" "objectKey (hrMeta d) = objectKey (hrMeta hr)"
    "hrConditions d = hrConditions hr"
  using assms(3) set_reference [OF assms(1,2)] by (auto simp: desiredRelease_def split: sum.splits)

text \<open>The instance a run leaves and the one it rendered, as far as the next run looks at them.\<close>

definition agrees :: "DployInstance \<Rightarrow> DployInstance \<Rightarrow> bool" where
  "agrees x i \<longleftrightarrow> iSpec x = iSpec i \<and> objectKey (iMeta x) = objectKey (iMeta i) \<and> UID (iMeta x) = UID (iMeta i)
     \<and> iUUID (iStatus x) = iUUID (iStatus i) \<and> iURL (iStatus x) = iURL (iStatus i)
     \<and> iConnectionType (iStatus x) = iConnectionType (iStatus i)
     \<and> iConnectionMessage (iStatus x) = iConnectionMessage (iStatus i)
     \<and> iWorkloadNamespace (iStatus x) = iWorkloadNamespace (iStatus i) \<and> iEngine (iStatus x) = iEngine (iStatus i)"

lemma agrees_names: "agrees x i \<Longrightarrow> Name (iMeta x) = Name (iMeta i) \<and> Namespace (iMeta x) = Namespace (iMeta i)"
  by (simp add: agrees_def objectKey_def)

lemma agrees_same:
  assumes "agrees x i"
  shows "managedLabels x = managedLabels i" "releaseKey x = releaseKey i"
    "desiredRelease A x tmpl eff kd nm ns vals hr = desiredRelease A i tmpl eff kd nm ns vals hr"
  using assms agrees_names [OF assms]
  by (simp_all add: managedLabels_def releaseKey_def engineResourceName_def desiredRelease_def ownerRef_def agrees_def
      cong: sum.case_cong)

lemma pin_again:
  assumes "iSpec x = iSpec inst" and "iUUID (iStatus x) = iUUID (iStatus inst)"
    and "iWorkloadNamespace (iStatus x) = targetNamespace inst" and "iEngine (iStatus x) = EngineFlux"
  shows "targetNamespace x = targetNamespace inst" "pinNamespace x = x"
proof -
  show t: "targetNamespace x = targetNamespace inst"
    using assms by (auto simp: targetNamespace_def)
  show "pinNamespace x = x"
    unfolding pinNamespace_def t using assms(3,4) by (cases x) simp
qed

lemma render_again:
  assumes "renderInstance A (pinNamespace inst) tmpl eff (targetNamespace inst) = (i, r)" and "agrees x i"
  shows "targetNamespace x = targetNamespace inst"
    "renderInstance A (pinNamespace x) tmpl eff (targetNamespace inst) = (x, r)"
proof -
  note f = render_fields [OF assms(1)]
  have pin: "targetNamespace x = targetNamespace inst" "pinNamespace x = x"
    using assms(2) f by (auto simp: agrees_def intro!: pin_again)
  show "targetNamespace x = targetNamespace inst" by (rule pin)
  have d: "buildData (pinNamespace inst) tmpl eff ns = buildData x tmpl eff ns" for ns
    using assms(2) f by (simp add: buildData_def agrees_def Let_def pinNamespace_def)
  show "renderInstance A (pinNamespace x) tmpl eff (targetNamespace inst) = (x, r)"
    using assms(1,2) unfolding pin(2) renderInstance_def d
    by (cases x) (auto simp: Let_def agrees_def setConnection_def split: sum.splits)
qed

text \<open>What the world holds once the calls of a run have been made.\<close>

lemma afterRun_helpers [simp]:
  "renderInstance (afterRun A h) = renderInstance A" "desiredSource (afterRun A h) = desiredSource A"
  "desiredRelease (afterRun A h) = desiredRelease A" "sourceKind (afterRun A h) = sourceKind A"
  "templateSourceReady (afterRun A h) = templateSourceReady A"
  "translateHelmRelease (afterRun A h) = translateHelmRelease A"
proof -
  have r: "Render (afterRun A h) = Render A"
    by (intro ext) (simp add: Render_def split: sum.split)
  show "renderInstance (afterRun A h) = renderInstance A"
    by (intro ext) (simp add: renderInstance_def resolveURL_def resolveMessage_def renderValues_def r Let_def cong: sum.case_cong)
  show "desiredSource (afterRun A h) = desiredSource A"
    by (intro ext) (simp add: desiredSource_def desiredHelmRepository_def desiredGitRepository_def Let_def cong: sum.case_cong)
  show "desiredRelease (afterRun A h) = desiredRelease A"
    by (intro ext) (simp add: desiredRelease_def cong: sum.case_cong)
  show "sourceKind (afterRun A h) = sourceKind A" by (intro ext) (simp add: sourceKind_def)
  show "templateSourceReady (afterRun A h) = templateSourceReady A"
    by (intro ext) (simp add: templateSourceReady_def cong: option.case_cong)
  have "isProgressing (afterRun A h) = isProgressing A" by (intro ext) (simp add: isProgressing_def)
  then show "translateHelmRelease (afterRun A h) = translateHelmRelease A"
    unfolding translateHelmRelease_def [abs_def] by (simp only: afterRun_same)
qed

lemma latest_logs [simp]:
  "latest (namespaceAt n) (sourceLog A tmpl eff) = None" "latest (namespaceAt n) (releaseLog A i tmpl eff ns vals) = None"
  "latest (sourceAt kd k) (namespaceLog A ns i) = None" "latest (sourceAt kd k) (releaseLog A i tmpl eff ns vals) = None"
  "latest (releaseAt k) (namespaceLog A ns i) = None" "latest (releaseAt k) (sourceLog A tmpl eff) = None"
  "latest (instanceAt k) (namespaceLog A ns i) = None" "latest (instanceAt k) (sourceLog A tmpl eff) = None"
  "latest (instanceAt k) (releaseLog A i tmpl eff ns vals) = None"
  "latest (templateAt k) (namespaceLog A ns i) = None" "latest (templateAt k) (sourceLog A tmpl eff) = None"
  "latest (templateAt k) (releaseLog A i tmpl eff ns vals) = None"
  "latest (claimAt k) (namespaceLog A ns i) = None" "latest (claimAt k) (sourceLog A tmpl eff) = None"
  "latest (claimAt k) (releaseLog A i tmpl eff ns vals) = None"
  "listedAfter ns' sel (namespaceLog A ns i) items = items" "listedAfter ns' sel (sourceLog A tmpl eff) items = items"
  "listedAfter ns' sel (releaseLog A i tmpl eff ns vals) items = items"
  by (simp_all add: namespaceLog_def sourceLog_def releaseLog_def ensuring_def at_defs split: sum.split)

lemma latest_own_logs:
  "desiredNamespace i (foundNamespace A ns) = Inr d \<Longrightarrow> nsName d = ns \<Longrightarrow> latest (namespaceAt ns) (namespaceLog A ns i) = Some (Inr d)"
  "desiredSource A tmpl eff (foundSource A tmpl) = Inr s \<Longrightarrow> objectKey (srcMeta s) = sourceKey tmpl
     \<Longrightarrow> latest (sourceAt (sourceKind A tmpl) (sourceKey tmpl)) (sourceLog A tmpl eff) = Some (Inr s)"
  "desiredSource A tmpl eff (foundSource A tmpl) = Inl e \<Longrightarrow> latest (sourceAt kd k) (sourceLog A tmpl eff) = None"
  "wantedRelease A i tmpl eff ns vals = Inr r \<Longrightarrow> objectKey (hrMeta r) = releaseKey i
     \<Longrightarrow> latest (releaseAt (releaseKey i)) (releaseLog A i tmpl eff ns vals) = Some (Inr r)"
  "wantedRelease A i tmpl eff ns vals = Inl e \<Longrightarrow> latest (releaseAt k) (releaseLog A i tmpl eff ns vals) = None"
  by (simp_all add: namespaceLog_def sourceLog_def releaseLog_def ensuring_def at_defs)

lemma found_keys:
  assumes "keyed A"
  shows "nsName (foundNamespace A ns) = ns" "objectKey (srcMeta (foundSource A tmpl)) = sourceKey tmpl"
    "objectKey (hrMeta (foundRelease A i)) = releaseKey i"
    "hrConditions (observedRelease (reGetRelease A [] (releaseKey i))) = hrConditions (foundRelease A i)"
proof -
  show "nsName (foundNamespace A ns) = ns" using keyedD(1) [OF assms, of ns] by (auto simp: foundNamespace_def)
  show "objectKey (srcMeta (foundSource A tmpl)) = sourceKey tmpl"
    using keyedD(2) [OF assms, of "sourceKind A tmpl" "sourceKey tmpl"] by (auto simp: foundSource_def)
  obtain x where x: "reFetchRelease A [] (releaseKey i) = Inr x" "objectKey (hrMeta x) = releaseKey i"
    "case reGetRelease A [] (releaseKey i) of Inr y \<Rightarrow> hrConditions y = hrConditions x
       | Inl e \<Rightarrow> IsNotFound e \<and> hrConditions x = []"
    using keyedD(4) [OF assms] by blast
  then show "objectKey (hrMeta (foundRelease A i)) = releaseKey i" by (simp add: foundRelease_def)
  show "hrConditions (observedRelease (reGetRelease A [] (releaseKey i))) = hrConditions (foundRelease A i)"
    using x(1,3) by (simp add: foundRelease_def observedRelease_def emptyRelease_def split: sum.splits)
qed

lemma translate_cong:
  "hrConditions hr = hrConditions hr' \<Longrightarrow> translateHelmRelease A hr = translateHelmRelease A hr'"
proof -
  assume c: "hrConditions hr = hrConditions hr'"
  then have p: "isProgressing A hr = isProgressing A hr'" by (intro ext) (simp add: isProgressing_def)
  show "translateHelmRelease A hr = translateHelmRelease A hr'" unfolding translateHelmRelease_def c p ..
qed

lemma namespace_after:
  assumes "latest (namespaceAt ns) h = Some (Inr d)"
  shows "foundNamespace (afterRun A h) ns = d"
  using assms by (simp add: foundNamespace_def kept_def)

lemma source_after:
  assumes "latest (sourceAt (sourceKind A tmpl) (sourceKey tmpl)) h
    = (case w of Inl e \<Rightarrow> None | Inr s \<Rightarrow> Some (Inr s))"
  shows "foundSource (afterRun A h) tmpl = (case w of Inl e \<Rightarrow> foundSource A tmpl | Inr s \<Rightarrow> s)"
  using assms by (simp add: foundSource_def kept_def split: sum.splits)

lemma release_after:
  assumes "latest (releaseAt (releaseKey i)) h = (case w of Inl e \<Rightarrow> None | Inr s \<Rightarrow> Some (Inr s))"
  shows "foundRelease (afterRun A h) i = (case w of Inl e \<Rightarrow> foundRelease A i | Inr s \<Rightarrow> s)"
    "reGetRelease (afterRun A h) [] (releaseKey i) = (case w of Inl e \<Rightarrow> reGetRelease A [] (releaseKey i) | Inr s \<Rightarrow> Inr s)"
  using assms by (simp_all add: foundRelease_def kept_def split: sum.splits)

text \<open>Where the wanted object is the one found, applying it changes nothing.\<close>

lemma noChange_mono: "set h \<subseteq> set h' \<Longrightarrow> noChange h e \<Longrightarrow> noChange h' e"
  by (cases e) (auto simp: noChange_def)

lemma idle_append: "idle h \<Longrightarrow> idle h' \<Longrightarrow> idle (h @ h')"
  using noChange_mono [of h "h @ h'"] noChange_mono [of h' "h @ h'"] by (auto simp: idle_def)

lemma idle_logs:
  "desiredNamespace i (foundNamespace A ns) = Inr (foundNamespace A ns) \<Longrightarrow> nsName (foundNamespace A ns) = ns
     \<Longrightarrow> idle (namespaceLog A ns i)"
  "(case desiredSource A tmpl eff (foundSource A tmpl) of Inl e \<Rightarrow> True | Inr d \<Rightarrow> d = foundSource A tmpl)
     \<Longrightarrow> objectKey (srcMeta (foundSource A tmpl)) = sourceKey tmpl \<Longrightarrow> idle (sourceLog A tmpl eff)"
  "(case wantedRelease A i tmpl eff ns vals of Inl e \<Rightarrow> True | Inr d \<Rightarrow> d = foundRelease A i)
     \<Longrightarrow> objectKey (hrMeta (foundRelease A i)) = releaseKey i \<Longrightarrow> idle (releaseLog A i tmpl eff ns vals)"
  by (auto simp: idle_def namespaceLog_def sourceLog_def releaseLog_def ensuring_def noChange_def split: sum.splits)

text \<open>The calls are planned again, and change nothing. \<open>pre\<close> and \<open>post\<close> are the reads before and the
  status write after them.\<close>

definition apart :: "log \<Rightarrow> bool" where
  "apart h \<longleftrightarrow> (\<forall>ns kd k. latest (namespaceAt ns) h = None \<and> latest (sourceAt kd k) h = None \<and> latest (releaseAt k) h = None)"

lemma shared_again:
  assumes "referenceLaw A" and "referenceAgain A" and "keyed A" and "managedLabels x = managedLabels i"
    and "L = pre @ namespaceLog A ns i @ sourceLog A tmpl eff @ post"
    and "\<And>ns kd k. latest (namespaceAt ns) post = None \<and> latest (sourceAt kd k) post = None"
    and "\<And>kd k. latest (sourceAt kd k) pre = None"
  shows "desiredSource A tmpl eff (foundSource (afterRun A L) tmpl) = desiredSource A tmpl eff (foundSource A tmpl)"
    "idle (namespaceLog (afterRun A L) ns x @ sourceLog (afterRun A L) tmpl eff)"
proof -
  let ?n = "foundNamespace A ns" and ?s = "foundSource A tmpl" and ?B = "afterRun A L"
  obtain d where d: "desiredNamespace i ?n = Inr d" by (simp add: desiredNamespace_def)
  note da = namespace_again [OF d assms(4)]
  have dk: "nsName d = ns" using da(2) found_keys(1) [OF assms(3)] by simp
  have n: "foundNamespace ?B ns = d"
    by (rule namespace_after) (simp add: assms(5,6) latest_own_logs(1) [OF d dk])
  have "latest (sourceAt (sourceKind A tmpl) (sourceKey tmpl)) L
      = (case desiredSource A tmpl eff ?s of Inl e \<Rightarrow> None | Inr s \<Rightarrow> Some (Inr s))"
    using source_again(2) [OF assms(1,2)] found_keys(2) [OF assms(3)]
    by (auto simp: assms(5,6,7) latest_own_logs(2,3) split: sum.split)
  note s = source_after [OF this]
  show src: "desiredSource A tmpl eff (foundSource ?B tmpl) = desiredSource A tmpl eff ?s"
    using source_again(1) [OF assms(1,2)] by (auto simp: s split: sum.split)
  have "idle (namespaceLog ?B ns x)" by (rule idle_logs(1)) (simp_all add: n da(1) dk)
  moreover have "idle (sourceLog ?B tmpl eff)"
    by (rule idle_logs(2)) (use source_again(2) [OF assms(1,2)] found_keys(2) [OF assms(3)] src in
        \<open>auto simp: s split: sum.split\<close>)
  ultimately show "idle (namespaceLog ?B ns x @ sourceLog ?B tmpl eff)" by (rule idle_append)
qed

lemma release_part_again:
  assumes "referenceLaw A" and "referenceAgain A" and "keyed A" and "agrees x i"
    and "planRelease A i tmpl eff ns vals = (l, j, en)" and "iEngineRef (iStatus x) = iEngineRef (iStatus j)"
    and "L = pre @ l @ post" and "\<And>k. latest (releaseAt k) pre = None" and "apart post"
  shows "\<exists>l'. planRelease (afterRun A L) x tmpl eff ns vals = (l', x, en) \<and> idle l'"
proof -
  let ?B = "afterRun A L"
  obtain ready reason message where verdict: "templateSourceReady A tmpl = (ready, reason, message)"
    by (cases "templateSourceReady A tmpl") auto
  show ?thesis
  proof (cases ready)
    case False
    then show ?thesis using assms(5) verdict by (auto simp: planRelease_def idle_def)
  next
    case True
    let ?w = "wantedRelease A i tmpl eff ns vals"
    note keys = found_keys(3) [OF assms(3)] and same = agrees_same [OF assms(4)]
    have again: "?w = Inr d \<Longrightarrow> objectKey (hrMeta d) = releaseKey i \<and> hrConditions d = hrConditions (foundRelease A i)
        \<and> desiredRelease A i tmpl eff (sourceKind A tmpl) (templateSourceName tmpl) ns vals d = Inr d" for d
      using release_again [OF assms(1,2)] keys unfolding wantedRelease_def by metis
    obtain tail where l: "l = releaseLog A i tmpl eff ns vals @ tail" "apart tail"
      using assms(5) verdict True
      by (auto simp: planRelease_def Let_def apart_def at_defs split: sum.splits)
    have "latest (releaseAt (releaseKey i)) L = (case ?w of Inl e \<Rightarrow> None | Inr d \<Rightarrow> Some (Inr d))"
      using assms(8,9) l(2) again
      by (auto simp: assms(7) l(1) apart_def latest_own_logs(4,5) split: sum.split)
    note r = release_after [OF this, of A]
    have found: "foundRelease ?B x = (case ?w of Inl e \<Rightarrow> foundRelease A i | Inr d \<Rightarrow> d)"
      using r(1) by (simp add: foundRelease_def same(2))
    have w: "wantedRelease ?B x tmpl eff ns vals = ?w"
      using again by (simp add: wantedRelease_def [of ?B] found same(3) split: sum.split) (simp add: wantedRelease_def)
    have quiet: "idle (releaseLog ?B x tmpl eff ns vals)"
      by (rule idle_logs(3)) (use again keys in \<open>auto simp: w found same(2) split: sum.split\<close>)
    show ?thesis
    proof (cases ?w)
      case (Inl e)
      then show ?thesis using assms(5) verdict True quiet by (auto simp: planRelease_def w)
    next
      case (Inr d)
      have seen: "reGetRelease ?B [] (releaseKey x) = Inr d" using r(2) Inr by (simp add: same(2))
      have en: "en = Observed (translateHelmRelease A (observedRelease (reGetRelease A [] (releaseKey i))))"
        and j: "j = withRelease i" using assms(5) verdict True Inr by (auto simp: planRelease_def Let_def)
      have "translateHelmRelease A (observedRelease (Inr d)) = translateHelmRelease A (observedRelease (reGetRelease A [] (releaseKey i)))"
        using again [OF Inr] found_keys(4) [OF assms(3)] by (intro translate_cong) (simp add: observedRelease_def)
      moreover have "withRelease x = x"
        using assms(4,6) agrees_names [OF assms(4)] by (cases x) (simp add: j withRelease_def engineResourceName_def)
      moreover have "idle (releaseLog ?B x tmpl eff ns vals @ [EGetRelease (releaseKey x) (Inr d)])"
        using quiet by (rule idle_append) (simp add: idle_def noChange_def)
      ultimately show ?thesis using verdict True Inr by (simp add: planRelease_def w seen [simplified] en Let_def)
    qed
  qed
qed

lemma plan_again:
  assumes "referenceLaw A" and "referenceAgain A" and "keyed A" and "planned A inst tmpl eff = (l, j, en)"
    and "agrees x j" and "iEngineRef (iStatus x) = iEngineRef (iStatus j)"
    and "L = pre @ l @ post" and "apart pre" and "apart post"
  shows "\<exists>l'. planned (afterRun A L) x tmpl eff = (l', x, en) \<and> idle l'"
proof -
  let ?B = "afterRun A L" and ?ns = "targetNamespace inst"
  obtain i r where render: "renderInstance A (pinNamespace inst) tmpl eff ?ns = (i, r)" by fastforce
  have "agrees x i"
  proof (cases r)
    case (Inl re)
    with assms(4,5) render show ?thesis by (cases re) (auto simp: planned_def)
  next
    case (Inr vals)
    then have "j = i \<or> j = withRelease i"
      using assms(4) render by (auto simp: planned_def planRelease_def Let_def split: sum.splits prod.splits if_splits)
    with assms(5) show ?thesis by (auto simp: agrees_def withRelease_def)
  qed
  note again = render_again [OF render this] and names = agrees_same(1) [OF this]
  show ?thesis
  proof (cases r)
    case (Inl re)
    with assms(4) again render show ?thesis by (cases re) (auto simp: planned_def idle_def Let_def)
  next
    case (Inr vals)
    let ?w = "desiredSource A tmpl eff (foundSource A tmpl)" and ?shared = "namespaceLog A ?ns i @ sourceLog A tmpl eff"
    let ?shared' = "namespaceLog ?B ?ns x @ sourceLog ?B tmpl eff"
    show ?thesis
    proof (cases ?w)
      case (Inl e)
      with assms(4) render \<open>r = Inr vals\<close> have l: "l = ?shared" "j = i"
        "en = (if isCreateRace e then Raced else Broke ''SourceError'' (errText (sourceError tmpl e)))"
        by (auto simp: planned_def Let_def)
      have "L = pre @ namespaceLog A ?ns i @ sourceLog A tmpl eff @ post" by (simp add: assms(7) l(1))
      note sh = shared_again [OF assms(1-3) names this]
      have "desiredSource A tmpl eff (foundSource ?B tmpl) = Inl e" "idle ?shared'"
        using sh assms(8,9) Inl by (auto simp: apart_def)
      then show ?thesis using again \<open>r = Inr vals\<close> l(3) by (simp add: planned_def Let_def)
    next
      case s: (Inr s)
      obtain l2 where l2: "planRelease A i tmpl eff ?ns vals = (l2, j, en)" "l = ?shared @ l2"
        using assms(4) render \<open>r = Inr vals\<close> s by (auto simp: planned_def Let_def split: prod.splits)
      have apart2: "latest (namespaceAt n) l2 = None \<and> latest (sourceAt kd k) l2 = None" for n kd k
        using l2(1) by (auto simp: planRelease_def Let_def at_defs split: sum.splits prod.splits if_splits)
      have "L = pre @ namespaceLog A ?ns i @ sourceLog A tmpl eff @ l2 @ post" by (simp add: assms(7) l2(2))
      note sh = shared_again [OF assms(1-3) names this]
      have src: "desiredSource A tmpl eff (foundSource ?B tmpl) = Inr s" "idle ?shared'"
        using sh assms(8,9) s apart2 by (auto simp: apart_def)
      have "latest (releaseAt k) (pre @ ?shared) = None" for k using assms(8) by (simp add: apart_def)
      then obtain l' where "planRelease ?B x tmpl eff ?ns vals = (l', x, en)" "idle l'"
        using release_part_again [OF assms(1-3) \<open>agrees x i\<close> l2(1) assms(6), of L "pre @ ?shared" post] assms(7,9) l2(2)
        by auto
      with src again \<open>r = Inr vals\<close> show ?thesis
        using idle_append [OF src(2)] by (simp add: planned_def Let_def)
    qed
  qed
qed

text \<open>What was recorded is recorded unchanged.\<close>

lemma condition_again:
  assumes "conditionLaws A"
  shows "setCond A t' (setCond A t cs c) c = setCond A t cs c"
  using assms unfolding conditionLaws_def by metis

definition statedBy :: "ending \<Rightarrow> DployInstance \<Rightarrow> InstancePhase \<times> string \<times> Condition" where
  "statedBy en x = (let g = Generation (iMeta x) in case en of
      Raced \<Rightarrow> (iPhase (iStatus x), iHealth (iStatus x), condition ''Ready'' CondUnknown [] [] g)
    | Broke reason message \<Rightarrow> (PhaseFailed, ''Degraded'', condition ''Ready'' CondFalse reason message g)
    | Held reason message \<Rightarrow> (PhaseProvisioning, ''Progressing'', condition ''Ready'' CondFalse reason message g)
    | Observed st \<Rightarrow> (phaseFor x st, hsHealth st, condition ''Ready'' (hsStatus st) (hsReason st) (hsMessage st) g))"

lemma ended_fix:
  assumes "en \<noteq> Raced" and "statedBy en x = (iPhase (iStatus x), iHealth (iStatus x), c)"
    and "\<And>t. setCond A t (iConditions (iStatus x)) c = iConditions (iStatus x)"
    and "iObservedGeneration (iStatus x) = Generation (iMeta x)"
    and "\<And>st t. en = Observed st \<Longrightarrow> expiryAt t x = x"
  shows "endedAt A t3 t4 en x = Some x"
proof (cases en)
  case (Observed st)
  have "setPhase (phaseFor x st) (hsHealth st) (statedAt A t3 (hsStatus st) (hsReason st) (hsMessage st) x) = x"
    using assms(2,3) Observed by (cases x) (simp add: statedBy_def Let_def setPhase_def statedAt_def)
  then show ?thesis
    using assms(4,5) Observed by (cases x) (simp add: endedAt_def stamped_def)
qed (use assms in \<open>cases x; simp add: endedAt_def stamped_def statedAt_def setPhase_def statedBy_def Let_def\<close>)+

lemma expiry_fields [simp]:
  "iMeta (expiryAt t i) = iMeta i" "iSpec (expiryAt t i) = iSpec i"
  "iPhase (iStatus (expiryAt t i)) = iPhase (iStatus i)" "iHealth (iStatus (expiryAt t i)) = iHealth (iStatus i)"
  "iConditions (iStatus (expiryAt t i)) = iConditions (iStatus i)" "iUUID (iStatus (expiryAt t i)) = iUUID (iStatus i)"
  "iURL (iStatus (expiryAt t i)) = iURL (iStatus i)" "iConnectionType (iStatus (expiryAt t i)) = iConnectionType (iStatus i)"
  "iConnectionMessage (iStatus (expiryAt t i)) = iConnectionMessage (iStatus i)"
  "iWorkloadNamespace (iStatus (expiryAt t i)) = iWorkloadNamespace (iStatus i)"
  "iEngine (iStatus (expiryAt t i)) = iEngine (iStatus i)" "iEngineRef (iStatus (expiryAt t i)) = iEngineRef (iStatus i)"
  by (simp_all add: expiryAt_def setInstanceExpiry_def)

lemma expiry_again:
  assumes "iSpec x = iSpec i" and "iPhase (iStatus x) = iPhase (iStatus i)"
    and "iExpiresAt (iStatus x) = iExpiresAt (iStatus (expiryAt t i))"
  shows "expiryAt t' x = x"
  using assms by (cases x) (auto simp: expiryAt_def setInstanceExpiry_def isActiveInstance_def split: if_splits)

lemma ended_again:
  assumes "conditionLaws A" and "endedAt A t1 t2 en j = Some fin" and "x = bumpI v (Generation (iMeta fin)) fin"
  shows "endedAt A t3 t4 en x = Some x" "agrees x j" "iEngineRef (iStatus x) = iEngineRef (iStatus j)"
    "Generation (iMeta x) = Generation (iMeta j)" "DeletionTimestamp (iMeta x) = DeletionTimestamp (iMeta j)"
    "Labels (iMeta x) = Labels (iMeta j)" "Finalizers (iMeta x) = Finalizers (iMeta j)"
    "Annotations (iMeta x) = Annotations (iMeta j)"
proof -
  note defs = stamped_def statedAt_def setPhase_def bumpI_def
  show "agrees x j" "iEngineRef (iStatus x) = iEngineRef (iStatus j)"
    "Generation (iMeta x) = Generation (iMeta j)" "DeletionTimestamp (iMeta x) = DeletionTimestamp (iMeta j)"
    "Labels (iMeta x) = Labels (iMeta j)" "Finalizers (iMeta x) = Finalizers (iMeta j)"
    "Annotations (iMeta x) = Annotations (iMeta j)"
    using assms(2) unfolding assms(3) by (auto simp: defs endedAt_def agrees_def objectKey_def split: ending.splits)
  obtain ph he c where st: "statedBy en j = (ph, he, c)" by (cases "statedBy en j") auto
  show "endedAt A t3 t4 en x = Some x"
  proof (rule ended_fix)
    show "en \<noteq> Raced" using assms(2) by (auto simp: endedAt_def)
    show "statedBy en x = (iPhase (iStatus x), iHealth (iStatus x), c)"
      using assms(2) st unfolding assms(3)
      by (auto simp: defs endedAt_def statedBy_def Let_def phaseFor_def split: ending.splits)
    show "setCond A t (iConditions (iStatus x)) c = iConditions (iStatus x)" for t
      using assms(2) st unfolding assms(3)
      by (auto simp: defs endedAt_def statedBy_def Let_def condition_again [OF assms(1)] split: ending.splits)
    show "iObservedGeneration (iStatus x) = Generation (iMeta x)"
      using assms(2) unfolding assms(3) by (auto simp: defs endedAt_def split: ending.splits)
    fix s t assume "en = Observed s"
    then show "expiryAt t x = x"
      using assms(2) unfolding assms(3)
      by (intro expiry_again [of _ "setPhase (phaseFor j s) (hsHealth s)
            (statedAt A t1 (hsStatus s) (hsReason s) (hsMessage s) j)" t2])
        (auto simp: defs endedAt_def)
  qed
qed

end
