(* ===== verification/Converging.thy ===== *)
theory Converging
imports Provisioning
begin

text \<open>
  The instance controller comes to rest: whatever state an instance is in that is not being deleted
  and not overdue, three reconciles on a world that does not change by itself are enough, one for its
  metadata, one for its identifier, one for its namespace, source, release and status, and every
  further one is \<open>idle\<close>. This holds on every branch that does not end the instance: for one whose
  templates do not render or whose chart is not verified (\<open>present\<close>), for one whose template is gone,
  which is recorded Failed, and for one whose template or configuration cannot be read or decoded,
  which is left alone. A controller that went on writing would wake itself up forever.
\<close>

section \<open>Reconciles in a calm world\<close>

definition finalizerLaw :: "api \<Rightarrow> bool" where
  "finalizerLaw A \<longleftrightarrow> (\<forall>m f. hasFinalizer A m f = (f \<in> set (Finalizers m))
     \<and> addFinalizer A m f = (if f \<in> set (Finalizers m) then m
          else m\<lparr>Finalizers := Finalizers m @ [f]\<rparr>))"

definition calm :: "api \<Rightarrow> bool" where
  "calm A \<longleftrightarrow> stable A \<and> accepting A \<and> keyed A \<and> conditionLaws A \<and> referenceLaw A \<and> referenceAgain A
     \<and> finalizerLaw A \<and> (\<forall>h. shortUUID (reFreshUUID A h) \<noteq> [])"

lemma afterRun_calm: "calm A \<Longrightarrow> calm (afterRun A h)"
  using afterRun_stable afterRun_accepting afterRun_keyed
  by (simp add: calm_def conditionLaws_def referenceLaw_def referenceAgain_def finalizerLaw_def)

text \<open>The instance is there, is not being deleted, and its deadline is ahead; in a \<open>present\<close> one, its
  template can be read and the configuration decoded, too.\<close>

definition standing :: "api \<Rightarrow> NamespacedName \<Rightarrow> DployInstance \<Rightarrow> bool" where
  "standing A key inst \<longleftrightarrow> reGetInstance A [] ClientCache key = Inr inst \<and> objectKey (iMeta inst) = key
     \<and> isZeroPtr (DeletionTimestamp (iMeta inst)) \<and> deadlineAhead A inst"

definition templateOf :: "DployInstance \<Rightarrow> NamespacedName" where
  "templateOf inst = \<lparr>nnNamespace = Namespace (iMeta inst), nnName = iTemplateRef (iSpec inst)\<rparr>"

definition present ::
  "api \<Rightarrow> NamespacedName \<Rightarrow> DployInstance \<Rightarrow> DployTemplate \<Rightarrow> Effective \<Rightarrow> bool" where
  "present A key inst tmpl eff \<longleftrightarrow> reGetInstance A [] ClientCache key = Inr inst \<and> objectKey (iMeta inst) = key
     \<and> isZeroPtr (DeletionTimestamp (iMeta inst)) \<and> reGetTemplate A [] (templateOf inst) = Inr tmpl
     \<and> effectiveOf A (reGetConfig A [] configKey) = Inr eff \<and> deadlineAhead A inst"

lemma present_standing:
  "present A key inst tmpl eff \<longleftrightarrow> standing A key inst \<and> reGetTemplate A [] (templateOf inst) = Inr tmpl
     \<and> effectiveOf A (reGetConfig A [] configKey) = Inr eff"
  by (auto simp: present_def standing_def)

fun stage :: "nat \<Rightarrow> api \<Rightarrow> DployInstance \<Rightarrow> bool" where
  "stage 0 A inst \<longleftrightarrow> True"
| "stage (Suc 0) A inst \<longleftrightarrow> \<not> fst (ensureInstanceMeta A inst)"
| "stage n A inst \<longleftrightarrow> \<not> fst (ensureInstanceMeta A inst) \<and> iUUID (iStatus inst) \<noteq> []"

definition readsFirst :: "api \<Rightarrow> NamespacedName \<Rightarrow> DployInstance \<Rightarrow> DployTemplate \<Rightarrow> log" where
  "readsFirst A key inst tmpl = [EGetInstance ClientCache key (Inr inst), EGetTemplate (templateOf inst) (Inr tmpl),
     EGetConfig configKey (reGetConfig A [] configKey)]"

lemma meta_same: "\<not> fst (ensureInstanceMeta A inst) \<Longrightarrow> ensureInstanceMeta A inst = (False, inst)"
proof -
  assume a: "\<not> fst (ensureInstanceMeta A inst)"
  then have "hasFinalizer A (iMeta inst) InstanceFinalizer" by (auto simp: ensureInstanceMeta_def Let_def split: prod.splits)
  moreover obtain c l where l: "stampLabels (instanceWant inst) (Labels (iMeta inst)) = (c, l)" by fastforce
  ultimately have "\<not> c" using a by (simp add: ensureInstanceMeta_def)
  with l stampLabels_unchanged [of "instanceWant inst" "Labels (iMeta inst)" l] have "l = Labels (iMeta inst)" by simp
  with l \<open>\<not> c\<close> \<open>hasFinalizer A (iMeta inst) InstanceFinalizer\<close> show "ensureInstanceMeta A inst = (False, inst)"
    by (cases inst) (simp add: ensureInstanceMeta_def)
qed

lemma run_past_meta:
  assumes "calm A" and "present A key inst tmpl eff" and "\<not> fst (ensureInstanceMeta A inst)"
    and "wp (if iUUID (iStatus inst) = [] then assignUUID A inst else provision A inst tmpl eff) Q (readsFirst A key inst tmpl)"
  shows "wp (reconcileInstance A key) Q []"
proof -
  have s: "stable A" using assms(1) by (simp add: calm_def)
  have reads: "reGetInstance A h ClientCache key = Inr inst" "reGetTemplate A h (templateOf inst) = Inr tmpl" for h
    using assms(2) stableD(1,2) [OF s] by (metis present_def)+
  obtain c where c: "\<And>h. reGetConfig A h configKey = c" using stableD(3) [OF s] by blast
  show ?thesis
    using assms(2,4) meta_same [OF assms(3)] reads c
    by (simp add: reconcileInstance_def reconcileInstanceRead_def reconcileLiveInstance_def wp_simps present_def
        templateOf_def readsFirst_def Let_def)
qed

lemma run_provisions:
  assumes "calm A" and "present A key inst tmpl eff" and "stage 2 A inst"
  shows "provisioned A inst tmpl eff (readsFirst A key inst tmpl) (logged (reconcileInstance A key) [])"
proof -
  have "wp (reconcileInstance A key) (\<lambda>_. provisioned A inst tmpl eff (readsFirst A key inst tmpl)) []"
    by (rule run_past_meta [OF assms(1,2)])
      (use assms wp_provision [of A inst tmpl eff] in \<open>auto simp: calm_def present_def numeral_2_eq_2\<close>)
  then show ?thesis unfolding wp_logged .
qed

lemma planned_fields:
  assumes "planned A inst tmpl eff = (l, j, en)"
  shows "iMeta j = iMeta inst" "iSpec j = iSpec inst" "iUUID (iStatus j) = iUUID (iStatus inst)"
    "iExpiresAt (iStatus j) = iExpiresAt (iStatus inst)" "latest (instanceAt k) l = None" "latest (templateAt k) l = None"
    "referenceAgain A \<Longrightarrow> en \<noteq> Raced" "latest (claimAt k) l = None" "listedAfter ns' sel l items = items"
proof -
  obtain i r where render: "renderInstance A (pinNamespace inst) tmpl eff (targetNamespace inst) = (i, r)" by fastforce
  note f = render_fields [OF render] and plan = planned_def planRelease_def Let_def withRelease_def
  show "iMeta j = iMeta inst" "iSpec j = iSpec inst" "iUUID (iStatus j) = iUUID (iStatus inst)"
    "iExpiresAt (iStatus j) = iExpiresAt (iStatus inst)" "latest (instanceAt k) l = None" "latest (templateAt k) l = None"
    "latest (claimAt k) l = None" "listedAfter ns' sel l items = items"
  proof -
    have "j = i \<or> j = withRelease i"
      using assms render by (auto simp: planned_def planRelease_def Let_def split: sum.splits prod.splits if_splits)
    then show "iMeta j = iMeta inst" "iSpec j = iSpec inst" "iUUID (iStatus j) = iUUID (iStatus inst)"
      "iExpiresAt (iStatus j) = iExpiresAt (iStatus inst)" by (auto simp: withRelease_def f)
    show "latest (instanceAt k) l = None" "latest (templateAt k) l = None" "latest (claimAt k) l = None"
      "listedAfter ns' sel l items = items"
      using assms by (auto simp: plan render at_defs listedAfter_append split: sum.splits prod.splits if_splits)
  qed
  assume "referenceAgain A"
  then have "desiredSource A tmpl eff s = Inl e \<Longrightarrow> \<not> isCreateRace e" for s e
    by (auto simp: desiredSource_def desiredHelmRepository_def desiredGitRepository_def referenceAgain_def Let_def
        split: sum.splits if_splits)
  then show "en \<noteq> Raced"
    using assms by (auto simp: plan render split: sum.splits prod.splits if_splits)
qed

lemma deadline_kept:
  assumes "endedAt A t1 (reNow A h) en j = Some fin" and "deadlineAhead A j"
  shows "deadlineAhead A (bumpI v g fin)"
proof -
  have "deadlineAhead A i \<Longrightarrow> deadlineAhead A (expiryAt (reNow A h) i)" for i
    by (auto simp: deadlineAhead_def expiryAt_def setInstanceExpiry_def split: option.splits)
  moreover have "deadlineAhead A (stamped i) = deadlineAhead A i" "deadlineAhead A (setPhase p q i) = deadlineAhead A i"
    "deadlineAhead A (statedAt A t st r m i) = deadlineAhead A i" "deadlineAhead A (bumpI v g i) = deadlineAhead A i"
    for i p q t st r m
    by (rule deadlineAhead_cong; simp add: stamped_def setPhase_def statedAt_def bumpI_def)+
  ultimately show ?thesis using assms by (auto simp: endedAt_def split: ending.splits)
qed

lemma meta_cong:
  assumes "iSpec x = iSpec inst" and "Labels (iMeta x) = Labels (iMeta inst)" and "Finalizers (iMeta x) = Finalizers (iMeta inst)"
    and "finalizerLaw A"
  shows "fst (ensureInstanceMeta (afterRun A h) x) = fst (ensureInstanceMeta A inst)"
  using assms by (simp add: ensureInstanceMeta_def finalizerLaw_def instanceWant_def Let_def split: prod.split)

lemma deadline_after [simp]: "deadlineAhead (afterRun A h) = deadlineAhead A"
  unfolding deadlineAhead_def [abs_def] by (simp only: afterRun_same)

lemma standing_after:
  assumes "latest (instanceAt key) L = Some (Inr x)" and "objectKey (iMeta x) = key"
    and "isZeroPtr (DeletionTimestamp (iMeta x))" and "deadlineAhead A x"
  shows "standing (afterRun A L) key x"
  using assms by (simp add: standing_def kept_def)

lemma templateOf_cong:
  "iSpec x = iSpec inst \<Longrightarrow> objectKey (iMeta x) = objectKey (iMeta inst) \<Longrightarrow> templateOf x = templateOf inst"
  by (simp add: templateOf_def objectKey_def)

lemma present_after:
  assumes "present A key inst tmpl eff" and "latest (instanceAt key) L = Some (Inr x)"
    and "latest (templateAt (templateOf inst)) L = None" and "iSpec x = iSpec inst" and "objectKey (iMeta x) = key"
    and "isZeroPtr (DeletionTimestamp (iMeta x))" and "deadlineAhead A x"
  shows "present (afterRun A L) key x tmpl eff"
proof -
  have "templateOf x = templateOf inst" using assms(1,4,5) by (intro templateOf_cong) (simp_all add: present_def)
  then show ?thesis using assms by (simp add: present_def kept_def)
qed

lemma provisioned_again:
  assumes "provisioned A x tmpl eff h0 h" and "planned A x tmpl eff = (l, x, en)" and "idle l" and "idle (untimed h0)"
    and "\<And>t3 t4. endedAt A t3 t4 en x = Some x"
  shows "idle h"
proof -
  obtain v where "untimed h = untimed h0 @ l @ [EPatchInstanceStatus x x (Inr (bumpI v (Generation (iMeta x)) x))]"
    using assms(1,2,5) by (auto simp: provisioned_def)
  moreover have "idle [EPatchInstanceStatus x x r]" for r by (simp add: idle_def noChange_def)
  ultimately show "idle h" using assms(3,4) by (metis idle_append idle_untimed)
qed

text \<open>The source and the release found may be owned: no other controller has taken them.\<close>

definition ownable :: "api \<Rightarrow> DployInstance \<Rightarrow> DployTemplate \<Rightarrow> bool" where
  "ownable A x tmpl \<longleftrightarrow>
     (\<exists>m. setControllerRef A (ownerRef ''DployTemplate'' (tMeta tmpl)) (srcMeta (foundSource A tmpl)) = Inr m)
   \<and> (\<exists>m. setControllerRef A (ownerRef ''DployInstance'' (iMeta x)) (hrMeta (foundRelease A x)) = Inr m)"

lemma relabelled:
  assumes "referenceLaw A" and "setControllerRef A r m = Inr m'"
  shows "\<exists>m''. setControllerRef A r (m\<lparr>Labels := l\<rparr>) = Inr m''"
proof -
  obtain xs where "\<forall>n. Namespace n = Namespace m \<longrightarrow> OwnerReferences n = OwnerReferences m \<longrightarrow>
      setControllerRef A r n = Inr (n\<lparr>OwnerReferences := xs\<rparr>)"
    using assms unfolding referenceLaw_def by blast
  then show ?thesis by simp
qed

definition kin :: "DployInstance \<Rightarrow> DployInstance \<Rightarrow> bool" where
  "kin x inst \<longleftrightarrow> iSpec x = iSpec inst \<and> objectKey (iMeta x) = objectKey (iMeta inst) \<and> UID (iMeta x) = UID (iMeta inst)
     \<and> Annotations (iMeta x) = Annotations (iMeta inst)
     \<and> get (Labels (iMeta x)) LabelClaimUID = get (Labels (iMeta inst)) LabelClaimUID"

lemma kin_same:
  assumes "kin x inst"
  shows "releaseKey x = releaseKey inst" "ownerRef k (iMeta x) = ownerRef k (iMeta inst)"
    "Namespace (iMeta x) = Namespace (iMeta inst)" "Name (iMeta x) = Name (iMeta inst)"
  using assms by (simp_all add: kin_def objectKey_def releaseKey_def engineResourceName_def ownerRef_def)

lemma ownable_kept:
  assumes "ownable A inst tmpl" and "kin x inst"
    and "latest (sourceAt (sourceKind A tmpl) (sourceKey tmpl)) L = None" and "latest (releaseAt (releaseKey inst)) L = None"
  shows "ownable (afterRun A L) x tmpl"
  using assms kin_same [OF assms(2)] by (simp add: ownable_def foundSource_def foundRelease_def kept_def)

lemma owned_again:
  assumes "referenceAgain A"
  shows "desiredSource A tmpl eff s = Inr d \<Longrightarrow> \<exists>m. setControllerRef A (ownerRef ''DployTemplate'' (tMeta tmpl)) (srcMeta d) = Inr m"
    "desiredRelease A i tmpl eff kd nm ns vals hr = Inr r
       \<Longrightarrow> \<exists>m. setControllerRef A (ownerRef ''DployInstance'' (iMeta i)) (hrMeta r) = Inr m"
  using assms
  by (auto simp: desiredSource_def desiredHelmRepository_def desiredGitRepository_def desiredRelease_def Let_def
      referenceAgain_def split: sum.splits if_splits)

lemma planned_release:
  assumes "referenceLaw A" and "referenceAgain A" and "keyed A" and "planned A inst tmpl eff = (l, j, en)"
  shows "latest (releaseAt (releaseKey inst)) l = None
    \<or> (\<exists>i ns vals d. iMeta i = iMeta inst \<and> wantedRelease A i tmpl eff ns vals = Inr d
         \<and> latest (releaseAt (releaseKey inst)) l = Some (Inr d))"
proof -
  obtain i r where render: "renderInstance A (pinNamespace inst) tmpl eff (targetNamespace inst) = (i, r)" by fastforce
  have i: "iMeta i = iMeta inst" "releaseKey i = releaseKey inst"
    using render_fields [OF render] by (simp_all add: releaseKey_def engineResourceName_def)
  have "wantedRelease A i tmpl eff ns vals = Inr d \<Longrightarrow> objectKey (hrMeta d) = releaseKey i" for ns vals d
    using release_again(2) [OF assms(1,2)] found_keys(3) [OF assms(3)] unfolding wantedRelease_def by metis
  then show ?thesis
    using assms(4) render latest_own_logs(4,5) [of A i] i(1)
    by (fastforce simp: planned_def planRelease_def Let_def at_defs i(2) split: sum.splits prod.splits if_splits)
qed

lemma wanted_fields:
  assumes "referenceLaw A" and "referenceAgain A" and "wantedRelease A i tmpl eff ns vals = Inr d" and "iMeta i = iMeta inst"
  shows "hrConditions d = hrConditions (foundRelease A inst)"
    "\<exists>m. setControllerRef A (ownerRef ''DployInstance'' (iMeta inst)) (hrMeta d) = Inr m"
proof -
  have "foundRelease A i = foundRelease A inst" using assms(4) by (simp add: foundRelease_def releaseKey_def engineResourceName_def)
  then show "hrConditions d = hrConditions (foundRelease A inst)"
    using release_again(3) [OF assms(1,2)] assms(3) unfolding wantedRelease_def by metis
  show "\<exists>m. setControllerRef A (ownerRef ''DployInstance'' (iMeta inst)) (hrMeta d) = Inr m"
    using owned_again(2) [OF assms(2)] assms(3,4) unfolding wantedRelease_def by metis
qed

lemma ownable_planned:
  assumes "kin x inst" and "referenceLaw A" and "referenceAgain A" and "keyed A"
    and "planned A inst tmpl eff = (l, j, en)" and "L = pre @ l @ post" and "apart pre" and "apart post"
  shows "ownable A inst tmpl \<Longrightarrow> ownable (afterRun A L) x tmpl"
    "hrConditions (foundRelease (afterRun A L) x) = hrConditions (foundRelease A inst)"
proof -
  let ?at = "sourceAt (sourceKind A tmpl) (sourceKey tmpl)" and ?rel = "releaseAt (releaseKey inst)"
  have src: "latest ?at l = None \<or> (\<exists>s. desiredSource A tmpl eff (foundSource A tmpl) = Inr s \<and> latest ?at l = Some (Inr s))"
    using assms(5) source_again(2) [OF assms(2,3)] found_keys(2) [OF assms(4)]
    by (auto simp: planned_def planRelease_def Let_def latest_own_logs(2,3) at_defs split: sum.splits prod.splits if_splits)
  have ends: "latest ?at pre = None" "latest ?at post = None" "latest ?rel pre = None" "latest ?rel post = None"
    using assms(7,8) by (simp_all add: apart_def)
  note rel = planned_release [OF assms(2-5)] and fields = wanted_fields [OF assms(2,3)]
  show "hrConditions (foundRelease (afterRun A L) x) = hrConditions (foundRelease A inst)"
    using rel fields(1) kin_same [OF assms(1)] by (auto simp: foundRelease_def kept_def assms(6) ends)
  assume own: "ownable A inst tmpl"
  have "\<exists>m. setControllerRef A (ownerRef ''DployTemplate'' (tMeta tmpl)) (srcMeta (foundSource (afterRun A L) tmpl)) = Inr m"
    using src own owned_again(1) [OF assms(3)]
    by (auto simp: ownable_def foundSource_def kept_def assms(6) ends)
  moreover have "\<exists>m. setControllerRef A (ownerRef ''DployInstance'' (iMeta x)) (hrMeta (foundRelease (afterRun A L) x)) = Inr m"
    using rel own fields(2) kin_same [OF assms(1)] by (auto simp: ownable_def foundRelease_def kept_def assms(6) ends)
  ultimately show "ownable (afterRun A L) x tmpl" by (simp add: ownable_def)
qed

text \<open>The instance after some runs, and what of it has not changed.\<close>

definition onlyOne :: "api \<Rightarrow> DployInstance \<Rightarrow> bool" where
  "onlyOne A x \<longleftrightarrow> (\<forall>rd. reListInstances A [] rd (Namespace (iMeta x))
     [(LabelClaimUID, get (Labels (iMeta x)) LabelClaimUID)] = Inr [x])"

definition heir :: "api \<Rightarrow> DployInstance \<Rightarrow> DployTemplate \<Rightarrow> api \<Rightarrow> DployInstance \<Rightarrow> bool" where
  "heir A inst tmpl B x \<longleftrightarrow> kin x inst \<and> (ownable A inst tmpl \<longrightarrow> ownable B x tmpl) \<and> (onlyOne A inst \<longrightarrow> onlyOne B x)
     \<and> hrConditions (foundRelease B x) = hrConditions (foundRelease A inst) \<and> reGetClaim B [] = reGetClaim A []"

lemma onlyOne_kept:
  assumes "onlyOne A inst" and "kin x inst"
    and "listedAfter (Namespace (iMeta inst)) [(LabelClaimUID, get (Labels (iMeta inst)) LabelClaimUID)] L [inst] = [x]"
  shows "onlyOne (afterRun A L) x"
  using assms kin_same(3) [OF assms(2)] by (simp add: onlyOne_def kin_def)

lemma heir_kept:
  assumes "kin x inst" and "listedAfter (Namespace (iMeta inst)) [(LabelClaimUID, get (Labels (iMeta inst)) LabelClaimUID)] L [inst] = [x]"
    and "latest (sourceAt (sourceKind A tmpl) (sourceKey tmpl)) L = None" and "latest (releaseAt (releaseKey inst)) L = None"
    and "\<And>k. latest (claimAt k) L = None"
  shows "heir A inst tmpl (afterRun A L) x"
  using assms kin_same(1) [OF assms(1)] onlyOne_kept [OF _ assms(1,2)] ownable_kept [OF _ assms(1,3,4)]
  by (simp add: heir_def foundRelease_def kept_def fun_eq_iff)

lemma heir_refl: "heir A inst tmpl A inst"
  by (simp add: heir_def kin_def)

lemma heir_trans: "heir A i tmpl B j \<Longrightarrow> heir B j tmpl C k \<Longrightarrow> heir A i tmpl C k"
  by (simp add: heir_def kin_def)

text \<open>A provisioning run leaves a world in which the next is idle, and again a provisioning run.\<close>

definition asPlanned :: "api \<Rightarrow> DployInstance \<Rightarrow> DployTemplate \<Rightarrow> Effective \<Rightarrow> bool" where
  "asPlanned A x tmpl eff \<longleftrightarrow> (\<exists>l en. planned A x tmpl eff = (l, x, en) \<and> idle l \<and> (\<forall>t1 t2. endedAt A t1 t2 en x = Some x))"

lemma provision_log:
  assumes "calm A" and "present A key inst tmpl eff" and "stage 2 A inst" and "planned A inst tmpl eff = (l, j, en)"
  obtains t1 h v fin where "endedAt A t1 (reNow A h) en j = Some fin"
    and "untimed (logged (reconcileInstance A key) []) = readsFirst A key inst tmpl @ l
      @ [EPatchInstanceStatus inst fin (Inr (bumpI v (Generation (iMeta fin)) fin))]"
proof -
  have reads: "untimed (readsFirst A key inst tmpl) = readsFirst A key inst tmpl" by (simp add: readsFirst_def)
  obtain t1 t2 v h where u: "untimed (logged (reconcileInstance A key) []) = readsFirst A key inst tmpl @ l
      @ (case endedAt A t1 t2 en j of None \<Rightarrow> []
         | Some fin \<Rightarrow> [EPatchInstanceStatus inst fin (Inr (bumpI v (Generation (iMeta fin)) fin))])" "t2 = reNow A h"
    using run_provisions [OF assms(1-3)] unfolding provisioned_def assms(4) reads by auto
  have "referenceAgain A" using assms(1) by (simp add: calm_def)
  then obtain fin where "endedAt A t1 (reNow A h) en j = Some fin"
    using planned_fields(7) [OF assms(4)] by (cases en) (auto simp: endedAt_def)
  with u that show ?thesis by simp
qed

lemma provisioned_rests:
  assumes "calm A" and "present A key inst tmpl eff" and "stage 2 A inst"
    and "B = afterRun A (logged (reconcileInstance A key) [])"
  shows "\<exists>x. present B key x tmpl eff \<and> stage 2 B x \<and> asPlanned B x tmpl eff \<and> heir A inst tmpl B x" "idle (logged (reconcileInstance B key) [])"
proof -
  let ?L = "logged (reconcileInstance A key) []" and ?reads = "readsFirst A key inst tmpl"
  have laws: "conditionLaws A" "referenceLaw A" "referenceAgain A" "finalizerLaw A" "keyed A"
    using assms(1) by (simp_all add: calm_def)
  obtain l j en where plan: "planned A inst tmpl eff = (l, j, en)" by (cases "planned A inst tmpl eff") auto
  note f = planned_fields [OF plan]
  obtain t1 h v fin where fin: "endedAt A t1 (reNow A h) en j = Some fin" and log: "untimed ?L = ?reads @ l
      @ [EPatchInstanceStatus inst fin (Inr (bumpI v (Generation (iMeta fin)) fin))]"
    by (rule provision_log [OF assms(1-3) plan])
  define x where "x = bumpI v (Generation (iMeta fin)) fin"
  note again = ended_again [OF laws(1) fin x_def]
  have reads: "latest (instanceAt k) ?reads = None" "latest (templateAt k) ?reads = None" "apart ?reads" for k
    by (simp_all add: readsFirst_def at_defs apart_def)
  let ?post = "[EPatchInstanceStatus inst fin (Inr x)]"
  have B: "B = afterRun A (?reads @ l @ ?post)"
    using log unfolding assms(4) x_def by (metis afterRun_untimed)
  have key: "objectKey (iMeta x) = key" "iSpec x = iSpec inst" "DeletionTimestamp (iMeta x) = DeletionTimestamp (iMeta inst)"
    using again(2,5) f(1,2) assms(2) by (simp_all add: agrees_def present_def)
  have ahead: "deadlineAhead A x" unfolding x_def
    using assms(2) deadlineAhead_cong [of j inst A] f by (intro deadline_kept [OF fin]) (simp add: present_def)
  have there: "present B key x tmpl eff"
    unfolding B by (rule present_after [OF assms(2)])
      (use key ahead assms(2) in \<open>simp_all add: f(5,6) reads(1,2) at_defs present_def\<close>)
  have stage: "stage 2 B x"
    using assms(3) again(2,6,7) f(1-3) meta_cong [of x inst A] laws(4) key(2)
    by (simp add: B numeral_2_eq_2 agrees_def)
  have apart: "apart ?post" by (simp add: apart_def at_defs)
  obtain l' where plan': "planned B x tmpl eff = (l', x, en)" "idle l'"
    using plan_again [OF laws(2,3,5) plan again(2,3) refl reads(3) apart] unfolding B by blast
  have fixed: "endedAt B t3 t4 en x = Some x" for t3 t4
    using again(1) [of t3 t4] by (simp add: B endedAt_def statedAt_def cong: ending.case_cong)
  have kin: "kin x inst" using again(2,6,8) f(1,2) by (simp add: agrees_def kin_def)
  have "heir A inst tmpl B x"
    using kin ownable_planned [OF kin laws(2,3,5) plan refl reads(3) apart] onlyOne_kept [OF _ kin, of A "?reads @ l @ ?post"]
      f(8,9) key(1) assms(2)
    by (simp add: heir_def B kept_def fun_eq_iff readsFirst_def at_defs listedAfter_append replaced_def present_def)
  with plan' there stage fixed
  show "\<exists>x. present B key x tmpl eff \<and> stage 2 B x \<and> asPlanned B x tmpl eff \<and> heir A inst tmpl B x"
    unfolding asPlanned_def by blast
  moreover have "idle (untimed (readsFirst B key x tmpl))" by (simp add: readsFirst_def idle_def noChange_def)
  moreover have "calm B" unfolding B by (rule afterRun_calm [OF assms(1)])
  ultimately show "idle (logged (reconcileInstance B key) [])"
    by (intro provisioned_again [OF run_provisions [OF _ there stage] plan'] fixed)
qed

text \<open>The two runs before: the metadata, then the identifier.\<close>

lemma meta_done:
  assumes "finalizerLaw A" and "ensureInstanceMeta A inst = (c, inst')"
  shows "\<not> fst (ensureInstanceMeta A (bumpI v g inst'))" "iSpec inst' = iSpec inst" "iStatus inst' = iStatus inst"
    "objectKey (iMeta inst') = objectKey (iMeta inst)" "DeletionTimestamp (iMeta inst') = DeletionTimestamp (iMeta inst)"
    "UID (iMeta inst') = UID (iMeta inst)" "Annotations (iMeta inst') = Annotations (iMeta inst)"
    "get (Labels (iMeta inst')) LabelClaimUID = get (Labels (iMeta inst)) LabelClaimUID"
proof -
  have d: "distinct (map fst (instanceWant inst))" by (simp add: instanceWant_def label_defs)
  obtain m where m: "inst' = inst\<lparr>iMeta := m\<lparr>Labels := snd (stampLabels (instanceWant inst) (Labels m))\<rparr>\<rparr>"
    "InstanceFinalizer \<in> set (Finalizers m)" "objectKey m = objectKey (iMeta inst)"
    "DeletionTimestamp m = DeletionTimestamp (iMeta inst)" "UID m = UID (iMeta inst)"
    "Annotations m = Annotations (iMeta inst)" "Labels m = Labels (iMeta inst)"
  proof (cases "hasFinalizer A (iMeta inst) InstanceFinalizer")
    case True
    with assms show ?thesis by (intro that [of "iMeta inst"])
      (auto simp: ensureInstanceMeta_def finalizerLaw_def Let_def split: prod.splits)
  next
    case False
    with assms show ?thesis
      by (intro that [of "(iMeta inst)\<lparr>Finalizers := Finalizers (iMeta inst) @ [InstanceFinalizer]\<rparr>"])
        (auto simp: ensureInstanceMeta_def finalizerLaw_def objectKey_def Let_def split: prod.splits)
  qed
  have w: "instanceWant (bumpI v g inst') = instanceWant inst" by (simp add: instanceWant_def m(1))
  show "\<not> fst (ensureInstanceMeta A (bumpI v g inst'))"
    using m(2) assms(1) stampLabels_idem [OF d, of "Labels m"]
    by (simp add: ensureInstanceMeta_def w Let_def finalizerLaw_def) (simp add: m(1) bumpI_def)
  show "iSpec inst' = iSpec inst" "iStatus inst' = iStatus inst" "objectKey (iMeta inst') = objectKey (iMeta inst)"
    "DeletionTimestamp (iMeta inst') = DeletionTimestamp (iMeta inst)" "UID (iMeta inst') = UID (iMeta inst)"
    "Annotations (iMeta inst') = Annotations (iMeta inst)"
    using m by (simp_all add: objectKey_def)
  have "LabelClaimUID \<notin> fst ` set (instanceWant inst)" by (auto simp: instanceWant_def label_defs)
  then show "get (Labels (iMeta inst')) LabelClaimUID = get (Labels (iMeta inst)) LabelClaimUID"
    using m(7) stampLabels_other [of LabelClaimUID "instanceWant inst" "Labels m"] by (simp add: m(1))
qed

lemma meta_written:
  assumes "calm A" and "standing A key inst" and "fst (ensureInstanceMeta A inst)"
    and "B = afterRun A (logged (reconcileInstance A key) [])"
  obtains inst' v g where "ensureInstanceMeta A inst = (True, inst')"
    and "B = afterRun A [EGetInstance ClientCache key (Inr inst), EUpdateInstance inst' (Inr (bumpI v g inst'))]"
    and "standing B key (bumpI v g inst')" and "\<not> fst (ensureInstanceMeta B (bumpI v g inst'))"
proof -
  have laws: "accepting A" "finalizerLaw A" using assms(1) by (simp_all add: calm_def)
  obtain inst' where m: "ensureInstanceMeta A inst = (True, inst')" using assms(3) by (cases "ensureInstanceMeta A inst") auto
  note d = meta_done [OF laws(2) m]
  let ?get = "EGetInstance ClientCache key (Inr inst)"
  obtain v g where u: "reUpdateInstance A [?get] inst' = Inr (bumpI v g inst')" using acceptingD(1) [OF laws(1)] by blast
  let ?x = "bumpI v g inst'" and ?L = "[?get, EUpdateInstance inst' (Inr (bumpI v g inst'))]"
  have there: "reGetInstance A [] ClientCache key = Inr inst" "isZeroPtr (DeletionTimestamp (iMeta inst))"
    "objectKey (iMeta inst) = key" "deadlineAhead A inst"
    using assms(2) by (simp_all add: standing_def)
  then have "wp (reconcileInstance A key) (\<lambda>_ h. h = ?L) []"
    by (simp add: reconcileInstance_def reconcileInstanceRead_def wp_simps m u)
  then have B: "B = afterRun A ?L" by (simp add: assms(4) wp_logged [of _ "\<lambda>h. h = ?L"])
  have "standing B key ?x"
    unfolding B
  proof (rule standing_after)
    show "deadlineAhead A ?x" using there(4) deadlineAhead_cong [of ?x inst A] d(2,3) by simp
  qed (use d there in \<open>simp_all add: at_defs bumpI_def objectKey_def\<close>)
  moreover have "\<not> fst (ensureInstanceMeta B ?x)"
    using d(1) [of v g] meta_cong [of ?x ?x A] laws(2) by (simp add: B)
  ultimately show ?thesis using m B by (intro that)
qed

lemma meta_run:
  assumes "calm A" and "present A key inst tmpl eff" and "fst (ensureInstanceMeta A inst)"
    and "B = afterRun A (logged (reconcileInstance A key) [])"
  shows "\<exists>x. present B key x tmpl eff \<and> stage 1 B x \<and> heir A inst tmpl B x"
proof -
  have law: "finalizerLaw A" and standing: "standing A key inst"
    using assms(1,2) by (simp_all add: calm_def present_standing)
  obtain inst' v g where m: "ensureInstanceMeta A inst = (True, inst')"
    and B: "B = afterRun A [EGetInstance ClientCache key (Inr inst), EUpdateInstance inst' (Inr (bumpI v g inst'))]"
    and x: "standing B key (bumpI v g inst')" "\<not> fst (ensureInstanceMeta B (bumpI v g inst'))"
    by (rule meta_written [OF assms(1) standing assms(3,4)])
  note d = meta_done [OF law m]
  let ?x = "bumpI v g inst'"
  have kin: "kin ?x inst" using d(2,4,6,7,8) by (simp add: kin_def bumpI_def objectKey_def)
  then have "templateOf ?x = templateOf inst" by (intro templateOf_cong) (simp_all add: kin_def)
  with x assms(2) have "present B key ?x tmpl eff" "stage 1 B ?x"
    by (simp_all add: B present_standing kept_def at_defs)
  moreover have "selected (Namespace (iMeta inst)) [(LabelClaimUID, get (Labels (iMeta inst)) LabelClaimUID)] ?x"
    using kin kin_same(3) [OF kin] by (simp add: selected_def kin_def)
  with kin have "heir A inst tmpl B ?x"
    unfolding B by (intro heir_kept) (simp_all add: at_defs relisted_def replaced_def kin_def)
  ultimately show ?thesis by blast
qed

lemma uuid_run:
  assumes "calm A" and "present A key inst tmpl eff" and "stage 1 A inst" and "iUUID (iStatus inst) = []"
    and "B = afterRun A (logged (reconcileInstance A key) [])"
  shows "\<exists>x. present B key x tmpl eff \<and> stage 2 B x \<and> heir A inst tmpl B x"
proof -
  have laws: "accepting A" "finalizerLaw A" "shortUUID (reFreshUUID A h) \<noteq> []" for h using assms(1) by (simp_all add: calm_def)
  let ?reads = "readsFirst A key inst tmpl"
  define u where "u = reFreshUUID A ?reads"
  define fin where "fin = stamped (iStatus_update (\<lambda>s. s\<lparr>iUUID := shortUUID u, iPhase := PhasePending, iEngine := EngineFlux\<rparr>) inst)"
  let ?L = "\<lambda>v. ?reads @ [EFreshUUID u, EPatchInstanceStatus inst fin (Inr (bumpI v (Generation (iMeta fin)) fin))]"
  have "wp (assignUUID A inst) (\<lambda>_ h. \<exists>v. h = ?L v) ?reads"
    unfolding assignUUID_def wp_bind wp_calls wp_tryE Let_def
    by (rule wp_patchInstance [OF laws(1)]) (auto simp: wp_simps u_def fin_def stamped_def)
  then have "wp (reconcileInstance A key) (\<lambda>_ h. \<exists>v. h = ?L v) []"
    using assms(3,4) by (intro run_past_meta [OF assms(1,2)]) simp_all
  then obtain v where B: "B = afterRun A (?L v)" unfolding assms(5) by (auto simp: wp_def)
  let ?x = "bumpI v (Generation (iMeta fin)) fin"
  have x: "iSpec ?x = iSpec inst" "objectKey (iMeta ?x) = objectKey (iMeta inst)"
    "DeletionTimestamp (iMeta ?x) = DeletionTimestamp (iMeta inst)" "Labels (iMeta ?x) = Labels (iMeta inst)"
    "Finalizers (iMeta ?x) = Finalizers (iMeta inst)" "iExpiresAt (iStatus ?x) = iExpiresAt (iStatus inst)"
    and uuid: "iUUID (iStatus fin) = shortUUID u"
    by (simp_all add: fin_def stamped_def bumpI_def objectKey_def)
  have "present B key ?x tmpl eff"
    unfolding B
  proof (rule present_after [OF assms(2)])
    show "deadlineAhead A ?x" using assms(2) deadlineAhead_cong [OF x(1,6), of A] by (simp add: present_def)
  qed (use x assms(2) in \<open>simp_all add: at_defs present_def readsFirst_def\<close>)
  moreover have "stage 2 B ?x"
    using assms(3) laws(2,3) meta_cong [OF x(1,4,5)] by (simp add: B uuid u_def numeral_2_eq_2)
  moreover have "kin ?x inst" using x by (simp add: kin_def fin_def stamped_def bumpI_def)
  then have "heir A inst tmpl B ?x"
    using x(2) unfolding B by (intro heir_kept) (simp_all add: at_defs readsFirst_def replaced_def)
  ultimately show ?thesis by blast
qed

lemma stage_mono: "stage n A x \<Longrightarrow> m \<le> n \<Longrightarrow> stage m A x"
  by (cases "(n, A, x)" rule: stage.cases; cases "(m, A, x)" rule: stage.cases) auto

lemma stage_step:
  assumes "calm A" and "present A key inst tmpl eff" and "stage n A inst"
    and "B = afterRun A (logged (reconcileInstance A key) [])"
  shows "\<exists>x. present B key x tmpl eff \<and> stage (min 2 (Suc n)) B x \<and> heir A inst tmpl B x"
proof (cases "fst (ensureInstanceMeta A inst)")
  case True
  then have "n = 0" using assms(3) by (cases "(n, A, inst)" rule: stage.cases) auto
  with meta_run [OF assms(1,2) True assms(4)] show ?thesis by simp
next
  case False
  then have one: "stage 1 A inst" by simp
  have "\<exists>x. present B key x tmpl eff \<and> stage 2 B x \<and> heir A inst tmpl B x"
  proof (cases "iUUID (iStatus inst) = []")
    case True
    then show ?thesis by (rule uuid_run [OF assms(1,2) one _ assms(4)])
  next
    case uuid: False
    with False have "stage 2 A inst" by (simp add: numeral_2_eq_2)
    with provisioned_rests(1) [OF assms(1,2) _ assms(4)] show ?thesis by blast
  qed
  then show ?thesis using stage_mono by (meson min.cobounded1)
qed

lemma worlds_stage:
  assumes "calm A" and "present A key inst tmpl eff"
  shows "calm (worlds A (\<lambda>W. reconcileInstance W key) n)
    \<and> (\<exists>x. present (worlds A (\<lambda>W. reconcileInstance W key) n) key x tmpl eff
        \<and> stage (min 2 n) (worlds A (\<lambda>W. reconcileInstance W key) n) x
        \<and> heir A inst tmpl (worlds A (\<lambda>W. reconcileInstance W key) n) x)"
proof (induction n)
  case 0
  then show ?case using assms heir_refl by auto
next
  case (Suc n)
  let ?W = "worlds A (\<lambda>W. reconcileInstance W key)"
  obtain x where x: "calm (?W n)" "present (?W n) key x tmpl eff" "stage (min 2 n) (?W n) x" "heir A inst tmpl (?W n) x"
    using Suc by blast
  obtain y where "present (?W (Suc n)) key y tmpl eff" "stage (min 2 (Suc (min 2 n))) (?W (Suc n)) y"
    "heir (?W n) x tmpl (?W (Suc n)) y"
    using stage_step [OF x(1-3) refl] by auto
  moreover have "min 2 (Suc (min 2 n)) = min 2 (Suc n)" by simp
  ultimately show ?case using x(1,4) heir_trans afterRun_calm by (metis worlds.simps(2))
qed

lemma worlds_helpers:
  "renderInstance (worlds A m n) = renderInstance A" "desiredRelease (worlds A m n) = desiredRelease A"
  "sourceKind (worlds A m n) = sourceKind A" "templateSourceReady (worlds A m n) = templateSourceReady A"
  "translateHelmRelease (worlds A m n) = translateHelmRelease A"
  by (induction n) simp_all

lemma third_world:
  assumes "calm A" and "present A key inst tmpl eff" and "n \<ge> 3"
  defines "W \<equiv> worlds A (\<lambda>W. reconcileInstance W key) n"
  shows "idle (logged (reconcileInstance W key) [])"
    "\<exists>x. present W key x tmpl eff \<and> stage 2 W x \<and> asPlanned W x tmpl eff \<and> heir A inst tmpl W x"
proof -
  obtain m where m: "n = Suc m" "2 \<le> m" using assms(3) by (cases n) auto
  let ?W = "worlds A (\<lambda>W. reconcileInstance W key) m"
  obtain x where x: "calm ?W" "present ?W key x tmpl eff" "stage 2 ?W x" "heir A inst tmpl ?W x"
    using worlds_stage [OF assms(1,2), of m] m(2) by (auto simp: min_def split: if_splits)
  have "W = afterRun ?W (logged (reconcileInstance ?W key) [])" by (simp add: W_def m(1))
  note last = provisioned_rests [OF x(1-3) this]
  then show "idle (logged (reconcileInstance W key) [])" by blast
  show "\<exists>x. present W key x tmpl eff \<and> stage 2 W x \<and> asPlanned W x tmpl eff \<and> heir A inst tmpl W x"
    using last(1) heir_trans [OF x(4)] by blast
qed

section \<open>An instance whose template or configuration cannot be had\<close>














lemma idle_release:
  assumes "idle (l @ releaseLog A x tmpl eff ns vals @ tail)" and "wantedRelease A x tmpl eff ns vals = Inr d"
    and "\<And>k r. EFetchRelease k r \<notin> set l" and "\<And>k r. EFetchRelease k r \<notin> set tail"
  shows "d = foundRelease A x"
proof -
  have "EApplyRelease d (Inr ()) \<in> set (releaseLog A x tmpl eff ns vals)"
    using assms(2) by (simp add: releaseLog_def ensuring_def)
  then have "noChange (l @ releaseLog A x tmpl eff ns vals @ tail) (EApplyRelease d (Inr ()))"
    using assms(1) by (simp add: idle_def)
  then have "EFetchRelease (objectKey (hrMeta d)) (Inr d) \<in> set (l @ releaseLog A x tmpl eff ns vals @ tail)"
    by (simp add: noChange_def)
  with assms(3,4) show ?thesis by (auto simp: releaseLog_def ensuring_def split: sum.splits)
qed

text \<open>A run whose templates render, whose chart is verified and whose objects may be owned gets as far as
  the release.\<close>

lemma planned_applies:
  assumes "planned A x tmpl eff = (l, j, en)"
    and "renderInstance A (pinNamespace x) tmpl eff (targetNamespace x) = (i, Inr vals)"
    and "fst (templateSourceReady A tmpl)" and "ownable A x tmpl" and "referenceLaw A"
  obtains d where "wantedRelease A i tmpl eff (targetNamespace x) vals = Inr d"
    and "l = (namespaceLog A (targetNamespace x) i @ sourceLog A tmpl eff)
      @ releaseLog A i tmpl eff (targetNamespace x) vals @ [EGetRelease (releaseKey i) (reGetRelease A [] (releaseKey i))]"
    and "j = withRelease i" and "en = Observed (translateHelmRelease A (observedRelease (reGetRelease A [] (releaseKey i))))"
proof -
  note f = render_fields [OF assms(2)]
  obtain m where "setControllerRef A (ownerRef ''DployTemplate'' (tMeta tmpl))
      ((srcMeta (foundSource A tmpl))\<lparr>Labels := templateLabels tmpl\<rparr>) = Inr m"
    using assms(4) relabelled [OF assms(5)] unfolding ownable_def by metis
  then have "\<exists>s. desiredSource A tmpl eff (foundSource A tmpl) = Inr s"
    by (simp add: desiredSource_def desiredHelmRepository_def desiredGitRepository_def Let_def)
  then obtain s where s: "desiredSource A tmpl eff (foundSource A tmpl) = Inr s" by blast
  have "foundRelease A i = foundRelease A x" using f(2) by (simp add: foundRelease_def releaseKey_def engineResourceName_def)
  then obtain m' where "setControllerRef A (ownerRef ''DployInstance'' (iMeta i))
      ((hrMeta (foundRelease A i))\<lparr>Labels := managedLabels i\<rparr>) = Inr m'"
    using assms(4) f(2) relabelled [OF assms(5)] unfolding ownable_def by metis
  then obtain d where d: "wantedRelease A i tmpl eff (targetNamespace x) vals = Inr d"
    by (auto simp: wantedRelease_def desiredRelease_def)
  show ?thesis
    using assms(1-3) s d by (intro that [OF d]) (auto simp: planned_def planRelease_def Let_def split: prod.splits)
qed

lemma planned_success:
  assumes "planned A x tmpl eff = (l, x, en)" and "idle l" and "endedAt A t1 t2 en x = Some x"
    and "renderInstance A (pinNamespace x) tmpl eff (targetNamespace x) = (i, Inr vals)"
    and "fst (templateSourceReady A tmpl)" and "ownable A x tmpl" and "keyed A" and "referenceLaw A"
  shows "desiredRelease A x tmpl eff (sourceKind A tmpl) (templateSourceName tmpl) (targetNamespace x) vals (foundRelease A x)
      = Inr (foundRelease A x)"
    "endedAt A t1 t2 (Observed (translateHelmRelease A (foundRelease A x))) x = Some x"
    "iWorkloadNamespace (iStatus x) = targetNamespace x" "iEngineRef (iStatus x) = Name (iMeta x)" "x = withRelease i"
proof -
  let ?ns = "targetNamespace x"
  note f = render_fields [OF assms(4)]
  obtain d where d: "wantedRelease A i tmpl eff ?ns vals = Inr d"
    and l: "l = (namespaceLog A ?ns i @ sourceLog A tmpl eff)
      @ releaseLog A i tmpl eff ?ns vals @ [EGetRelease (releaseKey i) (reGetRelease A [] (releaseKey i))]"
    and x: "x = withRelease i" and en: "en = Observed (translateHelmRelease A (observedRelease (reGetRelease A [] (releaseKey i))))"
    by (rule planned_applies [OF assms(1,4,5,6,8)])
  have agree: "agrees x i" by (simp add: x withRelease_def agrees_def)
  have "d = foundRelease A i"
    using assms(2) d unfolding l
    by (rule idle_release) (auto simp: namespaceLog_def sourceLog_def ensuring_def split: sum.splits)
  moreover have same: "foundRelease A x = foundRelease A i" by (simp add: foundRelease_def agrees_same(2) [OF agree])
  ultimately show "desiredRelease A x tmpl eff (sourceKind A tmpl) (templateSourceName tmpl) ?ns vals (foundRelease A x)
      = Inr (foundRelease A x)"
    using d by (simp add: wantedRelease_def agrees_same(3) [OF agree])
  have "en = Observed (translateHelmRelease A (foundRelease A x))"
    unfolding en same using translate_cong [OF found_keys(4) [OF assms(7), of i]] by simp
  with assms(3) show "endedAt A t1 t2 (Observed (translateHelmRelease A (foundRelease A x))) x = Some x" by simp
  show "iWorkloadNamespace (iStatus x) = ?ns" using f(5) by (simp add: x withRelease_def)
  show "iEngineRef (iStatus x) = Name (iMeta x)" by (simp add: x withRelease_def engineResourceName_def)
  show "x = withRelease i" by (rule x)
qed

lemma ended_phase:
  assumes "endedAt A t1 t2 (Observed st) x = Some x"
  shows "iPhase (iStatus x) = phaseFor x st" "iHealth (iStatus x) = hsHealth st"
proof -
  note fields = assms [unfolded endedAt_def ending.case option.inject]
  show "iPhase (iStatus x) = phaseFor x st" by (subst fields [symmetric]) (simp add: stamped_def setPhase_def)
  show "iHealth (iStatus x) = hsHealth st" by (subst fields [symmetric]) (simp add: stamped_def setPhase_def)
qed

text \<open>C15. Three reconciles provision an environment. If nobody else controls its source and its release
  and its chart is verified, then in the world they leave the instance is the same instance, and where
  its templates render, the release is the one that is wanted, chart, values and target namespace
  included, and the phase and the health it reports are what Flux says of that release.\<close>

theorem environment_provisioned:
  assumes "calm A" and "present A key inst tmpl eff" and "n \<ge> 3" and "W = worlds A (\<lambda>W. reconcileInstance W key) n"
    and "fst (templateSourceReady A tmpl)" and "ownable A inst tmpl"
  shows "\<exists>x r. reGetInstance W [] ClientCache key = Inr x \<and> kin x inst \<and> iUUID (iStatus x) \<noteq> []
    \<and> reFetchRelease W [] (releaseKey inst) = Inr r
    \<and> (\<forall>i vals. renderInstance A (pinNamespace x) tmpl eff (targetNamespace x) = (i, Inr vals) \<longrightarrow>
        desiredRelease A x tmpl eff (sourceKind A tmpl) (templateSourceName tmpl) (iWorkloadNamespace (iStatus x)) vals r = Inr r
      \<and> iPhase (iStatus x) = phaseFor x (translateHelmRelease A r) \<and> iHealth (iStatus x) = hsHealth (translateHelmRelease A r))"
proof -
  obtain x where x: "present W key x tmpl eff" "stage 2 W x" "asPlanned W x tmpl eff" "heir A inst tmpl W x"
    using third_world(2) [OF assms(1-3)] assms(4) by blast
  have "calm W" using worlds_stage [OF assms(1,2), of n] assms(4) by simp
  then have W: "keyed W" "stable W" "referenceLaw W" by (simp_all add: calm_def)
  have same: "renderInstance W = renderInstance A" "desiredRelease W = desiredRelease A" "sourceKind W = sourceKind A"
    "templateSourceReady W = templateSourceReady A" "translateHelmRelease W = translateHelmRelease A"
    using worlds_helpers [of A "\<lambda>W. reconcileInstance W key" n] by (simp_all add: assms(4))
  obtain l en where p: "planned W x tmpl eff = (l, x, en)" "idle l" "endedAt W 0 0 en x = Some x"
    using x(3) by (auto simp: asPlanned_def)
  have own: "ownable W x tmpl" "kin x inst" using x(4) assms(6) by (simp_all add: heir_def)
  have "reFetchRelease W [] (releaseKey inst) = Inr (foundRelease W x)"
    using found(3) [OF W(2,1), of "[]" x] kin_same(1) [OF own(2)] by simp
  moreover have "desiredRelease A x tmpl eff (sourceKind A tmpl) (templateSourceName tmpl) (iWorkloadNamespace (iStatus x)) vals
        (foundRelease W x) = Inr (foundRelease W x)
      \<and> iPhase (iStatus x) = phaseFor x (translateHelmRelease A (foundRelease W x))
      \<and> iHealth (iStatus x) = hsHealth (translateHelmRelease A (foundRelease W x))"
    if "renderInstance A (pinNamespace x) tmpl eff (targetNamespace x) = (i, Inr vals)" for i vals
    using planned_success [OF p _ _ own(1) W(1,3), of i vals] ended_phase [of W 0 0 _ x] that assms(5) by (simp add: same)
  moreover have "iUUID (iStatus x) \<noteq> []" using x(2) by (simp add: numeral_2_eq_2)
  ultimately show ?thesis using x(1) own(2) unfolding present_def by blast
qed

section \<open>An example\<close>

text \<open>A fresh instance of a verified template, in the sample environment.\<close>

definition freshKey :: NamespacedName where "freshKey = \<lparr>nnNamespace = ''d'', nnName = ''i''\<rparr>"

definition freshInstance :: DployInstance where
  "freshInstance = emptyInstance\<lparr>iMeta := emptyMeta\<lparr>Name := ''i'', Namespace := ''d'', UID := ''x''\<rparr>,
     iSpec := (iSpec emptyInstance)\<lparr>iTemplateRef := ''web'', iOwner := ''alice'', iTTLSeconds := -1\<rparr>\<rparr>"

definition verifiedTemplate :: DployTemplate where
  "verifiedTemplate = emptyTemplate\<lparr>tMeta := emptyMeta\<lparr>Name := ''web'', Namespace := ''d'', UID := ''t''\<rparr>,
     tStatus := (tStatus emptyTemplate)\<lparr>tConditions := [condition ConditionSourceReady CondTrue ''ChartResolved'' ''ok'' 1]\<rparr>\<rparr>"

definition calmApi :: api where
  "calmApi = stubApi\<lparr>reGetInstance := (\<lambda>h rd k. Inr freshInstance), reGetTemplate := (\<lambda>h k. Inr verifiedTemplate)\<rparr>"

lemma referenceAgain_sample: "setControllerRef A = addController \<Longrightarrow> referenceAgain A"
  by (auto simp: referenceAgain_def addController_def isCreateRace_def split: if_splits)

lemma stub_accepts:
  "\<exists>v g. z = bumpI v g z" "\<exists>v. z = bumpI v (Generation (iMeta z)) z" "\<exists>v. x = bumpT v x" "\<exists>v. y = bumpH v y"
  "\<exists>n u v g t. z = born n u v g t z" "\<exists>v. c = bumpC v c"
proof -
  have "bumpC (ResourceVersion (cMeta c)) c = c" "bumpT (ResourceVersion (tMeta x)) x = x" "bumpH (ResourceVersion (hcMeta y)) y = y"
    "bumpI (ResourceVersion (iMeta z)) (Generation (iMeta z)) z = z"
    "born (Name (iMeta z)) (UID (iMeta z)) (ResourceVersion (iMeta z)) (Generation (iMeta z)) (CreationTimestamp (iMeta z)) z = z"
    by (simp_all add: bumpC_def bumpT_def bumpH_def bumpI_def born_def)
  then show "\<exists>v g. z = bumpI v g z" "\<exists>v. z = bumpI v (Generation (iMeta z)) z" "\<exists>v. x = bumpT v x" "\<exists>v. y = bumpH v y"
    "\<exists>n u v g t. z = born n u v g t z" "\<exists>v. c = bumpC v c" by metis+
qed

lemma calmApi_calm: "calm calmApi"
proof -
  have "stable calmApi" by (simp add: stable_def calmApi_def stubApi_def)
  moreover have "accepting calmApi"
    using stub_accepts by (auto simp: accepting_def calmApi_def stubApi_def)
  moreover have "keyed calmApi" by (simp add: keyed_def calmApi_def stubApi_def objectKey_def)
  moreover have "conditionLaws calmApi" "referenceLaw calmApi" "referenceAgain calmApi"
    by (simp_all add: conditionLaws_sample referenceLaw_sample referenceAgain_sample calmApi_def stubApi_def)
  moreover have "finalizerLaw calmApi" by (simp add: finalizerLaw_def calmApi_def stubApi_def)
  moreover have "shortUUID ''0f8fad5b-d9cb-469f-a165-70867728950e'' \<noteq> []" by code_simp
  then have "shortUUID (reFreshUUID calmApi h) \<noteq> []" for h by (simp add: calmApi_def stubApi_def)
  ultimately show ?thesis by (simp add: calm_def)
qed

lemma freshInstance_present: "present calmApi freshKey freshInstance verifiedTemplate fallbacks"
  by (simp add: present_def freshKey_def freshInstance_def objectKey_def templateOf_def deadlineAhead_def emptyMeta_def
      isZeroPtr_def calmApi_def effectiveOf_def emptyInstance_def)




lemma fresh_renders:
  "renderInstance calmApi (pinNamespace x) verifiedTemplate fallbacks (targetNamespace x)
    = (fst (renderInstance calmApi (pinNamespace x) verifiedTemplate fallbacks (targetNamespace x)), Inr [])"
proof -
  have "TrimSpace [] = []" by code_simp
  then show ?thesis
    by (simp add: renderInstance_def resolveURL_def resolveMessage_def resolveConnectionType_def renderValues_def
        verifiedTemplate_def emptyTemplate_def fallbacks_def Let_def)
qed

lemma fresh_ownable: "ownable calmApi freshInstance verifiedTemplate"
  by (simp add: ownable_def foundSource_def foundRelease_def calmApi_def stubApi_def addController_def emptyMeta_def)

lemma fresh_verified: "fst (templateSourceReady calmApi verifiedTemplate)"
  by (simp add: templateSourceReady_def calmApi_def stubApi_def findCondition_def verifiedTemplate_def condition_def)

theorem environment_provisioned_witness:
  "\<exists>x r. reGetInstance (worlds calmApi (\<lambda>W. reconcileInstance W freshKey) 3) [] ClientCache freshKey = Inr x
     \<and> reFetchRelease (worlds calmApi (\<lambda>W. reconcileInstance W freshKey) 3) [] freshKey = Inr r
     \<and> hrReleaseName r = ''i'' \<and> hrSourceName r = ''web-src'' \<and> hrTargetNamespace r = iWorkloadNamespace (iStatus x)
     \<and> iPhase (iStatus x) = phaseFor x (translateHelmRelease calmApi r)"
proof -
  let ?W = "worlds calmApi (\<lambda>W. reconcileInstance W freshKey) 3"
  have key: "releaseKey freshInstance = freshKey"
    by (simp add: releaseKey_def engineResourceName_def freshInstance_def freshKey_def)
  obtain x r where x: "reGetInstance ?W [] ClientCache freshKey = Inr x" "kin x freshInstance"
    "reFetchRelease ?W [] freshKey = Inr r"
    and r: "desiredRelease calmApi x verifiedTemplate fallbacks (sourceKind calmApi verifiedTemplate)
      (templateSourceName verifiedTemplate) (iWorkloadNamespace (iStatus x)) [] r = Inr r"
    "iPhase (iStatus x) = phaseFor x (translateHelmRelease calmApi r)"
    using environment_provisioned [OF calmApi_calm freshInstance_present order.refl refl fresh_verified fresh_ownable]
      fresh_renders unfolding key by blast
  have "Name (iMeta x) = ''i''" using x(2) by (simp add: kin_def freshInstance_def objectKey_def)
  moreover have "truncateStr ''i'' maxReleaseNameLen = ''i''" "''web'' @ ''-src'' = ''web-src''" by code_simp+
  ultimately have "hrReleaseName r = ''i'' \<and> hrSourceName r = ''web-src'' \<and> hrTargetNamespace r = iWorkloadNamespace (iStatus x)"
    using r(1) unfolding desiredRelease_def templateSourceName_def
    by (cases r) (auto simp: verifiedTemplate_def split: sum.splits)
  with x r(2) show ?thesis by blast
qed

end
