(* ===== verification/PoolRest.thy ===== *)
theory PoolRest
imports Converging TemplateProps
begin

text \<open>
  The template controller comes to rest: in a world at rest (\<open>Worlds\<close>) one reconcile brings the pool of
  a template to its size, as far as the cap and the members somebody holds allow, and every further
  one is \<open>idle\<close>. The status it records is then the count of what is there.
\<close>

section \<open>The verdict on the chart\<close>

definition chartKey :: "DployTemplate \<Rightarrow> NamespacedName" where
  "chartKey tmpl = \<lparr>nnNamespace = Namespace (tMeta tmpl), nnName = templateChartProbeName tmpl\<rparr>"

definition foundChart :: "api \<Rightarrow> DployTemplate \<Rightarrow> HelmChart" where
  "foundChart A tmpl = projr (reFetchChart A [] (chartKey tmpl))"

definition wantedChart :: "api \<Rightarrow> DployTemplate \<Rightarrow> Effective \<Rightarrow> error + HelmChart" where
  "wantedChart A tmpl eff =
     desiredChartProbe A tmpl (sourceKind A tmpl) (templateSourceName tmpl) eff (foundChart A tmpl)"

definition chartLog :: "api \<Rightarrow> DployTemplate \<Rightarrow> Effective \<Rightarrow> string \<Rightarrow> log" where
  "chartLog A tmpl eff v = ensuring (EFetchChart (chartKey tmpl) (Inr (foundChart A tmpl)))
     (\<lambda>d. EApplyChart d (Inr (bumpH v d))) (wantedChart A tmpl eff)"

text \<open>The verdict of a run and the calls it takes.\<close>

definition verdictOf :: "api \<Rightarrow> DployTemplate \<Rightarrow> Effective \<Rightarrow> sourceVerdict" where
  "verdictOf A tmpl eff =
     (if chartRef tmpl = []
      then \<lparr>svOk = False, svBroken = True, svReason = ''ChartNotConfigured'',
             svMessage = ''template has neither chart.path nor chart.chart set''\<rparr>
      else (case desiredSource A tmpl eff (foundSource A tmpl) of
          Inl e \<Rightarrow> unknownSource ''SourcePending''
            (''cannot reconcile the chart source yet: '' @ errText (sourceError tmpl e))
        | Inr _ \<Rightarrow> (case wantedChart A tmpl eff of
            Inl e \<Rightarrow> unknownSource ''ChartProbePending''
              (''cannot reconcile the chart probe yet: '' @ errText (wrapErr ''ensure chart probe'' e))
          | Inr c \<Rightarrow> translateChartProbe A c)))"

definition syncLog :: "api \<Rightarrow> DployTemplate \<Rightarrow> Effective \<Rightarrow> string \<Rightarrow> log" where
  "syncLog A tmpl eff v = (if chartRef tmpl = [] then []
     else sourceLog A tmpl eff @ (case desiredSource A tmpl eff (foundSource A tmpl) of
       Inl e \<Rightarrow> [] | Inr _ \<Rightarrow> chartLog A tmpl eff v))"

lemma found_chart:
  assumes "stable A" and "keyed A"
  shows "reFetchChart A h (chartKey tmpl) = Inr (foundChart A tmpl)" "objectKey (hcMeta (foundChart A tmpl)) = chartKey tmpl"
proof -
  obtain x where x: "reFetchChart A [] (chartKey tmpl) = Inr x" "objectKey (hcMeta x) = chartKey tmpl"
    using keyedD(3) [OF assms(2)] by blast
  then show "reFetchChart A h (chartKey tmpl) = Inr (foundChart A tmpl)" "objectKey (hcMeta (foundChart A tmpl)) = chartKey tmpl"
    using stableD(8) [OF assms(1), of h] by (simp_all add: foundChart_def)
qed

lemma bumpH_verdict: "translateChartProbe A (bumpH v c) = translateChartProbe A c"
  by (simp add: translateChartProbe_def bumpH_def)

lemma bumpH_key: "objectKey (hcMeta (bumpH v c)) = objectKey (hcMeta c)"
  by (simp add: bumpH_def objectKey_def)

lemma wp_syncSource:
  assumes "stable A" and "accepting A" and "keyed A"
    and "\<And>v. Q (verdictOf A tmpl eff) (h @ syncLog A tmpl eff v)"
  shows "wp (syncSource A tmpl eff) Q h"
proof (cases "chartRef tmpl = []")
  case True
  then show ?thesis using assms(4) by (simp add: syncSource_def wp_simps verdictOf_def syncLog_def)
next
  case chart: False
  let ?w = "desiredSource A tmpl eff (foundSource A tmpl)"
  have probe: "wp (ensureChartProbe A tmpl (sourceKind A tmpl) (templateSourceName tmpl) eff) P h'"
    if "\<And>v. P (map_sum (wrapErr ''ensure chart probe'') (bumpH v) (wantedChart A tmpl eff)) (h' @ chartLog A tmpl eff v)" for P h'
  proof (cases "wantedChart A tmpl eff")
    case (Inl e)
    then show ?thesis
      using that [of "[]"] found_chart(1) [OF assms(1,3), of _ tmpl]
      by (simp add: ensureChartProbe_def wp_simps chartKey_def wantedChart_def chartLog_def ensuring_def)
  next
    case (Inr d)
    obtain v where "reApplyChart A (h' @ [EFetchChart (chartKey tmpl) (Inr (foundChart A tmpl))]) d = Inr (bumpH v d)"
      using acceptingD(8) [OF assms(2)] by blast
    then show ?thesis
      using that [of v] Inr found_chart(1) [OF assms(1,3), of _ tmpl]
      by (simp add: ensureChartProbe_def wp_simps chartKey_def wantedChart_def chartLog_def ensuring_def)
  qed
  show ?thesis
    using assms(4) chart
    by (cases ?w; cases "wantedChart A tmpl eff")
      (auto simp: syncSource_def wp_simps wp_ensureSource [OF assms(2) found(2) [OF assms(1,3)]]
        verdictOf_def syncLog_def sourceLog_def bumpH_verdict intro!: probe)
qed

text \<open>It is found again.\<close>

lemma reference_bumped:
  assumes "referenceLaw A" and "referenceAgain A" and "setControllerRef A r (m\<lparr>Labels := l\<rparr>) = Inr m'"
  shows "setControllerRef A r (m'\<lparr>ResourceVersion := v, Labels := l\<rparr>) = Inr (m'\<lparr>ResourceVersion := v\<rparr>)"
proof -
  have again: "setControllerRef A r (m'\<lparr>Labels := l\<rparr>) = Inr m'" by (rule set_reference(1) [OF assms])
  obtain xs where xs: "m' = m'\<lparr>Labels := l, OwnerReferences := xs\<rparr>"
    and only: "\<And>n. Namespace n = Namespace (m'\<lparr>Labels := l\<rparr>) \<Longrightarrow> OwnerReferences n = OwnerReferences (m'\<lparr>Labels := l\<rparr>)
      \<Longrightarrow> setControllerRef A r n = Inr (n\<lparr>OwnerReferences := xs\<rparr>)"
    using assms(1) again unfolding referenceLaw_def by blast
  have l: "Labels m' = l" and refs: "OwnerReferences m' = xs"
    using arg_cong [OF xs, of Labels] arg_cong [OF xs, of OwnerReferences] by simp_all
  have "setControllerRef A r (m'\<lparr>ResourceVersion := v, Labels := l\<rparr>)
      = Inr (m'\<lparr>ResourceVersion := v, Labels := l, OwnerReferences := xs\<rparr>)" by (rule only) simp_all
  moreover have "m'\<lparr>ResourceVersion := v, Labels := l, OwnerReferences := xs\<rparr> = m'\<lparr>ResourceVersion := v\<rparr>"
    using l refs by (cases m') simp
  ultimately show ?thesis by simp
qed

lemma chart_again:
  assumes "referenceLaw A" and "referenceAgain A" and "desiredChartProbe A tmpl kd nm eff hc = Inr d"
  shows "desiredChartProbe A tmpl kd nm eff (bumpH v d) = Inr (bumpH v d)" "objectKey (hcMeta d) = objectKey (hcMeta hc)"
proof -
  let ?r = "ownerRef ''DployTemplate'' (tMeta tmpl)"
  obtain m where m: "setControllerRef A ?r ((hcMeta hc)\<lparr>Labels := templateLabels tmpl\<rparr>) = Inr m"
    and d: "d = hc\<lparr>hcMeta := m, hcChart := chartRef tmpl, hcInterval := eFluxInterval eff, hcSourceKind := kd,
      hcSourceName := nm, hcVersion := chartVersion tmpl\<rparr>"
    using assms(3) by (auto simp: desiredChartProbe_def split: sum.splits)
  show "desiredChartProbe A tmpl kd nm eff (bumpH v d) = Inr (bumpH v d)"
    using reference_bumped [OF assms(1,2) m] by (simp add: d desiredChartProbe_def bumpH_def)
  show "objectKey (hcMeta d) = objectKey (hcMeta hc)" using set_reference(2) [OF assms(1,2) m] by (simp add: d)
qed

text \<open>A template that differs in its status and version only is the same to these calls.\<close>

definition twin :: "DployTemplate \<Rightarrow> DployTemplate \<Rightarrow> bool" where
  "twin t' t \<longleftrightarrow> tSpec t' = tSpec t \<and> Name (tMeta t') = Name (tMeta t) \<and> Namespace (tMeta t') = Namespace (tMeta t)
     \<and> UID (tMeta t') = UID (tMeta t)"

lemma twin_same:
  assumes "twin t' t"
  shows "chartRef t' = chartRef t" "sourceKind A t' = sourceKind A t" "sourceKey t' = sourceKey t"
    "templateSourceName t' = templateSourceName t" "desiredSource A t' eff s = desiredSource A t eff s"
    "sourceError t' = sourceError t" "chartKey t' = chartKey t"
    "desiredChartProbe A t' kd nm eff hc = desiredChartProbe A t kd nm eff hc"
    "foundSource A t' = foundSource A t" "foundChart A t' = foundChart A t"
    "isPoolActive t' = isPoolActive t" "desiredWarm t' = desiredWarm t"
    "resolveInstanceTTL t' eff = resolveInstanceTTL t eff" "poolInstance t' ttl = poolInstance t ttl"
    "ownerRef k (tMeta t') = ownerRef k (tMeta t)"
  using assms
  by (simp_all add: twin_def chartRef_def sourceKind_def sourceKey_def templateSourceName_def desiredSource_def
      desiredHelmRepository_def desiredGitRepository_def templateLabels_def ownerRef_def sourceError_def chartKey_def
      templateChartProbeName_def desiredChartProbe_def chartVersion_def foundSource_def foundChart_def isPoolActive_def
      desiredWarm_def resolveInstanceTTL_def poolInstance_def cong: sum.case_cong option.case_cong)

lemma twin_logs:
  assumes "twin t' t"
  shows "wantedChart A t' eff = wantedChart A t eff" "verdictOf A t' eff = verdictOf A t eff"
    "syncLog A t' eff v = syncLog A t eff v"
  using twin_same [OF assms]
  by (simp_all add: wantedChart_def verdictOf_def syncLog_def sourceLog_def chartLog_def cong: sum.case_cong)

text \<open>Calls that touch neither sources nor charts.\<close>

definition elsewhere :: "log \<Rightarrow> bool" where
  "elsewhere h \<longleftrightarrow> (\<forall>kd k. latest (sourceAt kd k) h = None \<and> latest (chartAt k) h = None)"

lemma idle_chart:
  assumes "(case wantedChart A tmpl eff of Inl e \<Rightarrow> True | Inr d \<Rightarrow> d = foundChart A tmpl)"
    and "objectKey (hcMeta (foundChart A tmpl)) = chartKey tmpl"
  shows "idle (chartLog A tmpl eff v)"
  using assms by (auto simp: idle_def chartLog_def ensuring_def noChange_def split: sum.splits)

lemma sync_again:
  assumes "referenceLaw A" and "referenceAgain A" and "keyed A"
    and "L = pre @ syncLog A tmpl eff v @ post" and "elsewhere pre" and "elsewhere post"
  shows "verdictOf (afterRun A L) tmpl eff = verdictOf A tmpl eff" "idle (syncLog (afterRun A L) tmpl eff v')"
proof -
  let ?B = "afterRun A L" and ?w = "desiredSource A tmpl eff (foundSource A tmpl)" and ?c = "wantedChart A tmpl eff"
  have charts: "desiredChartProbe ?B = desiredChartProbe A" "translateChartProbe ?B = translateChartProbe A"
    by (intro ext; simp add: desiredChartProbe_def translateChartProbe_def cong: sum.case_cong option.case_cong)+
  have keys: "?w = Inr s \<Longrightarrow> objectKey (srcMeta s) = sourceKey tmpl" for s
    using source_again(2) [OF assms(1,2)] found_keys(2) [OF assms(3)] by metis
  have ckeys: "?c = Inr d \<Longrightarrow> objectKey (hcMeta d) = chartKey tmpl
      \<and> desiredChartProbe A tmpl (sourceKind A tmpl) (templateSourceName tmpl) eff (bumpH v d) = Inr (bumpH v d)" for d
  proof -
    assume "?c = Inr d"
    then show ?thesis using chart_again [OF assms(1,2)] keyedD(3) [OF assms(3), of "chartKey tmpl"]
      unfolding wantedChart_def foundChart_def by (metis sum.sel(2))
  qed
  have foundChart_key: "objectKey (hcMeta (foundChart A tmpl)) = chartKey tmpl"
    using keyedD(3) [OF assms(3), of "chartKey tmpl"] by (auto simp: foundChart_def)
  have ends: "latest (sourceAt kd k) pre = None" "latest (sourceAt kd k) post = None" "latest (chartAt k) pre = None"
    "latest (chartAt k) post = None" for kd k
    using assms(5,6) by (simp_all add: elsewhere_def)
  have none: "latest (sourceAt kd k) (chartLog A tmpl eff v) = None" "latest (chartAt k) (sourceLog A tmpl eff) = None" for kd k
    by (simp_all add: chartLog_def sourceLog_def ensuring_def at_defs split: sum.split)
  have "verdictOf ?B tmpl eff = verdictOf A tmpl eff \<and> idle (syncLog ?B tmpl eff v')"
  proof (cases "chartRef tmpl = []")
    case True
    then show ?thesis by (simp add: verdictOf_def syncLog_def idle_def)
  next
    case chart: False
    have "latest (sourceAt (sourceKind A tmpl) (sourceKey tmpl)) L = (case ?w of Inl e \<Rightarrow> None | Inr s \<Rightarrow> Some (Inr s))"
      using keys chart by (auto simp: assms(4) syncLog_def ends none latest_own_logs(2,3) split: sum.split)
    note src = source_after [OF this]
    have w: "desiredSource A tmpl eff (foundSource ?B tmpl) = ?w"
      using source_again(1) [OF assms(1,2)] by (auto simp: src split: sum.split)
    have isrc: "idle (sourceLog ?B tmpl eff)"
      by (rule idle_logs(2)) (use keys found_keys(2) [OF assms(3)] w in \<open>auto simp: src split: sum.split\<close>)
    show ?thesis
    proof (cases ?w)
      case (Inl e)
      with w isrc chart show ?thesis by (simp add: verdictOf_def syncLog_def)
    next
      case (Inr s)
      have "latest (chartAt (chartKey tmpl)) L = (case ?c of Inl e \<Rightarrow> None | Inr d \<Rightarrow> Some (Inr (bumpH v d)))"
        using ckeys chart Inr
        by (auto simp: assms(4) syncLog_def ends none chartLog_def ensuring_def at_defs bumpH_key split: sum.split)
      then have fc: "foundChart ?B tmpl = (case ?c of Inl e \<Rightarrow> foundChart A tmpl | Inr d \<Rightarrow> bumpH v d)"
        by (simp add: foundChart_def kept_def split: sum.splits)
      have c: "wantedChart ?B tmpl eff = (case ?c of Inl e \<Rightarrow> Inl e | Inr d \<Rightarrow> Inr (bumpH v d))"
        using ckeys by (auto simp: wantedChart_def [of ?B] fc charts split: sum.split) (simp add: wantedChart_def)
      have "idle (chartLog ?B tmpl eff v')"
        by (rule idle_chart) (use ckeys in \<open>auto simp: c fc bumpH_key foundChart_key split: sum.split\<close>)
      with w isrc chart Inr show ?thesis
        by (auto simp: verdictOf_def syncLog_def c charts bumpH_verdict intro: idle_append split: sum.split)
    qed
  qed
  then show "verdictOf ?B tmpl eff = verdictOf A tmpl eff" "idle (syncLog ?B tmpl eff v')" by simp_all
qed

section \<open>Filling\<close>

text \<open>The new member as it is asked for, the ones that were stored, and when there is nothing to fill.\<close>

definition newMember :: "api \<Rightarrow> DployTemplate \<Rightarrow> Effective \<Rightarrow> DployInstance" where
  "newMember A tmpl eff = (let x = poolInstance tmpl (resolveInstanceTTL tmpl eff) in
     x\<lparr>iMeta := projr (setControllerRef A (ownerRef ''DployTemplate'' (tMeta tmpl)) (iMeta x))\<rparr>)"

definition ownsMembers :: "api \<Rightarrow> DployTemplate \<Rightarrow> Effective \<Rightarrow> bool" where
  "ownsMembers A tmpl eff \<longleftrightarrow> (\<exists>m. setControllerRef A (ownerRef ''DployTemplate'' (tMeta tmpl))
     (iMeta (poolInstance tmpl (resolveInstanceTTL tmpl eff))) = Inr m)"

definition storedAs :: "DployInstance \<Rightarrow> DployInstance \<Rightarrow> bool" where
  "storedAs x y \<longleftrightarrow> (\<exists>n u v g t. y = born n u v g t x)"

definition createdLog :: "DployInstance \<Rightarrow> DployInstance list \<Rightarrow> log" where
  "createdLog x ys = map (\<lambda>y. ECreateInstance x (Inr y)) ys"

definition poolFull :: "PoolSpec \<Rightarrow> int \<Rightarrow> int \<Rightarrow> bool" where
  "poolFull p warm held \<longleftrightarrow> warm \<ge> poolSize p \<or> poolMaxSize p > 0 \<and> held \<ge> poolMaxSize p"

lemma wp_createMember:
  assumes "accepting A" and "ownsMembers A tmpl eff"
    and "\<And>y. storedAs (newMember A tmpl eff) y \<Longrightarrow> Q (Inr ()) (h @ [ECreateInstance (newMember A tmpl eff) (Inr y)])"
  shows "wp (createPoolInstance A tmpl (resolveInstanceTTL tmpl eff)) Q h"
proof -
  let ?x = "newMember A tmpl eff"
  obtain m where m: "setControllerRef A (ownerRef ''DployTemplate'' (tMeta tmpl))
      (iMeta (poolInstance tmpl (resolveInstanceTTL tmpl eff))) = Inr m" using assms(2) by (auto simp: ownsMembers_def)
  obtain n u v g t where "reCreateInstance A h ?x = Inr (born n u v g t ?x)" using acceptingD(4) [OF assms(1)] by blast
  moreover from this have "Q (Inr ()) (h @ [ECreateInstance ?x (Inr (born n u v g t ?x))])"
    by (intro assms(3)) (unfold storedAs_def, blast)
  ultimately show ?thesis
    using m by (simp add: createPoolInstance_def wp_simps Let_def newMember_def)
qed

lemma wp_fillPool:
  assumes "accepting A" and "ownsMembers A tmpl eff"
    and "\<And>ys. \<forall>y\<in>set ys. storedAs (newMember A tmpl eff) y
      \<Longrightarrow> poolFull p (warm + created + int (length ys)) (held + created + int (length ys))
      \<Longrightarrow> \<forall>k<length ys. \<not> poolFull p (warm + created + int k) (held + created + int k)
      \<Longrightarrow> Q (Inr (created + int (length ys))) (h @ createdLog (newMember A tmpl eff) ys)"
  shows "wp (fillPool A tmpl p (resolveInstanceTTL tmpl eff) warm held created) Q h"
  using assms(3)
proof (induction "nat (poolSize p - (warm + created))" arbitrary: created h rule: less_induct)
  case less
  show ?case
  proof (cases "poolFull p (warm + created) (held + created)")
    case True
    then have "fillPool A tmpl p (resolveInstanceTTL tmpl eff) warm held created = ok created"
      by (subst fillPool.simps) (auto simp: poolFull_def)
    with True show ?thesis using less.prems [of "[]"] by (simp add: wp_simps createdLog_def)
  next
    case False
    then have step: "fillPool A tmpl p (resolveInstanceTTL tmpl eff) warm held created
        = tryE (createPoolInstance A tmpl (resolveInstanceTTL tmpl eff))
            (\<lambda>_. fillPool A tmpl p (resolveInstanceTTL tmpl eff) warm held (created + 1))"
      by (subst fillPool.simps) (auto simp: poolFull_def)
    show ?thesis
      unfolding step wp_tryE
    proof (rule wp_createMember [OF assms(1,2)], unfold sum.case)
      fix y assume y: "storedAs (newMember A tmpl eff) y"
      show "wp (fillPool A tmpl p (resolveInstanceTTL tmpl eff) warm held (created + 1)) Q
          (h @ [ECreateInstance (newMember A tmpl eff) (Inr y)])"
      proof (rule less.hyps)
        show "nat (poolSize p - (warm + (created + 1))) < nat (poolSize p - (warm + created))"
          using False by (auto simp: poolFull_def)
        fix ys assume "\<forall>y\<in>set ys. storedAs (newMember A tmpl eff) y"
          and "poolFull p (warm + (created + 1) + int (length ys)) (held + (created + 1) + int (length ys))"
          and "\<forall>k<length ys. \<not> poolFull p (warm + (created + 1) + int k) (held + (created + 1) + int k)"
        moreover from this(3) have "\<forall>k<length (y # ys). \<not> poolFull p (warm + created + int k) (held + created + int k)"
          using False by (auto simp: less_Suc_eq_0_disj algebra_simps)
        ultimately show "Q (Inr (created + 1 + int (length ys)))
            ((h @ [ECreateInstance (newMember A tmpl eff) (Inr y)]) @ createdLog (newMember A tmpl eff) ys)"
          using less.prems [of "y # ys"] y False
          by (simp add: createdLog_def algebra_simps)
      qed
    qed
  qed
qed

section \<open>Shrinking\<close>

text \<open>The victims a run deletes, and the calls it takes.\<close>

fun purgedLog :: "reader \<Rightarrow> nat \<Rightarrow> DployInstance list \<Rightarrow> log" where
  "purgedLog rd n [] = []"
| "purgedLog rd n (i # vs) =
     (if n = 0 then []
      else EGetInstance rd (objectKey (iMeta i)) (Inr i) #
        (if isPurgeable i
         then EDeleteInstance (objectKey (iMeta i)) (Some (UID (iMeta i), ResourceVersion (iMeta i))) (Inr ()) # purgedLog rd (n - 1) vs
         else purgedLog rd n vs))"

definition victims :: "nat \<Rightarrow> DployInstance list \<Rightarrow> DployInstance list" where
  "victims n vs = take n (filter isPurgeable vs)"

definition availableIn :: "DployInstance list \<Rightarrow> int" where
  "availableIn vs = int (length (filter (\<lambda>i. iPhase (iStatus i) = PhaseAvailable) vs))"

lemma wp_purgeLoop:
  assumes "accepting A" and "\<forall>i\<in>set vs. \<forall>h. reGetInstance A h rd (objectKey (iMeta i)) = Inr i"
    and "deleted \<le> excess"
  shows "wp (purgeLoop A rd excess vs deleted avail) Q h =
    (let gone = victims (nat (excess - deleted)) vs in
     Q (Inr (deleted + int (length gone), avail + availableIn gone)) (h @ purgedLog rd (nat (excess - deleted)) vs))"
  using assms(2,3)
proof (induction vs arbitrary: deleted avail h)
  case Nil
  then show ?case by (simp add: wp_simps victims_def availableIn_def)
next
  case (Cons i vs)
  have read: "reGetInstance A h rd (objectKey (iMeta i)) = Inr i" for h using Cons.prems(1) by simp
  show ?case
  proof (cases "deleted = excess")
    case True
    then show ?thesis by (simp add: wp_simps victims_def availableIn_def)
  next
    case False
    with Cons.prems(2) have n: "nat (excess - deleted) = Suc (nat (excess - (deleted + 1)))" by simp
    show ?thesis
      using Cons.IH [of "deleted + 1"] Cons.IH [of deleted] Cons.prems False
      by (simp add: wp_simps read acceptingD(5) [OF assms(1)] n victims_def availableIn_def Let_def algebra_simps)
  qed
qed

section \<open>One run\<close>

definition warmOf :: "DployInstance list \<Rightarrow> DployInstance list" where
  "warmOf items = filter (\<lambda>i. alive i \<and> iPooled (iSpec i) \<and> iOwner (iSpec i) = []) items"

definition countAlive :: "DployInstance list \<Rightarrow> int" where
  "countAlive items = int (length (filter alive items))"

definition countClaimed :: "DployInstance list \<Rightarrow> int" where
  "countClaimed items = int (length (filter (\<lambda>i. alive i \<and> iPooled (iSpec i) \<and> iOwner (iSpec i) \<noteq> []) items))"

lemma tally_as_counts:
  "ptUnclaimed (tally items emptyTally) = warmOf items" "ptTotal (tally items emptyTally) = countAlive items"
  "ptClaimed (tally items emptyTally) = countClaimed items" "ptAvailable (tally items emptyTally) = availableIn (warmOf items)"
  by (simp_all add: tally_unclaimed tally_counts emptyTally_def warmOf_def countAlive_def countClaimed_def availableIn_def
      conj_ac)

abbreviation poolSelector :: "DployTemplate \<Rightarrow> selector" where
  "poolSelector tmpl \<equiv> [(LabelTemplate, Name (tMeta tmpl))]"

definition surplus :: "DployTemplate \<Rightarrow> DployInstance list \<Rightarrow> nat" where
  "surplus tmpl items = nat (int (length (warmOf items)) - desiredWarm tmpl)"

text \<open>The template is there with its instances; where there are too many warm ones, each is read as it
  was listed.\<close>

definition tended ::
  "api \<Rightarrow> reader option \<Rightarrow> NamespacedName \<Rightarrow> DployTemplate \<Rightarrow> Effective \<Rightarrow> DployInstance list \<Rightarrow> bool" where
  "tended A R key tmpl eff items \<longleftrightarrow> reGetTemplate A [] key = Inr tmpl \<and> objectKey (tMeta tmpl) = key
     \<and> effectiveOf A (reGetConfig A [] configKey) = Inr eff \<and> ownsMembers A tmpl eff
     \<and> reListInstances A [] ClientCache (Namespace (tMeta tmpl)) (poolSelector tmpl) = Inr items
     \<and> (surplus tmpl items > 0 \<longrightarrow> distinct (map (\<lambda>i. objectKey (iMeta i)) items)
          \<and> (\<forall>i\<in>set items. reGetInstance A [] (templateReader R) (objectKey (iMeta i)) = Inr i))"

definition fills :: "api \<Rightarrow> DployTemplate \<Rightarrow> Effective \<Rightarrow> bool" where
  "fills A tmpl eff \<longleftrightarrow> isPoolActive tmpl \<and> \<not> svBroken (verdictOf A tmpl eff)"

definition madeFor :: "api \<Rightarrow> DployTemplate \<Rightarrow> Effective \<Rightarrow> DployInstance list \<Rightarrow> DployInstance list \<Rightarrow> bool" where
  "madeFor A tmpl eff items ys \<longleftrightarrow> (\<forall>y\<in>set ys. storedAs (newMember A tmpl eff) y)
     \<and> (if fills A tmpl eff
        then \<exists>p. tPool (tSpec tmpl) = Some p
          \<and> poolFull p (int (length (warmOf items)) + int (length ys)) (countAlive items + int (length ys))
          \<and> (\<forall>k<length ys. \<not> poolFull p (int (length (warmOf items)) + int k) (countAlive items + int k))
        else ys = [])"

definition goneFrom :: "DployTemplate \<Rightarrow> DployInstance list \<Rightarrow> DployInstance list" where
  "goneFrom tmpl items = victims (surplus tmpl items) (sortPurgeVictims (warmOf items))"

definition sourceCondition :: "api \<Rightarrow> DployTemplate \<Rightarrow> Effective \<Rightarrow> Condition" where
  "sourceCondition A tmpl eff = (let src = verdictOf A tmpl eff in
     condition ConditionSourceReady (if svOk src then CondTrue else CondFalse) (svReason src) (svMessage src)
       (Generation (tMeta tmpl)))"

definition tendedStatus ::
  "api \<Rightarrow> DployTemplate \<Rightarrow> Effective \<Rightarrow> DployInstance list \<Rightarrow> DployInstance list \<Rightarrow> Time \<Rightarrow> DployTemplate" where
  "tendedStatus A tmpl eff items ys t =
     templateStatus tmpl (setCond A t (tConditions (tStatus tmpl)) (sourceCondition A tmpl eff)) (tally items emptyTally)
       (int (length ys)) (int (length (goneFrom tmpl items))) (availableIn (goneFrom tmpl items))"

definition poolLog ::
  "api \<Rightarrow> reader option \<Rightarrow> NamespacedName \<Rightarrow> DployTemplate \<Rightarrow> Effective \<Rightarrow> DployInstance list \<Rightarrow> DployInstance list
   \<Rightarrow> string \<Rightarrow> string \<Rightarrow> Time \<Rightarrow> log" where
  "poolLog A R key tmpl eff items ys v w t =
     [EGetTemplate key (Inr tmpl), EGetConfig configKey (reGetConfig A [] configKey)] @ syncLog A tmpl eff v
     @ [EListInstances ClientCache (Namespace (tMeta tmpl)) (poolSelector tmpl) (Inr items)]
     @ createdLog (newMember A tmpl eff) ys
     @ purgedLog (templateReader R) (surplus tmpl items) (sortPurgeVictims (warmOf items))
     @ [EPatchTemplateStatus tmpl (tendedStatus A tmpl eff items ys t) (Inr (bumpT w (tendedStatus A tmpl eff items ys t)))]"

lemma untimed_pool [simp]:
  "untimed (syncLog A tmpl eff v) = syncLog A tmpl eff v" "untimed (createdLog x ys) = createdLog x ys"
  "untimed (purgedLog rd n vs) = purgedLog rd n vs"
proof -
  show "untimed (syncLog A tmpl eff v) = syncLog A tmpl eff v"
    by (auto simp: syncLog_def chartLog_def ensuring_def split: sum.split)
  show "untimed (createdLog x ys) = createdLog x ys" by (induction ys) (simp_all add: createdLog_def)
  show "untimed (purgedLog rd n vs) = purgedLog rd n vs" by (induction rd n vs rule: purgedLog.induct) simp_all
qed

lemma sorted_members: "set (sortPurgeVictims vs) = set vs"
  unfolding sortPurgeVictims_def by simp

lemma wp_fill:
  assumes "accepting A" and "ownsMembers A tmpl eff"
    and "\<And>ys. madeFor A tmpl eff items ys \<Longrightarrow> Q (Inr (int (length ys))) (h @ createdLog (newMember A tmpl eff) ys)"
  shows "wp (fill A tmpl eff (verdictOf A tmpl eff) (tally items emptyTally)) Q h"
proof (cases "fills A tmpl eff")
  case True
  then obtain p where p: "tPool (tSpec tmpl) = Some p" by (auto simp: fills_def isPoolActive_def split: option.splits)
  have "wp (fillPool A tmpl p (resolveInstanceTTL tmpl eff) (int (length (warmOf items))) (countAlive items) 0) Q h"
    by (rule wp_fillPool [OF assms(1,2)]) (use True p assms(3) in \<open>auto simp: madeFor_def\<close>)
  with True p show ?thesis by (simp add: fill_def fills_def tally_as_counts)
next
  case False
  then show ?thesis
    using assms(3) [of "[]"] by (auto simp: fill_def fills_def wp_simps madeFor_def createdLog_def split: option.split)
qed

lemma wp_shrink:
  assumes "accepting A" and "\<And>i h. surplus tmpl items > 0 \<Longrightarrow> i \<in> set items
      \<Longrightarrow> reGetInstance A h (templateReader R) (objectKey (iMeta i)) = Inr i"
    and "Q (Inr (int (length (goneFrom tmpl items)), availableIn (goneFrom tmpl items)))
      (h @ purgedLog (templateReader R) (surplus tmpl items) (sortPurgeVictims (warmOf items)))"
  shows "wp (shrink A R tmpl (tally items emptyTally)) Q h"
proof (cases "surplus tmpl items > 0")
  case True
  then have more: "int (length (warmOf items)) > desiredWarm tmpl" by (simp add: surplus_def)
  have "\<forall>i\<in>set (sortPurgeVictims (warmOf items)). \<forall>h. reGetInstance A h (templateReader R) (objectKey (iMeta i)) = Inr i"
    using assms(2) [OF True] by (simp add: sorted_members warmOf_def)
  then show ?thesis
    using assms(3) more wp_purgeLoop [OF assms(1), of "sortPurgeVictims (warmOf items)" "templateReader R" 0
        "int (length (warmOf items)) - desiredWarm tmpl" 0 Q h]
    by (simp add: shrink_def tally_as_counts Let_def purgeSurplus_def goneFrom_def surplus_def)
next
  case False
  have none: "purgedLog rd 0 vs = []" for rd vs by (cases vs) simp_all
  from False have "\<not> int (length (warmOf items)) > desiredWarm tmpl" "surplus tmpl items = 0" by (simp_all add: surplus_def)
  then show ?thesis
    using assms(3) by (simp add: shrink_def tally_as_counts Let_def wp_simps goneFrom_def victims_def none availableIn_def)
qed

lemma wp_record:
  assumes "accepting A" and "fin = tendedStatus A tmpl eff items ys (reNow A h)"
    and "\<And>r w. Q r ((h @ [ENow (reNow A h)]) @ [EPatchTemplateStatus tmpl fin (Inr (bumpT w fin))])"
  shows "wp (record_status A tmpl (verdictOf A tmpl eff) (tally items emptyTally) (int (length ys))
      (int (length (goneFrom tmpl items))) (availableIn (goneFrom tmpl items))) Q h"
proof -
  obtain w where "rePatchTemplateStatus A (h @ [ENow (reNow A h)]) tmpl fin = Inr (bumpT w fin)"
    using acceptingD(3) [OF assms(1)] by blast
  then show ?thesis
    using assms(3) by (simp add: record_status_def wp_simps sourceCondition_def Let_def assms(2) tendedStatus_def)
qed

lemma pool_run:
  assumes "calm A" and "tended A R key tmpl eff items"
  shows "\<exists>ys v w t. madeFor A tmpl eff items ys
    \<and> untimed (logged (reconcileTemplate A R key) []) = poolLog A R key tmpl eff items ys v w t"
proof -
  have laws: "stable A" "accepting A" "keyed A" using assms(1) by (simp_all add: calm_def)
  have reads: "reGetTemplate A h key = Inr tmpl"
    "reListInstances A h ClientCache (Namespace (tMeta tmpl)) (poolSelector tmpl) = Inr items" for h
    using assms(2) stableD(1,5) [OF laws(1)] unfolding tended_def by metis+
  obtain c where c: "\<And>h. reGetConfig A h configKey = c" using stableD(3) [OF laws(1)] by blast
  have fresh: "surplus tmpl items > 0 \<Longrightarrow> i \<in> set items
      \<Longrightarrow> reGetInstance A h (templateReader R) (objectKey (iMeta i)) = Inr i" for i h
    using assms(2) stableD(2) [OF laws(1)] unfolding tended_def by metis
  have own: "ownsMembers A tmpl eff" and eff: "effectiveOf A c = Inr eff" using assms(2) c by (simp_all add: tended_def)
  let ?P = "\<lambda>_ h. \<exists>ys v w t. madeFor A tmpl eff items ys \<and> untimed h = poolLog A R key tmpl eff items ys v w t"
  let ?get = "[EGetTemplate key (Inr tmpl), EGetConfig configKey c]"
  let ?list = "EListInstances ClientCache (Namespace (tMeta tmpl)) (poolSelector tmpl) (Inr items)"
  have "wp (syncSource A tmpl eff) (\<lambda>src. wp (listAndReconcile A R tmpl eff src) ?P) ?get"
  proof (rule wp_syncSource [OF laws], unfold listAndReconcile_def wp_bind wp_calls reads sum.case reconcilePool_def wp_tryE,
      rule wp_fill [OF laws(2) own], unfold sum.case wp_tryE, rule wp_shrink [OF laws(2) fresh], assumption, assumption,
      unfold sum.case prod.case, rule wp_record [OF laws(2) refl], goal_cases)
    case (1 v ys r w)
    let ?h = "(((?get @ syncLog A tmpl eff v) @ [?list]) @ createdLog (newMember A tmpl eff) ys)
      @ purgedLog (templateReader R) (surplus tmpl items) (sortPurgeVictims (warmOf items))"
    show ?case
      by (rule exI [of _ ys], rule exI [of _ v], rule exI [of _ w], rule exI [of _ "reNow A ?h"])
        (use 1 in \<open>simp add: poolLog_def c\<close>)
  qed
  then have "wp (reconcileTemplate A R key) ?P []"
    unfolding reconcileTemplate_def wp_bind wp_calls reads sum.case wp_tryE by (simp add: wp_simps c eff Let_def)
  then show ?thesis unfolding wp_def by simp
qed

section \<open>What a run leaves\<close>

abbreviation keyOf :: "DployInstance \<Rightarrow> NamespacedName" where "keyOf i \<equiv> objectKey (iMeta i)"

definition leftOver :: "DployTemplate \<Rightarrow> DployInstance list \<Rightarrow> DployInstance list \<Rightarrow> DployInstance list" where
  "leftOver tmpl items ys = filter (\<lambda>i. keyOf i \<notin> keyOf ` set (goneFrom tmpl items)) (items @ ys)"

lemma stored_member:
  assumes "referenceLaw A" and "ownsMembers A tmpl eff" and "storedAs (newMember A tmpl eff) y"
  shows "alive y" "iPooled (iSpec y)" "iOwner (iSpec y) = []" "iPhase (iStatus y) \<noteq> PhaseAvailable"
    "selected (Namespace (tMeta tmpl)) (poolSelector tmpl) y"
proof -
  let ?x = "poolInstance tmpl (resolveInstanceTTL tmpl eff)"
  obtain m where m: "setControllerRef A (ownerRef ''DployTemplate'' (tMeta tmpl)) (iMeta ?x) = Inr m"
    using assms(2) by (auto simp: ownsMembers_def)
  then obtain xs where "m = (iMeta ?x)\<lparr>OwnerReferences := xs\<rparr>" using assms(1) unfolding referenceLaw_def by blast
  with m assms(3) show "alive y" "iPooled (iSpec y)" "iOwner (iSpec y) = []" "iPhase (iStatus y) \<noteq> PhaseAvailable"
    "selected (Namespace (tMeta tmpl)) (poolSelector tmpl) y"
    by (auto simp: storedAs_def newMember_def Let_def born_def poolInstance_def emptyInstance_def emptyMeta_def alive_def
        isZeroPtr_def selected_def label_defs)
qed

lemma listedAfter_pool:
  "listedAfter ns sel (syncLog A tmpl eff v) items = items"
  "\<forall>y\<in>set ys. selected ns sel y \<Longrightarrow> listedAfter ns sel (createdLog x ys) items = items @ ys"
  "listedAfter ns sel (purgedLog rd n vs) items = filter (\<lambda>i. keyOf i \<notin> keyOf ` set (victims n vs)) items"
proof -
  show "listedAfter ns sel (syncLog A tmpl eff v) items = items"
    by (auto simp: syncLog_def sourceLog_def chartLog_def ensuring_def split: sum.split)
  show "\<forall>y\<in>set ys. selected ns sel y \<Longrightarrow> listedAfter ns sel (createdLog x ys) items = items @ ys"
    by (induction ys arbitrary: items) (simp_all add: createdLog_def)
  show "listedAfter ns sel (purgedLog rd n vs) items = filter (\<lambda>i. keyOf i \<notin> keyOf ` set (victims n vs)) items"
  proof (induction rd n vs arbitrary: items rule: purgedLog.induct)
    case (2 rd n i vs)
    show ?case
    proof (cases n)
      case (Suc m)
      have "victims (Suc m) (i # vs) = (if isPurgeable i then i # victims m vs else victims (Suc m) vs)"
        by (simp add: victims_def)
      with 2 Suc show ?thesis by (auto intro: filter_cong)
    qed (simp add: victims_def)
  qed (simp add: victims_def)
qed

lemma latest_pool:
  "latest (instanceAt k) (syncLog A tmpl eff v) = None" "latest (templateAt k) (syncLog A tmpl eff v) = None"
  "latest (templateAt k) (createdLog x ys) = None" "latest (templateAt k) (purgedLog rd n vs) = None"
  "k \<notin> keyOf ` set (victims n vs) \<Longrightarrow> latest (instanceAt k) (purgedLog rd n vs) = None"
  "elsewhere (createdLog x ys)" "elsewhere (purgedLog rd n vs)"
proof -
  show "latest (instanceAt k) (syncLog A tmpl eff v) = None" "latest (templateAt k) (syncLog A tmpl eff v) = None"
    by (auto simp: syncLog_def chartLog_def ensuring_def at_defs split: sum.split)
  show "latest (templateAt k) (createdLog x ys) = None" by (induction ys) (simp_all add: createdLog_def at_defs)
  show "latest (templateAt k) (purgedLog rd n vs) = None"
    by (induction rd n vs rule: purgedLog.induct) (simp_all add: at_defs)
  show "elsewhere (createdLog x ys)" by (induction ys) (simp_all add: elsewhere_def createdLog_def at_defs)
  show "elsewhere (purgedLog rd n vs)"
    by (induction rd n vs rule: purgedLog.induct) (simp_all add: elsewhere_def at_defs)
  show "k \<notin> keyOf ` set (victims n vs) \<Longrightarrow> latest (instanceAt k) (purgedLog rd n vs) = None"
  proof (induction rd n vs rule: purgedLog.induct)
    case (2 rd n i vs)
    show ?case
    proof (cases n)
      case (Suc m)
      have "victims (Suc m) (i # vs) = (if isPurgeable i then i # victims m vs else victims (Suc m) vs)"
        by (simp add: victims_def)
      with 2 Suc show ?thesis by (auto simp: at_defs split: if_splits)
    qed simp
  qed simp
qed

text \<open>Members are made only while there are too few, and deleted only while there are too many.\<close>

lemma active_warm: "isPoolActive tmpl \<Longrightarrow> tPool (tSpec tmpl) = Some p \<Longrightarrow> desiredWarm tmpl = poolSize p"
  by (simp add: isPoolActive_def desiredWarm_def)

lemma made_few:
  assumes "madeFor A tmpl eff items ys" and "ys \<noteq> []"
  shows "int (length (warmOf items)) + int (length ys) \<le> desiredWarm tmpl" "surplus tmpl items = 0"
proof -
  have f: "fills A tmpl eff" using assms by (auto simp: madeFor_def split: if_splits)
  then obtain p where p: "tPool (tSpec tmpl) = Some p"
    and few: "\<forall>k<length ys. \<not> poolFull p (int (length (warmOf items)) + int k) (countAlive items + int k)"
    using assms(1) by (auto simp: madeFor_def)
  from few assms(2) have "\<not> poolFull p (int (length (warmOf items)) + int (length ys - 1)) (countAlive items + int (length ys - 1))"
    by simp
  with assms(2) have "int (length (warmOf items)) + int (length ys) \<le> poolSize p" by (cases ys) (auto simp: poolFull_def)
  with f p show "int (length (warmOf items)) + int (length ys) \<le> desiredWarm tmpl" "surplus tmpl items = 0"
    by (auto simp: active_warm fills_def surplus_def)
qed

lemma gone_members: "set (goneFrom tmpl items) \<subseteq> set (warmOf items)" "set (warmOf items) \<subseteq> set items"
  "i \<in> set (goneFrom tmpl items) \<Longrightarrow> isPurgeable i" "length (goneFrom tmpl items) \<le> surplus tmpl items"
  using set_take_subset [of "surplus tmpl items" "filter isPurgeable (sortPurgeVictims (warmOf items))"]
  by (auto simp: goneFrom_def victims_def sorted_members warmOf_def dest: in_set_takeD)

lemma gone_none: "surplus tmpl items = 0 \<Longrightarrow> goneFrom tmpl items = [] \<and> leftOver tmpl items ys = items @ ys"
  by (simp add: goneFrom_def victims_def leftOver_def)

text \<open>Among instances with different keys, removing the ones that are gone removes just these.\<close>

lemma distinct_sorted: "distinct vs \<Longrightarrow> distinct (sortPurgeVictims vs)"
  by (metis sortPurgeVictims_def mset_eq_imp_distinct_iff mset_sortSlice)

lemma count_left:
  assumes "distinct (map keyOf items)"
  shows "length (filter P (leftOver tmpl items [])) + length (filter P (goneFrom tmpl items)) = length (filter P items)"
proof -
  let ?G = "set (goneFrom tmpl items)"
  have d: "distinct items" and inj: "inj_on keyOf (set items)" using assms by (simp_all add: distinct_map)
  have sub: "?G \<subseteq> set items" using gone_members(1,2) by blast
  have dg: "distinct (goneFrom tmpl items)"
    using d distinct_sorted [of "warmOf items"] by (simp add: goneFrom_def victims_def warmOf_def)
  have "leftOver tmpl items [] = filter (\<lambda>i. i \<notin> ?G) items"
    using inj sub by (auto simp: leftOver_def inj_on_def image_iff intro!: filter_cong)
  then have left: "length (filter P (leftOver tmpl items [])) = card (set (filter P (filter (\<lambda>i. i \<notin> ?G) items)))"
    using d distinct_card [of "filter P (filter (\<lambda>i. i \<notin> ?G) items)"] by simp
  have "set (filter P (filter (\<lambda>i. i \<notin> ?G) items)) = {i\<in>set items. P i} - {i\<in>?G. P i}" by auto
  with left have "length (filter P (leftOver tmpl items [])) = card ({i\<in>set items. P i} - {i\<in>?G. P i})" by (simp only:)
  moreover have "length (filter P (goneFrom tmpl items)) = card {i\<in>?G. P i}"
    using dg distinct_card [of "filter P (goneFrom tmpl items)"] by simp
  moreover have "length (filter P items) = card {i\<in>set items. P i}"
    using d distinct_card [of "filter P items"] by simp
  moreover have "card {i\<in>?G. P i} + card ({i\<in>set items. P i} - {i\<in>?G. P i}) = card {i\<in>set items. P i}"
  proof -
    have c: "{i\<in>?G. P i} \<subseteq> {i\<in>set items. P i}" using sub by blast
    then have "card {i\<in>?G. P i} \<le> card {i\<in>set items. P i}" by (rule card_mono [rotated]) simp
    then show ?thesis using card_Diff_subset [OF _ c] by simp
  qed
  ultimately show ?thesis by simp
qed

lemma count_added:
  assumes "surplus tmpl items = 0"
  shows "length (filter P (leftOver tmpl items ys)) = length (filter P items) + length (filter P ys)"
  using gone_none [OF assms] by simp

lemma left_counts:
  assumes "referenceLaw A" and "ownsMembers A tmpl eff" and "madeFor A tmpl eff items ys"
    and "surplus tmpl items > 0 \<longrightarrow> distinct (map keyOf items)" and "left = leftOver tmpl items ys"
  shows "int (length (warmOf left)) = int (length (warmOf items)) + int (length ys) - int (length (goneFrom tmpl items))"
    "countAlive left = countAlive items + int (length ys) - int (length (goneFrom tmpl items))"
    "countClaimed left = countClaimed items"
    "availableIn (warmOf left) = availableIn (warmOf items) - availableIn (goneFrom tmpl items)"
proof -
  let ?gone = "goneFrom tmpl items"
  have y: "alive y" "iPooled (iSpec y)" "iOwner (iSpec y) = []" "iPhase (iStatus y) \<noteq> PhaseAvailable" if "y \<in> set ys" for y
    using stored_member [OF assms(1,2)] assms(3) that by (auto simp: madeFor_def)
  have g: "alive g" "iPooled (iSpec g)" "iOwner (iSpec g) = []" if "g \<in> set ?gone" for g
    using gone_members(1) [of tmpl items] that by (auto simp: warmOf_def)
  have count: "int (length (filter P left)) = int (length (filter P items)) + int (length (filter P ys)) - int (length (filter P ?gone))"
    for P
  proof (cases "surplus tmpl items > 0")
    case True
    then have "ys = []" using made_few(2) [OF assms(3)] by auto
    with True count_left [of items P tmpl] assms(4,5) show ?thesis by simp
  next
    case False
    then show ?thesis using count_added [of tmpl items P ys] gone_none [of tmpl items] assms(5) by simp
  qed
  have all: "filter (\<lambda>i. alive i \<and> iPooled (iSpec i) \<and> iOwner (iSpec i) = []) ys = ys" "filter alive ys = ys"
    "filter (\<lambda>i. alive i \<and> iPooled (iSpec i) \<and> iOwner (iSpec i) = []) ?gone = ?gone" "filter alive ?gone = ?gone"
    by (rule filter_True; simp add: y g)+
  have none: "filter (\<lambda>i. alive i \<and> iPooled (iSpec i) \<and> iOwner (iSpec i) \<noteq> []) ys = []"
    "filter (\<lambda>i. alive i \<and> iPooled (iSpec i) \<and> iOwner (iSpec i) \<noteq> []) ?gone = []"
    "filter (\<lambda>i. alive i \<and> iPooled (iSpec i) \<and> iOwner (iSpec i) = [] \<and> iPhase (iStatus i) = PhaseAvailable) ys = []"
    by (rule filter_False; simp add: y g)+
  have "filter (\<lambda>i. alive i \<and> iPooled (iSpec i) \<and> iOwner (iSpec i) = [] \<and> iPhase (iStatus i) = PhaseAvailable) ?gone
      = filter (\<lambda>i. iPhase (iStatus i) = PhaseAvailable) ?gone"
    by (rule filter_cong) (simp_all add: g)
  then show "int (length (warmOf left)) = int (length (warmOf items)) + int (length ys) - int (length ?gone)"
    "countAlive left = countAlive items + int (length ys) - int (length ?gone)" "countClaimed left = countClaimed items"
    "availableIn (warmOf left) = availableIn (warmOf items) - availableIn ?gone"
    by (simp_all add: warmOf_def countAlive_def countClaimed_def availableIn_def count all none)
qed

text \<open>After a run nothing is left to make and nobody is left to delete.\<close>

lemma left_surplus:
  assumes "referenceLaw A" and "ownsMembers A tmpl eff" and "madeFor A tmpl eff items ys"
    and "surplus tmpl items > 0 \<longrightarrow> distinct (map keyOf items)" and "left = leftOver tmpl items ys"
    and "surplus tmpl left > 0"
  shows "surplus tmpl items > 0" "ys = []" "\<forall>i\<in>set (warmOf left). \<not> isPurgeable i"
proof -
  note counts = left_counts(1) [OF assms(1-5)]
  show ys: "ys = []"
    using made_few [OF assms(3)] gone_none [of tmpl items] counts assms(6) by (auto simp: surplus_def)
  show more: "surplus tmpl items > 0"
    using counts assms(6) ys by (simp add: surplus_def)
  have "length (goneFrom tmpl items) < surplus tmpl items"
    using counts assms(6) ys by (simp add: surplus_def)
  then have all: "goneFrom tmpl items = filter isPurgeable (sortPurgeVictims (warmOf items))"
    by (simp add: goneFrom_def victims_def)
  show "\<forall>i\<in>set (warmOf left). \<not> isPurgeable i"
  proof
    fix i assume "i \<in> set (warmOf left)"
    then have "i \<in> set (warmOf items)" "keyOf i \<notin> keyOf ` set (goneFrom tmpl items)"
      by (auto simp: assms(5) leftOver_def ys warmOf_def)
    then show "\<not> isPurgeable i" unfolding all by (auto simp: sorted_members)
  qed
qed

lemma full_again:
  assumes "madeFor A tmpl eff items ys" and "poolFull p (int (length (warmOf items))) (countAlive items)"
    and "tPool (tSpec tmpl) = Some p"
  shows "ys = []"
proof (rule ccontr)
  assume "ys \<noteq> []"
  moreover from this have "fills A tmpl eff" using assms(1) by (auto simp: madeFor_def split: if_splits)
  ultimately have "\<not> poolFull p (int (length (warmOf items)) + int 0) (countAlive items + int 0)"
    using assms(1,3) unfolding madeFor_def by auto
  with assms(2) show False by simp
qed

section \<open>The next run\<close>

text \<open>What a run has recorded about what it left, and what it left.\<close>

definition poolKept :: "api \<Rightarrow> DployTemplate \<Rightarrow> Effective \<Rightarrow> DployTemplate \<Rightarrow> DployInstance list \<Rightarrow> bool" where
  "poolKept A tmpl eff tmpl' left \<longleftrightarrow> tPoolTotal (tStatus tmpl') = countAlive left
     \<and> tPoolClaimed (tStatus tmpl') = countClaimed left \<and> tPoolAvailable (tStatus tmpl') = availableIn (warmOf left)
     \<and> (fills A tmpl eff \<longrightarrow> (\<exists>p. tPool (tSpec tmpl) = Some p \<and> poolFull p (int (length (warmOf left))) (countAlive left)))
     \<and> (int (length (warmOf left)) \<le> desiredWarm tmpl \<or> (\<forall>i\<in>set (warmOf left). \<not> isPurgeable i))"

lemma bumpT_simps [simp]:
  "tSpec (bumpT w t) = tSpec t" "tStatus (bumpT w t) = tStatus t" "objectKey (tMeta (bumpT w t)) = objectKey (tMeta t)"
  "Name (tMeta (bumpT w t)) = Name (tMeta t)" "Namespace (tMeta (bumpT w t)) = Namespace (tMeta t)"
  "UID (tMeta (bumpT w t)) = UID (tMeta t)" "Generation (tMeta (bumpT w t)) = Generation (tMeta t)"
  by (simp_all add: bumpT_def objectKey_def)

lemma status_fields [simp]:
  "tMeta (tendedStatus A tmpl eff items ys t) = tMeta tmpl" "tSpec (tendedStatus A tmpl eff items ys t) = tSpec tmpl"
  by (simp_all add: tendedStatus_def templateStatus_def)

lemma status_twin: "twin (bumpT w (tendedStatus A tmpl eff items ys t)) tmpl"
  by (simp add: twin_def)

lemma run_keeps_pool:
  assumes "referenceLaw A" and "tended A R key tmpl eff items" and "madeFor A tmpl eff items ys"
    and "left = leftOver tmpl items ys"
  shows "poolKept A tmpl eff (bumpT w (tendedStatus A tmpl eff items ys t)) left"
proof -
  have own: "ownsMembers A tmpl eff" and d: "surplus tmpl items > 0 \<longrightarrow> distinct (map keyOf items)"
    using assms(2) by (simp_all add: tended_def)
  note counts = left_counts [OF assms(1) own assms(3) d assms(4)]
  have "fills A tmpl eff \<longrightarrow> (\<exists>p. tPool (tSpec tmpl) = Some p \<and> poolFull p (int (length (warmOf left))) (countAlive left))"
  proof
    assume f: "fills A tmpl eff"
    then obtain p where p: "tPool (tSpec tmpl) = Some p"
      "poolFull p (int (length (warmOf items)) + int (length ys)) (countAlive items + int (length ys))"
      using assms(3) by (auto simp: madeFor_def)
    have "poolFull p (int (length (warmOf left))) (countAlive left)"
    proof (cases "goneFrom tmpl items = []")
      case False
      then have "surplus tmpl items > 0" using gone_none by blast
      then have "int (length (warmOf left)) \<ge> poolSize p"
        using counts(1) gone_members(4) [of tmpl items] active_warm [OF _ p(1)] f by (auto simp: surplus_def fills_def)
      then show ?thesis by (simp add: poolFull_def)
    qed (use p counts in simp)
    with p show "\<exists>p. tPool (tSpec tmpl) = Some p \<and> poolFull p (int (length (warmOf left))) (countAlive left)" by blast
  qed
  moreover have "int (length (warmOf left)) \<le> desiredWarm tmpl \<or> (\<forall>i\<in>set (warmOf left). \<not> isPurgeable i)"
    using left_surplus(3) [OF assms(1) own assms(3) d assms(4)] by (auto simp: surplus_def)
  ultimately show ?thesis
    using counts by (simp add: poolKept_def tendedStatus_def templateStatus_def tally_as_counts)
qed

lemma left_tended:
  assumes "calm A" and "tended A R key tmpl eff items" and "madeFor A tmpl eff items ys"
    and "left = leftOver tmpl items ys" and "tmpl' = bumpT w (tendedStatus A tmpl eff items ys t)"
    and "B = afterRun A (poolLog A R key tmpl eff items ys v w t)"
  shows "tended B R key tmpl' eff left"
proof -
  have laws: "referenceLaw A" using assms(1) by (simp add: calm_def)
  have own: "ownsMembers A tmpl eff" and d: "surplus tmpl items > 0 \<longrightarrow> distinct (map keyOf items)"
    and key: "objectKey (tMeta tmpl) = key" and eff: "effectiveOf A (reGetConfig A [] configKey) = Inr eff"
    and list: "reListInstances A [] ClientCache (Namespace (tMeta tmpl)) (poolSelector tmpl) = Inr items"
    using assms(2) by (simp_all add: tended_def)
  have twin: "twin tmpl' tmpl" unfolding assms(5) by (rule status_twin)
  have "\<forall>y\<in>set ys. selected (Namespace (tMeta tmpl)) (poolSelector tmpl) y"
    using assms(3) stored_member(5) [OF laws own] by (simp add: madeFor_def)
  then have left: "listedAfter (Namespace (tMeta tmpl)) (poolSelector tmpl) (poolLog A R key tmpl eff items ys v w t) items = left"
    by (simp add: poolLog_def listedAfter_append listedAfter_pool assms(4) leftOver_def goneFrom_def)
  have template: "reGetTemplate B [] key = Inr tmpl'"
    unfolding assms(6) by (simp add: kept_def poolLog_def latest_pool at_defs key assms(5))
  have read: "reGetInstance B [] (templateReader R) (keyOf i) = Inr i" if "surplus tmpl left > 0" "i \<in> set left" for i
  proof -
    note few = left_surplus [OF laws own assms(3) d assms(4) that(1)]
    have i: "i \<in> set items" "keyOf i \<notin> keyOf ` set (goneFrom tmpl items)"
      using that(2) by (auto simp: assms(4) leftOver_def few(2))
    have "latest (instanceAt (keyOf i)) (poolLog A R key tmpl eff items ys v w t) = None"
      using i(2) by (simp add: poolLog_def latest_pool at_defs few(2) createdLog_def goneFrom_def)
    with assms(2) i(1) few(1) show ?thesis by (simp add: assms(6) kept_def tended_def)
  qed
  have "distinct (map keyOf left)" if "surplus tmpl left > 0"
    using left_surplus(1,2) [OF laws own assms(3) d assms(4) that] d by (simp add: assms(4) leftOver_def distinct_map_filter)
  moreover have "surplus tmpl' left = surplus tmpl left" by (simp add: surplus_def twin_same(12) [OF twin])
  moreover have "ownsMembers B tmpl' eff" using own by (simp add: ownsMembers_def twin_same(13-15) [OF twin] assms(6))
  moreover have "reListInstances B [] ClientCache (Namespace (tMeta tmpl')) (poolSelector tmpl') = Inr left"
    using twin left list by (simp add: twin_def assms(6))
  ultimately show ?thesis using template read eff key twin by (simp add: tended_def assms(5,6))
qed

end
