(* ===== verification/PoolConverging.thy ===== *)
theory PoolConverging
imports PoolRest
begin

text \<open>
  The warm pool comes to rest: a run on a pool that is kept changes nothing, every run leaves a pool that
  is kept, so from the second reconcile on all of them are \<open>idle\<close> and the pool has its size.
\<close>

section \<open>A pool that is kept\<close>

lemma idle_reads: "\<forall>e\<in>set h. isRead e \<Longrightarrow> idle h"
proof -
  have "isRead e \<Longrightarrow> noChange h e" for e by (cases e) (simp_all add: noChange_def isRead_def)
  then show "\<forall>e\<in>set h. isRead e \<Longrightarrow> idle h" by (simp add: idle_def)
qed

lemma no_purge:
  assumes "n = 0 \<or> (\<forall>i\<in>set vs. \<not> isPurgeable i)"
  shows "idle (purgedLog rd n vs)" "victims n vs = []"
proof -
  have "\<forall>e\<in>set (purgedLog rd n vs). isRead e"
    using assms by (induction rd n vs rule: purgedLog.induct) auto
  then show "idle (purgedLog rd n vs)" by (rule idle_reads)
  show "victims n vs = []" using assms by (auto simp: victims_def filter_empty_conv)
qed

lemma nothing_gone:
  assumes "int (length (warmOf left)) \<le> desiredWarm tmpl \<or> (\<forall>i\<in>set (warmOf left). \<not> isPurgeable i)"
  shows "goneFrom tmpl left = []" "idle (purgedLog rd (surplus tmpl left) (sortPurgeVictims (warmOf left)))"
proof -
  have "surplus tmpl left = 0 \<or> (\<forall>i\<in>set (sortPurgeVictims (warmOf left)). \<not> isPurgeable i)"
    using assms by (auto simp: surplus_def sorted_members)
  from no_purge [OF this] show "goneFrom tmpl left = []" "idle (purgedLog rd (surplus tmpl left) (sortPurgeVictims (warmOf left)))"
    by (simp_all add: goneFrom_def)
qed

lemma left_purgeable:
  assumes "referenceLaw A" and "ownsMembers A tmpl eff" and "madeFor A tmpl eff items ys"
    and "\<forall>i\<in>set (warmOf items). isPurgeable i"
  shows "\<forall>i\<in>set (warmOf (leftOver tmpl items ys)). isPurgeable i"
proof -
  have "isPurgeable y" if y: "y \<in> set ys" for y
  proof -
    have stored: "storedAs (newMember A tmpl eff) y" using assms(3) y by (simp add: madeFor_def)
    let ?x = "poolInstance tmpl (resolveInstanceTTL tmpl eff)"
    obtain m where m: "setControllerRef A (ownerRef ''DployTemplate'' (tMeta tmpl)) (iMeta ?x) = Inr m"
      using assms(2) by (auto simp: ownsMembers_def)
    then obtain xs where "m = (iMeta ?x)\<lparr>OwnerReferences := xs\<rparr>" using assms(1) unfolding referenceLaw_def by blast
    with m stored have "get (Labels (iMeta y)) LabelClaimUID = []"
      by (auto simp: storedAs_def newMember_def Let_def born_def poolInstance_def label_defs)
    with stored_member(1,3) [OF assms(1,2) stored] show ?thesis by (simp add: isPurgeable_def)
  qed
  with assms(4) show ?thesis by (auto simp: leftOver_def warmOf_def)
qed

text \<open>A run on a pool that is kept, by a template whose last verdict still holds, changes nothing.\<close>

definition noted :: "api \<Rightarrow> DployTemplate \<Rightarrow> Effective \<Rightarrow> bool" where
  "noted A tmpl eff \<longleftrightarrow> (\<forall>t. setCond A t (tConditions (tStatus tmpl)) (sourceCondition A tmpl eff) = tConditions (tStatus tmpl))
     \<and> tObservedGeneration (tStatus tmpl) = Generation (tMeta tmpl)"

lemma kept_status:
  assumes "noted A tmpl eff" and "poolKept A tmpl eff tmpl left"
  shows "tendedStatus A tmpl eff left [] t = tmpl"
proof -
  have "goneFrom tmpl left = []" using assms(2) by (intro nothing_gone) (simp add: poolKept_def)
  then show ?thesis
    using assms by (simp add: tendedStatus_def templateStatus_def noted_def poolKept_def tally_as_counts availableIn_def)
qed

lemma kept_idle:
  assumes "calm A" and "tended A R key tmpl eff left" and "poolKept A tmpl eff tmpl left" and "noted A tmpl eff"
    and "\<And>v. idle (syncLog A tmpl eff v)"
  shows "idle (logged (reconcileTemplate A R key) [])"
proof -
  obtain ys v w t where run: "madeFor A tmpl eff left ys"
    "untimed (logged (reconcileTemplate A R key) []) = poolLog A R key tmpl eff left ys v w t"
    using pool_run [OF assms(1,2)] by blast
  have "ys = []"
  proof (cases "fills A tmpl eff")
    case True
    then show ?thesis using assms(3) full_again [OF run(1)] by (auto simp: poolKept_def)
  qed (use run(1) in \<open>simp add: madeFor_def\<close>)
  then have "idle (poolLog A R key tmpl eff left ys v w t)"
    using assms(3,5) nothing_gone(2) [of left tmpl] kept_status [OF assms(4,3)]
    unfolding poolLog_def poolKept_def
    by (intro idle_append) (simp_all add: idle_def noChange_def createdLog_def)
  then show ?thesis using idle_untimed run(2) by metis
qed

text \<open>What holds from the first run on.\<close>

definition rested ::
  "api \<Rightarrow> DployTemplate \<Rightarrow> Effective \<Rightarrow> DployInstance list \<Rightarrow> api \<Rightarrow> DployTemplate \<Rightarrow> DployInstance list \<Rightarrow> bool" where
  "rested A tmpl eff items B tmpl' left \<longleftrightarrow> twin tmpl' tmpl \<and> poolKept B tmpl' eff tmpl' left \<and> noted B tmpl' eff
     \<and> verdictOf B tmpl' eff = verdictOf A tmpl eff \<and> (\<forall>v. idle (syncLog B tmpl' eff v))
     \<and> ((\<forall>i\<in>set (warmOf items). isPurgeable i) \<longrightarrow> (\<forall>i\<in>set (warmOf left). isPurgeable i))"

lemma rested_trans:
  assumes "rested A t0 eff items B t1 left1" and "rested B t1 eff left1 C t2 left2"
  shows "rested A t0 eff items C t2 left2"
proof -
  note a = assms(1) [unfolded rested_def] and b = assms(2) [unfolded rested_def]
  have "twin t2 t0" using a b by (simp add: twin_def)
  moreover have "verdictOf C t2 eff = verdictOf A t0 eff" using a b by simp
  moreover have "(\<forall>i\<in>set (warmOf items). isPurgeable i) \<longrightarrow> (\<forall>i\<in>set (warmOf left2). isPurgeable i)"
    using a b by blast
  ultimately show ?thesis using b unfolding rested_def by blast
qed

lemma kept_twin:
  assumes "twin tmpl' tmpl" and "verdictOf B tmpl' eff = verdictOf A tmpl eff"
  shows "poolKept B tmpl' eff x left \<longleftrightarrow> poolKept A tmpl eff x left"
proof -
  have "tSpec tmpl' = tSpec tmpl" using assms(1) by (simp add: twin_def)
  then show ?thesis by (simp add: poolKept_def fills_def assms(2) twin_same(11,12) [OF assms(1)])
qed

lemma pool_step:
  assumes "calm A" and "tended A R key tmpl eff items" and "B = afterRun A (logged (reconcileTemplate A R key) [])"
  shows "\<exists>tmpl' left. tended B R key tmpl' eff left \<and> rested A tmpl eff items B tmpl' left"
proof -
  have laws: "conditionLaws A" "referenceLaw A" "referenceAgain A" "keyed A" using assms(1) by (simp_all add: calm_def)
  obtain ys v w t where run: "madeFor A tmpl eff items ys"
    "untimed (logged (reconcileTemplate A R key) []) = poolLog A R key tmpl eff items ys v w t" (is "_ = ?L")
    using pool_run [OF assms(1,2)] by blast
  have B: "B = afterRun A ?L" unfolding assms(3) run(2) [symmetric] by (rule afterRun_untimed [symmetric])
  define left where "left = leftOver tmpl items ys"
  define tmpl' where "tmpl' = bumpT w (tendedStatus A tmpl eff items ys t)"
  have twin: "twin tmpl' tmpl" unfolding tmpl'_def by (rule status_twin)
  have kept: "poolKept A tmpl eff tmpl' left"
    unfolding tmpl'_def by (rule run_keeps_pool [OF laws(2) assms(2) run(1) left_def])
  let ?list = "[EListInstances ClientCache (Namespace (tMeta tmpl)) (poolSelector tmpl) (Inr items)]"
  let ?fin = "tendedStatus A tmpl eff items ys t"
  have cut: "?L = [EGetTemplate key (Inr tmpl), EGetConfig configKey (reGetConfig A [] configKey)] @ syncLog A tmpl eff v
      @ (?list @ createdLog (newMember A tmpl eff) ys
        @ purgedLog (templateReader R) (surplus tmpl items) (sortPurgeVictims (warmOf items))
        @ [EPatchTemplateStatus tmpl ?fin (Inr (bumpT w ?fin))])"
    by (simp add: poolLog_def)
  have ends: "elsewhere [EGetTemplate key (Inr tmpl), EGetConfig configKey (reGetConfig A [] configKey)]"
    "elsewhere (?list @ createdLog (newMember A tmpl eff) ys
        @ purgedLog (templateReader R) (surplus tmpl items) (sortPurgeVictims (warmOf items))
        @ [EPatchTemplateStatus tmpl ?fin (Inr (bumpT w ?fin))])"
    using latest_pool(6) [of "newMember A tmpl eff" ys]
      latest_pool(7) [of "templateReader R" "surplus tmpl items" "sortPurgeVictims (warmOf items)"]
    by (simp_all add: elsewhere_def at_defs)
  note again = sync_again [OF laws(2-4) cut ends]
  have verdict: "verdictOf B tmpl' eff = verdictOf A tmpl eff" using again(1) by (simp add: B twin_logs(2) [OF twin])
  have "idle (syncLog B tmpl' eff u)" for u using again(2) by (simp add: B twin_logs(3) [OF twin])
  moreover have "noted B tmpl' eff"
    using condition_again [OF laws(1)] verdict
    by (simp add: noted_def sourceCondition_def tmpl'_def tendedStatus_def templateStatus_def Let_def B)
  moreover have "poolKept B tmpl' eff tmpl' left"
    using kept kept_twin [OF twin verdict] by blast
  moreover have "tended B R key tmpl' eff left" by (rule left_tended [OF assms(1,2) run(1) left_def tmpl'_def B])
  moreover have "ownsMembers A tmpl eff" using assms(2) by (simp add: tended_def)
  then have "(\<forall>i\<in>set (warmOf items). isPurgeable i) \<longrightarrow> (\<forall>i\<in>set (warmOf left). isPurgeable i)"
    using left_purgeable [OF laws(2) _ run(1)] by (simp add: left_def)
  ultimately show ?thesis using twin verdict unfolding rested_def by blast
qed

lemma worlds_rested:
  assumes "calm A" and "tended A R key tmpl eff items"
  shows "calm (worlds A (\<lambda>W. reconcileTemplate W R key) (Suc n))
    \<and> (\<exists>tmpl' left. tended (worlds A (\<lambda>W. reconcileTemplate W R key) (Suc n)) R key tmpl' eff left
        \<and> rested A tmpl eff items (worlds A (\<lambda>W. reconcileTemplate W R key) (Suc n)) tmpl' left)"
proof (induction n)
  case 0
  show ?case
    using pool_step [OF assms refl] afterRun_calm [OF assms(1)] unfolding worlds.simps by blast
next
  case (Suc n)
  let ?W = "worlds A (\<lambda>W. reconcileTemplate W R key)"
  obtain tmpl1 left1 where one: "calm (?W (Suc n))" "tended (?W (Suc n)) R key tmpl1 eff left1"
    "rested A tmpl eff items (?W (Suc n)) tmpl1 left1" using Suc by blast
  have next_world: "?W (Suc (Suc n)) = afterRun (?W (Suc n)) (logged (reconcileTemplate (?W (Suc n)) R key) [])" by simp
  obtain tmpl2 left2 where "tended (?W (Suc (Suc n))) R key tmpl2 eff left2"
    "rested (?W (Suc n)) tmpl1 eff left1 (?W (Suc (Suc n))) tmpl2 left2"
    using pool_step [OF one(1,2) next_world] by blast
  moreover have "rested A tmpl eff items (?W (Suc (Suc n))) tmpl2 left2" by (rule rested_trans [OF one(3) calculation(2)])
  moreover have "calm (?W (Suc (Suc n)))" unfolding next_world by (rule afterRun_calm [OF one(1)])
  ultimately show ?case by blast
qed

lemma exact_size:
  assumes "fills A tmpl eff" and "tPool (tSpec tmpl) = Some p" and "poolMaxSize p \<le> 0"
    and "poolKept A tmpl eff tmpl' left" and "\<forall>i\<in>set (warmOf left). isPurgeable i"
  shows "int (length (warmOf left)) = poolSize p"
proof -
  have d: "desiredWarm tmpl = poolSize p" and pos: "poolSize p > 0"
    using assms(1,2) active_warm by (auto simp: fills_def isPoolActive_def)
  have "int (length (warmOf left)) \<ge> poolSize p"
    using assms(1-4) by (auto simp: poolKept_def poolFull_def)
  moreover from this pos have "warmOf left \<noteq> []" by auto
  then have "int (length (warmOf left)) \<le> poolSize p" using assms(4,5) d by (auto simp: poolKept_def)
  ultimately show ?thesis by simp
qed

text \<open>C16. A warm pool reaches its size in one reconcile and then stays. In a world that does not change by
  itself and accepts every write, every reconcile of a template after the first is idle: it makes and
  deletes no instance, applies the source and the chart probe as it has found them and patches the
  status with itself. What is left is a full pool: if the template keeps one and its chart is not broken,
  there are as many warm instances as it asks for or the cap is reached, and any surplus is held by
  somebody. With no cap and nobody holding a warm instance there are exactly as many as asked for.
  The counts in the status are the counts of these instances.\<close>

theorem pool_converges:
  assumes "calm A" and "tended A R key tmpl eff items" and "n \<ge> 1" and "W = worlds A (\<lambda>W. reconcileTemplate W R key) n"
  shows "idle (logged (reconcileTemplate W R key) [])
    \<and> (\<exists>tmpl' left. reGetTemplate W [] key = Inr tmpl' \<and> tSpec tmpl' = tSpec tmpl
         \<and> reListInstances W [] ClientCache (Namespace (tMeta tmpl)) (poolSelector tmpl) = Inr left
         \<and> poolKept A tmpl eff tmpl' left
         \<and> (\<forall>p. fills A tmpl eff \<longrightarrow> tPool (tSpec tmpl) = Some p \<longrightarrow> poolMaxSize p \<le> 0
               \<longrightarrow> (\<forall>i\<in>set (warmOf items). isPurgeable i) \<longrightarrow> int (length (warmOf left)) = poolSize p))"
proof -
  obtain tmpl' left where W: "calm W" "tended W R key tmpl' eff left" "rested A tmpl eff items W tmpl' left"
    using worlds_rested [OF assms(1,2), of "n - 1"] assms(3,4) by auto
  note r = W(3) [unfolded rested_def]
  have "idle (logged (reconcileTemplate W R key) [])" using r by (intro kept_idle [OF W(1,2)]) simp_all
  moreover have twin: "twin tmpl' tmpl" using r by simp
  moreover have kept: "poolKept A tmpl eff tmpl' left"
    using r kept_twin [OF twin] by blast
  moreover have "int (length (warmOf left)) = poolSize p"
    if "fills A tmpl eff" "tPool (tSpec tmpl) = Some p" "poolMaxSize p \<le> 0" "\<forall>i\<in>set (warmOf items). isPurgeable i" for p
    using exact_size [OF that(1-3) kept] r that(4) by blast
  moreover have "reGetTemplate W [] key = Inr tmpl'"
    "reListInstances W [] ClientCache (Namespace (tMeta tmpl)) (poolSelector tmpl) = Inr left"
    using W(2) twin by (simp_all add: tended_def twin_def)
  moreover have "tSpec tmpl' = tSpec tmpl" using twin by (simp add: twin_def)
  ultimately show ?thesis by blast
qed

section \<open>An example\<close>

definition poolKey :: NamespacedName where "poolKey = \<lparr>nnNamespace = ''d'', nnName = ''web''\<rparr>"

definition poolTemplate :: DployTemplate where
  "poolTemplate = verifiedTemplate\<lparr>tSpec := (tSpec verifiedTemplate)\<lparr>tEnabled := True, tMethod := MethodPool,
     tPool := Some \<lparr>poolSize = 2, poolMaxSize = 0, poolRecycle = None\<rparr>,
     tChart := (tChart (tSpec verifiedTemplate))\<lparr>csChart := ''nginx''\<rparr>\<rparr>\<rparr>"

definition poolApi :: api where
  "poolApi = calmApi\<lparr>reGetTemplate := (\<lambda>h k. Inr poolTemplate),
     reCreateInstance := (\<lambda>h i. Inr (born (GenerateName (iMeta i) @ replicate (length h) CHR ''x'') [] [] 1 0 i))\<rparr>"

lemma poolApi_calm: "calm poolApi"
proof -
  note c = calmApi_calm [unfolded calm_def]
  have "stable poolApi" using c by (simp add: stable_def poolApi_def)
  moreover have "accepting poolApi"
  proof -
    have "\<exists>n' u' v' g' t'. Inr (born n u v g t x) = (Inr (born n' u' v' g' t' x) :: error + DployInstance)" for n u v g t x
      by blast
    then show ?thesis using c by (simp add: accepting_def poolApi_def del: sum.inject)
  qed
  moreover have "keyed poolApi" using c by (simp add: keyed_def poolApi_def)
  moreover have "conditionLaws poolApi" "referenceLaw poolApi" "referenceAgain poolApi" "finalizerLaw poolApi"
    using c by (simp_all add: conditionLaws_def referenceLaw_def referenceAgain_def finalizerLaw_def poolApi_def)
  ultimately show ?thesis using c by (simp add: calm_def poolApi_def)
qed

lemma poolApi_tended: "tended poolApi None poolKey poolTemplate fallbacks []"
  by (simp add: tended_def poolApi_def calmApi_def poolKey_def poolTemplate_def verifiedTemplate_def objectKey_def
      emptyMeta_def effectiveOf_def ownsMembers_def stubApi_def addController_def poolInstance_def emptyInstance_def
      surplus_def warmOf_def desiredWarm_def)

lemma poolApi_fills: "fills poolApi poolTemplate fallbacks"
proof -
  have "chartRef poolTemplate \<noteq> []"
    by (simp add: chartRef_def poolTemplate_def verifiedTemplate_def emptyTemplate_def)
  moreover have "\<not> svBroken (translateChartProbe poolApi c)" if "hcConditions c = []" for c
    using that by (simp add: translateChartProbe_def unknownSource_def poolApi_def calmApi_def stubApi_def findCondition_def)
  moreover have "wantedChart poolApi poolTemplate fallbacks = Inr c \<Longrightarrow> hcConditions c = []" for c
    by (auto simp: wantedChart_def desiredChartProbe_def foundChart_def poolApi_def calmApi_def stubApi_def split: sum.splits)
  ultimately have "\<not> svBroken (verdictOf poolApi poolTemplate fallbacks)"
    by (simp add: verdictOf_def unknownSource_def split: sum.split)
  then show ?thesis by (simp add: fills_def isPoolActive_def poolTemplate_def)
qed

theorem pool_converges_witness:
  "idle (logged (reconcileTemplate (worlds poolApi (\<lambda>W. reconcileTemplate W None poolKey) 1) None poolKey) [])
   \<and> (\<exists>tmpl' left. reGetTemplate (worlds poolApi (\<lambda>W. reconcileTemplate W None poolKey) 1) [] poolKey = Inr tmpl'
        \<and> length (warmOf left) = 2 \<and> tPoolTotal (tStatus tmpl') = countAlive left
        \<and> reListInstances (worlds poolApi (\<lambda>W. reconcileTemplate W None poolKey) 1) [] ClientCache ''d'' [(LabelTemplate, ''web'')]
            = Inr left)"
proof -
  have t: "Namespace (tMeta poolTemplate) = ''d''" "Name (tMeta poolTemplate) = ''web''"
    "tPool (tSpec poolTemplate) = Some \<lparr>poolSize = 2, poolMaxSize = 0, poolRecycle = None\<rparr>"
    by (simp_all add: poolTemplate_def verifiedTemplate_def)
  show ?thesis
    using pool_converges [OF poolApi_calm poolApi_tended order.refl refl] poolApi_fills t
    by (fastforce simp: poolKept_def warmOf_def)
qed

end
