(* ===== verification/Filing.thy ===== *)
theory Filing
imports Converging KubeClient
begin

text \<open>
  A claim the API server files (\<open>KubeClient\<close>) meets the claim controller (\<open>ClaimCtrl\<close>) in a world at rest
  (\<open>Worlds\<close>): the instance that is created for it, and the world in which the instance controller finds
  that instance.
\<close>

section \<open>A claim that was filed\<close>

definition filed :: "string \<Rightarrow> smap \<Rightarrow> DployTemplate \<Rightarrow> DployInstanceClaim \<Rightarrow> bool" where
  "filed owner params tmpl c \<longleftrightarrow> owner \<noteq> [] \<and> sanitize owner = owner
     \<and> (\<exists>w u v g t. c = cMeta_update (\<lambda>m. m\<lparr>UID := u, ResourceVersion := v, Generation := g, CreationTimestamp := t\<rparr>)
          (newClaim (Namespace (tMeta tmpl)) owner params tmpl w))"

lemma filed_fields:
  assumes "filed owner params tmpl c"
  shows "Namespace (cMeta c) = Namespace (tMeta tmpl)" "cTemplateRef (cSpec c) = Name (tMeta tmpl)"
    "cOwner (cSpec c) = owner" "cParams (cSpec c) = params" "cStatus c = emptyClaimStatus"
    "isZeroPtr (DeletionTimestamp (cMeta c))" "ensureMeta c = (False, c)" "sanitize owner = owner" "owner \<noteq> []"
proof -
  obtain w u v g t where c: "c = cMeta_update (\<lambda>m. m\<lparr>UID := u, ResourceVersion := v, Generation := g, CreationTimestamp := t\<rparr>)
      (newClaim (Namespace (tMeta tmpl)) owner params tmpl w)" and o: "owner \<noteq> []" "sanitize owner = owner"
    using assms by (auto simp: filed_def)
  then show "Namespace (cMeta c) = Namespace (tMeta tmpl)" "cTemplateRef (cSpec c) = Name (tMeta tmpl)"
    "cOwner (cSpec c) = owner" "cParams (cSpec c) = params" "cStatus c = emptyClaimStatus"
    "isZeroPtr (DeletionTimestamp (cMeta c))" "sanitize owner = owner" "owner \<noteq> []"
    by (simp_all add: newClaim_def emptyMeta_def isZeroPtr_def)
  have "\<forall>(k, v)\<in>set (claimWant c). get (Labels (cMeta c)) k = v"
    using o by (auto simp: c newClaim_def claimWant_def label_defs get_def)
  then show "ensureMeta c = (False, c)"
    using stampLabels_noop [of "claimWant c" "Labels (cMeta c)"] by (simp add: ensureMeta_def)
qed

text \<open>The claim is read with its template, which is on demand, its owner has room for one more
  environment, and it holds none yet. What it creates is new, and may be owned.\<close>

definition lifetimeOf :: "DployInstanceClaim \<Rightarrow> DployTemplate \<Rightarrow> Effective \<Rightarrow> int" where
  "lifetimeOf c tmpl eff = fst (resolveClaimTTL c tmpl eff)"

definition roomFor :: "api \<Rightarrow> reader option \<Rightarrow> DployInstanceClaim \<Rightarrow> DployTemplate \<Rightarrow> Effective \<Rightarrow> bool" where
  "roomFor A R c tmpl eff \<longleftrightarrow> ownerLimit tmpl eff \<le> 0
     \<or> (\<exists>items. reListInstances A [] (reader_of R) (Namespace (cMeta c)) [(LabelOwner, sanitize (cOwner (cSpec c)))] = Inr items
          \<and> int (length (filter live items)) < ownerLimit tmpl eff)"

definition ownsFresh :: "api \<Rightarrow> DployInstanceClaim \<Rightarrow> bool" where
  "ownsFresh A c \<longleftrightarrow> (\<forall>m. Namespace m = Namespace (cMeta c) \<longrightarrow> OwnerReferences m = [] \<longrightarrow>
     (\<exists>m'. setControllerRef A (ownerRef ''DployInstanceClaim'' (cMeta c)) m = Inr m'))"

definition vacant :: "api \<Rightarrow> DployTemplate \<Rightarrow> bool" where
  "vacant A tmpl \<longleftrightarrow> (\<forall>h x y. reCreateInstance A h x = Inr y \<longrightarrow> ownable A y tmpl
     \<and> (\<exists>e. reGetInstance A [] ClientCache (objectKey (iMeta y)) = Inl e \<and> IsNotFound e))"

text \<open>The lifetime is unlimited, or the clock does not run past it while the runs last.\<close>

definition timely :: "(log \<Rightarrow> Time) \<Rightarrow> (log \<Rightarrow> Time) \<Rightarrow> int \<Rightarrow> bool" where
  "timely start clock ttl \<longleftrightarrow> (\<forall>h. fourDigitYear (start h))
     \<and> (ttl = -1 \<or> ttl > 0 \<and> (\<forall>h h'. clock h' < truncateSecond (start h) + seconds ttl))"

definition awaited ::
  "api \<Rightarrow> reader option \<Rightarrow> NamespacedName \<Rightarrow> DployInstanceClaim \<Rightarrow> DployTemplate \<Rightarrow> Effective \<Rightarrow> bool" where
  "awaited A R key c tmpl eff \<longleftrightarrow> reGetClaim A [] key = Inr c \<and> objectKey (cMeta c) = key
     \<and> reGetTemplate A [] (objectKey (tMeta tmpl)) = Inr tmpl \<and> tEnabled (tSpec tmpl) \<and> tMethod (tSpec tmpl) \<noteq> MethodPool
     \<and> effectiveOf A (reGetConfig A [] configKey) = Inr eff
     \<and> (\<forall>rd. reListInstances A [] rd (Namespace (cMeta c)) [(LabelClaimUID, UID (cMeta c))] = Inr [])
     \<and> roomFor A R c tmpl eff \<and> ownsFresh A c \<and> vacant A tmpl \<and> timely (reNow A) (reNow A) (lifetimeOf c tmpl eff)"

section \<open>The instance is created\<close>

definition newInstance :: "api \<Rightarrow> DployInstanceClaim \<Rightarrow> DployTemplate \<Rightarrow> Effective \<Rightarrow> Time \<Rightarrow> DployInstance" where
  "newInstance A c tmpl eff b = (let ttl = lifetimeOf c tmpl eff; x = onDemandInstance c tmpl b ttl (expiryFrom b ttl) in
     x\<lparr>iMeta := projr (setControllerRef A (ownerRef ''DployInstanceClaim'' (cMeta c)) (iMeta x))\<rparr>)"

lemma wp_createOnDemand:
  assumes "accepting A" and "ownsFresh A c" and "cMeta claim = cMeta c" and "cSpec claim = cSpec c"
    and "\<And>n u v g t. reCreateInstance A h (newInstance A c tmpl eff b) = Inr (born n u v g t (newInstance A c tmpl eff b))
      \<Longrightarrow> Q (Inr (born n u v g t (newInstance A c tmpl eff b)))
          (h @ [ECreateInstance (newInstance A c tmpl eff b) (Inr (born n u v g t (newInstance A c tmpl eff b)))])"
  shows "wp (createOnDemand A claim tmpl b (lifetimeOf c tmpl eff) (expiryFrom b (lifetimeOf c tmpl eff))) Q h"
proof -
  let ?x = "onDemandInstance c tmpl b (lifetimeOf c tmpl eff) (expiryFrom b (lifetimeOf c tmpl eff))" and ?y = "newInstance A c tmpl eff b"
  have same: "onDemandInstance claim tmpl b ttl e = onDemandInstance c tmpl b ttl e" for ttl e
    using assms(3,4) by (simp add: onDemandInstance_def)
  have "Namespace (iMeta ?x) = Namespace (cMeta c)" "OwnerReferences (iMeta ?x) = []"
    by (simp_all add: onDemandInstance_def stampBoundAt_def emptyMeta_def)
  then obtain m where m: "setControllerRef A (ownerRef ''DployInstanceClaim'' (cMeta c)) (iMeta ?x) = Inr m"
    using assms(2) unfolding ownsFresh_def by blast
  obtain n u v g t where "reCreateInstance A h ?y = Inr (born n u v g t ?y)" using acceptingD(4) [OF assms(1)] by blast
  with assms(5) m show ?thesis
    by (simp add: createOnDemand_def wp_simps same assms(3) Let_def newInstance_def)
qed

lemma new_fields:
  assumes "referenceLaw A" and "ownsFresh A c" and "y = born n u v g t (newInstance A c tmpl eff b)"
  shows "iSpec y = \<lparr>iTemplateRef = Name (tMeta tmpl), iOwner = cOwner (cSpec c), iParams = cParams (cSpec c), iPooled = False,
      iTTLSeconds = lifetimeOf c tmpl eff, iSpecExpiresAt = expiryFrom b (lifetimeOf c tmpl eff)\<rparr>"
    "iStatus y = iStatus emptyInstance" "Namespace (iMeta y) = Namespace (cMeta c)"
    "get (Labels (iMeta y)) LabelClaimUID = UID (cMeta c)" "isZeroPtr (DeletionTimestamp (iMeta y))"
    "Annotations (iMeta y) = Map.empty(AnnotationBoundAt \<mapsto> formatRFC3339 b)"
proof -
  let ?x = "onDemandInstance c tmpl b (lifetimeOf c tmpl eff) (expiryFrom b (lifetimeOf c tmpl eff))"
  have x: "Namespace (iMeta ?x) = Namespace (cMeta c)" "OwnerReferences (iMeta ?x) = []"
    by (simp_all add: onDemandInstance_def stampBoundAt_def emptyMeta_def)
  then obtain m where m: "setControllerRef A (ownerRef ''DployInstanceClaim'' (cMeta c)) (iMeta ?x) = Inr m"
    using assms(2) unfolding ownsFresh_def by blast
  then obtain xs where "m = (iMeta ?x)\<lparr>OwnerReferences := xs\<rparr>" using assms(1) unfolding referenceLaw_def by blast
  with m show "iSpec y = \<lparr>iTemplateRef = Name (tMeta tmpl), iOwner = cOwner (cSpec c), iParams = cParams (cSpec c), iPooled = False,
      iTTLSeconds = lifetimeOf c tmpl eff, iSpecExpiresAt = expiryFrom b (lifetimeOf c tmpl eff)\<rparr>"
    "iStatus y = iStatus emptyInstance" "Namespace (iMeta y) = Namespace (cMeta c)"
    "get (Labels (iMeta y)) LabelClaimUID = UID (cMeta c)" "isZeroPtr (DeletionTimestamp (iMeta y))"
    "Annotations (iMeta y) = Map.empty(AnnotationBoundAt \<mapsto> formatRFC3339 b)"
    by (simp_all add: assms(3) newInstance_def Let_def born_def onDemandInstance_def stampBoundAt_def emptyInstance_def
        emptyMeta_def isZeroPtr_def label_defs get_def)
qed

text \<open>The synchronisation in the same run does not see it yet, so the run ends with an error and is
  repeated; but it is there.\<close>

lemma wp_retry_missing:
  assumes "IsNotFound e" and "reGetInstance A h rd k = Inl e"
  shows "wp (retryOnConflict n (tryE (getInstance A rd k) f)) Q h = Q (Inl e) (h @ [EGetInstance rd k (Inl e)])"
proof -
  have "\<not> IsConflict e" using assms(1) by (cases e) simp_all
  with assms(2) show ?thesis by (cases n) (simp_all add: wp_simps)
qed

lemma wp_finish_missing:
  assumes "\<And>h. \<exists>e. reGetInstance A h ClientCache (objectKey (iMeta y)) = Inl e \<and> IsNotFound e" and "writes h = writes h0"
  shows "wp (finish A original claim y ttl settling) (\<lambda>_ h. writes h = writes h0) h"
proof -
  obtain e where "reGetInstance A h ClientCache (objectKey (iMeta y)) = Inl e" "IsNotFound e" using assms(1) by blast
  with assms(2) show ?thesis by (simp add: finish_def wp_tryE syncInstance_def wp_retry_missing wp_simps)
qed

lemma keeps_slot: "int (length ranked) < limit \<Longrightarrow> \<not> losesSlot limit y ranked"
  by (auto simp: losesSlot_def dest: indexOf_Some split: option.split)

lemma wp_owned:
  assumes "stable A" and "roomFor A R c tmpl eff" and "ownerLimit tmpl eff > 0" and "sanitize (cOwner (cSpec c)) \<noteq> []"
    and "cMeta claim = cMeta c" and "cSpec claim = cSpec c"
    and "\<And>owned es. int (length owned) < ownerLimit tmpl eff \<Longrightarrow> writes es = [] \<Longrightarrow> Q (Inr owned) (h @ es)"
  shows "wp (ownedInstances A R claim) Q h"
proof -
  obtain items where items: "reListInstances A [] (reader_of R) (Namespace (cMeta c)) [(LabelOwner, sanitize (cOwner (cSpec c)))] = Inr items"
    and few: "int (length (filter live items)) < ownerLimit tmpl eff" using assms(2,3) by (auto simp: roomFor_def)
  have "reListInstances A h (reader_of R) (Namespace (cMeta c)) [(LabelOwner, sanitize (cOwner (cSpec c)))] = Inr items" for h
    using stableD(5) [OF assms(1)] items by metis
  with few assms(4-7) show ?thesis by (simp add: ownedInstances_def wp_simps Let_def)
qed

lemma wp_settle_missing:
  assumes "stable A" and "roomFor A R c tmpl eff" and "sanitize (cOwner (cSpec c)) \<noteq> []" and "tMethod (tSpec tmpl) \<noteq> MethodPool"
    and "cMeta claim = cMeta c" and "cSpec claim = cSpec c"
    and "\<And>h. \<exists>e. reGetInstance A h ClientCache (objectKey (iMeta y)) = Inl e \<and> IsNotFound e" and "writes h = writes h0"
  shows "wp (settle A R original claim tmpl eff ttl y) (\<lambda>_ h. writes h = writes h0) h"
proof -
  have limit: "maxTemplateSize tmpl = 0" using assms(4) by (simp add: maxTemplateSize_def split: option.split)
  show ?thesis
  proof (cases "ownerLimit tmpl eff > 0")
    case True
    then show ?thesis
      unfolding settle_def wp_tryE evictIfOverQuota_def
      by (simp add: Let_def wp_tryE, intro wp_owned [OF assms(1,2) _ assms(3,5,6)])
        (use assms(8) in \<open>simp_all add: keeps_slot wp_simps evictIfOverMaxSize_def limit Let_def wp_finish_missing [OF assms(7)]\<close>)
  next
    case False
    then show ?thesis
      using assms(8) by (simp add: settle_def evictIfOverQuota_def evictIfOverMaxSize_def limit Let_def wp_simps wp_finish_missing [OF assms(7)])
  qed
qed

lemma wp_bound_missing:
  assumes "stable A" and "roomFor A R c tmpl eff" and "sanitize (cOwner (cSpec c)) \<noteq> []" and "tMethod (tSpec tmpl) \<noteq> MethodPool"
    and "cMeta claim = cMeta c" and "cSpec claim = cSpec c"
    and "\<And>h. \<exists>e. reGetInstance A h ClientCache (objectKey (iMeta y)) = Inl e \<and> IsNotFound e" and "writes h = writes h0"
    and "cBoundAt (cStatus claim) = Some b" and "\<And>h. case expiryFrom b ttl of None \<Rightarrow> True | Some e \<Rightarrow> reNow A h < e"
    and "iPhase (iStatus y) \<noteq> PhaseFailed"
  shows "wp (reconcileBound A R original claim tmpl eff ttl y) (\<lambda>_ h. writes h = writes h0) h"
proof -
  let ?claim = "setExpiresAt (expiryFrom b ttl) (setBoundAt (Some b) claim)"
  have fields: "cMeta ?claim = cMeta c" "cSpec ?claim = cSpec c" using assms(5,6) by (simp_all add: setExpiresAt_def setBoundAt_def)
  have ahead: "\<not> isExpired ?claim (reNow A h)" for h
    using assms(10) [of h] by (simp add: isExpired_def setExpiresAt_def split: option.splits)
  have grace: "\<not> instanceFailureGrace < 0" by (simp add: instanceFailureGrace_def second_def)
  show ?thesis
    using assms(8,9,11) ahead
    by (simp add: reconcileBound_def wp_simps Let_def failedFor_def grace wp_finish_missing [OF assms(7)]
        wp_settle_missing [OF assms(1-4) fields assms(7)])
qed

lemma not_read_create [simp]: "\<not> isRead (ECreateInstance x r)"
  by (simp add: isRead_def)

definition createdFor ::
  "api \<Rightarrow> DployInstanceClaim \<Rightarrow> DployTemplate \<Rightarrow> Effective \<Rightarrow> log \<Rightarrow> bool" where
  "createdFor A c tmpl eff h \<longleftrightarrow> (\<exists>h1 n u v g t. let x = newInstance A c tmpl eff (truncateSecond (reNow A h1)) in
      (\<exists>h2. reCreateInstance A h2 x = Inr (born n u v g t x)) \<and> writes h = [ECreateInstance x (Inr (born n u v g t x))])"

lemma wp_unbound_missing:
  assumes "calm A" and "awaited A R key c tmpl eff" and "filed owner params tmpl c"
    and "cMeta claim = cMeta c" and "cSpec claim = cSpec c" and "writes h0 = []"
  shows "wp (reconcileUnbound A R c claim tmpl eff (lifetimeOf c tmpl eff)) (\<lambda>_. createdFor A c tmpl eff) h0"
proof -
  let ?ttl = "lifetimeOf c tmpl eff"
  have laws: "stable A" "accepting A" "referenceLaw A" using assms(1) by (simp_all add: calm_def)
  note f = filed_fields [OF assms(3)] and a = assms(2) [unfolded awaited_def]
  have named: "sanitize (cOwner (cSpec c)) \<noteq> []" using f(3,8,9) by simp
  have bind: "wp (do { now \<leftarrow> timeNow A;
         let boundAt = truncateSecond now;
         r \<leftarrow> bindClaim A R claim tmpl boundAt ?ttl (expiryFrom boundAt ?ttl);
         case r of
           Inl e \<Rightarrow>
             if e = ErrTemplateAtCapacity
             then pending A c claim ''TemplateAtCapacity'' (capacityMessage tmpl (maxTemplateSize tmpl))
             else throw e
         | Inr None \<Rightarrow> pending A c claim ''PoolExhausted'' (waitingMessage tmpl)
         | Inr (Some inst) \<Rightarrow>
             reconcileBound A R c (setBoundAt (Some boundAt) claim) tmpl eff ?ttl inst }) (\<lambda>_. createdFor A c tmpl eff) h"
    if h: "writes h = []" for h
  proof -
    let ?b = "truncateSecond (reNow A h)" and ?h = "h @ [ENow (reNow A h)]"
    let ?x = "newInstance A c tmpl eff ?b"
    show ?thesis
      unfolding wp_bind wp_calls Let_def bindClaim_def
      using a
    proof (simp add: wp_tryE, intro wp_createOnDemand [OF laws(2) _ assms(4,5)], simp, simp add: wp_simps)
      fix n u v g t
      let ?y = "born n u v g t ?x"
      assume made: "reCreateInstance A ?h ?x = Inr ?y"
      have late: "case expiryFrom ?b ?ttl of None \<Rightarrow> True | Some e \<Rightarrow> reNow A h' < e" for h'
        using a by (auto simp: expiryFrom_def timely_def split: option.split)
      have missing: "\<exists>e. reGetInstance A h' ClientCache (objectKey (iMeta ?y)) = Inl e \<and> IsNotFound e" for h'
        using a made stableD(2) [OF laws(1)] unfolding vacant_def by metis
      have "iPhase (iStatus ?y) \<noteq> PhaseFailed"
        using new_fields(2) [OF laws(3) _ refl, of c] a by (simp add: emptyInstance_def)
      then have "wp (reconcileBound A R c (setBoundAt (Some ?b) claim) tmpl eff ?ttl ?y)
          (\<lambda>_ h'. writes h' = writes (?h @ [ECreateInstance ?x (Inr ?y)])) (?h @ [ECreateInstance ?x (Inr ?y)])"
        using assms(4,5) a
        by (intro wp_bound_missing [OF laws(1) _ named _ _ _ missing refl _ late]) (simp_all add: setBoundAt_def)
      moreover have "createdFor A c tmpl eff h'" if "writes h' = writes (?h @ [ECreateInstance ?x (Inr ?y)])" for h'
        unfolding createdFor_def Let_def
        by (rule exI [of _ h], rule exI [of _ n], rule exI [of _ u], rule exI [of _ v], rule exI [of _ g], rule exI [of _ t])
          (use that h made in auto)
      ultimately have "wp (reconcileBound A R c (setBoundAt (Some ?b) claim) tmpl eff ?ttl ?y) (\<lambda>_. createdFor A c tmpl eff)
          (?h @ [ECreateInstance ?x (Inr ?y)])"
        by (rule wp_mono) blast
      then show "wp (reconcileBound A R c (setBoundAt (Some ?b) claim) tmpl eff ?ttl ?y) (\<lambda>_. createdFor A c tmpl eff)
          (h @ [ENow (reNow A h), ECreateInstance ?x (Inr ?y)])"
        by simp
    qed
  qed
  show ?thesis
  proof (cases "ownerLimit tmpl eff > 0")
    case True
    then have lim: "(ownerLimit tmpl eff \<le> 0) = False" by simp
    have "wp (overQuota A R claim tmpl eff) (\<lambda>r h. (\<exists>n. r = Inr (False, n)) \<and> writes h = []) h0"
      unfolding overQuota_def Let_def lim if_False wp_tryE
    proof (rule wp_owned [OF laws(1) _ True named assms(4,5)], goal_cases)
      case (2 owned es)
      have "length (filter (\<lambda>i. get (Labels (iMeta i)) LabelClaimUID \<noteq> UID (cMeta claim)) owned) \<le> length owned" by simp
      with 2(1) have "\<not> ownerLimit tmpl eff
          \<le> int (length (filter (\<lambda>i. get (Labels (iMeta i)) LabelClaimUID \<noteq> UID (cMeta claim)) owned))" by linarith
      with 2(2) assms(6) show ?case by (simp add: wp_simps)
    qed (use a in simp)
    then show ?thesis
      unfolding reconcileUnbound_def wp_tryE by (rule wp_mono) (auto intro: bind)
  next
    case False
    then show ?thesis
      using bind [OF assms(6)] by (simp add: reconcileUnbound_def wp_tryE overQuota_def wp_simps Let_def)
  qed
qed

lemma create_run:
  assumes "calm A" and "awaited A R key c tmpl eff" and "filed owner params tmpl c"
  shows "createdFor A c tmpl eff (logged (Reconcile A R key) [])"
proof -
  have laws: "stable A" "accepting A" "referenceLaw A" using assms(1) by (simp_all add: calm_def)
  note f = filed_fields [OF assms(3)] and a = assms(2) [unfolded awaited_def]
  obtain ttl maxTTL where ttl: "resolveClaimTTL c tmpl eff = (ttl, maxTTL)" by fastforce
  have reads: "reGetClaim A h key = Inr c" "reGetTemplate A h (objectKey (tMeta tmpl)) = Inr tmpl"
    "reListInstances A h rd (Namespace (cMeta c)) [(LabelClaimUID, UID (cMeta c))] = Inr []" for h rd
    using a stableD(1,5,10) [OF laws(1)] by metis+
  have tkey: "\<lparr>nnNamespace = Namespace (cMeta c), nnName = cTemplateRef (cSpec c)\<rparr> = objectKey (tMeta tmpl)"
    using f(1,2) by (simp add: objectKey_def)
  obtain cfg where cfg: "\<And>h. reGetConfig A h configKey = cfg" using stableD(3) [OF laws(1)] by blast
  have eff: "effectiveOf A cfg = Inr eff" using a cfg by simp
  let ?claim = "cStatus_update (\<lambda>s. s\<lparr>cGrantedTTL := ttl, cMaxTTLSeconds := maxTTL\<rparr>) c"
  have unbound: "wp (reconcileUnbound A R c ?claim tmpl eff ttl) (\<lambda>_. createdFor A c tmpl eff) h0" if "writes h0 = []" for h0
    using wp_unbound_missing [OF assms, of ?claim] that by (simp add: lifetimeOf_def ttl)
  have fresh: "cPhase (cStatus c) = ClaimUnset" "\<not> isExpired ?claim t" for t
    using f(5) by (simp_all add: emptyClaimStatus_def isExpired_def)
  have "wp (Reconcile A R key) (\<lambda>_. createdFor A c tmpl eff) []"
    using a f(6,7) fresh
    by (auto simp: Reconcile_def reconcileRead_def reconcileLive_def wp_simps Let_def Resolve_def boundInstance_def
        lookupBound_def reads tkey cfg eff ttl unbound)
  then show ?thesis unfolding wp_logged .
qed

section \<open>The world after it\<close>

lemma latest_writes: "(\<And>e. isRead e \<Longrightarrow> f e = None) \<Longrightarrow> latest f (writes h) = latest f h"
  by (induction h) (auto split: option.split)

lemma read_nothing:
  assumes "isRead e"
  shows "instanceAt k e = None" "claimAt k e = None" "templateAt k e = None" "namespaceAt n e = None"
    "sourceAt kd k e = None" "chartAt k e = None" "releaseAt k e = None"
  using assms by (cases e; simp add: at_defs isRead_def)+

lemma listedAfter_writes: "listedAfter ns sel (writes h) items = listedAfter ns sel h items"
proof (induction h arbitrary: items)
  case (Cons e h)
  then show ?case by (cases e) (simp_all add: isRead_def)
qed simp

lemma afterRun_writes: "afterRun A (writes h) = afterRun A h"
  by (simp add: afterRun_def kept_def fun_eq_iff latest_writes read_nothing listedAfter_writes [abs_def])

lemma created_world:
  assumes "calm A" and "awaited A R key c tmpl eff" and "filed owner params tmpl c"
    and "W = afterRun A (logged (Reconcile A R key) [])"
  shows "\<exists>h1 n u v g t y. y = born n u v g t (newInstance A c tmpl eff (truncateSecond (reNow A h1)))
    \<and> present W (objectKey (iMeta y)) y tmpl eff \<and> onlyOne W y \<and> ownable W y tmpl \<and> reGetClaim W [] = reGetClaim A []"
proof -
  have laws: "referenceLaw A" using assms(1) by (simp_all add: calm_def)
  note f = filed_fields [OF assms(3)] and a = assms(2) [unfolded awaited_def]
  obtain h1 n u v g t y where y: "y = born n u v g t (newInstance A c tmpl eff (truncateSecond (reNow A h1)))"
    and made: "\<exists>x h2. reCreateInstance A h2 x = Inr y" and log: "\<exists>x. writes (logged (Reconcile A R key) []) = [ECreateInstance x (Inr y)]"
    using create_run [OF assms(1-3)] unfolding createdFor_def Let_def by blast
  obtain x where W: "W = afterRun A [ECreateInstance x (Inr y)]" using log assms(4) afterRun_writes by metis
  have owns: "ownsFresh A c" using a by simp
  note n = new_fields [OF laws owns y]
  have "templateOf y = objectKey (tMeta tmpl)" using n(1,3) f(1) by (simp add: templateOf_def objectKey_def)
  moreover have "deadlineAhead A y"
    using a n(1,2) by (auto simp: deadlineAhead_def expiryFrom_def timely_def emptyInstance_def split: option.split)
  ultimately have "present W (objectKey (iMeta y)) y tmpl eff"
    using a n(5) by (simp add: present_def W kept_def at_defs)
  moreover have "onlyOne W y" using a n(3,4) by (simp add: onlyOne_def W selected_def)
  moreover have "ownable A y tmpl" using a made by (auto simp: vacant_def)
  then have "ownable W y tmpl" by (simp add: ownable_def W foundSource_def foundRelease_def kept_def at_defs)
  moreover have "reGetClaim W [] = reGetClaim A []" by (simp add: W kept_def at_defs fun_eq_iff)
  ultimately show ?thesis using y by blast
qed

end
