(* ===== verification/Delivering.thy ===== *)
theory Delivering
imports Filing
begin

text \<open>
  From a request to a running environment: the instance that was created for a claim (\<open>Filing\<close>) is
  provisioned (\<open>Converging\<close>), Flux reports that its release is ready, the instance says so, and the
  claim controller hands the environment to its owner. The parts share nothing but what each has
  written (\<open>Worlds\<close>).
\<close>

section \<open>Flux reports\<close>

text \<open>Time has passed, and the releases that are there have the conditions \<open>f\<close>.\<close>

definition reported :: "(NamespacedName \<Rightarrow> Condition list) \<Rightarrow> (log \<Rightarrow> Time) \<Rightarrow> api \<Rightarrow> api" where
  "reported f clock A = A\<lparr>reNow := clock,
     reGetRelease := (\<lambda>h k. map_sum id (hrConditions_update (\<lambda>_. f k)) (reGetRelease A h k)),
     reFetchRelease := (\<lambda>h k. case reGetRelease A h k of Inl e \<Rightarrow> reFetchRelease A h k
       | Inr y \<Rightarrow> map_sum id (hrConditions_update (\<lambda>_. f k)) (reFetchRelease A h k))\<rparr>"

lemma reported_same [simp]:
  "reNow (reported f clock A) = clock" "reGetClaim (reported f clock A) = reGetClaim A"
  "reGetTemplate (reported f clock A) = reGetTemplate A" "reGetInstance (reported f clock A) = reGetInstance A"
  "reGetConfig (reported f clock A) = reGetConfig A" "reListInstances (reported f clock A) = reListInstances A"
  "reFetchSource (reported f clock A) = reFetchSource A" "setControllerRef (reported f clock A) = setControllerRef A"
  "hasFinalizer (reported f clock A) = hasFinalizer A" "addFinalizer (reported f clock A) = addFinalizer A"
  "reUpdateInstance (reported f clock A) = reUpdateInstance A" "findCond (reported f clock A) = findCond A"
  "setCond (reported f clock A) = setCond A" "fluxReadyCondition (reported f clock A) = fluxReadyCondition A"
  by (simp_all add: reported_def)

lemma reported_helpers [simp]:
  "effectiveOf (reported f clock A) = effectiveOf A" "renderInstance (reported f clock A) = renderInstance A"
  "desiredRelease (reported f clock A) = desiredRelease A" "sourceKind (reported f clock A) = sourceKind A"
  "templateSourceReady (reported f clock A) = templateSourceReady A"
  "translateHelmRelease (reported f clock A) = translateHelmRelease A" "ensureInstanceMeta (reported f clock A) = ensureInstanceMeta A"
proof -
  have same: "decodeValues (reported f clock A) = decodeValues A" "parseTemplate (reported f clock A) = parseTemplate A"
    "executeTemplate (reported f clock A) = executeTemplate A" "yamlToJSON (reported f clock A) = yamlToJSON A"
    "helmRepositoryKind (reported f clock A) = helmRepositoryKind A" "gitRepositoryKind (reported f clock A) = gitRepositoryKind A"
    "condIsTrue (reported f clock A) = condIsTrue A"
    "fluxReconcilingCondition (reported f clock A) = fluxReconcilingCondition A"
    "fluxProgressingReason (reported f clock A) = fluxProgressingReason A"
    "fluxProgressingWithRetryReason (reported f clock A) = fluxProgressingWithRetryReason A"
    by (simp_all add: reported_def)
  have "decodeConfigValues (reported f clock A) = decodeConfigValues A"
    by (intro ext) (simp add: decodeConfigValues_def same split: option.split list.split)
  then show "effectiveOf (reported f clock A) = effectiveOf A" by (intro ext) (simp add: effectiveOf_def split: sum.split)
  have "Render (reported f clock A) = Render A" by (intro ext) (simp add: Render_def same split: sum.split)
  then show "renderInstance (reported f clock A) = renderInstance A"
    by (intro ext) (simp add: renderInstance_def resolveURL_def resolveMessage_def renderValues_def same Let_def cong: sum.case_cong)
  show "desiredRelease (reported f clock A) = desiredRelease A"
    by (intro ext) (simp add: desiredRelease_def cong: sum.case_cong)
  show "sourceKind (reported f clock A) = sourceKind A" by (intro ext) (simp add: sourceKind_def same)
  show "templateSourceReady (reported f clock A) = templateSourceReady A"
    by (intro ext) (simp add: templateSourceReady_def cong: option.case_cong)
  have "isProgressing (reported f clock A) = isProgressing A" by (intro ext) (simp add: isProgressing_def same)
  then show "translateHelmRelease (reported f clock A) = translateHelmRelease A"
    unfolding translateHelmRelease_def [abs_def] by (simp only: same reported_same)
  show "ensureInstanceMeta (reported f clock A) = ensureInstanceMeta A"
    by (intro ext) (simp only: ensureInstanceMeta_def reported_same)
qed

lemma reported_calm:
  assumes "calm A"
  shows "calm (reported f clock A)"
proof -
  have s: "stable A" and k: "keyed A" using assms by (simp_all add: calm_def)
  have "stable (reported f clock A)"
    using s unfolding stable_def by (simp add: reported_def) metis
  moreover have "keyed (reported f clock A)"
  proof -
    have "\<exists>x. reFetchRelease (reported f clock A) [] k = Inr x \<and> objectKey (hrMeta x) = k
        \<and> (case reGetRelease (reported f clock A) [] k of Inr y \<Rightarrow> hrConditions y = hrConditions x
           | Inl e \<Rightarrow> IsNotFound e \<and> hrConditions x = [])" for k
      using keyedD(4) [OF k, of k] by (auto simp: reported_def split: sum.splits)
    with k show ?thesis unfolding keyed_def by (simp add: reported_def)
  qed
  moreover have "accepting (reported f clock A)" using assms by (simp add: calm_def accepting_def reported_def)
  ultimately show ?thesis
    using assms by (simp add: calm_def conditionLaws_def referenceLaw_def referenceAgain_def finalizerLaw_def) (simp add: reported_def)
qed

lemma reported_release:
  "reGetRelease A [] (releaseKey x) = Inr r \<Longrightarrow> keyed A \<Longrightarrow> hrConditions (foundRelease (reported f clock A) x) = f (releaseKey x)"
  "hrMeta (foundRelease (reported f clock A) x) = hrMeta (foundRelease A x)" if "keyed A"
  using keyedD(4) [OF that, of "releaseKey x"] by (auto simp: foundRelease_def reported_def split: sum.splits)

section \<open>The instance is provisioned\<close>

definition renders :: "api \<Rightarrow> DployTemplate \<Rightarrow> Effective \<Rightarrow> bool" where
  "renders A tmpl eff \<longleftrightarrow> (\<forall>x. \<exists>i vals. renderInstance A (pinNamespace x) tmpl eff (targetNamespace x) = (i, Inr vals))"

lemma release_stored:
  assumes "calm A" and "present A key inst tmpl eff" and "stage 2 A inst" and "renders A tmpl eff"
    and "fst (templateSourceReady A tmpl)" and "ownable A inst tmpl"
  shows "\<exists>r. reGetRelease (afterRun A (logged (reconcileInstance A key) [])) [] (releaseKey inst) = Inr r"
proof -
  have laws: "referenceLaw A" "referenceAgain A" "keyed A" using assms(1) by (simp_all add: calm_def)
  obtain i vals where render: "renderInstance A (pinNamespace inst) tmpl eff (targetNamespace inst) = (i, Inr vals)"
    using assms(4) unfolding renders_def by blast
  have key: "releaseKey i = releaseKey inst"
    using render_fields(2) [OF render] by (simp add: releaseKey_def engineResourceName_def)
  obtain l j en where plan: "planned A inst tmpl eff = (l, j, en)" by (cases "planned A inst tmpl eff") auto
  obtain d where d: "wantedRelease A i tmpl eff (targetNamespace inst) vals = Inr d"
    and l: "l = (namespaceLog A (targetNamespace inst) i @ sourceLog A tmpl eff)
      @ releaseLog A i tmpl eff (targetNamespace inst) vals @ [EGetRelease (releaseKey i) (reGetRelease A [] (releaseKey i))]"
    by (rule planned_applies [OF plan render assms(5,6) laws(1)])
  have "objectKey (hrMeta d) = releaseKey i"
    using release_again(2) [OF laws(1,2)] found_keys(3) [OF laws(3)] d unfolding wantedRelease_def by metis
  then have stored: "latest (releaseAt (releaseKey inst)) l = Some (Inr d)"
    using latest_own_logs(4) [OF d] by (simp add: l key at_defs)
  obtain t1 h v fin where "untimed (logged (reconcileInstance A key) []) = readsFirst A key inst tmpl @ l
      @ [EPatchInstanceStatus inst fin (Inr (bumpI v (Generation (iMeta fin)) fin))]"
    by (rule provision_log [OF assms(1-3) plan])
  then have "afterRun A (logged (reconcileInstance A key) []) = afterRun A (readsFirst A key inst tmpl @ l
      @ [EPatchInstanceStatus inst fin (Inr (bumpI v (Generation (iMeta fin)) fin))])"
    by (metis afterRun_untimed)
  then show ?thesis using stored by (simp add: kept_def readsFirst_def at_defs)
qed

text \<open>Further runs keep the instance provisioned.\<close>

lemma rests_from:
  assumes "calm A" and "present A key inst tmpl eff" and "stage 2 A inst"
  shows "calm (worlds A (\<lambda>W. reconcileInstance W key) (Suc m))
    \<and> (\<exists>x. present (worlds A (\<lambda>W. reconcileInstance W key) (Suc m)) key x tmpl eff
        \<and> stage 2 (worlds A (\<lambda>W. reconcileInstance W key) (Suc m)) x
        \<and> asPlanned (worlds A (\<lambda>W. reconcileInstance W key) (Suc m)) x tmpl eff
        \<and> heir A inst tmpl (worlds A (\<lambda>W. reconcileInstance W key) (Suc m)) x)"
proof (induction m)
  case 0
  show ?case using provisioned_rests(1) [OF assms refl] afterRun_calm [OF assms(1)] by auto
next
  case (Suc m)
  let ?W = "worlds A (\<lambda>W. reconcileInstance W key)"
  obtain x where x: "calm (?W (Suc m))" "present (?W (Suc m)) key x tmpl eff" "stage 2 (?W (Suc m)) x"
    "heir A inst tmpl (?W (Suc m)) x" using Suc by blast
  have next_world: "?W (Suc (Suc m)) = afterRun (?W (Suc m)) (logged (reconcileInstance (?W (Suc m)) key) [])" by simp
  obtain y where "present (?W (Suc (Suc m))) key y tmpl eff" "stage 2 (?W (Suc (Suc m))) y"
    "asPlanned (?W (Suc (Suc m))) y tmpl eff" "heir (?W (Suc m)) x tmpl (?W (Suc (Suc m))) y"
    using provisioned_rests(1) [OF x(1-3) next_world] by blast
  moreover have "calm (?W (Suc (Suc m)))" unfolding next_world by (rule afterRun_calm [OF x(1)])
  ultimately show ?case using heir_trans [OF x(4)] by blast
qed

lemma worlds_stored:
  assumes "calm A" and "present A key inst tmpl eff" and "n \<ge> 3" and "renders A tmpl eff"
    and "fst (templateSourceReady A tmpl)" and "ownable A inst tmpl"
  shows "\<exists>r. reGetRelease (worlds A (\<lambda>W. reconcileInstance W key) n) [] (releaseKey inst) = Inr r"
proof -
  obtain m where m: "n = Suc m" "2 \<le> m" using assms(3) by (cases n) auto
  let ?W = "worlds A (\<lambda>W. reconcileInstance W key) m"
  obtain x where x: "calm ?W" "present ?W key x tmpl eff" "stage 2 ?W x" "heir A inst tmpl ?W x"
    using worlds_stage [OF assms(1,2), of m] m(2) by (auto simp: min_def split: if_splits)
  have "renders ?W tmpl eff" "fst (templateSourceReady ?W tmpl)" "ownable ?W x tmpl"
    using assms(4-6) x(4) by (simp_all add: renders_def worlds_helpers heir_def)
  from release_stored [OF x(1-3) this] show ?thesis
    using x(4) kin_same(1) [of x inst] by (simp add: m(1) heir_def)
qed

text \<open>When Flux says that the release is ready, so does the instance.\<close>

lemma ended_condition:
  assumes "endedAt A t1 t2 (Observed st) x = Some x"
  shows "setCond A t1 (iConditions (iStatus x)) (condition ''Ready'' (hsStatus st) (hsReason st) (hsMessage st) (Generation (iMeta x)))
    = iConditions (iStatus x)"
  using arg_cong [OF assms [unfolded endedAt_def ending.case option.inject], of "\<lambda>x. iConditions (iStatus x)"]
  by (simp add: stamped_def setPhase_def statedAt_def)

lemma ready_instance:
  assumes "calm W" and "asPlanned W x tmpl eff" and "renders W tmpl eff" and "fst (templateSourceReady W tmpl)"
    and "ownable W x tmpl" and "\<not> iPooled (iSpec x)"
    and "\<exists>c. findCond W (hrConditions (foundRelease W x)) (fluxReadyCondition W) = Some c \<and> condStatus c = CondTrue"
  obtains i vals where "renderInstance W (pinNamespace x) tmpl eff (targetNamespace x) = (i, Inr vals)" and "x = withRelease i"
    and "desiredRelease W x tmpl eff (sourceKind W tmpl) (templateSourceName tmpl) (iWorkloadNamespace (iStatus x)) vals
      (foundRelease W x) = Inr (foundRelease W x)"
    and "iPhase (iStatus x) = PhaseReady" and "iHealth (iStatus x) = ''Healthy''"
    and "\<exists>d. findCond W (iConditions (iStatus x)) ConditionReady = Some d \<and> condStatus d = CondTrue"
proof -
  have laws: "keyed W" "referenceLaw W" "conditionLaws W" using assms(1) by (simp_all add: calm_def)
  obtain i vals where render: "renderInstance W (pinNamespace x) tmpl eff (targetNamespace x) = (i, Inr vals)"
    using assms(3) unfolding renders_def by blast
  obtain l en where p: "planned W x tmpl eff = (l, x, en)" "idle l" "endedAt W 0 0 en x = Some x"
    using assms(2) by (auto simp: asPlanned_def)
  let ?st = "translateHelmRelease W (foundRelease W x)"
  note success = planned_success [OF p render assms(4,5) laws(1,2)]
  have st: "hsReadiness ?st = ReadinessReady" "hsStatus ?st = CondTrue" "hsHealth ?st = ''Healthy''"
    using assms(7) by (auto simp: translateHelmRelease_def Let_def)
  have "setCond W 0 (iConditions (iStatus x)) (condition ''Ready'' CondTrue (hsReason ?st) (hsMessage ?st) (Generation (iMeta x)))
      = iConditions (iStatus x)"
    using ended_condition [OF success(2)] st(2) by simp
  then obtain d where "findCond W (iConditions (iStatus x)) ''Ready'' = Some d" "condStatus d = CondTrue"
    using laws(3) unfolding conditionLaws_def sameCondition_def
    by (metis Condition.select_convs(1,2) condition_def)
  then show ?thesis
    using that [OF render success(5)] success(1,3) ended_phase [OF success(2)] st assms(6)
    by (simp add: phaseFor_def ConditionReady_def)
qed

section \<open>The claim is bound\<close>

definition boundTo :: "DployInstanceClaim \<Rightarrow> DployTemplate \<Rightarrow> Effective \<Rightarrow> Time \<Rightarrow> DployInstance \<Rightarrow> bool" where
  "boundTo c tmpl eff b x \<longleftrightarrow> iOwner (iSpec x) = cOwner (cSpec c) \<and> iParams (iSpec x) = cParams (cSpec c)
     \<and> iTTLSeconds (iSpec x) = lifetimeOf c tmpl eff \<and> iSpecExpiresAt (iSpec x) = expiryFrom b (lifetimeOf c tmpl eff)"

lemma synced_agrees:
  assumes "referenceLaw A" and "boundTo c tmpl eff b x"
    and "desiredBinding A (dated c tmpl eff b) (lifetimeOf c tmpl eff) (expiryFrom b (lifetimeOf c tmpl eff)) x = Inr d"
    and "syncedTo A x d x1"
  shows "agrees x1 x" "iStatus x1 = iStatus x"
proof -
  obtain m where m: "setControllerRef A (ownerRef ''DployInstanceClaim'' (cMeta c)) ((iMeta x)\<lparr>OwnerReferences := []\<rparr>) = Inr m"
    using assms(3) by (auto simp: desiredBinding_def split: sum.splits)
  obtain xs where xs: "m = (iMeta x)\<lparr>OwnerReferences := []\<rparr>\<lparr>OwnerReferences := xs\<rparr>" by (rule set_refs [OF assms(1) m])
  have "iSpec d = iSpec x"
    using assms(2,3) m by (cases "iSpec x") (auto simp: desiredBinding_def Let_def boundTo_def)
  moreover have "objectKey (iMeta d) = objectKey (iMeta x)" "UID (iMeta d) = UID (iMeta x)"
    using assms(3) m xs by (auto simp: desiredBinding_def Let_def stampBoundAt_def objectKey_def split: if_splits)
  ultimately show "agrees x1 x" "iStatus x1 = iStatus x"
    using assms(4) binding_fields(1) [OF assms(1,3)] by (auto simp: syncedTo_def agrees_def bumpI_def objectKey_def split: if_splits)
qed

lemma handed_over:
  assumes "calm W" and "steady W c tmpl eff x b" and "heldSince W c x b" and "ownsFresh W c"
    and "Namespace (iMeta x) = Namespace (cMeta c)" and "boundTo c tmpl eff b x"
    and "W' = afterRun W (logged (Reconcile W R (objectKey (cMeta c))) [])"
  obtains t1 t2 x1 v where "agrees x1 x" and "iStatus x1 = iStatus x"
    and "reGetClaim W' [] (objectKey (cMeta c)) = Inr (bumpC v (recorded W t1 t2 (dated c tmpl eff b) x1))"
    and "reGetInstance W' [] ClientCache (objectKey (iMeta x)) = Inr x1" and "reFetchRelease W' [] = reFetchRelease W []"
proof -
  let ?ttl = "lifetimeOf c tmpl eff" and ?claim = "dated c tmpl eff b"
  have laws: "referenceLaw W" "accepting W" using assms(1) by (simp_all add: calm_def)
  have "Namespace ((iMeta x)\<lparr>OwnerReferences := []\<rparr>) = Namespace (cMeta c)" "OwnerReferences ((iMeta x)\<lparr>OwnerReferences := []\<rparr>) = []"
    using assms(5) by simp_all
  then obtain m where "setControllerRef W (ownerRef ''DployInstanceClaim'' (cMeta c)) ((iMeta x)\<lparr>OwnerReferences := []\<rparr>) = Inr m"
    using assms(4) unfolding ownsFresh_def by blast
  then obtain d where d: "desiredBinding W ?claim ?ttl (expiryFrom b ?ttl) x = Inr d" by (auto simp: desiredBinding_def Let_def)
  have "wp (Reconcile W R (objectKey (cMeta c))) (\<lambda>_. finished W c ?claim x d []) []"
  proof (rule wp_held_run [OF assms(2,3)])
    fix h0 :: log assume h0: "writes h0 = []"
    have "wp (finish W c ?claim x ?ttl False) (\<lambda>_. finished W c ?claim x d h0) h0"
      by (rule wp_finish) (use assms(2) d in \<open>simp_all add: steady_def lifetimeOf_def\<close>)
    moreover have "finished W c ?claim x d h0 = finished W c ?claim x d []"
      by (rule ext) (simp add: finished_def h0)
    ultimately show "wp (finish W c ?claim x (fst (resolveClaimTTL c tmpl eff)) False) (\<lambda>_. finished W c ?claim x d []) h0"
      by (simp add: lifetimeOf_def)
  qed
  then obtain t1 t2 x1 h1 where sync: "syncedTo W x d x1"
    and log: "writes (logged (Reconcile W R (objectKey (cMeta c))) []) = updates W x d x1
      @ [EPatchClaimStatus c (recorded W t1 t2 ?claim x1) (rePatchClaimStatus W h1 c (recorded W t1 t2 ?claim x1))]"
    unfolding wp_logged by (auto simp: finished_def)
  obtain v where v: "rePatchClaimStatus W h1 c (recorded W t1 t2 ?claim x1) = Inr (bumpC v (recorded W t1 t2 ?claim x1))"
    using acceptingD(11) [OF laws(2)] by blast
  have W': "W' = afterRun W (updates W x d x1 @ [EPatchClaimStatus c (recorded W t1 t2 ?claim x1) (Inr (bumpC v (recorded W t1 t2 ?claim x1)))])"
    unfolding assms(7) log [unfolded v, symmetric] by (rule afterRun_writes [symmetric])
  note same = synced_agrees [OF laws(1) assms(6) d sync]
  have key: "objectKey (iMeta x1) = objectKey (iMeta x)" using same(1) by (simp add: agrees_def)
  show ?thesis
  proof (rule that [OF same])
    show "reGetClaim W' [] (objectKey (cMeta c)) = Inr (bumpC v (recorded W t1 t2 ?claim x1))"
      by (simp add: W' kept_def at_defs)
    show "reGetInstance W' [] ClientCache (objectKey (iMeta x)) = Inr x1"
      using sync assms(2) by (simp add: W' kept_def at_defs updates_def key syncedTo_def steady_def)
    show "reFetchRelease W' [] = reFetchRelease W []"
      by (simp add: W' kept_def at_defs updates_def fun_eq_iff)
  qed
qed

section \<open>From the claim to the environment\<close>

lemma worlds_same:
  "reNow (worlds A m n) = reNow A" "setControllerRef (worlds A m n) = setControllerRef A" "findCond (worlds A m n) = findCond A"
  "fluxReadyCondition (worlds A m n) = fluxReadyCondition A" "renders (worlds A m n) = renders A"
  "ownsFresh (worlds A m n) = ownsFresh A"
  by (induction n) (simp_all add: renders_def [abs_def] ownsFresh_def [abs_def] fun_eq_iff)

definition goodUntil :: "api \<Rightarrow> DployInstanceClaim \<Rightarrow> DployTemplate \<Rightarrow> Effective \<Rightarrow> Time \<Rightarrow> bool" where
  "goodUntil A c tmpl eff b \<longleftrightarrow> lifetimeOf c tmpl eff = -1
     \<or> lifetimeOf c tmpl eff > 0 \<and> (\<forall>h. reNow A h < b + seconds (lifetimeOf c tmpl eff))"

lemma good_ahead: "boundTo c tmpl eff b x \<Longrightarrow> goodUntil A c tmpl eff b \<Longrightarrow> deadlineAhead A x"
  by (auto simp: deadlineAhead_def boundTo_def goodUntil_def expiryFrom_def)

lemma kin_bound: "kin x y \<Longrightarrow> boundTo c tmpl eff b y \<Longrightarrow> boundTo c tmpl eff b x"
  by (simp add: kin_def boundTo_def)

text \<open>The instance once Flux has reported and the instance controller has looked.\<close>

lemma environment_ready:
  assumes "calm A" and "present A k y tmpl eff" and "ownable A y tmpl" and "onlyOne A y" and "renders A tmpl eff"
    and "fst (templateSourceReady A tmpl)" and "boundTo c tmpl eff b y" and "n \<ge> 3"
    and "W = reported f clock (worlds A (\<lambda>W. reconcileInstance W k) n)" and "goodUntil W c tmpl eff b"
    and "W' = worlds W (\<lambda>W. reconcileInstance W k) (Suc m)"
  obtains x where "calm W'" and "present W' k x tmpl eff" and "stage 2 W' x" and "asPlanned W' x tmpl eff" and "kin x y"
    and "ownable W' x tmpl" and "onlyOne W' x" and "reGetClaim W' [] = reGetClaim A []"
    and "hrConditions (foundRelease W' x) = f (releaseKey y)"
proof -
  let ?V = "worlds A (\<lambda>W. reconcileInstance W k) n"
  obtain z where z: "present ?V k z tmpl eff" "stage 2 ?V z" "heir A y tmpl ?V z"
    using third_world(2) [OF assms(1,2,8)] by blast
  have V: "calm ?V" using worlds_stage [OF assms(1,2), of n] by simp
  then have keyed: "keyed ?V" by (simp add: calm_def)
  have kin: "kin z y" and own: "ownable ?V z tmpl" and only: "onlyOne ?V z" and claims: "reGetClaim ?V [] = reGetClaim A []"
    using z(3) assms(3,4) by (simp_all add: heir_def)
  have calm: "calm W" unfolding assms(9) by (rule reported_calm [OF V])
  have present: "present W k z tmpl eff"
    using z(1) good_ahead [OF kin_bound [OF kin assms(7)] assms(10)] by (simp add: present_def assms(9))
  have stage: "stage 2 W z" using z(2) by (simp add: assms(9) numeral_2_eq_2)
  obtain r where "reGetRelease ?V [] (releaseKey z) = Inr r"
    using worlds_stored [OF assms(1,2,8,5,6,3)] kin_same(1) [OF kin] by metis
  then have conds: "hrConditions (foundRelease W z) = f (releaseKey y)"
    using reported_release(1) [OF keyed] keyed kin_same(1) [OF kin] by (simp add: assms(9))
  obtain x where x: "calm W'" "present W' k x tmpl eff" "stage 2 W' x" "asPlanned W' x tmpl eff" "heir W z tmpl W' x"
    using rests_from [OF calm present stage, of m] unfolding assms(11) by blast
  have "ownable W z tmpl"
    using own reported_release(2) [OF keyed] by (simp add: ownable_def assms(9) foundSource_def)
  moreover have "onlyOne W z" using only by (simp add: onlyOne_def assms(9))
  moreover have "reGetClaim W [] = reGetClaim A []" using claims by (simp add: assms(9))
  moreover have "kin x y" using x(5) kin by (simp add: heir_def kin_def)
  ultimately show ?thesis using x conds by (intro that [OF x(1-4)]) (simp_all add: heir_def)
qed

definition delivered ::
  "api \<Rightarrow> NamespacedName \<Rightarrow> NamespacedName \<Rightarrow> string \<Rightarrow> smap \<Rightarrow> DployTemplate \<Rightarrow> Effective \<Rightarrow> bool" where
  "delivered W key k owner params tmpl eff \<longleftrightarrow> (\<exists>c x r vals. reGetClaim W [] key = Inr c
     \<and> reGetInstance W [] ClientCache k = Inr x \<and> reFetchRelease W [] k = Inr r
     \<and> cPhase (cStatus c) = ClaimBound \<and> cInstanceRef (cStatus c) = nnName k \<and> cUUID (cStatus c) \<noteq> []
     \<and> cInstancePhase (cStatus c) = PhaseReady \<and> cHealth (cStatus c) = ''Healthy''
     \<and> cConnectionURL (cStatus c) = iURL (iStatus x) \<and> cExpiresAt (cStatus c) = iSpecExpiresAt (iSpec x)
     \<and> (\<exists>d. findCond W (cConditions (cStatus c)) ConditionReady = Some d \<and> condStatus d = CondTrue)
     \<and> iOwner (iSpec x) = owner \<and> iParams (iSpec x) = params
     \<and> renderInstance W (pinNamespace x) tmpl eff (targetNamespace x) = (x, Inr vals)
     \<and> desiredRelease W x tmpl eff (sourceKind W tmpl) (templateSourceName tmpl) (iWorkloadNamespace (iStatus x)) vals r = Inr r)"

lemma recorded_ready:
  assumes "conditionLaws W" and "findCond W (iConditions (iStatus x)) ConditionReady = Some d" and "condStatus d = CondTrue"
  shows "\<exists>d. findCond W (cConditions (cStatus (recorded W t1 t2 c x))) ConditionReady = Some d \<and> condStatus d = CondTrue"
proof -
  let ?r = "readyCondition (Generation (cMeta c)) (Some d)"
  have "condType ?r = ConditionReady" "condStatus ?r = CondTrue" using assms(3) by (simp_all add: readyCondition_def condition_def)
  then have "\<exists>d. findCond W (setCond W t2 cs ?r) ConditionReady = Some d \<and> condStatus d = CondTrue" for cs
    using assms(1) unfolding conditionLaws_def sameCondition_def by metis
  then show ?thesis by (simp add: recorded_def projectedAt_def conditionsAt_def Let_def assms(2))
qed

lemma delivery:
  assumes "calm W" and "present W k x tmpl eff" and "stage 2 W x" and "asPlanned W x tmpl eff" and "ownable W x tmpl"
    and "renders W tmpl eff" and "fst (templateSourceReady W tmpl)" and "\<not> iPooled (iSpec x)"
    and "\<exists>s. findCond W (hrConditions (foundRelease W x)) (fluxReadyCondition W) = Some s \<and> condStatus s = CondTrue"
    and "steady W c tmpl eff x b" and "iPhase (iStatus x) = PhaseReady \<Longrightarrow> heldSince W c x b" and "ownsFresh W c"
    and "Namespace (iMeta x) = Namespace (cMeta c)" and "boundTo c tmpl eff b x" and "objectKey (cMeta c) = key"
    and "W' = afterRun W (logged (Reconcile W R key) [])"
  shows "delivered W' key k (cOwner (cSpec c)) (cParams (cSpec c)) tmpl eff"
proof -
  obtain i vals where render: "renderInstance W (pinNamespace x) tmpl eff (targetNamespace x) = (i, Inr vals)" "x = withRelease i"
    and release: "desiredRelease W x tmpl eff (sourceKind W tmpl) (templateSourceName tmpl) (iWorkloadNamespace (iStatus x)) vals
      (foundRelease W x) = Inr (foundRelease W x)"
    and ready: "iPhase (iStatus x) = PhaseReady" "iHealth (iStatus x) = ''Healthy''"
      "\<exists>d. findCond W (iConditions (iStatus x)) ConditionReady = Some d \<and> condStatus d = CondTrue"
    by (rule ready_instance [OF assms(1,4,6,7,5,8,9)])
  obtain t1 t2 x1 v where x1: "agrees x1 x" "iStatus x1 = iStatus x"
    and claim: "reGetClaim W' [] key = Inr (bumpC v (recorded W t1 t2 (dated c tmpl eff b) x1))"
    and inst: "reGetInstance W' [] ClientCache (objectKey (iMeta x)) = Inr x1" and releases: "reFetchRelease W' [] = reFetchRelease W []"
    by (rule handed_over [OF assms(1,10) assms(11) [OF ready(1)] assms(12-14) refl, of R]) (use assms(15,16) in simp)
  have laws: "conditionLaws W" "stable W" "keyed W" using assms(1) by (simp_all add: calm_def)
  have k: "objectKey (iMeta x) = k" "releaseKey x = k" "Name (iMeta x1) = nnName k"
    using assms(2) agrees_names [OF x1(1)]
    by (auto simp: present_def releaseKey_def engineResourceName_def objectKey_def)
  have "agrees x1 i" using x1(1) by (simp add: render(2) agrees_def withRelease_def)
  note again = render_again [OF render(1) this]
  have rendered: "renderInstance W (pinNamespace x1) tmpl eff (targetNamespace x1) = (x1, Inr vals)"
    using again by simp
  have same: "renderInstance W' = renderInstance W" "desiredRelease W' = desiredRelease W" "sourceKind W' = sourceKind W"
    "findCond W' = findCond W" by (simp_all add: assms(16))
  have "reFetchRelease W' [] k = Inr (foundRelease W x)" using found(3) [OF laws(2,3), of "[]" x] by (simp add: k(2) releases)
  moreover have "desiredRelease W x1 tmpl eff (sourceKind W tmpl) (templateSourceName tmpl) (iWorkloadNamespace (iStatus x1)) vals
      (foundRelease W x) = Inr (foundRelease W x)"
    using release agrees_same(3) [OF x1(1)] x1(2) by simp
  moreover have "iUUID (iStatus x1) \<noteq> []" using assms(3) x1(2) by (simp add: numeral_2_eq_2)
  moreover have "\<exists>d. findCond W (cConditions (cStatus (recorded W t1 t2 (dated c tmpl eff b) x1))) ConditionReady = Some d
      \<and> condStatus d = CondTrue"
    using ready(3) recorded_ready [OF laws(1)] x1(2) by metis
  moreover have "iOwner (iSpec x1) = cOwner (cSpec c)" "iParams (iSpec x1) = cParams (cSpec c)"
    using assms(14) x1(1) by (simp_all add: boundTo_def agrees_def)
  moreover have "cInstanceRef (cStatus (recorded W t1 t2 (dated c tmpl eff b) x1)) = nnName k"
    "cUUID (cStatus (recorded W t1 t2 (dated c tmpl eff b) x1)) = iUUID (iStatus x1)"
    "cInstancePhase (cStatus (recorded W t1 t2 (dated c tmpl eff b) x1)) = PhaseReady"
    "cHealth (cStatus (recorded W t1 t2 (dated c tmpl eff b) x1)) = ''Healthy''"
    "cConnectionURL (cStatus (recorded W t1 t2 (dated c tmpl eff b) x1)) = iURL (iStatus x1)"
    "cExpiresAt (cStatus (recorded W t1 t2 (dated c tmpl eff b) x1)) = iSpecExpiresAt (iSpec x1)"
    using ready x1 k(3) assms(14) by (simp_all add: recorded_def projectedAt_def Let_def boundTo_def agrees_def lifetimeOf_def)
  ultimately show ?thesis
    using claim inst rendered k(1) unfolding delivered_def same
    by (intro exI [of _ "bumpC v (recorded W t1 t2 (dated c tmpl eff b) x1)"] exI [of _ x1] exI [of _ "foundRelease W x"] exI [of _ vals])
      simp
qed

text \<open>The claim finds its instance, past the settling window and before the deadline.\<close>

lemma held_steady:
  assumes "calm W" and "present W k x tmpl eff" and "onlyOne W x" and "boundTo c tmpl eff b x" and "filed owner params tmpl c"
    and "Namespace (iMeta x) = Namespace (cMeta c)" and "get (Labels (iMeta x)) LabelClaimUID = UID (cMeta c)"
    and "iTemplateRef (iSpec x) = cTemplateRef (cSpec c)" and "stampedAt x = Some b" and "tEnabled (tSpec tmpl)"
    and "reGetClaim W [] (objectKey (cMeta c)) = Inr c" and "\<forall>h. quotaSettleWindow \<le> timeSub (reNow W h) b" and "goodUntil W c tmpl eff b"
  shows "steady W c tmpl eff x b" "iPhase (iStatus x) = PhaseReady \<Longrightarrow> heldSince W c x b"
proof -
  have laws: "stable W" "accepting W" using assms(1) by (simp_all add: calm_def)
  note f = filed_fields [OF assms(5)]
  have "reGetClaim W h (objectKey (cMeta c)) = Inr c" "reGetTemplate W h (templateKey c) = Inr tmpl"
    "reListInstances W h rd (Namespace (cMeta c)) [(LabelClaimUID, UID (cMeta c))] = Inr [x]"
    "reGetInstance W h ClientCache (objectKey (iMeta x)) = Inr x" for h rd
    using assms(2,3,6-8,11) stableD(1,2,5,10) [OF laws(1)]
    by (simp_all add: present_def onlyOne_def templateOf_def templateKey_def) metis+
  moreover have "effectiveOf W (reGetConfig W h configKey) = Inr eff" for h
    using assms(2) stableD(3) [OF laws(1), of h] by (simp add: present_def)
  moreover have "case expiryFrom b (fst (resolveClaimTTL c tmpl eff)) of None \<Rightarrow> True | Some e \<Rightarrow> reNow W h < e" for h
    using assms(13) by (auto simp: goodUntil_def lifetimeOf_def expiryFrom_def)
  ultimately show "steady W c tmpl eff x b"
    using assms(10,12) acceptingD(1) [OF laws(2)] by (simp add: steady_def)
  show "iPhase (iStatus x) = PhaseReady \<Longrightarrow> heldSince W c x b"
    using f(5-7) assms(2,9) by (simp add: heldSince_def emptyClaimStatus_def isExpired_def live_def present_def)
qed

text \<open>C37. A request is served. Take a claim as the API server files it, for a template on demand whose chart
  is verified and whose templates render, by an owner who has room for one more environment, in a world
  that does not change by itself. The claim controller runs once, the instance controller at least
  three times, Flux reports that the release is ready, a minute passes, the instance controller runs
  again, and the claim controller once more. Then the claim is Bound to an instance of that owner with
  those parameters, Ready and Healthy, with an identifier, with the deadline of the instance and
  the connection URL the template renders for it, and the release in the cluster is the one that is
  wanted.\<close>

theorem environment_delivered:
  assumes "calm A" and "filed owner params tmpl c" and "awaited A R key c tmpl eff" and "renders A tmpl eff"
    and "fst (templateSourceReady A tmpl)"
    and "\<forall>k. \<exists>s. findCond A (f k) (fluxReadyCondition A) = Some s \<and> condStatus s = CondTrue"
    and "\<forall>h h'. quotaSettleWindow \<le> timeSub (clock h') (truncateSecond (reNow A h))"
    and "timely (reNow A) clock (lifetimeOf c tmpl eff)" and "n \<ge> 3" and "m \<ge> 1"
    and "W1 = afterRun A (logged (Reconcile A R key) [])"
  shows "\<exists>k. let W2 = worlds W1 (\<lambda>W. reconcileInstance W k) n;
              W3 = worlds (reported f clock W2) (\<lambda>W. reconcileInstance W k) m
          in delivered (afterRun W3 (logged (Reconcile W3 R key) [])) key k owner params tmpl eff"
proof -
  note a = assms(3) [unfolded awaited_def] and c = filed_fields [OF assms(2)]
  have law: "referenceLaw A" and owns: "ownsFresh A c" using assms(1) a by (simp_all add: calm_def)
  obtain h1 i u v g t y where y: "y = born i u v g t (newInstance A c tmpl eff (truncateSecond (reNow A h1)))"
    "present W1 (objectKey (iMeta y)) y tmpl eff" "onlyOne W1 y" "ownable W1 y tmpl" "reGetClaim W1 [] = reGetClaim A []"
    using created_world [OF assms(1,3,2,11)] by blast
  let ?b = "truncateSecond (reNow A h1)" and ?k = "objectKey (iMeta y)"
  note new = new_fields [OF law owns y(1)]
  define W2 where "W2 = reported f clock (worlds W1 (\<lambda>W. reconcileInstance W ?k) n)"
  obtain m' where m': "m = Suc m'" using assms(10) by (cases m) auto
  define W3 where "W3 = worlds W2 (\<lambda>W. reconcileInstance W ?k) (Suc m')"
  have bound: "boundTo c tmpl eff ?b y" by (simp add: boundTo_def new(1))
  have good: "goodUntil W2 c tmpl eff ?b" using assms(8) by (auto simp: goodUntil_def timely_def W2_def)
  have W1: "calm W1" "renders W1 tmpl eff" "fst (templateSourceReady W1 tmpl)"
    using assms(1,4,5) afterRun_calm by (simp_all add: assms(11) renders_def)
  obtain x where x: "calm W3" "present W3 ?k x tmpl eff" "stage 2 W3 x" "asPlanned W3 x tmpl eff" "kin x y"
    "ownable W3 x tmpl" "onlyOne W3 x" "reGetClaim W3 [] = reGetClaim W1 []" "hrConditions (foundRelease W3 x) = f (releaseKey y)"
    by (rule environment_ready [OF W1(1) y(2,4,3) W1(2,3) bound assms(9) W2_def good W3_def])
  have names: "Namespace (iMeta x) = Namespace (cMeta c)" "get (Labels (iMeta x)) LabelClaimUID = UID (cMeta c)"
    "iTemplateRef (iSpec x) = cTemplateRef (cSpec c)" "\<not> iPooled (iSpec x)"
    using x(5) kin_same(3) [OF x(5)] new c(2) by (simp_all add: kin_def)
  have stamp: "stampedAt x = Some ?b"
  proof -
    have "parseRFC3339 (formatRFC3339 ?b) = Some ?b"
      using assms(8) parse_stamp by (simp add: timely_def format_truncated)
    then show ?thesis using x(5) new(6) by (simp add: kin_def stampedAt_def get_def Let_def)
  qed
  have worlds: "reNow W3 = clock" "findCond W3 = findCond A" "fluxReadyCondition W3 = fluxReadyCondition A"
    "renders W3 tmpl eff" "fst (templateSourceReady W3 tmpl)" "ownsFresh W3 c"
    using W1(2,3) owns
    by (simp_all add: W3_def W2_def worlds_same worlds_helpers assms(11) renders_def ownsFresh_def)
  have held: "steady W3 c tmpl eff x ?b" "iPhase (iStatus x) = PhaseReady \<Longrightarrow> heldSince W3 c x ?b"
    using held_steady [OF x(1,2,7) kin_bound [OF x(5) bound] assms(2) names(1-3) stamp] a x(8) y(5) assms(7) good
    by (simp_all add: worlds(1) goodUntil_def W2_def)
  have "\<exists>s. findCond W3 (hrConditions (foundRelease W3 x)) (fluxReadyCondition W3) = Some s \<and> condStatus s = CondTrue"
    using assms(6) x(9) by (simp add: worlds(2,3))
  from delivery [OF x(1-4,6) worlds(4,5) names(4) this held worlds(6) names(1) kin_bound [OF x(5) bound] _ refl, of key R]
  have "delivered (afterRun W3 (logged (Reconcile W3 R key) [])) key ?k owner params tmpl eff" using a c(3,4) by simp
  then show ?thesis unfolding Let_def W3_def W2_def m' by blast
qed

text \<open>A claim of alice for a template on demand, on the first second of the clock, with an hour to go.\<close>

definition servedTemplate :: DployTemplate where
  "servedTemplate = tSpec_update (\<lambda>s. s\<lparr>tEnabled := True, tConnectionURLTemplate := ''https://web.example''\<rparr>) verifiedTemplate"

definition servedClaim :: DployInstanceClaim where
  "servedClaim = cMeta_update (\<lambda>m. m\<lparr>UID := ''c1'', ResourceVersion := ''1'', Generation := 1, CreationTimestamp := 0\<rparr>)
     (newClaim ''d'' ''alice'' (Map.empty(''size'' \<mapsto> ''small'')) servedTemplate False)"

definition servedApi :: api where
  "servedApi = stubApi\<lparr>reGetClaim := (\<lambda>h k. Inr servedClaim), reGetTemplate := (\<lambda>h k. Inr servedTemplate),
     reGetInstance := (\<lambda>h rd k. Inl (ApiError NotFound ''not found'')),
     reCreateInstance := (\<lambda>h x. Inr (born ''alice-web-x'' ''i1'' ''1'' 1 0 x))\<rparr>"

lemma servedApi_calm: "calm servedApi"
proof -
  have "stable servedApi" by (simp add: stable_def servedApi_def stubApi_def)
  moreover have "\<exists>n u v g t. born ''alice-web-x'' ''i1'' ''1'' 1 0 x = born n u v g t x" for x by blast
  then have "accepting servedApi"
    using stub_accepts by (auto simp: accepting_def servedApi_def stubApi_def)
  moreover have "keyed servedApi" by (simp add: keyed_def servedApi_def stubApi_def objectKey_def)
  moreover have "conditionLaws servedApi" "referenceLaw servedApi" "referenceAgain servedApi"
    by (simp_all add: conditionLaws_sample referenceLaw_sample referenceAgain_sample servedApi_def stubApi_def)
  moreover have "finalizerLaw servedApi" by (simp add: finalizerLaw_def servedApi_def stubApi_def)
  moreover have "shortUUID ''0f8fad5b-d9cb-469f-a165-70867728950e'' \<noteq> []" by code_simp
  then have "shortUUID (reFreshUUID servedApi h) \<noteq> []" for h by (simp add: servedApi_def stubApi_def)
  ultimately show ?thesis by (simp add: calm_def)
qed

lemma served_filed: "filed ''alice'' (Map.empty(''size'' \<mapsto> ''small'')) servedTemplate servedClaim"
proof -
  have "Namespace (tMeta servedTemplate) = ''d''" by (simp add: servedTemplate_def verifiedTemplate_def)
  then have "servedClaim = cMeta_update (\<lambda>m. m\<lparr>UID := ''c1'', ResourceVersion := ''1'', Generation := 1, CreationTimestamp := 0\<rparr>)
      (newClaim (Namespace (tMeta servedTemplate)) ''alice'' (Map.empty(''size'' \<mapsto> ''small'')) servedTemplate False)"
    by (simp add: servedClaim_def)
  then show ?thesis unfolding filed_def using alice_label by blast
qed

lemma served_lifetime: "lifetimeOf servedClaim servedTemplate fallbacks = defaultTTLSeconds"
  by (simp add: lifetimeOf_def resolveClaimTTL_def servedClaim_def newClaim_def servedTemplate_def verifiedTemplate_def
      emptyTemplate_def fallbacks_def Let_def resolveInstanceTTL_def maxLifetime_def extendBudget_def
      defaultTTLSeconds_def defaultExtendSeconds_def defaultMaxExtends_def wrap64_id min64_def max64_def)

lemma served_timely:
  "timely (\<lambda>h. 0) (\<lambda>h. t) (lifetimeOf servedClaim servedTemplate fallbacks)" if "t \<le> 60 * second"
proof -
  have "fourDigitYear 0" by code_simp
  then show ?thesis
    using that by (simp add: timely_def served_lifetime defaultTTLSeconds_def seconds_exact truncateSecond_def second_def)
qed

lemma served_awaited: "awaited servedApi None (objectKey (cMeta servedClaim)) servedClaim servedTemplate fallbacks"
proof -
  have own: "\<exists>m'. addController r m = Inr m'" if "OwnerReferences m = []" for r m
    using that by (simp add: addController_def)
  have "roomFor servedApi None servedClaim servedTemplate fallbacks"
    by (simp add: roomFor_def servedApi_def not_less [symmetric])
  moreover have "ownsFresh servedApi servedClaim" using own by (simp add: ownsFresh_def servedApi_def stubApi_def)
  moreover have "vacant servedApi servedTemplate"
    using own by (auto simp: vacant_def ownable_def foundSource_def foundRelease_def servedApi_def stubApi_def emptyMeta_def)
  moreover have "timely (reNow servedApi) (reNow servedApi) (lifetimeOf servedClaim servedTemplate fallbacks)"
    using served_timely [of 0] by (simp add: servedApi_def stubApi_def second_def)
  ultimately show ?thesis
    by (simp add: awaited_def) (simp add: servedApi_def stubApi_def servedTemplate_def verifiedTemplate_def
        emptyTemplate_def effectiveOf_def missing_def)
qed

lemma served_renders: "renders servedApi servedTemplate fallbacks"
proof -
  have "TrimSpace [] = []" by code_simp
  then have "snd (renderInstance servedApi (pinNamespace x) servedTemplate fallbacks (targetNamespace x)) = Inr []" for x
    by (simp add: renderInstance_def resolveURL_def resolveMessage_def resolveConnectionType_def renderValues_def Render_def
        servedTemplate_def verifiedTemplate_def emptyTemplate_def fallbacks_def servedApi_def stubApi_def Let_def)
  then show ?thesis unfolding renders_def by (metis prod.collapse)
qed

theorem environment_delivered_witness:
  "let key = objectKey (cMeta servedClaim);
       W1 = afterRun servedApi (logged (Reconcile servedApi None key) []) in
   \<exists>k. let W2 = worlds W1 (\<lambda>W. reconcileInstance W k) 3;
           W3 = worlds (reported (\<lambda>k. [condition ''Ready'' CondTrue ''InstallSucceeded'' ''ok'' 1]) (\<lambda>h. 60 * second) W2)
                  (\<lambda>W. reconcileInstance W k) 1
       in delivered (afterRun W3 (logged (Reconcile W3 None key) [])) key k ''alice'' (Map.empty(''size'' \<mapsto> ''small''))
            servedTemplate fallbacks"
proof -
  let ?f = "\<lambda>k :: NamespacedName. [condition ''Ready'' CondTrue ''InstallSucceeded'' ''ok'' 1]"
  have verified: "fst (templateSourceReady servedApi servedTemplate)"
    using fresh_verified by (simp add: templateSourceReady_def servedApi_def calmApi_def servedTemplate_def)
  have ready: "\<forall>k. \<exists>s. findCond servedApi (?f k) (fluxReadyCondition servedApi) = Some s \<and> condStatus s = CondTrue"
    by (simp add: servedApi_def stubApi_def findCondition_def condition_def)
  have later: "\<forall>h h'. quotaSettleWindow \<le> timeSub (60 * second) (truncateSecond (reNow servedApi h))"
    by (simp add: servedApi_def stubApi_def quotaSettleWindow_def timeSub_def truncateSecond_def second_def min64_def max64_def)
  have timely: "timely (reNow servedApi) (\<lambda>h. 60 * second) (lifetimeOf servedClaim servedTemplate fallbacks)"
    using served_timely [of "60 * second"] by (simp add: servedApi_def stubApi_def)
  show ?thesis
    unfolding Let_def
    by (rule environment_delivered [OF servedApi_calm served_filed served_awaited served_renders verified ready
          later timely order.refl order.refl refl, unfolded Let_def])
qed

end
