(* ===== verification/GoHeap.thy ===== *)
theory GoHeap
imports Types "HOL-Library.State_Monad"
begin

text \<open>
  Memory, for the one part of the program where sharing is the point: the deep copies of
  \<^verbatim>\<open>zz_generated.deepcopy.go\<close>. A heap is the list of its cells, an address an index, and
  allocation appends; the cell type is a parameter. A pointer, a map and the array under a slice
  are addresses; \<open>nil\<close> is \<open>None\<close>. The locale \<open>deep_copier\<close> is the contract of a copy function: the
  copy reads the same, lives in fresh cells only, and what it was copied from is untouched. It is
  closed under structs, pointers, maps and slices, which is how the theory \<open>DeepCopy\<close> uses it.
\<close>

type_synonym addr = nat
type_synonym ('c, 'a) mem = "('c list, 'a) state"

definition alloc :: "'c \<Rightarrow> ('c, addr) mem" where
  "alloc c = State (\<lambda>h. (length h, h @ [c]))"

text \<open>Reading a cell at a type: a discriminator and a selector of the cell type.\<close>

definition load :: "('c \<Rightarrow> bool) \<Rightarrow> ('c \<Rightarrow> 'x) \<Rightarrow> 'c list \<Rightarrow> addr \<Rightarrow> 'x option" where
  "load disc sel h a = (if a < length h \<and> disc (h ! a) then Some (sel (h ! a)) else None)"

lemma run_alloc [simp]: "run_state (alloc c) h = (length h, h @ [c])"
  by (simp add: alloc_def)

lemma load_append [simp]: "a < length h \<Longrightarrow> load disc sel (h @ ext) a = load disc sel h a"
  by (simp add: load_def nth_append)

lemma load_new [simp]: "load disc sel (h @ [c]) (length h) = (if disc c then Some (sel c) else None)"
  by (simp add: load_def)

lemma load_inside: "load disc sel h a = Some x \<Longrightarrow> a < length h"
  by (simp add: load_def split: if_splits)

section \<open>The contract of a copy\<close>

text \<open>Two heaps hold the same in a set of cells.\<close>

definition agree :: "addr set \<Rightarrow> 'c list \<Rightarrow> 'c list \<Rightarrow> bool" where
  "agree S h h' \<longleftrightarrow> (\<forall>a\<in>S. a < length h' \<and> h' ! a = h ! a)"

lemma agree_append: "S \<subseteq> {..<length h} \<Longrightarrow> agree S h (h @ ext)"
  by (auto simp: agree_def nth_append)

lemma agree_mono: "agree S h h' \<Longrightarrow> T \<subseteq> S \<Longrightarrow> agree T h h'"
  by (auto simp: agree_def)

lemma agree_load: "agree S h h' \<Longrightarrow> a \<in> S \<Longrightarrow> load disc sel h a = Some x \<Longrightarrow> load disc sel h' a = Some x"
  by (auto simp: agree_def load_def split: if_splits)

text \<open>The copy reads as the original did; whatever is later written to the cells of the one, or
  allocated, the other reads as before.\<close>

definition independentCopy ::
  "('x \<Rightarrow> ('c, 'x) mem) \<Rightarrow> ('c list \<Rightarrow> 'x \<Rightarrow> 'v option) \<Rightarrow> ('c list \<Rightarrow> 'x \<Rightarrow> addr set) \<Rightarrow> bool" where
  "independentCopy copy val foot \<longleftrightarrow>
     (\<forall>h x v y h'. val h x = Some v \<longrightarrow> run_state (copy x) h = (y, h') \<longrightarrow>
        val h' y = Some v
        \<and> (\<forall>h''. agree (- foot h' y \<inter> {..<length h'}) h' h'' \<longrightarrow> val h'' x = Some v)
        \<and> (\<forall>h''. agree (- foot h' x \<inter> {..<length h'}) h' h'' \<longrightarrow> val h'' y = Some v))"

text \<open>\<open>val\<close> is the value a representation stands for, where it is well typed in the heap, and \<open>foot\<close>
  the cells it stands on.\<close>

locale deep_copier =
  fixes copy :: "'x \<Rightarrow> ('c, 'x) mem"
    and val :: "'c list \<Rightarrow> 'x \<Rightarrow> 'v option"
    and foot :: "'c list \<Rightarrow> 'x \<Rightarrow> addr set"
  assumes local: "val h x = Some v \<Longrightarrow> agree (foot h x) h h' \<Longrightarrow> val h' x = Some v \<and> foot h' x = foot h x"
    and inside: "val h x = Some v \<Longrightarrow> foot h x \<subseteq> {..<length h}"
    and copies: "val h x = Some v \<Longrightarrow> run_state (copy x) h = (y, h') \<Longrightarrow>
      (\<exists>ext. h' = h @ ext) \<and> val h' y = Some v \<and> foot h' y \<subseteq> {length h..<length h'}"
begin

lemma extended: "val h x = Some v \<Longrightarrow> val (h @ ext) x = Some v \<and> foot (h @ ext) x = foot h x"
  by (rule local, assumption, rule agree_append, rule inside)

text \<open>What a caller relies on, shown once.\<close>

lemma independent: "independentCopy copy val foot"
  unfolding independentCopy_def
proof (intro allI impI)
  fix h x v y h'
  assume x0: "val h x = Some v" and run: "run_state (copy x) h = (y, h')"
  obtain ext where c: "h' = h @ ext" "val h' y = Some v" "foot h' y \<subseteq> {length h..<length h'}"
    using copies [OF x0 run] by blast
  have x: "val h' x = Some v" "foot h' x = foot h x" using extended [OF x0, of ext] c(1) by simp_all
  have "foot h' x \<subseteq> {..<length h}" using inside [OF x0] x(2) by simp
  then have dis: "foot h' x \<inter> foot h' y = {}" using c(3) by fastforce
  have "foot h' x \<subseteq> - foot h' y \<inter> {..<length h'}" using dis inside [OF x(1)] by blast
  moreover have "foot h' y \<subseteq> - foot h' x \<inter> {..<length h'}" using dis inside [OF c(2)] by blast
  ultimately show "val h' y = Some v
      \<and> (\<forall>h''. agree (- foot h' y \<inter> {..<length h'}) h' h'' \<longrightarrow> val h'' x = Some v)
      \<and> (\<forall>h''. agree (- foot h' x \<inter> {..<length h'}) h' h'' \<longrightarrow> val h'' y = Some v)"
    using x(1) c(2) local agree_mono by metis
qed

end

section \<open>Closure\<close>

text \<open>A value without references is copied by assignment.\<close>

lemma deep_flat: "deep_copier State_Monad.return (\<lambda>h x. Some (f x)) (\<lambda>h x. {})"
  by unfold_locales auto

text \<open>Two parts of a struct, one after the other.\<close>

definition copyPair :: "('x \<Rightarrow> ('c, 'x) mem) \<Rightarrow> ('y \<Rightarrow> ('c, 'y) mem) \<Rightarrow> 'x \<times> 'y \<Rightarrow> ('c, 'x \<times> 'y) mem" where
  "copyPair c d p = do { x \<leftarrow> c (fst p); y \<leftarrow> d (snd p); State_Monad.return (x, y) }"

definition valPair :: "('c list \<Rightarrow> 'x \<Rightarrow> 'v option) \<Rightarrow> ('c list \<Rightarrow> 'y \<Rightarrow> 'w option) \<Rightarrow> 'c list \<Rightarrow> 'x \<times> 'y \<Rightarrow> ('v \<times> 'w) option"
  where "valPair v w h p = (case (v h (fst p), w h (snd p)) of (Some a, Some b) \<Rightarrow> Some (a, b) | _ \<Rightarrow> None)"

definition footPair :: "('c list \<Rightarrow> 'x \<Rightarrow> addr set) \<Rightarrow> ('c list \<Rightarrow> 'y \<Rightarrow> addr set) \<Rightarrow> 'c list \<Rightarrow> 'x \<times> 'y \<Rightarrow> addr set"
  where "footPair f g h p = f h (fst p) \<union> g h (snd p)"

lemma valPair_Some: "valPair v w h p = Some r \<longleftrightarrow> (\<exists>a b. v h (fst p) = Some a \<and> w h (snd p) = Some b \<and> r = (a, b))"
  by (auto simp: valPair_def split: option.splits)

lemma agree_Un: "agree (S \<union> T) h h' \<longleftrightarrow> agree S h h' \<and> agree T h h'"
  by (auto simp: agree_def)

lemma deep_pair:
  assumes "deep_copier c v f" and "deep_copier d w g"
  shows "deep_copier (copyPair c d) (valPair v w) (footPair f g)"
proof
  fix h h' p r
  assume "valPair v w h p = Some r" "agree (footPair f g h p) h h'"
  then show "valPair v w h' p = Some r \<and> footPair f g h' p = footPair f g h p"
    using deep_copier.local [OF assms(1), of h "fst p" _ h'] deep_copier.local [OF assms(2), of h "snd p" _ h']
    by (auto simp: valPair_Some footPair_def agree_Un)
next
  fix h p r
  assume "valPair v w h p = Some r"
  then show "footPair f g h p \<subseteq> {..<length h}"
    using deep_copier.inside [OF assms(1)] deep_copier.inside [OF assms(2)]
    by (auto simp: valPair_Some footPair_def) blast+
next
  fix h p r q h'
  assume r: "valPair v w h p = Some r" and run: "run_state (copyPair c d p) h = (q, h')"
  obtain a b where ab: "v h (fst p) = Some a" "w h (snd p) = Some b" "r = (a, b)"
    using r by (auto simp: valPair_Some)
  obtain x h1 where x: "run_state (c (fst p)) h = (x, h1)" by fastforce
  obtain y h2 where y: "run_state (d (snd p)) h1 = (y, h2)" by fastforce
  have q: "q = (x, y)" "h' = h2" using run x y by (simp_all add: copyPair_def)
  obtain e1 where e1: "h1 = h @ e1" "v h1 x = Some a" "f h1 x \<subseteq> {length h..<length h1}"
    using deep_copier.copies [OF assms(1) ab(1) x] by blast
  have "w h1 (snd p) = Some b" using deep_copier.extended [OF assms(2) ab(2)] e1(1) by simp
  then obtain e2 where e2: "h2 = h1 @ e2" "w h2 y = Some b" "g h2 y \<subseteq> {length h1..<length h2}"
    using deep_copier.copies [OF assms(2) _ y] by blast
  have "v h2 x = Some a" "f h2 x = f h1 x" using deep_copier.extended [OF assms(1) e1(2)] e2(1) by simp_all
  then show "(\<exists>ext. h' = h @ ext) \<and> valPair v w h' q = Some r \<and> footPair f g h' q \<subseteq> {length h..<length h'}"
    using q e1 e2 ab(3) by (fastforce simp: valPair_Some footPair_def)
qed

text \<open>A struct whose reference-carrying part is reached by \<open>part\<close> and replaced by \<open>put\<close>.\<close>

definition copyPart :: "('s \<Rightarrow> 'x) \<Rightarrow> ('x \<Rightarrow> 's \<Rightarrow> 's) \<Rightarrow> ('x \<Rightarrow> ('c, 'x) mem) \<Rightarrow> 's \<Rightarrow> ('c, 's) mem" where
  "copyPart part put c s = do { x \<leftarrow> c (part s); State_Monad.return (put x s) }"

lemma deep_part:
  assumes "deep_copier c v f" and "\<And>x s. part (put x s) = x" and "\<And>x s. build (put x s) = build s"
  shows "deep_copier (copyPart part put c) (\<lambda>h s. map_option (build s) (v h (part s))) (\<lambda>h s. f h (part s))"
proof
  fix h h' s r
  assume "map_option (build s) (v h (part s)) = Some r" "agree (f h (part s)) h h'"
  then show "map_option (build s) (v h' (part s)) = Some r \<and> f h' (part s) = f h (part s)"
    using deep_copier.local [OF assms(1), of h "part s" _ h'] by auto
next
  fix h s r
  assume "map_option (build s) (v h (part s)) = Some r"
  then show "f h (part s) \<subseteq> {..<length h}" using deep_copier.inside [OF assms(1)] by auto
next
  fix h s r t h'
  assume r: "map_option (build s) (v h (part s)) = Some r" and run: "run_state (copyPart part put c s) h = (t, h')"
  obtain a where a: "v h (part s) = Some a" "r = build s a" using r by auto
  obtain x h1 where x: "run_state (c (part s)) h = (x, h1)" by fastforce
  have t: "t = put x s" "h' = h1" using run x by (simp_all add: copyPart_def)
  show "(\<exists>ext. h' = h @ ext) \<and> map_option (build t) (v h' (part t)) = Some r \<and> f h' (part t) \<subseteq> {length h..<length h'}"
    using deep_copier.copies [OF assms(1) a(1) x] t a(2) assms(2,3) by simp
qed

text \<open>\<open>*out = new(T); (*in).DeepCopyInto( *out)\<close>, for a pointer that may be nil. The new cell gets
  its contents when it is made: nothing can read it before.\<close>

definition copyPtr ::
  "('c \<Rightarrow> bool) \<Rightarrow> ('c \<Rightarrow> 'x) \<Rightarrow> ('x \<Rightarrow> 'c) \<Rightarrow> ('x \<Rightarrow> ('c, 'x) mem) \<Rightarrow> addr option \<Rightarrow> ('c, addr option) mem" where
  "copyPtr disc sel mk into p =
     (case p of
        None \<Rightarrow> State_Monad.return None
      | Some a \<Rightarrow> do {
          h \<leftarrow> State_Monad.get;
          case load disc sel h a of
            None \<Rightarrow> State_Monad.return None
          | Some x \<Rightarrow> do { y \<leftarrow> into x; b \<leftarrow> alloc (mk y); State_Monad.return (Some b) } })"

definition valPtr :: "('c \<Rightarrow> bool) \<Rightarrow> ('c \<Rightarrow> 'x) \<Rightarrow> ('c list \<Rightarrow> 'x \<Rightarrow> 'v option) \<Rightarrow> 'c list \<Rightarrow> addr option \<Rightarrow> 'v option option"
  where "valPtr disc sel v h p =
     (case p of None \<Rightarrow> Some None
      | Some a \<Rightarrow> (case load disc sel h a of None \<Rightarrow> None | Some x \<Rightarrow> map_option Some (v h x)))"

definition footPtr :: "('c \<Rightarrow> bool) \<Rightarrow> ('c \<Rightarrow> 'x) \<Rightarrow> ('c list \<Rightarrow> 'x \<Rightarrow> addr set) \<Rightarrow> 'c list \<Rightarrow> addr option \<Rightarrow> addr set"
  where "footPtr disc sel f h p =
     (case p of None \<Rightarrow> {}
      | Some a \<Rightarrow> (case load disc sel h a of None \<Rightarrow> {} | Some x \<Rightarrow> insert a (f h x)))"

lemma deep_ptr:
  assumes c: "deep_copier into v f" and mk: "\<And>y. disc (mk y) \<and> sel (mk y) = y"
  shows "deep_copier (copyPtr disc sel mk into) (valPtr disc sel v) (footPtr disc sel f)"
proof
  fix h h' p r
  assume r: "valPtr disc sel v h p = Some r" and a: "agree (footPtr disc sel f h p) h h'"
  show "valPtr disc sel v h' p = Some r \<and> footPtr disc sel f h' p = footPtr disc sel f h p"
  proof (cases p)
    case (Some b)
    obtain x z where x: "load disc sel h b = Some x" "v h x = Some z" "r = Some z"
      using r Some by (auto simp: valPtr_def split: option.splits)
    have ag: "agree (f h x) h h'" "load disc sel h' b = Some x"
      using a x(1) Some agree_mono [of "insert b (f h x)" h h'] agree_load [of "insert b (f h x)" h h' b]
      by (auto simp: footPtr_def)
    then show ?thesis using deep_copier.local [OF c x(2) ag(1)] x Some by (simp add: valPtr_def footPtr_def)
  qed (use r in \<open>simp add: valPtr_def footPtr_def\<close>)
next
  fix h p r
  assume "valPtr disc sel v h p = Some r"
  then show "footPtr disc sel f h p \<subseteq> {..<length h}"
    using deep_copier.inside [OF c]
    by (fastforce simp: valPtr_def footPtr_def load_inside split: option.splits)
next
  fix h p r q h'
  assume r: "valPtr disc sel v h p = Some r" and run: "run_state (copyPtr disc sel mk into p) h = (q, h')"
  show "(\<exists>ext. h' = h @ ext) \<and> valPtr disc sel v h' q = Some r \<and> footPtr disc sel f h' q \<subseteq> {length h..<length h'}"
  proof (cases p)
    case (Some b)
    obtain x z where x: "load disc sel h b = Some x" "v h x = Some z" "r = Some z"
      using r Some by (auto simp: valPtr_def split: option.splits)
    obtain y h1 where y: "run_state (into x) h = (y, h1)" by fastforce
    have q: "q = Some (length h1)" "h' = h1 @ [mk y]"
      using run y x(1) Some by (simp_all add: copyPtr_def)
    obtain ext where e: "h1 = h @ ext" "v h1 y = Some z" "f h1 y \<subseteq> {length h..<length h1}"
      using deep_copier.copies [OF c x(2) y] by blast
    have "v h' y = Some z" "f h' y = f h1 y"
      using deep_copier.extended [OF c e(2), of "[mk y]"] q(2) by simp_all
    moreover have "load disc sel h' (length h1) = Some y" using mk [of y] q(2) by simp
    ultimately have "valPtr disc sel v h' q = Some r" "footPtr disc sel f h' q = insert (length h1) (f h1 y)"
      using q(1) x(3) by (simp_all add: valPtr_def footPtr_def)
    then show ?thesis using e(1,3) q(2) by auto
  qed (use r run in \<open>simp add: copyPtr_def valPtr_def footPtr_def\<close>)
qed

text \<open>\<open>copy\<close> of every element in turn.\<close>

fun copyEach :: "('x \<Rightarrow> ('c, 'x) mem) \<Rightarrow> 'x list \<Rightarrow> ('c, 'x list) mem" where
  "copyEach c [] = State_Monad.return []"
| "copyEach c (x # xs) = do { y \<leftarrow> c x; ys \<leftarrow> copyEach c xs; State_Monad.return (y # ys) }"

fun valEach :: "('c list \<Rightarrow> 'x \<Rightarrow> 'v option) \<Rightarrow> 'c list \<Rightarrow> 'x list \<Rightarrow> 'v list option" where
  "valEach v h [] = Some []"
| "valEach v h (x # xs) = (case (v h x, valEach v h xs) of (Some a, Some as) \<Rightarrow> Some (a # as) | _ \<Rightarrow> None)"

definition footEach :: "('c list \<Rightarrow> 'x \<Rightarrow> addr set) \<Rightarrow> 'c list \<Rightarrow> 'x list \<Rightarrow> addr set" where
  "footEach f h xs = (\<Union>x\<in>set xs. f h x)"

lemma valEach_Cons: "valEach v h (x # xs) = Some r \<longleftrightarrow> (\<exists>a as. v h x = Some a \<and> valEach v h xs = Some as \<and> r = a # as)"
  by (auto split: option.splits)

lemma deep_each:
  assumes c: "deep_copier c v f"
  shows "deep_copier (copyEach c) (valEach v) (footEach f)"
proof
  show "valEach v h' xs = Some r \<and> footEach f h' xs = footEach f h xs"
    if "valEach v h xs = Some r" "agree (footEach f h xs) h h'" for h h' xs r
    using that
  proof (induction xs arbitrary: r)
    case (Cons x xs)
    then obtain a as where a: "v h x = Some a" "valEach v h xs = Some as" "r = a # as"
      by (auto simp: valEach_Cons simp del: valEach.simps)
    moreover have "agree (f h x) h h'" "agree (footEach f h xs) h h'"
      using Cons.prems(2) by (simp_all add: footEach_def agree_Un)
    ultimately show ?case
      using Cons.IH [of as] deep_copier.local [OF c a(1)] by (simp add: footEach_def)
  qed (simp add: footEach_def)
next
  show "footEach f h xs \<subseteq> {..<length h}" if "valEach v h xs = Some r" for h xs r
    using that
  proof (induction xs arbitrary: r)
    case (Cons x xs)
    then obtain a as where "v h x = Some a" "valEach v h xs = Some as"
      by (auto simp: valEach_Cons simp del: valEach.simps)
    then show ?case using Cons.IH [of as] deep_copier.inside [OF c] by (simp add: footEach_def)
  qed (simp add: footEach_def)
next
  show "(\<exists>ext. h' = h @ ext) \<and> valEach v h' ys = Some r \<and> footEach f h' ys \<subseteq> {length h..<length h'}"
    if "valEach v h xs = Some r" "run_state (copyEach c xs) h = (ys, h')" for h h' xs ys r
    using that
  proof (induction xs arbitrary: r h h' ys)
    case (Cons x xs)
    obtain a as where a: "v h x = Some a" "valEach v h xs = Some as" "r = a # as"
      using Cons.prems(1) by (auto simp: valEach_Cons simp del: valEach.simps)
    obtain y h1 where y: "run_state (c x) h = (y, h1)" by fastforce
    obtain zs h2 where zs: "run_state (copyEach c xs) h1 = (zs, h2)" by fastforce
    have ys: "ys = y # zs" "h' = h2" using Cons.prems(2) y zs by simp_all
    obtain e1 where e1: "h1 = h @ e1" "v h1 y = Some a" "f h1 y \<subseteq> {length h..<length h1}"
      using deep_copier.copies [OF c a(1) y] by blast
    have "valEach v h1 xs = Some as"
      using a(2) unfolding e1(1)
    proof (induction xs arbitrary: as)
      case (Cons w ws)
      then show ?case
        using deep_copier.extended [OF c] by (fastforce simp: valEach_Cons simp del: valEach.simps)
    qed simp
    then have IH: "(\<exists>ext. h2 = h1 @ ext) \<and> valEach v h2 zs = Some as \<and> footEach f h2 zs \<subseteq> {length h1..<length h2}"
      using Cons.IH zs by blast
    then obtain e2 where e2: "h2 = h1 @ e2" by blast
    have "v h2 y = Some a" "f h2 y = f h1 y" using deep_copier.extended [OF c e1(2)] e2 by simp_all
    then show ?case
      using IH ys a(3) e1(1,3) e2 by (fastforce simp: footEach_def)
  qed (simp add: footEach_def)
qed

text \<open>A slice is a window on an array. \<open>*out = make([]T, len( *in))\<close> and the loop over the elements
  leave an array of exactly the window.\<close>

record slice =
  slArray :: addr
  slOffset :: nat
  slLen :: nat

definition window :: "slice \<Rightarrow> 'x list \<Rightarrow> 'x list option" where
  "window s xs = (if slOffset s + slLen s \<le> length xs then Some (take (slLen s) (drop (slOffset s) xs)) else None)"

definition copySlice ::
  "('c \<Rightarrow> bool) \<Rightarrow> ('c \<Rightarrow> 'x list) \<Rightarrow> ('x list \<Rightarrow> 'c) \<Rightarrow> ('x \<Rightarrow> ('c, 'x) mem) \<Rightarrow> slice option \<Rightarrow> ('c, slice option) mem" where
  "copySlice disc sel mk into p =
     (case p of
        None \<Rightarrow> State_Monad.return None
      | Some s \<Rightarrow> do {
          h \<leftarrow> State_Monad.get;
          case Option.bind (load disc sel h (slArray s)) (window s) of
            None \<Rightarrow> State_Monad.return None
          | Some xs \<Rightarrow> do {
              ys \<leftarrow> copyEach into xs;
              b \<leftarrow> alloc (mk ys);
              State_Monad.return (Some \<lparr>slArray = b, slOffset = 0, slLen = length xs\<rparr>) } })"

definition valSlice ::
  "('c \<Rightarrow> bool) \<Rightarrow> ('c \<Rightarrow> 'x list) \<Rightarrow> ('c list \<Rightarrow> 'x \<Rightarrow> 'v option) \<Rightarrow> 'c list \<Rightarrow> slice option \<Rightarrow> 'v list option" where
  "valSlice disc sel v h p =
     (case p of None \<Rightarrow> Some []
      | Some s \<Rightarrow> (case Option.bind (load disc sel h (slArray s)) (window s) of
          None \<Rightarrow> None | Some xs \<Rightarrow> valEach v h xs))"

definition footSlice ::
  "('c \<Rightarrow> bool) \<Rightarrow> ('c \<Rightarrow> 'x list) \<Rightarrow> ('c list \<Rightarrow> 'x \<Rightarrow> addr set) \<Rightarrow> 'c list \<Rightarrow> slice option \<Rightarrow> addr set" where
  "footSlice disc sel f h p =
     (case p of None \<Rightarrow> {}
      | Some s \<Rightarrow> (case Option.bind (load disc sel h (slArray s)) (window s) of
          None \<Rightarrow> {} | Some xs \<Rightarrow> insert (slArray s) (footEach f h xs)))"

lemma run_copyEach_length: "run_state (copyEach c xs) h = (ys, h') \<Longrightarrow> length ys = length xs"
proof (induction xs arbitrary: h ys h')
  case (Cons x xs)
  obtain y h1 where y: "run_state (c x) h = (y, h1)" by fastforce
  obtain zs h2 where zs: "run_state (copyEach c xs) h1 = (zs, h2)" by fastforce
  then show ?case using Cons.prems Cons.IH [OF zs] y by auto
qed simp

lemma deep_slice:
  assumes c: "deep_copier into v f" and mk: "\<And>ys. disc (mk ys) \<and> sel (mk ys) = ys"
  shows "deep_copier (copySlice disc sel mk into) (valSlice disc sel v) (footSlice disc sel f)"
proof -
  note each = deep_each [OF c]
  show ?thesis
  proof
    fix h h' p r
    assume r: "valSlice disc sel v h p = Some r" and a: "agree (footSlice disc sel f h p) h h'"
    show "valSlice disc sel v h' p = Some r \<and> footSlice disc sel f h' p = footSlice disc sel f h p"
    proof (cases p)
      case (Some s)
      obtain ar xs where x: "load disc sel h (slArray s) = Some ar" "window s ar = Some xs" "valEach v h xs = Some r"
        using r Some by (auto simp: valSlice_def bind_eq_Some_conv split: option.splits)
      let ?F = "insert (slArray s) (footEach f h xs)"
      have F: "agree ?F h h'" using a Some x(1,2) by (simp add: footSlice_def)
      have "agree (footEach f h xs) h h'" "load disc sel h' (slArray s) = Some ar"
        using agree_mono [OF F] agree_load [OF F _ x(1)] by blast+
      then show ?thesis
        using deep_copier.local [OF each x(3), of h'] x(1,2) Some by (simp add: valSlice_def footSlice_def)
    qed (use r in \<open>simp add: valSlice_def footSlice_def\<close>)
  next
    fix h p r
    assume "valSlice disc sel v h p = Some r"
    then show "footSlice disc sel f h p \<subseteq> {..<length h}"
      using deep_copier.inside [OF each]
      by (auto simp: valSlice_def footSlice_def bind_eq_Some_conv load_inside split: option.splits) blast
  next
    fix h p r q h'
    assume r: "valSlice disc sel v h p = Some r" and run: "run_state (copySlice disc sel mk into p) h = (q, h')"
    show "(\<exists>ext. h' = h @ ext) \<and> valSlice disc sel v h' q = Some r
        \<and> footSlice disc sel f h' q \<subseteq> {length h..<length h'}"
    proof (cases p)
      case (Some s)
      obtain ar xs where x: "load disc sel h (slArray s) = Some ar" "window s ar = Some xs" "valEach v h xs = Some r"
        using r Some by (auto simp: valSlice_def bind_eq_Some_conv split: option.splits)
      obtain ys h1 where y: "run_state (copyEach into xs) h = (ys, h1)" by fastforce
      have q: "q = Some \<lparr>slArray = length h1, slOffset = 0, slLen = length xs\<rparr>" "h' = h1 @ [mk ys]"
        using run y x(1,2) Some by (simp_all add: copySlice_def)
      obtain ext where e: "h1 = h @ ext" "valEach v h1 ys = Some r" "footEach f h1 ys \<subseteq> {length h..<length h1}"
        using deep_copier.copies [OF each x(3) y] by blast
      have "window \<lparr>slArray = length h1, slOffset = 0, slLen = length xs\<rparr> ys = Some ys"
        using run_copyEach_length [OF y] by (simp add: window_def)
      moreover have "valEach v h' ys = Some r" "footEach f h' ys = footEach f h1 ys"
        using deep_copier.extended [OF each e(2), of "[mk ys]"] q(2) by simp_all
      moreover have "load disc sel h' (length h1) = Some ys" using mk [of ys] q(2) by simp
      ultimately have "valSlice disc sel v h' q = Some r"
        "footSlice disc sel f h' q = insert (length h1) (footEach f h1 ys)"
        using q(1) by (simp_all add: valSlice_def footSlice_def)
      then show ?thesis using e(1,3) q(2) by auto
    qed (use r run in \<open>simp add: copySlice_def valSlice_def footSlice_def\<close>)
  qed
qed

end
