(* ===== verification/Scheme.thy ===== *)
theory Scheme
imports Main
begin

text \<open>
  \<^verbatim>\<open>api/v1alpha1/groupversion_info.go\<close> and the \<^verbatim>\<open>init\<close> functions beside each type:
  which kinds the group registers with a scheme, under which version. The Kubernetes clients of both
  binaries can only read and write what is registered.
\<close>

text \<open>The types that are API objects of their own.\<close>

datatype objectType =
    DployInstanceObject
  | DployInstanceClaimObject
  | DployTemplateObject
  | OperatorConfigObject
  | DployInstanceListObject
  | DployInstanceClaimListObject
  | DployTemplateListObject
  | OperatorConfigListObject

text \<open>A kind is the name of its Go type.\<close>

definition kindOf :: "objectType \<Rightarrow> string" where
  "kindOf t = (case t of
      DployInstanceObject \<Rightarrow> ''DployInstance''
    | DployInstanceClaimObject \<Rightarrow> ''DployInstanceClaim''
    | DployTemplateObject \<Rightarrow> ''DployTemplate''
    | OperatorConfigObject \<Rightarrow> ''OperatorConfig''
    | DployInstanceListObject \<Rightarrow> ''DployInstanceList''
    | DployInstanceClaimListObject \<Rightarrow> ''DployInstanceClaimList''
    | DployTemplateListObject \<Rightarrow> ''DployTemplateList''
    | OperatorConfigListObject \<Rightarrow> ''OperatorConfigList'')"

definition GroupVersion :: "string \<times> string" where
  "GroupVersion = (''dploy.dev'', ''v1alpha1'')"

text \<open>One \<^verbatim>\<open>SchemeBuilder.Register\<close> per file, in the order Go initialises the files of a package.\<close>

definition registerInstance :: "objectType list" where
  "registerInstance = [DployInstanceObject, DployInstanceListObject]"

definition registerClaim :: "objectType list" where
  "registerClaim = [DployInstanceClaimObject, DployInstanceClaimListObject]"

definition registerTemplate :: "objectType list" where
  "registerTemplate = [DployTemplateObject, DployTemplateListObject]"

definition registerConfig :: "objectType list" where
  "registerConfig = [OperatorConfigObject, OperatorConfigListObject]"

definition SchemeBuilder :: "objectType list" where
  "SchemeBuilder = registerInstance @ registerClaim @ registerTemplate @ registerConfig"

text \<open>A scheme knows a Go type by group, version and kind.\<close>

type_synonym 'a scheme = "string \<times> string \<times> string \<rightharpoonup> 'a"

definition AddToScheme :: "objectType scheme \<Rightarrow> objectType scheme" where
  "AddToScheme S = foldl (\<lambda>S t. S((fst GroupVersion, snd GroupVersion, kindOf t) \<mapsto> t)) S SchemeBuilder"

lemma AddToScheme_knows: "AddToScheme S (''dploy.dev'', ''v1alpha1'', kindOf t) = Some t"
  by (cases t) (simp_all add: AddToScheme_def SchemeBuilder_def registerInstance_def registerClaim_def
      registerTemplate_def registerConfig_def GroupVersion_def kindOf_def)

text \<open>The kinds of two types differ, so that no registration replaces another.\<close>

lemma kindOf_inject: "kindOf t = kindOf u \<longleftrightarrow> t = u"
  by (cases t; cases u) (simp_all add: kindOf_def)

end
