(* ===== verification/DeepCopy.thy ===== *)
theory DeepCopy
imports GoHeap Scheme
begin

text \<open>
  \<^verbatim>\<open>api/v1alpha1/zz_generated.deepcopy.go\<close>: the copies every reconcile works on. The API
  types are given again as they lie in memory, a pointer, map or slice being an address
  (theory \<open>GoHeap\<close>), one definition per \<^verbatim>\<open>DeepCopyInto\<close>, \<^verbatim>\<open>DeepCopy\<close> and
  \<^verbatim>\<open>DeepCopyObject\<close>, and one reading of each type as the record of the theory \<open>Types\<close>. A
  \<open>DeepCopyInto\<close> is the struct it leaves in its target, of which nothing but the copy points to
  anything new. The structs of apimachinery (\<open>ObjectMeta\<close>, \<open>ListMeta\<close>, \<open>RawExtension\<close>) are of a
  type of their own, and their copy functions are arguments; they are assumed to keep the same
  contract, the locale \<open>apimachinery\<close>.
\<close>

section \<open>The types in memory\<close>

record TypeMeta =
  tmKind :: string
  tmAPIVersion :: string

record InstanceSpecH =
  hiTemplateRef :: string
  hiOwner :: string
  hiParams :: "addr option"
  hiPooled :: bool
  hiTTLSeconds :: int
  hiSpecExpiresAt :: "addr option"

record InstanceStatusH =
  hiPhase :: InstancePhase
  hiUUID :: string
  hiWorkloadNamespace :: string
  hiURL :: string
  hiConnectionType :: ConnectionType
  hiConnectionMessage :: string
  hiEngine :: EngineType
  hiEngineRef :: string
  hiHealth :: string
  hiExtendCount :: int
  hiExpiresAt :: "addr option"
  hiObservedGeneration :: int
  hiConditions :: "slice option"

record 'e InstanceH =
  hiTypeMeta :: TypeMeta
  hiMeta :: 'e
  hiSpec :: InstanceSpecH
  hiStatus :: InstanceStatusH

record ClaimSpecH =
  hcTemplateRef :: string
  hcOwner :: string
  hcParams :: "addr option"
  hcTTLSeconds :: int
  hcWaitForPool :: bool

record ClaimStatusH =
  hcPhase :: ClaimPhase
  hcInstanceRef :: string
  hcUUID :: string
  hcConnectionURL :: string
  hcConnectionType :: ConnectionType
  hcConnectionMessage :: string
  hcInstancePhase :: InstancePhase
  hcHealth :: string
  hcBoundAt :: "addr option"
  hcExpiresAt :: "addr option"
  hcGrantedTTL :: int
  hcMaxTTLSeconds :: int
  hcObservedGeneration :: int
  hcConditions :: "slice option"

record 'e ClaimH =
  hcTypeMeta :: TypeMeta
  hcMeta :: 'e
  hcSpec :: ClaimSpecH
  hcStatus :: ClaimStatusH

record PoolSpecH =
  hpSize :: int
  hpMaxSize :: int
  hpRecycle :: "addr option"

record TemplateSpecH =
  htDisplayName :: string
  htDescription :: string
  htIcon :: string
  htCategory :: string
  htEnabled :: bool
  htVisible :: "addr option"
  htOwnerClaim :: string
  htMethod :: TemplateMethod
  htPool :: "addr option"
  htEngine :: EngineType
  htChart :: ChartSource
  htValuesTemplate :: string
  htValueFiles :: "slice option"
  htConnectionURLTemplate :: string
  htConnectionType :: ConnectionType
  htConnectionMessageTemplate :: string
  htTTL :: "addr option"
  htMaxInstancesPerUser :: "addr option"
  htParameters :: "slice option"

record TemplateStatusH =
  htPoolAvailable :: int
  htPoolClaimed :: int
  htPoolTotal :: int
  htObservedGeneration :: int
  htConditions :: "slice option"

record 'e TemplateH =
  htTypeMeta :: TypeMeta
  htMeta :: 'e
  htSpec :: TemplateSpecH
  htStatus :: TemplateStatusH

record ConfigSpecH =
  hoDefaultEngine :: EngineType
  hoArgoCD :: ArgoCDConfig
  hoFlux :: FluxConfig
  hoBaseDomain :: string
  hoConnectionURLTemplate :: string
  hoDefaultConnectionType :: ConnectionType
  hoConnectionMessageTemplate :: string
  hoDefaults :: InstanceDefaults
  hoValues :: "addr option"

record ConfigStatusH =
  hoObservedGeneration :: int
  hoConditions :: "slice option"

record 'e ConfigH =
  hoTypeMeta :: TypeMeta
  hoMeta :: 'e
  hoSpec :: ConfigSpecH
  hoStatus :: ConfigStatusH

text \<open>The four list types differ in their items only, which are in the array of a slice.\<close>

record 'e ListH =
  hlTypeMeta :: TypeMeta
  hlMeta :: 'e
  hlItems :: "slice option"

text \<open>What a cell of memory can hold; \<open>CForeign\<close> is what structs of apimachinery point to.\<close>

datatype 'e cell =
    CMap (theMap: smap)
  | CTime (theTime: Time)
  | CBool (theBool: bool)
  | CInt (theInt: int)
  | CStrings (theStrings: "string list")
  | CConds (theConds: "Condition list")
  | CParams (theParams: "TemplateParameter list")
  | CForeign (theForeign: 'e)
  | CArgo (theArgo: ArgoCDConfig)
  | CChart (theChart: ChartSource)
  | CFluxCfg (theFluxCfg: FluxConfig)
  | CDefaults (theDefaults: InstanceDefaults)
  | CTTL (theTTL: TTLSpec)
  | CParam (theParam: TemplateParameter)
  | CPool (thePool: PoolSpecH)
  | CInstanceSpec (theInstanceSpec: InstanceSpecH)
  | CInstanceStatus (theInstanceStatus: InstanceStatusH)
  | CInstance (theInstance: "'e InstanceH")
  | CInstances (theInstances: "'e InstanceH list")
  | CInstanceList (theInstanceList: "'e ListH")
  | CClaimSpec (theClaimSpec: ClaimSpecH)
  | CClaimStatus (theClaimStatus: ClaimStatusH)
  | CClaim (theClaim: "'e ClaimH")
  | CClaims (theClaims: "'e ClaimH list")
  | CClaimList (theClaimList: "'e ListH")
  | CTemplateSpec (theTemplateSpec: TemplateSpecH)
  | CTemplateStatus (theTemplateStatus: TemplateStatusH)
  | CTemplate (theTemplate: "'e TemplateH")
  | CTemplates (theTemplates: "'e TemplateH list")
  | CTemplateList (theTemplateList: "'e ListH")
  | CConfigSpec (theConfigSpec: ConfigSpecH)
  | CConfigStatus (theConfigStatus: ConfigStatusH)
  | CConfig (theConfig: "'e ConfigH")
  | CConfigs (theConfigs: "'e ConfigH list")
  | CConfigList (theConfigList: "'e ListH")

type_synonym 'e heap = "'e cell list"
type_synonym ('e, 'a) gomem = "('e cell, 'a) mem"

text \<open>The copy functions of apimachinery.\<close>

record 'e machinery =
  timeDeepCopy :: "addr option \<Rightarrow> ('e, addr option) gomem"
  conditionInto :: "Condition \<Rightarrow> ('e, Condition) gomem"
  metaInto :: "'e \<Rightarrow> ('e, 'e) gomem"
  listMetaInto :: "'e \<Rightarrow> ('e, 'e) gomem"
  rawInto :: "'e \<Rightarrow> ('e, 'e) gomem"

section \<open>The generated functions\<close>

text \<open>A map is copied key by key, and nil stays nil.\<close>

definition copyMap :: "addr option \<Rightarrow> ('e, addr option) gomem" where
  "copyMap = copyPtr is_CMap theMap CMap State_Monad.return"

definition copyBool :: "addr option \<Rightarrow> ('e, addr option) gomem" where
  "copyBool = copyPtr is_CBool theBool CBool State_Monad.return"

definition copyInt :: "addr option \<Rightarrow> ('e, addr option) gomem" where
  "copyInt = copyPtr is_CInt theInt CInt State_Monad.return"

definition copyStrings :: "slice option \<Rightarrow> ('e, slice option) gomem" where
  "copyStrings = copySlice is_CStrings theStrings CStrings State_Monad.return"

definition copyParams :: "slice option \<Rightarrow> ('e, slice option) gomem" where
  "copyParams = copySlice is_CParams theParams CParams State_Monad.return"

definition copyConditions :: "'e machinery \<Rightarrow> slice option \<Rightarrow> ('e, slice option) gomem" where
  "copyConditions L = copySlice is_CConds theConds CConds (conditionInto L)"

definition ArgoCDConfig_DeepCopyInto :: "ArgoCDConfig \<Rightarrow> ('e, ArgoCDConfig) gomem" where
  "ArgoCDConfig_DeepCopyInto x = State_Monad.return x"

definition ArgoCDConfig_DeepCopy :: "addr option \<Rightarrow> ('e, addr option) gomem" where
  "ArgoCDConfig_DeepCopy = copyPtr is_CArgo theArgo CArgo ArgoCDConfig_DeepCopyInto"

definition ChartSource_DeepCopyInto :: "ChartSource \<Rightarrow> ('e, ChartSource) gomem" where
  "ChartSource_DeepCopyInto x = State_Monad.return x"

definition ChartSource_DeepCopy :: "addr option \<Rightarrow> ('e, addr option) gomem" where
  "ChartSource_DeepCopy = copyPtr is_CChart theChart CChart ChartSource_DeepCopyInto"

definition FluxConfig_DeepCopyInto :: "FluxConfig \<Rightarrow> ('e, FluxConfig) gomem" where
  "FluxConfig_DeepCopyInto x = State_Monad.return x"

definition FluxConfig_DeepCopy :: "addr option \<Rightarrow> ('e, addr option) gomem" where
  "FluxConfig_DeepCopy = copyPtr is_CFluxCfg theFluxCfg CFluxCfg FluxConfig_DeepCopyInto"

definition InstanceDefaults_DeepCopyInto :: "InstanceDefaults \<Rightarrow> ('e, InstanceDefaults) gomem" where
  "InstanceDefaults_DeepCopyInto x = State_Monad.return x"

definition InstanceDefaults_DeepCopy :: "addr option \<Rightarrow> ('e, addr option) gomem" where
  "InstanceDefaults_DeepCopy = copyPtr is_CDefaults theDefaults CDefaults InstanceDefaults_DeepCopyInto"

definition TTLSpec_DeepCopyInto :: "TTLSpec \<Rightarrow> ('e, TTLSpec) gomem" where
  "TTLSpec_DeepCopyInto x = State_Monad.return x"

definition TTLSpec_DeepCopy :: "addr option \<Rightarrow> ('e, addr option) gomem" where
  "TTLSpec_DeepCopy = copyPtr is_CTTL theTTL CTTL TTLSpec_DeepCopyInto"

definition TemplateParameter_DeepCopyInto :: "TemplateParameter \<Rightarrow> ('e, TemplateParameter) gomem" where
  "TemplateParameter_DeepCopyInto x = State_Monad.return x"

definition TemplateParameter_DeepCopy :: "addr option \<Rightarrow> ('e, addr option) gomem" where
  "TemplateParameter_DeepCopy = copyPtr is_CParam theParam CParam TemplateParameter_DeepCopyInto"

definition copyRaw :: "'e machinery \<Rightarrow> addr option \<Rightarrow> ('e, addr option) gomem" where
  "copyRaw L = copyPtr is_CForeign theForeign CForeign (rawInto L)"

definition PoolSpec_DeepCopyInto :: "PoolSpecH \<Rightarrow> ('e, PoolSpecH) gomem" where
  "PoolSpec_DeepCopyInto x = do {
     a \<leftarrow> copyBool (hpRecycle x);
     State_Monad.return (x\<lparr>hpRecycle := a\<rparr>) }"

definition PoolSpec_DeepCopy :: "addr option \<Rightarrow> ('e, addr option) gomem" where
  "PoolSpec_DeepCopy = copyPtr is_CPool thePool CPool PoolSpec_DeepCopyInto"

definition DployInstanceSpec_DeepCopyInto :: "'e machinery \<Rightarrow> InstanceSpecH \<Rightarrow> ('e, InstanceSpecH) gomem" where
  "DployInstanceSpec_DeepCopyInto L x = do {
     a \<leftarrow> copyMap (hiParams x);
     b \<leftarrow> timeDeepCopy L (hiSpecExpiresAt x);
     State_Monad.return (x\<lparr>hiParams := a, hiSpecExpiresAt := b\<rparr>) }"

definition DployInstanceSpec_DeepCopy :: "'e machinery \<Rightarrow> addr option \<Rightarrow> ('e, addr option) gomem" where
  "DployInstanceSpec_DeepCopy L = copyPtr is_CInstanceSpec theInstanceSpec CInstanceSpec (DployInstanceSpec_DeepCopyInto L)"

definition DployInstanceStatus_DeepCopyInto :: "'e machinery \<Rightarrow> InstanceStatusH \<Rightarrow> ('e, InstanceStatusH) gomem" where
  "DployInstanceStatus_DeepCopyInto L x = do {
     a \<leftarrow> timeDeepCopy L (hiExpiresAt x);
     b \<leftarrow> copyConditions L (hiConditions x);
     State_Monad.return (x\<lparr>hiExpiresAt := a, hiConditions := b\<rparr>) }"

definition DployInstanceStatus_DeepCopy :: "'e machinery \<Rightarrow> addr option \<Rightarrow> ('e, addr option) gomem" where
  "DployInstanceStatus_DeepCopy L = copyPtr is_CInstanceStatus theInstanceStatus CInstanceStatus (DployInstanceStatus_DeepCopyInto L)"

definition DployInstance_DeepCopyInto :: "'e machinery \<Rightarrow> 'e InstanceH \<Rightarrow> ('e, 'e InstanceH) gomem" where
  "DployInstance_DeepCopyInto L x = do {
     a \<leftarrow> metaInto L (hiMeta x);
     b \<leftarrow> DployInstanceSpec_DeepCopyInto L (hiSpec x);
     c \<leftarrow> DployInstanceStatus_DeepCopyInto L (hiStatus x);
     State_Monad.return (x\<lparr>hiMeta := a, hiSpec := b, hiStatus := c\<rparr>) }"

definition DployInstance_DeepCopy :: "'e machinery \<Rightarrow> addr option \<Rightarrow> ('e, addr option) gomem" where
  "DployInstance_DeepCopy L = copyPtr is_CInstance theInstance CInstance (DployInstance_DeepCopyInto L)"

definition DployInstanceClaimSpec_DeepCopyInto :: "ClaimSpecH \<Rightarrow> ('e, ClaimSpecH) gomem" where
  "DployInstanceClaimSpec_DeepCopyInto x = do {
     a \<leftarrow> copyMap (hcParams x);
     State_Monad.return (x\<lparr>hcParams := a\<rparr>) }"

definition DployInstanceClaimSpec_DeepCopy :: "addr option \<Rightarrow> ('e, addr option) gomem" where
  "DployInstanceClaimSpec_DeepCopy = copyPtr is_CClaimSpec theClaimSpec CClaimSpec DployInstanceClaimSpec_DeepCopyInto"

definition DployInstanceClaimStatus_DeepCopyInto :: "'e machinery \<Rightarrow> ClaimStatusH \<Rightarrow> ('e, ClaimStatusH) gomem" where
  "DployInstanceClaimStatus_DeepCopyInto L x = do {
     a \<leftarrow> timeDeepCopy L (hcBoundAt x);
     b \<leftarrow> timeDeepCopy L (hcExpiresAt x);
     c \<leftarrow> copyConditions L (hcConditions x);
     State_Monad.return (x\<lparr>hcBoundAt := a, hcExpiresAt := b, hcConditions := c\<rparr>) }"

definition DployInstanceClaimStatus_DeepCopy :: "'e machinery \<Rightarrow> addr option \<Rightarrow> ('e, addr option) gomem" where
  "DployInstanceClaimStatus_DeepCopy L = copyPtr is_CClaimStatus theClaimStatus CClaimStatus (DployInstanceClaimStatus_DeepCopyInto L)"

definition DployInstanceClaim_DeepCopyInto :: "'e machinery \<Rightarrow> 'e ClaimH \<Rightarrow> ('e, 'e ClaimH) gomem" where
  "DployInstanceClaim_DeepCopyInto L x = do {
     a \<leftarrow> metaInto L (hcMeta x);
     b \<leftarrow> DployInstanceClaimSpec_DeepCopyInto (hcSpec x);
     c \<leftarrow> DployInstanceClaimStatus_DeepCopyInto L (hcStatus x);
     State_Monad.return (x\<lparr>hcMeta := a, hcSpec := b, hcStatus := c\<rparr>) }"

definition DployInstanceClaim_DeepCopy :: "'e machinery \<Rightarrow> addr option \<Rightarrow> ('e, addr option) gomem" where
  "DployInstanceClaim_DeepCopy L = copyPtr is_CClaim theClaim CClaim (DployInstanceClaim_DeepCopyInto L)"

definition DployTemplateSpec_DeepCopyInto :: "TemplateSpecH \<Rightarrow> ('e, TemplateSpecH) gomem" where
  "DployTemplateSpec_DeepCopyInto x = do {
     a \<leftarrow> copyBool (htVisible x);
     b \<leftarrow> PoolSpec_DeepCopy (htPool x);
     c \<leftarrow> copyStrings (htValueFiles x);
     d \<leftarrow> TTLSpec_DeepCopy (htTTL x);
     e \<leftarrow> copyInt (htMaxInstancesPerUser x);
     f \<leftarrow> copyParams (htParameters x);
     State_Monad.return (x\<lparr>htVisible := a, htPool := b, htValueFiles := c, htTTL := d, htMaxInstancesPerUser := e, htParameters := f\<rparr>) }"

definition DployTemplateSpec_DeepCopy :: "addr option \<Rightarrow> ('e, addr option) gomem" where
  "DployTemplateSpec_DeepCopy = copyPtr is_CTemplateSpec theTemplateSpec CTemplateSpec DployTemplateSpec_DeepCopyInto"

definition DployTemplateStatus_DeepCopyInto :: "'e machinery \<Rightarrow> TemplateStatusH \<Rightarrow> ('e, TemplateStatusH) gomem" where
  "DployTemplateStatus_DeepCopyInto L x = do {
     a \<leftarrow> copyConditions L (htConditions x);
     State_Monad.return (x\<lparr>htConditions := a\<rparr>) }"

definition DployTemplateStatus_DeepCopy :: "'e machinery \<Rightarrow> addr option \<Rightarrow> ('e, addr option) gomem" where
  "DployTemplateStatus_DeepCopy L = copyPtr is_CTemplateStatus theTemplateStatus CTemplateStatus (DployTemplateStatus_DeepCopyInto L)"

definition DployTemplate_DeepCopyInto :: "'e machinery \<Rightarrow> 'e TemplateH \<Rightarrow> ('e, 'e TemplateH) gomem" where
  "DployTemplate_DeepCopyInto L x = do {
     a \<leftarrow> metaInto L (htMeta x);
     b \<leftarrow> DployTemplateSpec_DeepCopyInto (htSpec x);
     c \<leftarrow> DployTemplateStatus_DeepCopyInto L (htStatus x);
     State_Monad.return (x\<lparr>htMeta := a, htSpec := b, htStatus := c\<rparr>) }"

definition DployTemplate_DeepCopy :: "'e machinery \<Rightarrow> addr option \<Rightarrow> ('e, addr option) gomem" where
  "DployTemplate_DeepCopy L = copyPtr is_CTemplate theTemplate CTemplate (DployTemplate_DeepCopyInto L)"

definition OperatorConfigSpec_DeepCopyInto :: "'e machinery \<Rightarrow> ConfigSpecH \<Rightarrow> ('e, ConfigSpecH) gomem" where
  "OperatorConfigSpec_DeepCopyInto L x = do {
     a \<leftarrow> copyRaw L (hoValues x);
     State_Monad.return (x\<lparr>hoValues := a\<rparr>) }"

definition OperatorConfigSpec_DeepCopy :: "'e machinery \<Rightarrow> addr option \<Rightarrow> ('e, addr option) gomem" where
  "OperatorConfigSpec_DeepCopy L = copyPtr is_CConfigSpec theConfigSpec CConfigSpec (OperatorConfigSpec_DeepCopyInto L)"

definition OperatorConfigStatus_DeepCopyInto :: "'e machinery \<Rightarrow> ConfigStatusH \<Rightarrow> ('e, ConfigStatusH) gomem" where
  "OperatorConfigStatus_DeepCopyInto L x = do {
     a \<leftarrow> copyConditions L (hoConditions x);
     State_Monad.return (x\<lparr>hoConditions := a\<rparr>) }"

definition OperatorConfigStatus_DeepCopy :: "'e machinery \<Rightarrow> addr option \<Rightarrow> ('e, addr option) gomem" where
  "OperatorConfigStatus_DeepCopy L = copyPtr is_CConfigStatus theConfigStatus CConfigStatus (OperatorConfigStatus_DeepCopyInto L)"

definition OperatorConfig_DeepCopyInto :: "'e machinery \<Rightarrow> 'e ConfigH \<Rightarrow> ('e, 'e ConfigH) gomem" where
  "OperatorConfig_DeepCopyInto L x = do {
     a \<leftarrow> metaInto L (hoMeta x);
     b \<leftarrow> OperatorConfigSpec_DeepCopyInto L (hoSpec x);
     c \<leftarrow> OperatorConfigStatus_DeepCopyInto L (hoStatus x);
     State_Monad.return (x\<lparr>hoMeta := a, hoSpec := b, hoStatus := c\<rparr>) }"

definition OperatorConfig_DeepCopy :: "'e machinery \<Rightarrow> addr option \<Rightarrow> ('e, addr option) gomem" where
  "OperatorConfig_DeepCopy L = copyPtr is_CConfig theConfig CConfig (OperatorConfig_DeepCopyInto L)"

definition DployInstanceList_DeepCopyInto :: "'e machinery \<Rightarrow> 'e ListH \<Rightarrow> ('e, 'e ListH) gomem" where
  "DployInstanceList_DeepCopyInto L x = do {
     a \<leftarrow> listMetaInto L (hlMeta x);
     b \<leftarrow> copySlice is_CInstances theInstances CInstances (DployInstance_DeepCopyInto L) (hlItems x);
     State_Monad.return (x\<lparr>hlMeta := a, hlItems := b\<rparr>) }"

definition DployInstanceList_DeepCopy :: "'e machinery \<Rightarrow> addr option \<Rightarrow> ('e, addr option) gomem" where
  "DployInstanceList_DeepCopy L = copyPtr is_CInstanceList theInstanceList CInstanceList (DployInstanceList_DeepCopyInto L)"

definition DployInstanceClaimList_DeepCopyInto :: "'e machinery \<Rightarrow> 'e ListH \<Rightarrow> ('e, 'e ListH) gomem" where
  "DployInstanceClaimList_DeepCopyInto L x = do {
     a \<leftarrow> listMetaInto L (hlMeta x);
     b \<leftarrow> copySlice is_CClaims theClaims CClaims (DployInstanceClaim_DeepCopyInto L) (hlItems x);
     State_Monad.return (x\<lparr>hlMeta := a, hlItems := b\<rparr>) }"

definition DployInstanceClaimList_DeepCopy :: "'e machinery \<Rightarrow> addr option \<Rightarrow> ('e, addr option) gomem" where
  "DployInstanceClaimList_DeepCopy L = copyPtr is_CClaimList theClaimList CClaimList (DployInstanceClaimList_DeepCopyInto L)"

definition DployTemplateList_DeepCopyInto :: "'e machinery \<Rightarrow> 'e ListH \<Rightarrow> ('e, 'e ListH) gomem" where
  "DployTemplateList_DeepCopyInto L x = do {
     a \<leftarrow> listMetaInto L (hlMeta x);
     b \<leftarrow> copySlice is_CTemplates theTemplates CTemplates (DployTemplate_DeepCopyInto L) (hlItems x);
     State_Monad.return (x\<lparr>hlMeta := a, hlItems := b\<rparr>) }"

definition DployTemplateList_DeepCopy :: "'e machinery \<Rightarrow> addr option \<Rightarrow> ('e, addr option) gomem" where
  "DployTemplateList_DeepCopy L = copyPtr is_CTemplateList theTemplateList CTemplateList (DployTemplateList_DeepCopyInto L)"

definition OperatorConfigList_DeepCopyInto :: "'e machinery \<Rightarrow> 'e ListH \<Rightarrow> ('e, 'e ListH) gomem" where
  "OperatorConfigList_DeepCopyInto L x = do {
     a \<leftarrow> listMetaInto L (hlMeta x);
     b \<leftarrow> copySlice is_CConfigs theConfigs CConfigs (OperatorConfig_DeepCopyInto L) (hlItems x);
     State_Monad.return (x\<lparr>hlMeta := a, hlItems := b\<rparr>) }"

definition OperatorConfigList_DeepCopy :: "'e machinery \<Rightarrow> addr option \<Rightarrow> ('e, addr option) gomem" where
  "OperatorConfigList_DeepCopy L = copyPtr is_CConfigList theConfigList CConfigList (OperatorConfigList_DeepCopyInto L)"

text \<open>\<^verbatim>\<open>DeepCopyObject\<close> gives an interface: the dynamic type with the pointer, and nil itself for a
  nil pointer.\<close>

definition asObject :: "objectType \<Rightarrow> addr option \<Rightarrow> (objectType \<times> addr) option" where
  "asObject k p = map_option (Pair k) p"

definition DployInstance_DeepCopyObject :: "'e machinery \<Rightarrow> addr option \<Rightarrow> ('e, (objectType \<times> addr) option) gomem" where
  "DployInstance_DeepCopyObject L p = do { c \<leftarrow> DployInstance_DeepCopy L p; State_Monad.return (asObject DployInstanceObject c) }"

definition DployInstanceClaim_DeepCopyObject :: "'e machinery \<Rightarrow> addr option \<Rightarrow> ('e, (objectType \<times> addr) option) gomem" where
  "DployInstanceClaim_DeepCopyObject L p = do { c \<leftarrow> DployInstanceClaim_DeepCopy L p; State_Monad.return (asObject DployInstanceClaimObject c) }"

definition DployTemplate_DeepCopyObject :: "'e machinery \<Rightarrow> addr option \<Rightarrow> ('e, (objectType \<times> addr) option) gomem" where
  "DployTemplate_DeepCopyObject L p = do { c \<leftarrow> DployTemplate_DeepCopy L p; State_Monad.return (asObject DployTemplateObject c) }"

definition OperatorConfig_DeepCopyObject :: "'e machinery \<Rightarrow> addr option \<Rightarrow> ('e, (objectType \<times> addr) option) gomem" where
  "OperatorConfig_DeepCopyObject L p = do { c \<leftarrow> OperatorConfig_DeepCopy L p; State_Monad.return (asObject OperatorConfigObject c) }"

definition DployInstanceList_DeepCopyObject :: "'e machinery \<Rightarrow> addr option \<Rightarrow> ('e, (objectType \<times> addr) option) gomem" where
  "DployInstanceList_DeepCopyObject L p = do { c \<leftarrow> DployInstanceList_DeepCopy L p; State_Monad.return (asObject DployInstanceListObject c) }"

definition DployInstanceClaimList_DeepCopyObject :: "'e machinery \<Rightarrow> addr option \<Rightarrow> ('e, (objectType \<times> addr) option) gomem" where
  "DployInstanceClaimList_DeepCopyObject L p = do { c \<leftarrow> DployInstanceClaimList_DeepCopy L p; State_Monad.return (asObject DployInstanceClaimListObject c) }"

definition DployTemplateList_DeepCopyObject :: "'e machinery \<Rightarrow> addr option \<Rightarrow> ('e, (objectType \<times> addr) option) gomem" where
  "DployTemplateList_DeepCopyObject L p = do { c \<leftarrow> DployTemplateList_DeepCopy L p; State_Monad.return (asObject DployTemplateListObject c) }"

definition OperatorConfigList_DeepCopyObject :: "'e machinery \<Rightarrow> addr option \<Rightarrow> ('e, (objectType \<times> addr) option) gomem" where
  "OperatorConfigList_DeepCopyObject L p = do { c \<leftarrow> OperatorConfigList_DeepCopy L p; State_Monad.return (asObject OperatorConfigListObject c) }"

section \<open>What the types stand for\<close>

record 'e readings =
  metaVal :: "'e heap \<Rightarrow> 'e \<Rightarrow> ObjectMeta option"
  metaFoot :: "'e heap \<Rightarrow> 'e \<Rightarrow> addr set"
  listMetaVal :: "'e heap \<Rightarrow> 'e \<Rightarrow> string option"
  listMetaFoot :: "'e heap \<Rightarrow> 'e \<Rightarrow> addr set"
  rawVal :: "'e heap \<Rightarrow> 'e \<Rightarrow> string option"
  rawFoot :: "'e heap \<Rightarrow> 'e \<Rightarrow> addr set"

abbreviation plainVal :: "'c list \<Rightarrow> 'x \<Rightarrow> 'x option" where "plainVal h x \<equiv> Some x"
abbreviation plainFoot :: "'c list \<Rightarrow> 'x \<Rightarrow> addr set" where "plainFoot h x \<equiv> {}"
abbreviation "valMap \<equiv> valPtr is_CMap theMap plainVal"
abbreviation "footMap \<equiv> footPtr is_CMap theMap plainFoot"
abbreviation "valTime \<equiv> valPtr is_CTime theTime plainVal"
abbreviation "footTime \<equiv> footPtr is_CTime theTime plainFoot"
abbreviation "valBool \<equiv> valPtr is_CBool theBool plainVal"
abbreviation "footBool \<equiv> footPtr is_CBool theBool plainFoot"
abbreviation "valInt \<equiv> valPtr is_CInt theInt plainVal"
abbreviation "footInt \<equiv> footPtr is_CInt theInt plainFoot"
abbreviation "valTTL \<equiv> valPtr is_CTTL theTTL plainVal"
abbreviation "footTTL \<equiv> footPtr is_CTTL theTTL plainFoot"
abbreviation "valStrings \<equiv> valSlice is_CStrings theStrings plainVal"
abbreviation "footStrings \<equiv> footSlice is_CStrings theStrings plainFoot"
abbreviation "valConditions \<equiv> valSlice is_CConds theConds plainVal"
abbreviation "footConditions \<equiv> footSlice is_CConds theConds plainFoot"
abbreviation "valParams \<equiv> valSlice is_CParams theParams plainVal"
abbreviation "footParams \<equiv> footSlice is_CParams theParams plainFoot"
abbreviation "valRaw V \<equiv> valPtr is_CForeign theForeign (rawVal V)"
abbreviation "footRaw V \<equiv> footPtr is_CForeign theForeign (rawFoot V)"

text \<open>A nil map reads as the empty one.\<close>

definition orEmpty :: "smap option \<Rightarrow> smap" where
  "orEmpty m = (case m of None \<Rightarrow> Map.empty | Some x \<Rightarrow> x)"

definition valPoolSpec :: "'e heap \<Rightarrow> PoolSpecH \<Rightarrow> (PoolSpec) option" where
  "valPoolSpec = (\<lambda>h x. map_option (\<lambda>a. \<lparr>poolSize = hpSize x, poolMaxSize = hpMaxSize x, poolRecycle = a\<rparr>)
     (valBool h (hpRecycle x)))"

definition footPoolSpec :: "'e heap \<Rightarrow> PoolSpecH \<Rightarrow> addr set" where
  "footPoolSpec = (\<lambda>h x. footBool h (hpRecycle x))"

definition valDployInstanceSpec :: "'e heap \<Rightarrow> InstanceSpecH \<Rightarrow> (DployInstanceSpec) option" where
  "valDployInstanceSpec = (\<lambda>h x. map_option (\<lambda>(a, b). \<lparr>iTemplateRef = hiTemplateRef x, iOwner = hiOwner x, iParams = orEmpty a,
     iPooled = hiPooled x, iTTLSeconds = hiTTLSeconds x, iSpecExpiresAt = b\<rparr>)
     ((valPair valMap valTime) h (hiParams x, hiSpecExpiresAt x)))"

definition footDployInstanceSpec :: "'e heap \<Rightarrow> InstanceSpecH \<Rightarrow> addr set" where
  "footDployInstanceSpec = (\<lambda>h x. (footPair footMap footTime) h (hiParams x, hiSpecExpiresAt x))"

definition valDployInstanceStatus :: "'e heap \<Rightarrow> InstanceStatusH \<Rightarrow> (DployInstanceStatus) option" where
  "valDployInstanceStatus = (\<lambda>h x. map_option (\<lambda>(a, b). \<lparr>iPhase = hiPhase x, iUUID = hiUUID x, iWorkloadNamespace = hiWorkloadNamespace x,
     iURL = hiURL x, iConnectionType = hiConnectionType x, iConnectionMessage = hiConnectionMessage x,
     iEngine = hiEngine x, iEngineRef = hiEngineRef x, iHealth = hiHealth x, iExtendCount = hiExtendCount x,
     iExpiresAt = a, iObservedGeneration = hiObservedGeneration x, iConditions = b\<rparr>)
     ((valPair valTime valConditions) h (hiExpiresAt x, hiConditions x)))"

definition footDployInstanceStatus :: "'e heap \<Rightarrow> InstanceStatusH \<Rightarrow> addr set" where
  "footDployInstanceStatus = (\<lambda>h x. (footPair footTime footConditions) h (hiExpiresAt x, hiConditions x))"

definition valDployInstance :: "'e readings \<Rightarrow> 'e heap \<Rightarrow> 'e InstanceH \<Rightarrow> (TypeMeta \<times> DployInstance) option" where
  "valDployInstance V = (\<lambda>h x. map_option (\<lambda>(a, b, c). (hiTypeMeta x, \<lparr>iMeta = a, iSpec = b, iStatus = c\<rparr>))
     ((valPair (metaVal V) (valPair valDployInstanceSpec valDployInstanceStatus)) h (hiMeta x, hiSpec x, hiStatus x)))"

definition footDployInstance :: "'e readings \<Rightarrow> 'e heap \<Rightarrow> 'e InstanceH \<Rightarrow> addr set" where
  "footDployInstance V = (\<lambda>h x. (footPair (metaFoot V) (footPair footDployInstanceSpec footDployInstanceStatus)) h (hiMeta x, hiSpec x, hiStatus x))"

definition valDployInstanceClaimSpec :: "'e heap \<Rightarrow> ClaimSpecH \<Rightarrow> (DployInstanceClaimSpec) option" where
  "valDployInstanceClaimSpec = (\<lambda>h x. map_option (\<lambda>a. \<lparr>cTemplateRef = hcTemplateRef x, cOwner = hcOwner x, cParams = orEmpty a,
     cTTLSeconds = hcTTLSeconds x, cWaitForPool = hcWaitForPool x\<rparr>)
     (valMap h (hcParams x)))"

definition footDployInstanceClaimSpec :: "'e heap \<Rightarrow> ClaimSpecH \<Rightarrow> addr set" where
  "footDployInstanceClaimSpec = (\<lambda>h x. footMap h (hcParams x))"

definition valDployInstanceClaimStatus :: "'e heap \<Rightarrow> ClaimStatusH \<Rightarrow> (DployInstanceClaimStatus) option" where
  "valDployInstanceClaimStatus = (\<lambda>h x. map_option (\<lambda>(a, b, c). \<lparr>cPhase = hcPhase x, cInstanceRef = hcInstanceRef x, cUUID = hcUUID x,
     cConnectionURL = hcConnectionURL x, cConnectionType = hcConnectionType x,
     cConnectionMessage = hcConnectionMessage x, cInstancePhase = hcInstancePhase x, cHealth = hcHealth x,
     cBoundAt = a, cExpiresAt = b, cGrantedTTL = hcGrantedTTL x, cMaxTTLSeconds = hcMaxTTLSeconds x,
     cObservedGeneration = hcObservedGeneration x, cConditions = c\<rparr>)
     ((valPair valTime (valPair valTime valConditions)) h (hcBoundAt x, hcExpiresAt x, hcConditions x)))"

definition footDployInstanceClaimStatus :: "'e heap \<Rightarrow> ClaimStatusH \<Rightarrow> addr set" where
  "footDployInstanceClaimStatus = (\<lambda>h x. (footPair footTime (footPair footTime footConditions)) h (hcBoundAt x, hcExpiresAt x, hcConditions x))"

definition valDployInstanceClaim :: "'e readings \<Rightarrow> 'e heap \<Rightarrow> 'e ClaimH \<Rightarrow> (TypeMeta \<times> DployInstanceClaim) option" where
  "valDployInstanceClaim V = (\<lambda>h x. map_option (\<lambda>(a, b, c). (hcTypeMeta x, \<lparr>cMeta = a, cSpec = b, cStatus = c\<rparr>))
     ((valPair (metaVal V) (valPair valDployInstanceClaimSpec valDployInstanceClaimStatus)) h (hcMeta x, hcSpec x, hcStatus x)))"

definition footDployInstanceClaim :: "'e readings \<Rightarrow> 'e heap \<Rightarrow> 'e ClaimH \<Rightarrow> addr set" where
  "footDployInstanceClaim V = (\<lambda>h x. (footPair (metaFoot V) (footPair footDployInstanceClaimSpec footDployInstanceClaimStatus)) h (hcMeta x, hcSpec x, hcStatus x))"

definition valDployTemplateSpec :: "'e heap \<Rightarrow> TemplateSpecH \<Rightarrow> (DployTemplateSpec) option" where
  "valDployTemplateSpec = (\<lambda>h x. map_option (\<lambda>(a, b, c, d, e, f). \<lparr>tDisplayName = htDisplayName x, tDescription = htDescription x, tIcon = htIcon x,
     tCategory = htCategory x, tEnabled = htEnabled x, tVisible = a, tOwnerClaim = htOwnerClaim x,
     tMethod = htMethod x, tPool = b, tEngine = htEngine x, tChart = htChart x,
     tValuesTemplate = htValuesTemplate x, tValueFiles = c, tConnectionURLTemplate = htConnectionURLTemplate x,
     tConnectionType = htConnectionType x, tConnectionMessageTemplate = htConnectionMessageTemplate x,
     tTTL = d, tMaxInstancesPerUser = e, tParameters = f\<rparr>)
     ((valPair valBool (valPair (valPtr is_CPool thePool valPoolSpec) (valPair valStrings (valPair valTTL (valPair valInt valParams))))) h (htVisible x, htPool x, htValueFiles x, htTTL x, htMaxInstancesPerUser x, htParameters x)))"

definition footDployTemplateSpec :: "'e heap \<Rightarrow> TemplateSpecH \<Rightarrow> addr set" where
  "footDployTemplateSpec = (\<lambda>h x. (footPair footBool (footPair (footPtr is_CPool thePool footPoolSpec) (footPair footStrings (footPair footTTL (footPair footInt footParams))))) h (htVisible x, htPool x, htValueFiles x, htTTL x, htMaxInstancesPerUser x, htParameters x))"

definition valDployTemplateStatus :: "'e heap \<Rightarrow> TemplateStatusH \<Rightarrow> (DployTemplateStatus) option" where
  "valDployTemplateStatus = (\<lambda>h x. map_option (\<lambda>a. \<lparr>tPoolAvailable = htPoolAvailable x, tPoolClaimed = htPoolClaimed x, tPoolTotal = htPoolTotal x,
     tObservedGeneration = htObservedGeneration x, tConditions = a\<rparr>)
     (valConditions h (htConditions x)))"

definition footDployTemplateStatus :: "'e heap \<Rightarrow> TemplateStatusH \<Rightarrow> addr set" where
  "footDployTemplateStatus = (\<lambda>h x. footConditions h (htConditions x))"

definition valDployTemplate :: "'e readings \<Rightarrow> 'e heap \<Rightarrow> 'e TemplateH \<Rightarrow> (TypeMeta \<times> DployTemplate) option" where
  "valDployTemplate V = (\<lambda>h x. map_option (\<lambda>(a, b, c). (htTypeMeta x, \<lparr>tMeta = a, tSpec = b, tStatus = c\<rparr>))
     ((valPair (metaVal V) (valPair valDployTemplateSpec valDployTemplateStatus)) h (htMeta x, htSpec x, htStatus x)))"

definition footDployTemplate :: "'e readings \<Rightarrow> 'e heap \<Rightarrow> 'e TemplateH \<Rightarrow> addr set" where
  "footDployTemplate V = (\<lambda>h x. (footPair (metaFoot V) (footPair footDployTemplateSpec footDployTemplateStatus)) h (htMeta x, htSpec x, htStatus x))"

definition valOperatorConfigSpec :: "'e readings \<Rightarrow> 'e heap \<Rightarrow> ConfigSpecH \<Rightarrow> (OperatorConfigSpec) option" where
  "valOperatorConfigSpec V = (\<lambda>h x. map_option (\<lambda>a. \<lparr>oDefaultEngine = hoDefaultEngine x, oArgoCD = hoArgoCD x, oFlux = hoFlux x, oBaseDomain = hoBaseDomain x,
     oConnectionURLTemplate = hoConnectionURLTemplate x, oDefaultConnectionType = hoDefaultConnectionType x,
     oConnectionMessageTemplate = hoConnectionMessageTemplate x, oDefaults = hoDefaults x, oValues = a\<rparr>)
     ((valRaw V) h (hoValues x)))"

definition footOperatorConfigSpec :: "'e readings \<Rightarrow> 'e heap \<Rightarrow> ConfigSpecH \<Rightarrow> addr set" where
  "footOperatorConfigSpec V = (\<lambda>h x. (footRaw V) h (hoValues x))"

definition valOperatorConfigStatus :: "'e heap \<Rightarrow> ConfigStatusH \<Rightarrow> (OperatorConfigStatus) option" where
  "valOperatorConfigStatus = (\<lambda>h x. map_option (\<lambda>a. \<lparr>oObservedGeneration = hoObservedGeneration x, oConditions = a\<rparr>)
     (valConditions h (hoConditions x)))"

definition footOperatorConfigStatus :: "'e heap \<Rightarrow> ConfigStatusH \<Rightarrow> addr set" where
  "footOperatorConfigStatus = (\<lambda>h x. footConditions h (hoConditions x))"

definition valOperatorConfig :: "'e readings \<Rightarrow> 'e heap \<Rightarrow> 'e ConfigH \<Rightarrow> (TypeMeta \<times> OperatorConfig) option" where
  "valOperatorConfig V = (\<lambda>h x. map_option (\<lambda>(a, b, c). (hoTypeMeta x, \<lparr>oMeta = a, oSpec = b, oStatus = c\<rparr>))
     ((valPair (metaVal V) (valPair (valOperatorConfigSpec V) valOperatorConfigStatus)) h (hoMeta x, hoSpec x, hoStatus x)))"

definition footOperatorConfig :: "'e readings \<Rightarrow> 'e heap \<Rightarrow> 'e ConfigH \<Rightarrow> addr set" where
  "footOperatorConfig V = (\<lambda>h x. (footPair (metaFoot V) (footPair (footOperatorConfigSpec V) footOperatorConfigStatus)) h (hoMeta x, hoSpec x, hoStatus x))"

definition valDployInstanceList :: "'e readings \<Rightarrow> 'e heap \<Rightarrow> 'e ListH \<Rightarrow> (TypeMeta \<times> string \<times> (TypeMeta \<times> DployInstance) list) option" where
  "valDployInstanceList V = (\<lambda>h x. map_option (\<lambda>(a, b). (hlTypeMeta x, a, b))
     ((valPair (listMetaVal V) (valSlice is_CInstances theInstances (valDployInstance V))) h (hlMeta x, hlItems x)))"

definition footDployInstanceList :: "'e readings \<Rightarrow> 'e heap \<Rightarrow> 'e ListH \<Rightarrow> addr set" where
  "footDployInstanceList V = (\<lambda>h x. (footPair (listMetaFoot V) (footSlice is_CInstances theInstances (footDployInstance V))) h (hlMeta x, hlItems x))"

definition valDployInstanceClaimList :: "'e readings \<Rightarrow> 'e heap \<Rightarrow> 'e ListH \<Rightarrow> (TypeMeta \<times> string \<times> (TypeMeta \<times> DployInstanceClaim) list) option" where
  "valDployInstanceClaimList V = (\<lambda>h x. map_option (\<lambda>(a, b). (hlTypeMeta x, a, b))
     ((valPair (listMetaVal V) (valSlice is_CClaims theClaims (valDployInstanceClaim V))) h (hlMeta x, hlItems x)))"

definition footDployInstanceClaimList :: "'e readings \<Rightarrow> 'e heap \<Rightarrow> 'e ListH \<Rightarrow> addr set" where
  "footDployInstanceClaimList V = (\<lambda>h x. (footPair (listMetaFoot V) (footSlice is_CClaims theClaims (footDployInstanceClaim V))) h (hlMeta x, hlItems x))"

definition valDployTemplateList :: "'e readings \<Rightarrow> 'e heap \<Rightarrow> 'e ListH \<Rightarrow> (TypeMeta \<times> string \<times> (TypeMeta \<times> DployTemplate) list) option" where
  "valDployTemplateList V = (\<lambda>h x. map_option (\<lambda>(a, b). (hlTypeMeta x, a, b))
     ((valPair (listMetaVal V) (valSlice is_CTemplates theTemplates (valDployTemplate V))) h (hlMeta x, hlItems x)))"

definition footDployTemplateList :: "'e readings \<Rightarrow> 'e heap \<Rightarrow> 'e ListH \<Rightarrow> addr set" where
  "footDployTemplateList V = (\<lambda>h x. (footPair (listMetaFoot V) (footSlice is_CTemplates theTemplates (footDployTemplate V))) h (hlMeta x, hlItems x))"

definition valOperatorConfigList :: "'e readings \<Rightarrow> 'e heap \<Rightarrow> 'e ListH \<Rightarrow> (TypeMeta \<times> string \<times> (TypeMeta \<times> OperatorConfig) list) option" where
  "valOperatorConfigList V = (\<lambda>h x. map_option (\<lambda>(a, b). (hlTypeMeta x, a, b))
     ((valPair (listMetaVal V) (valSlice is_CConfigs theConfigs (valOperatorConfig V))) h (hlMeta x, hlItems x)))"

definition footOperatorConfigList :: "'e readings \<Rightarrow> 'e heap \<Rightarrow> 'e ListH \<Rightarrow> addr set" where
  "footOperatorConfigList V = (\<lambda>h x. (footPair (listMetaFoot V) (footSlice is_CConfigs theConfigs (footOperatorConfig V))) h (hlMeta x, hlItems x))"

section \<open>Every copy keeps the contract\<close>

lemma deep_map: "deep_copier copyMap valMap footMap"
  unfolding copyMap_def by (rule deep_ptr [OF deep_flat]) simp

lemma deep_bool: "deep_copier copyBool valBool footBool"
  unfolding copyBool_def by (rule deep_ptr [OF deep_flat]) simp

lemma deep_int: "deep_copier copyInt valInt footInt"
  unfolding copyInt_def by (rule deep_ptr [OF deep_flat]) simp

lemma deep_strings: "deep_copier copyStrings valStrings footStrings"
  unfolding copyStrings_def by (rule deep_slice [OF deep_flat]) simp

lemma deep_params: "deep_copier copyParams valParams footParams"
  unfolding copyParams_def by (rule deep_slice [OF deep_flat]) simp

lemma ArgoCDConfig_deep: "deep_copier ArgoCDConfig_DeepCopy (valPtr is_CArgo theArgo plainVal) (footPtr is_CArgo theArgo plainFoot)"
  unfolding ArgoCDConfig_DeepCopy_def ArgoCDConfig_DeepCopyInto_def [abs_def] by (rule deep_ptr [OF deep_flat]) simp

lemma ChartSource_deep: "deep_copier ChartSource_DeepCopy (valPtr is_CChart theChart plainVal) (footPtr is_CChart theChart plainFoot)"
  unfolding ChartSource_DeepCopy_def ChartSource_DeepCopyInto_def [abs_def] by (rule deep_ptr [OF deep_flat]) simp

lemma FluxConfig_deep: "deep_copier FluxConfig_DeepCopy (valPtr is_CFluxCfg theFluxCfg plainVal) (footPtr is_CFluxCfg theFluxCfg plainFoot)"
  unfolding FluxConfig_DeepCopy_def FluxConfig_DeepCopyInto_def [abs_def] by (rule deep_ptr [OF deep_flat]) simp

lemma InstanceDefaults_deep: "deep_copier InstanceDefaults_DeepCopy (valPtr is_CDefaults theDefaults plainVal) (footPtr is_CDefaults theDefaults plainFoot)"
  unfolding InstanceDefaults_DeepCopy_def InstanceDefaults_DeepCopyInto_def [abs_def] by (rule deep_ptr [OF deep_flat]) simp

lemma TTLSpec_deep: "deep_copier TTLSpec_DeepCopy (valPtr is_CTTL theTTL plainVal) (footPtr is_CTTL theTTL plainFoot)"
  unfolding TTLSpec_DeepCopy_def TTLSpec_DeepCopyInto_def [abs_def] by (rule deep_ptr [OF deep_flat]) simp

lemma TemplateParameter_deep: "deep_copier TemplateParameter_DeepCopy (valPtr is_CParam theParam plainVal) (footPtr is_CParam theParam plainFoot)"
  unfolding TemplateParameter_DeepCopy_def TemplateParameter_DeepCopyInto_def [abs_def] by (rule deep_ptr [OF deep_flat]) simp

lemma PoolSpec_into: "deep_copier PoolSpec_DeepCopyInto valPoolSpec footPoolSpec"
  (is "deep_copier ?c _ _")
proof -
  have eq: "?c = copyPart hpRecycle
      (\<lambda>a x. x\<lparr>hpRecycle := a\<rparr>) copyBool"
    by (rule ext) (simp add: PoolSpec_DeepCopyInto_def copyPart_def copyPair_def)
  show ?thesis
    unfolding eq valPoolSpec_def footPoolSpec_def by (rule deep_part [OF deep_bool]) auto
qed

lemma PoolSpec_deep: "deep_copier (PoolSpec_DeepCopy) (valPtr is_CPool thePool valPoolSpec) (footPtr is_CPool thePool footPoolSpec)"
  unfolding PoolSpec_DeepCopy_def by (rule deep_ptr [OF PoolSpec_into]) simp

lemma DployInstanceClaimSpec_into: "deep_copier DployInstanceClaimSpec_DeepCopyInto valDployInstanceClaimSpec footDployInstanceClaimSpec"
  (is "deep_copier ?c _ _")
proof -
  have eq: "?c = copyPart hcParams
      (\<lambda>a x. x\<lparr>hcParams := a\<rparr>) copyMap"
    by (rule ext) (simp add: DployInstanceClaimSpec_DeepCopyInto_def copyPart_def copyPair_def)
  show ?thesis
    unfolding eq valDployInstanceClaimSpec_def footDployInstanceClaimSpec_def by (rule deep_part [OF deep_map]) auto
qed

lemma DployInstanceClaimSpec_deep: "deep_copier (DployInstanceClaimSpec_DeepCopy) (valPtr is_CClaimSpec theClaimSpec valDployInstanceClaimSpec) (footPtr is_CClaimSpec theClaimSpec footDployInstanceClaimSpec)"
  unfolding DployInstanceClaimSpec_DeepCopy_def by (rule deep_ptr [OF DployInstanceClaimSpec_into]) simp

lemma DployTemplateSpec_into: "deep_copier DployTemplateSpec_DeepCopyInto valDployTemplateSpec footDployTemplateSpec"
  (is "deep_copier ?c _ _")
proof -
  have eq: "?c = copyPart (\<lambda>x. (htVisible x, htPool x, htValueFiles x, htTTL x, htMaxInstancesPerUser x, htParameters x))
      (\<lambda>(a, b, c, d, e, f) x. x\<lparr>htVisible := a, htPool := b, htValueFiles := c, htTTL := d, htMaxInstancesPerUser := e, htParameters := f\<rparr>) (copyPair copyBool (copyPair PoolSpec_DeepCopy (copyPair copyStrings (copyPair TTLSpec_DeepCopy (copyPair copyInt copyParams)))))"
    by (rule ext) (simp add: DployTemplateSpec_DeepCopyInto_def copyPart_def copyPair_def)
  show ?thesis
    unfolding eq valDployTemplateSpec_def footDployTemplateSpec_def by (rule deep_part [OF deep_pair [OF deep_bool deep_pair [OF PoolSpec_deep deep_pair [OF deep_strings deep_pair [OF TTLSpec_deep deep_pair [OF deep_int deep_params]]]]]]) auto
qed

lemma DployTemplateSpec_deep: "deep_copier (DployTemplateSpec_DeepCopy) (valPtr is_CTemplateSpec theTemplateSpec valDployTemplateSpec) (footPtr is_CTemplateSpec theTemplateSpec footDployTemplateSpec)"
  unfolding DployTemplateSpec_DeepCopy_def by (rule deep_ptr [OF DployTemplateSpec_into]) simp

text \<open>The contract of apimachinery, and what follows from it for the types that contain its structs.\<close>

locale apimachinery =
  fixes L :: "'e machinery" and V :: "'e readings"
  assumes times: "deep_copier (timeDeepCopy L) valTime footTime"
    and conditions: "deep_copier (conditionInto L) plainVal plainFoot"
    and metas: "deep_copier (metaInto L) (metaVal V) (metaFoot V)"
    and listMetas: "deep_copier (listMetaInto L) (listMetaVal V) (listMetaFoot V)"
    and raws: "deep_copier (rawInto L) (rawVal V) (rawFoot V)"
begin

lemma deep_conditions: "deep_copier (copyConditions L) valConditions footConditions"
  unfolding copyConditions_def by (rule deep_slice [OF conditions]) simp

lemma deep_raw: "deep_copier (copyRaw L) (valRaw V) (footRaw V)"
  unfolding copyRaw_def by (rule deep_ptr [OF raws]) simp

lemma DployInstanceSpec_into: "deep_copier (DployInstanceSpec_DeepCopyInto L) valDployInstanceSpec footDployInstanceSpec"
  (is "deep_copier ?c _ _")
proof -
  have eq: "?c = copyPart (\<lambda>x. (hiParams x, hiSpecExpiresAt x))
      (\<lambda>(a, b) x. x\<lparr>hiParams := a, hiSpecExpiresAt := b\<rparr>) (copyPair copyMap (timeDeepCopy L))"
    by (rule ext) (simp add: DployInstanceSpec_DeepCopyInto_def copyPart_def copyPair_def)
  show ?thesis
    unfolding eq valDployInstanceSpec_def footDployInstanceSpec_def by (rule deep_part [OF deep_pair [OF deep_map times]]) auto
qed

lemma DployInstanceSpec_deep: "deep_copier (DployInstanceSpec_DeepCopy L) (valPtr is_CInstanceSpec theInstanceSpec valDployInstanceSpec) (footPtr is_CInstanceSpec theInstanceSpec footDployInstanceSpec)"
  unfolding DployInstanceSpec_DeepCopy_def by (rule deep_ptr [OF DployInstanceSpec_into]) simp

lemma DployInstanceStatus_into: "deep_copier (DployInstanceStatus_DeepCopyInto L) valDployInstanceStatus footDployInstanceStatus"
  (is "deep_copier ?c _ _")
proof -
  have eq: "?c = copyPart (\<lambda>x. (hiExpiresAt x, hiConditions x))
      (\<lambda>(a, b) x. x\<lparr>hiExpiresAt := a, hiConditions := b\<rparr>) (copyPair (timeDeepCopy L) (copyConditions L))"
    by (rule ext) (simp add: DployInstanceStatus_DeepCopyInto_def copyPart_def copyPair_def)
  show ?thesis
    unfolding eq valDployInstanceStatus_def footDployInstanceStatus_def by (rule deep_part [OF deep_pair [OF times deep_conditions]]) auto
qed

lemma DployInstanceStatus_deep: "deep_copier (DployInstanceStatus_DeepCopy L) (valPtr is_CInstanceStatus theInstanceStatus valDployInstanceStatus) (footPtr is_CInstanceStatus theInstanceStatus footDployInstanceStatus)"
  unfolding DployInstanceStatus_DeepCopy_def by (rule deep_ptr [OF DployInstanceStatus_into]) simp

lemma DployInstance_into: "deep_copier (DployInstance_DeepCopyInto L) (valDployInstance V) (footDployInstance V)"
  (is "deep_copier ?c _ _")
proof -
  have eq: "?c = copyPart (\<lambda>x. (hiMeta x, hiSpec x, hiStatus x))
      (\<lambda>(a, b, c) x. x\<lparr>hiMeta := a, hiSpec := b, hiStatus := c\<rparr>) (copyPair (metaInto L) (copyPair (DployInstanceSpec_DeepCopyInto L) (DployInstanceStatus_DeepCopyInto L)))"
    by (rule ext) (simp add: DployInstance_DeepCopyInto_def copyPart_def copyPair_def)
  show ?thesis
    unfolding eq valDployInstance_def footDployInstance_def by (rule deep_part [OF deep_pair [OF metas deep_pair [OF DployInstanceSpec_into DployInstanceStatus_into]]]) auto
qed

lemma DployInstance_deep: "deep_copier (DployInstance_DeepCopy L) (valPtr is_CInstance theInstance (valDployInstance V)) (footPtr is_CInstance theInstance (footDployInstance V))"
  unfolding DployInstance_DeepCopy_def by (rule deep_ptr [OF DployInstance_into]) simp

lemma DployInstanceClaimStatus_into: "deep_copier (DployInstanceClaimStatus_DeepCopyInto L) valDployInstanceClaimStatus footDployInstanceClaimStatus"
  (is "deep_copier ?c _ _")
proof -
  have eq: "?c = copyPart (\<lambda>x. (hcBoundAt x, hcExpiresAt x, hcConditions x))
      (\<lambda>(a, b, c) x. x\<lparr>hcBoundAt := a, hcExpiresAt := b, hcConditions := c\<rparr>) (copyPair (timeDeepCopy L) (copyPair (timeDeepCopy L) (copyConditions L)))"
    by (rule ext) (simp add: DployInstanceClaimStatus_DeepCopyInto_def copyPart_def copyPair_def)
  show ?thesis
    unfolding eq valDployInstanceClaimStatus_def footDployInstanceClaimStatus_def by (rule deep_part [OF deep_pair [OF times deep_pair [OF times deep_conditions]]]) auto
qed

lemma DployInstanceClaimStatus_deep: "deep_copier (DployInstanceClaimStatus_DeepCopy L) (valPtr is_CClaimStatus theClaimStatus valDployInstanceClaimStatus) (footPtr is_CClaimStatus theClaimStatus footDployInstanceClaimStatus)"
  unfolding DployInstanceClaimStatus_DeepCopy_def by (rule deep_ptr [OF DployInstanceClaimStatus_into]) simp

lemma DployInstanceClaim_into: "deep_copier (DployInstanceClaim_DeepCopyInto L) (valDployInstanceClaim V) (footDployInstanceClaim V)"
  (is "deep_copier ?c _ _")
proof -
  have eq: "?c = copyPart (\<lambda>x. (hcMeta x, hcSpec x, hcStatus x))
      (\<lambda>(a, b, c) x. x\<lparr>hcMeta := a, hcSpec := b, hcStatus := c\<rparr>) (copyPair (metaInto L) (copyPair DployInstanceClaimSpec_DeepCopyInto (DployInstanceClaimStatus_DeepCopyInto L)))"
    by (rule ext) (simp add: DployInstanceClaim_DeepCopyInto_def copyPart_def copyPair_def)
  show ?thesis
    unfolding eq valDployInstanceClaim_def footDployInstanceClaim_def by (rule deep_part [OF deep_pair [OF metas deep_pair [OF DployInstanceClaimSpec_into DployInstanceClaimStatus_into]]]) auto
qed

lemma DployInstanceClaim_deep: "deep_copier (DployInstanceClaim_DeepCopy L) (valPtr is_CClaim theClaim (valDployInstanceClaim V)) (footPtr is_CClaim theClaim (footDployInstanceClaim V))"
  unfolding DployInstanceClaim_DeepCopy_def by (rule deep_ptr [OF DployInstanceClaim_into]) simp

lemma DployTemplateStatus_into: "deep_copier (DployTemplateStatus_DeepCopyInto L) valDployTemplateStatus footDployTemplateStatus"
  (is "deep_copier ?c _ _")
proof -
  have eq: "?c = copyPart htConditions
      (\<lambda>a x. x\<lparr>htConditions := a\<rparr>) (copyConditions L)"
    by (rule ext) (simp add: DployTemplateStatus_DeepCopyInto_def copyPart_def copyPair_def)
  show ?thesis
    unfolding eq valDployTemplateStatus_def footDployTemplateStatus_def by (rule deep_part [OF deep_conditions]) auto
qed

lemma DployTemplateStatus_deep: "deep_copier (DployTemplateStatus_DeepCopy L) (valPtr is_CTemplateStatus theTemplateStatus valDployTemplateStatus) (footPtr is_CTemplateStatus theTemplateStatus footDployTemplateStatus)"
  unfolding DployTemplateStatus_DeepCopy_def by (rule deep_ptr [OF DployTemplateStatus_into]) simp

lemma DployTemplate_into: "deep_copier (DployTemplate_DeepCopyInto L) (valDployTemplate V) (footDployTemplate V)"
  (is "deep_copier ?c _ _")
proof -
  have eq: "?c = copyPart (\<lambda>x. (htMeta x, htSpec x, htStatus x))
      (\<lambda>(a, b, c) x. x\<lparr>htMeta := a, htSpec := b, htStatus := c\<rparr>) (copyPair (metaInto L) (copyPair DployTemplateSpec_DeepCopyInto (DployTemplateStatus_DeepCopyInto L)))"
    by (rule ext) (simp add: DployTemplate_DeepCopyInto_def copyPart_def copyPair_def)
  show ?thesis
    unfolding eq valDployTemplate_def footDployTemplate_def by (rule deep_part [OF deep_pair [OF metas deep_pair [OF DployTemplateSpec_into DployTemplateStatus_into]]]) auto
qed

lemma DployTemplate_deep: "deep_copier (DployTemplate_DeepCopy L) (valPtr is_CTemplate theTemplate (valDployTemplate V)) (footPtr is_CTemplate theTemplate (footDployTemplate V))"
  unfolding DployTemplate_DeepCopy_def by (rule deep_ptr [OF DployTemplate_into]) simp

lemma OperatorConfigSpec_into: "deep_copier (OperatorConfigSpec_DeepCopyInto L) (valOperatorConfigSpec V) (footOperatorConfigSpec V)"
  (is "deep_copier ?c _ _")
proof -
  have eq: "?c = copyPart hoValues
      (\<lambda>a x. x\<lparr>hoValues := a\<rparr>) (copyRaw L)"
    by (rule ext) (simp add: OperatorConfigSpec_DeepCopyInto_def copyPart_def copyPair_def)
  show ?thesis
    unfolding eq valOperatorConfigSpec_def footOperatorConfigSpec_def by (rule deep_part [OF deep_raw]) auto
qed

lemma OperatorConfigSpec_deep: "deep_copier (OperatorConfigSpec_DeepCopy L) (valPtr is_CConfigSpec theConfigSpec (valOperatorConfigSpec V)) (footPtr is_CConfigSpec theConfigSpec (footOperatorConfigSpec V))"
  unfolding OperatorConfigSpec_DeepCopy_def by (rule deep_ptr [OF OperatorConfigSpec_into]) simp

lemma OperatorConfigStatus_into: "deep_copier (OperatorConfigStatus_DeepCopyInto L) valOperatorConfigStatus footOperatorConfigStatus"
  (is "deep_copier ?c _ _")
proof -
  have eq: "?c = copyPart hoConditions
      (\<lambda>a x. x\<lparr>hoConditions := a\<rparr>) (copyConditions L)"
    by (rule ext) (simp add: OperatorConfigStatus_DeepCopyInto_def copyPart_def copyPair_def)
  show ?thesis
    unfolding eq valOperatorConfigStatus_def footOperatorConfigStatus_def by (rule deep_part [OF deep_conditions]) auto
qed

lemma OperatorConfigStatus_deep: "deep_copier (OperatorConfigStatus_DeepCopy L) (valPtr is_CConfigStatus theConfigStatus valOperatorConfigStatus) (footPtr is_CConfigStatus theConfigStatus footOperatorConfigStatus)"
  unfolding OperatorConfigStatus_DeepCopy_def by (rule deep_ptr [OF OperatorConfigStatus_into]) simp

lemma OperatorConfig_into: "deep_copier (OperatorConfig_DeepCopyInto L) (valOperatorConfig V) (footOperatorConfig V)"
  (is "deep_copier ?c _ _")
proof -
  have eq: "?c = copyPart (\<lambda>x. (hoMeta x, hoSpec x, hoStatus x))
      (\<lambda>(a, b, c) x. x\<lparr>hoMeta := a, hoSpec := b, hoStatus := c\<rparr>) (copyPair (metaInto L) (copyPair (OperatorConfigSpec_DeepCopyInto L) (OperatorConfigStatus_DeepCopyInto L)))"
    by (rule ext) (simp add: OperatorConfig_DeepCopyInto_def copyPart_def copyPair_def)
  show ?thesis
    unfolding eq valOperatorConfig_def footOperatorConfig_def by (rule deep_part [OF deep_pair [OF metas deep_pair [OF OperatorConfigSpec_into OperatorConfigStatus_into]]]) auto
qed

lemma OperatorConfig_deep: "deep_copier (OperatorConfig_DeepCopy L) (valPtr is_CConfig theConfig (valOperatorConfig V)) (footPtr is_CConfig theConfig (footOperatorConfig V))"
  unfolding OperatorConfig_DeepCopy_def by (rule deep_ptr [OF OperatorConfig_into]) simp

lemma DployInstanceList_into: "deep_copier (DployInstanceList_DeepCopyInto L) (valDployInstanceList V) (footDployInstanceList V)"
  (is "deep_copier ?c _ _")
proof -
  have eq: "?c = copyPart (\<lambda>x. (hlMeta x, hlItems x))
      (\<lambda>(a, b) x. x\<lparr>hlMeta := a, hlItems := b\<rparr>) (copyPair (listMetaInto L) (copySlice is_CInstances theInstances CInstances (DployInstance_DeepCopyInto L)))"
    by (rule ext) (simp add: DployInstanceList_DeepCopyInto_def copyPart_def copyPair_def)
  show ?thesis
    unfolding eq valDployInstanceList_def footDployInstanceList_def by (rule deep_part [OF deep_pair [OF listMetas deep_slice [OF DployInstance_into]]]) auto
qed

lemma DployInstanceList_deep: "deep_copier (DployInstanceList_DeepCopy L) (valPtr is_CInstanceList theInstanceList (valDployInstanceList V)) (footPtr is_CInstanceList theInstanceList (footDployInstanceList V))"
  unfolding DployInstanceList_DeepCopy_def by (rule deep_ptr [OF DployInstanceList_into]) simp

lemma DployInstanceClaimList_into: "deep_copier (DployInstanceClaimList_DeepCopyInto L) (valDployInstanceClaimList V) (footDployInstanceClaimList V)"
  (is "deep_copier ?c _ _")
proof -
  have eq: "?c = copyPart (\<lambda>x. (hlMeta x, hlItems x))
      (\<lambda>(a, b) x. x\<lparr>hlMeta := a, hlItems := b\<rparr>) (copyPair (listMetaInto L) (copySlice is_CClaims theClaims CClaims (DployInstanceClaim_DeepCopyInto L)))"
    by (rule ext) (simp add: DployInstanceClaimList_DeepCopyInto_def copyPart_def copyPair_def)
  show ?thesis
    unfolding eq valDployInstanceClaimList_def footDployInstanceClaimList_def by (rule deep_part [OF deep_pair [OF listMetas deep_slice [OF DployInstanceClaim_into]]]) auto
qed

lemma DployInstanceClaimList_deep: "deep_copier (DployInstanceClaimList_DeepCopy L) (valPtr is_CClaimList theClaimList (valDployInstanceClaimList V)) (footPtr is_CClaimList theClaimList (footDployInstanceClaimList V))"
  unfolding DployInstanceClaimList_DeepCopy_def by (rule deep_ptr [OF DployInstanceClaimList_into]) simp

lemma DployTemplateList_into: "deep_copier (DployTemplateList_DeepCopyInto L) (valDployTemplateList V) (footDployTemplateList V)"
  (is "deep_copier ?c _ _")
proof -
  have eq: "?c = copyPart (\<lambda>x. (hlMeta x, hlItems x))
      (\<lambda>(a, b) x. x\<lparr>hlMeta := a, hlItems := b\<rparr>) (copyPair (listMetaInto L) (copySlice is_CTemplates theTemplates CTemplates (DployTemplate_DeepCopyInto L)))"
    by (rule ext) (simp add: DployTemplateList_DeepCopyInto_def copyPart_def copyPair_def)
  show ?thesis
    unfolding eq valDployTemplateList_def footDployTemplateList_def by (rule deep_part [OF deep_pair [OF listMetas deep_slice [OF DployTemplate_into]]]) auto
qed

lemma DployTemplateList_deep: "deep_copier (DployTemplateList_DeepCopy L) (valPtr is_CTemplateList theTemplateList (valDployTemplateList V)) (footPtr is_CTemplateList theTemplateList (footDployTemplateList V))"
  unfolding DployTemplateList_DeepCopy_def by (rule deep_ptr [OF DployTemplateList_into]) simp

lemma OperatorConfigList_into: "deep_copier (OperatorConfigList_DeepCopyInto L) (valOperatorConfigList V) (footOperatorConfigList V)"
  (is "deep_copier ?c _ _")
proof -
  have eq: "?c = copyPart (\<lambda>x. (hlMeta x, hlItems x))
      (\<lambda>(a, b) x. x\<lparr>hlMeta := a, hlItems := b\<rparr>) (copyPair (listMetaInto L) (copySlice is_CConfigs theConfigs CConfigs (OperatorConfig_DeepCopyInto L)))"
    by (rule ext) (simp add: OperatorConfigList_DeepCopyInto_def copyPart_def copyPair_def)
  show ?thesis
    unfolding eq valOperatorConfigList_def footOperatorConfigList_def by (rule deep_part [OF deep_pair [OF listMetas deep_slice [OF OperatorConfig_into]]]) auto
qed

lemma OperatorConfigList_deep: "deep_copier (OperatorConfigList_DeepCopy L) (valPtr is_CConfigList theConfigList (valOperatorConfigList V)) (footPtr is_CConfigList theConfigList (footOperatorConfigList V))"
  unfolding OperatorConfigList_DeepCopy_def by (rule deep_ptr [OF OperatorConfigList_into]) simp

end

section \<open>Properties\<close>

text \<open>C11. The objects a reconcile works on are values. Each generated \<open>DeepCopy\<close>, of an instance, a
  claim, a template, the operator configuration, or a list of one of them, returns nil for nil and
  otherwise an object that reads the same, metadata, spec, status and every map, slice and pointer
  in them included; and the two share no memory, so nothing that is later written through the one
  changes what the other reads. This is what lets a controller change the object it read and
  compute its patch against the copy, and what lets the other theories model objects as records.
  It needs no more of apimachinery than that the copies of its own structs do the same.\<close>

theorem deep_copies_independent:
  assumes "apimachinery L V"
  shows "independentCopy (DployInstance_DeepCopy L) (valPtr is_CInstance theInstance (valDployInstance V))
      (footPtr is_CInstance theInstance (footDployInstance V))
    \<and> independentCopy (DployInstanceClaim_DeepCopy L) (valPtr is_CClaim theClaim (valDployInstanceClaim V))
      (footPtr is_CClaim theClaim (footDployInstanceClaim V))
    \<and> independentCopy (DployTemplate_DeepCopy L) (valPtr is_CTemplate theTemplate (valDployTemplate V))
      (footPtr is_CTemplate theTemplate (footDployTemplate V))
    \<and> independentCopy (OperatorConfig_DeepCopy L) (valPtr is_CConfig theConfig (valOperatorConfig V))
      (footPtr is_CConfig theConfig (footOperatorConfig V))
    \<and> independentCopy (DployInstanceList_DeepCopy L) (valPtr is_CInstanceList theInstanceList (valDployInstanceList V))
      (footPtr is_CInstanceList theInstanceList (footDployInstanceList V))
    \<and> independentCopy (DployInstanceClaimList_DeepCopy L) (valPtr is_CClaimList theClaimList (valDployInstanceClaimList V))
      (footPtr is_CClaimList theClaimList (footDployInstanceClaimList V))
    \<and> independentCopy (DployTemplateList_DeepCopy L) (valPtr is_CTemplateList theTemplateList (valDployTemplateList V))
      (footPtr is_CTemplateList theTemplateList (footDployTemplateList V))
    \<and> independentCopy (OperatorConfigList_DeepCopy L) (valPtr is_CConfigList theConfigList (valOperatorConfigList V))
      (footPtr is_CConfigList theConfigList (footOperatorConfigList V))"
  using assms by (intro conjI deep_copier.independent apimachinery.DployInstance_deep
      apimachinery.DployInstanceClaim_deep apimachinery.DployTemplate_deep apimachinery.OperatorConfig_deep
      apimachinery.DployInstanceList_deep apimachinery.DployInstanceClaimList_deep
      apimachinery.DployTemplateList_deep apimachinery.OperatorConfigList_deep)

text \<open>Metadata and raw extensions that are plain values.\<close>

definition plainMachinery :: "(ObjectMeta \<times> string) machinery" where
  "plainMachinery = \<lparr>timeDeepCopy = copyPtr is_CTime theTime CTime State_Monad.return,
     conditionInto = State_Monad.return, metaInto = State_Monad.return,
     listMetaInto = State_Monad.return, rawInto = State_Monad.return\<rparr>"

definition plainReadings :: "(ObjectMeta \<times> string) readings" where
  "plainReadings = \<lparr>metaVal = (\<lambda>h e. Some (fst e)), metaFoot = (\<lambda>h e. {}), listMetaVal = (\<lambda>h e. Some (snd e)),
     listMetaFoot = (\<lambda>h e. {}), rawVal = (\<lambda>h e. Some (snd e)), rawFoot = (\<lambda>h e. {})\<rparr>"

interpretation plain: apimachinery plainMachinery plainReadings
proof (rule apimachinery.intro)
  show "deep_copier (timeDeepCopy plainMachinery) valTime footTime"
    by (simp add: plainMachinery_def) (rule deep_ptr [OF deep_flat], simp)
qed (simp_all add: plainMachinery_def plainReadings_def deep_flat)

definition demoInstance :: "(ObjectMeta \<times> string) InstanceH" where
  "demoInstance = \<lparr>hiTypeMeta = \<lparr>tmKind = ''DployInstance'', tmAPIVersion = []\<rparr>, hiMeta = (emptyMeta, []),
     hiSpec = \<lparr>hiTemplateRef = ''web'', hiOwner = [], hiParams = Some 0, hiPooled = False, hiTTLSeconds = 0,
       hiSpecExpiresAt = None\<rparr>,
     hiStatus = \<lparr>hiPhase = PhaseUnset, hiUUID = [], hiWorkloadNamespace = [], hiURL = [], hiConnectionType = [],
       hiConnectionMessage = [], hiEngine = EngineUnset, hiEngineRef = [], hiHealth = [], hiExtendCount = 0,
       hiExpiresAt = None, hiObservedGeneration = 0, hiConditions = None\<rparr>\<rparr>"

text \<open>The map of parameters in cell 0, the instance in cell 1; the copy's map is cell 2.\<close>

definition demoHeap :: "(ObjectMeta \<times> string) heap" where
  "demoHeap = [CMap (Map.empty(''tier'' \<mapsto> ''gold'')), CInstance demoInstance]"

abbreviation "valDemo \<equiv> valPtr is_CInstance theInstance (valDployInstance plainReadings)"

lemma demo_run:
  "run_state (DployInstance_DeepCopy plainMachinery (Some 1)) demoHeap
     = (Some 3, demoHeap @ [CMap (Map.empty(''tier'' \<mapsto> ''gold'')),
         CInstance (hiSpec_update (hiParams_update (\<lambda>_. Some 2)) demoInstance)])"
  by (simp add: DployInstance_DeepCopy_def DployInstance_DeepCopyInto_def DployInstanceSpec_DeepCopyInto_def
      DployInstanceStatus_DeepCopyInto_def copyMap_def copyConditions_def copyPtr_def copySlice_def plainMachinery_def
      demoInstance_def demoHeap_def load_def numeral_eq_Suc)

theorem deep_copies_independent_witness:
  "\<exists>h'. run_state (DployInstance_DeepCopy plainMachinery (Some 1)) demoHeap = (Some 3, h')
     \<and> valDemo h' (Some 3) = valDemo demoHeap (Some 1)
     \<and> valDemo (h'[2 := CMap Map.empty]) (Some 1) = valDemo demoHeap (Some 1)
     \<and> valDemo (h'[2 := CMap Map.empty]) (Some 3) \<noteq> valDemo demoHeap (Some 1)"
proof -
  let ?foot = "footPtr is_CInstance theInstance (footDployInstance plainReadings)"
  obtain h' where run: "run_state (DployInstance_DeepCopy plainMachinery (Some 1)) demoHeap = (Some 3, h')"
    and h': "h' = demoHeap @ [CMap (Map.empty(''tier'' \<mapsto> ''gold'')),
         CInstance (hiSpec_update (hiParams_update (\<lambda>_. Some 2)) demoInstance)]"
    using demo_run by blast
  note vals = valPtr_def footPtr_def valSlice_def footSlice_def valDployInstance_def footDployInstance_def
    valDployInstanceSpec_def footDployInstanceSpec_def valDployInstanceStatus_def footDployInstanceStatus_def
    valPair_def footPair_def load_def demoInstance_def demoHeap_def plainReadings_def numeral_eq_Suc
  obtain v where v: "valDemo demoHeap (Some 1) = Some v" by (simp add: vals)
  have i: "independentCopy (DployInstance_DeepCopy plainMachinery) valDemo ?foot"
    using deep_copies_independent [OF plain.apimachinery_axioms] by blast
  have foot: "2 \<in> ?foot h' (Some 3)" by (simp add: h' vals)
  then have "agree (- ?foot h' (Some 3) \<inter> {..<length h'}) h' (h'[2 := CMap Map.empty])"
    unfolding agree_def by (metis ComplD IntE length_list_update lessThan_iff nth_list_update_neq)
  with i v run have "valDemo h' (Some 3) = Some v" "valDemo (h'[2 := CMap Map.empty]) (Some 1) = Some v"
    unfolding independentCopy_def by blast+
  moreover have "valDemo (h'[2 := CMap Map.empty]) (Some 3) \<noteq> valDemo demoHeap (Some 1)"
    by (simp add: h' vals orEmpty_def fun_eq_iff)
  ultimately show ?thesis using run v by auto
qed

end


