(* ===== verification/Logger.thy ===== *)
theory Logger
imports Prelude
begin

text \<open>
  \<^verbatim>\<open>internal/logger/logger.go\<close>: the process-wide logger. Until \<^verbatim>\<open>Init\<close> has run the
  package variable is nil and every call is dropped, \<^verbatim>\<open>Fatal\<close> included, which then returns
  to its caller instead of ending the process. A program of a process works on the record
  \<open>process\<close>, whose further fields belong to the program, and may end early: by \<^verbatim>\<open>os.Exit\<close>
  or by a panic.
\<close>

section \<open>zap\<close>

datatype level = DebugLevel | InfoLevel | WarnLevel | ErrorLevel | FatalLevel

definition rank :: "level \<Rightarrow> nat" where
  "rank l = (case l of DebugLevel \<Rightarrow> 0 | InfoLevel \<Rightarrow> 1 | WarnLevel \<Rightarrow> 2 | ErrorLevel \<Rightarrow> 3 | FatalLevel \<Rightarrow> 4)"

record zapConfig =
  zcLevel :: level
  zcEncodeLevel :: string
  zcTimeKey :: string
  zcEncodeTime :: string

text \<open>zap's own configurations, and the error of building a logger from one.\<close>

record zap =
  newDevelopmentConfig :: zapConfig
  newProductionConfig :: zapConfig
  buildError :: "zapConfig \<Rightarrow> string option"

section \<open>A process\<close>

datatype ending = Exit nat | Panic string

record process =
  psLogger :: "zapConfig option"
  psOnce :: bool
  psOutput :: "(level \<times> string \<times> string list) list"
  psFlushed :: nat

type_synonym ('x, 'a) run = "('x process_scheme, ending + 'a) state"

definition change :: "('x process_scheme \<Rightarrow> 'x process_scheme) \<Rightarrow> ('x, unit) run" where
  "change f = State (\<lambda>p. (Inr (), f p))"

definition inspect :: "('x process_scheme \<Rightarrow> 'a) \<Rightarrow> ('x, 'a) run" where
  "inspect f = State (\<lambda>p. (Inr (f p), p))"

section \<open>The package\<close>

definition zapConfigFor :: "zap \<Rightarrow> bool \<Rightarrow> zapConfig" where
  "zapConfigFor Z debug =
     (if debug then (newDevelopmentConfig Z)\<lparr>zcLevel := DebugLevel, zcEncodeLevel := ''CapitalColorLevelEncoder''\<rparr>
      else (newProductionConfig Z)\<lparr>zcLevel := InfoLevel, zcTimeKey := ''timestamp'',
        zcEncodeTime := ''ISO8601TimeEncoder''\<rparr>)"

text \<open>\<^verbatim>\<open>log.Debugw\<close> and its siblings: a line below the level of the logger is not written.\<close>

definition writeLine :: "level \<Rightarrow> string \<Rightarrow> string list \<Rightarrow> ('x, unit) run" where
  "writeLine l msg kvs = change (\<lambda>p. case psLogger p of
     None \<Rightarrow> p
   | Some cfg \<Rightarrow> if rank (zcLevel cfg) \<le> rank l then p\<lparr>psOutput := psOutput p @ [(l, msg, kvs)]\<rparr> else p)"

definition Init :: "zap \<Rightarrow> bool \<Rightarrow> ('x, unit) run" where
  "Init Z debug = tryE (inspect psOnce) (\<lambda>done.
     if done then ok ()
     else tryE (change (\<lambda>p. p\<lparr>psOnce := True\<rparr>)) (\<lambda>_.
       let cfg = zapConfigFor Z debug in
       case buildError Z cfg of
         Some e \<Rightarrow> throw (Panic e)
       | None \<Rightarrow> tryE (change (\<lambda>p. p\<lparr>psLogger := Some cfg\<rparr>)) (\<lambda>_.
           if debug then writeLine DebugLevel ''Debug logging enabled'' [] else ok ())))"

definition Sync :: "('x, unit) run" where
  "Sync = change (\<lambda>p. case psLogger p of None \<Rightarrow> p | Some cfg \<Rightarrow> p\<lparr>psFlushed := length (psOutput p)\<rparr>)"

definition logDebug :: "string \<Rightarrow> string list \<Rightarrow> ('x, unit) run" where
  "logDebug msg kvs = tryE (inspect psLogger) (\<lambda>log.
     case log of None \<Rightarrow> ok () | Some _ \<Rightarrow> writeLine DebugLevel msg kvs)"

definition logInfo :: "string \<Rightarrow> string list \<Rightarrow> ('x, unit) run" where
  "logInfo msg kvs = tryE (inspect psLogger) (\<lambda>log.
     case log of None \<Rightarrow> ok () | Some _ \<Rightarrow> writeLine InfoLevel msg kvs)"

definition logWarn :: "string \<Rightarrow> string list \<Rightarrow> ('x, unit) run" where
  "logWarn msg kvs = tryE (inspect psLogger) (\<lambda>log.
     case log of None \<Rightarrow> ok () | Some _ \<Rightarrow> writeLine WarnLevel msg kvs)"

definition logError :: "string \<Rightarrow> string list \<Rightarrow> ('x, unit) run" where
  "logError msg kvs = tryE (inspect psLogger) (\<lambda>log.
     case log of None \<Rightarrow> ok () | Some _ \<Rightarrow> writeLine ErrorLevel msg kvs)"

definition Fatal :: "string \<Rightarrow> string list \<Rightarrow> ('x, unit) run" where
  "Fatal msg kvs = tryE (inspect psLogger) (\<lambda>log.
     case log of None \<Rightarrow> ok ()
     | Some _ \<Rightarrow> tryE (writeLine FatalLevel msg kvs) (\<lambda>_. throw (Exit 1)))"

text \<open>\<^verbatim>\<open>With\<close>: the logger with further fields, or nil.\<close>

definition With :: "string list \<Rightarrow> ('x, (zapConfig \<times> string list) option) run" where
  "With kvs = inspect (\<lambda>p. map_option (\<lambda>cfg. (cfg, kvs)) (psLogger p))"

definition L :: "('x, zapConfig option) run" where
  "L = inspect psLogger"

section \<open>Facts\<close>

definition outcome_of :: "('x, 'a) run \<Rightarrow> 'x process_scheme \<Rightarrow> ending + 'a" where
  "outcome_of m p = fst (run_state m p)"

definition after :: "('x, 'a) run \<Rightarrow> 'x process_scheme \<Rightarrow> 'x process_scheme" where
  "after m p = snd (run_state m p)"

lemma run_tryE: "run_state (tryE m f) p = (case outcome_of m p of
    Inl e \<Rightarrow> (Inl e, after m p) | Inr x \<Rightarrow> run_state (f x) (after m p))"
  by (simp add: tryE_def outcome_of_def after_def split: prod.split sum.split)

named_theorems run_simps \<open>outcome and final process of a step\<close>

lemma run_step [run_simps]:
  "outcome_of (ok x) p = Inr x" "after (ok x) p = p"
  "outcome_of (throw e) p = Inl e" "after (throw e) p = p"
  "outcome_of (change f) p = Inr ()" "after (change f) p = f p"
  "outcome_of (inspect g) p = Inr (g p)" "after (inspect g) p = p"
  by (simp_all add: outcome_of_def after_def change_def inspect_def)

lemma run_seq [run_simps]:
  "outcome_of (tryE m f) p = (case outcome_of m p of Inl e \<Rightarrow> Inl e | Inr x \<Rightarrow> outcome_of (f x) (after m p))"
  "after (tryE m f) p = (case outcome_of m p of Inl e \<Rightarrow> after m p | Inr x \<Rightarrow> after (f x) (after m p))"
  by (simp_all add: outcome_of_def [of "tryE m f"] after_def [of "tryE m f"] run_tryE)
     (simp_all add: outcome_of_def after_def split: sum.split)

lemma run_write [run_simps]: "outcome_of (writeLine l msg kvs) p = Inr ()"
  by (simp add: writeLine_def run_simps)

text \<open>No log call ends the process but \<open>Fatal\<close>, and that one only with a logger.\<close>

lemma run_log [run_simps]:
  "outcome_of (logDebug msg kvs) p = Inr ()" "outcome_of (logInfo msg kvs) p = Inr ()"
  "outcome_of (logWarn msg kvs) p = Inr ()" "outcome_of (logError msg kvs) p = Inr ()"
  "outcome_of Sync p = Inr ()"
  "outcome_of (Fatal msg kvs) p = (case psLogger p of None \<Rightarrow> Inr () | Some _ \<Rightarrow> Inl (Exit 1))"
  by (simp_all add: logDebug_def logInfo_def logWarn_def logError_def Sync_def Fatal_def run_simps split: option.split)

lemma write_keeps:
  "psLogger (after (writeLine l msg kvs) p) = psLogger p" "psOnce (after (writeLine l msg kvs) p) = psOnce p"
  "process.more (after (writeLine l msg kvs) p) = process.more p"
  by (simp_all add: writeLine_def run_simps split: option.split)

text \<open>What the log calls leave alone: the logger, and everything that is not the log.\<close>

lemma log_keeps [run_simps]:
  "psLogger (after (logDebug msg kvs) p) = psLogger p" "process.more (after (logDebug msg kvs) p) = process.more p"
  "psLogger (after (logInfo msg kvs) p) = psLogger p" "process.more (after (logInfo msg kvs) p) = process.more p"
  "psLogger (after (logWarn msg kvs) p) = psLogger p" "process.more (after (logWarn msg kvs) p) = process.more p"
  "psLogger (after (logError msg kvs) p) = psLogger p" "process.more (after (logError msg kvs) p) = process.more p"
  "psLogger (after Sync p) = psLogger p" "process.more (after Sync p) = process.more p"
  "psLogger (after (Fatal msg kvs) p) = psLogger p" "process.more (after (Fatal msg kvs) p) = process.more p"
  by (simp_all add: logDebug_def logInfo_def logWarn_def logError_def Sync_def Fatal_def run_simps write_keeps
      split: option.split)

text \<open>The first \<open>Init\<close> sets the logger or panics; a later one does nothing.\<close>

lemma run_Init [run_simps]:
  "outcome_of (Init Z debug) p = (if psOnce p then Inr ()
     else case buildError Z (zapConfigFor Z debug) of Some e \<Rightarrow> Inl (Panic e) | None \<Rightarrow> Inr ())"
  "psLogger (after (Init Z debug) p) = (if psOnce p then psLogger p
     else case buildError Z (zapConfigFor Z debug) of Some e \<Rightarrow> psLogger p | None \<Rightarrow> Some (zapConfigFor Z debug))"
  "process.more (after (Init Z debug) p) = process.more p"
  by (simp_all add: Init_def run_simps write_keeps Let_def split: option.split)

lemma init_twice: "psOnce p \<Longrightarrow> after (Init Z debug) p = p"
  by (simp add: Init_def run_simps)

lemma below_level_dropped:
  "psLogger p = Some cfg \<Longrightarrow> rank l < rank (zcLevel cfg) \<Longrightarrow> after (writeLine l msg kvs) p = p"
  by (simp add: writeLine_def run_simps)

end
