(* ===== verification/Routes.thy ===== *)
theory Routes
imports ApiProps
begin

text \<open>
  The HTTP surface of the API server: \<^verbatim>\<open>cmd/api/main.go\<close>, from \<^verbatim>\<open>fiber.New\<close> to
  the fallback route. Fiber tries what was registered in the order of registration; a middleware
  goes on with \<^verbatim>\<open>c.Next()\<close>, an endpoint answers. The table \<open>routeTable\<close> has one entry per
  registration, in the source's order, and \<open>walk\<close> runs a request through it. What decides a match,
  the CORS middleware and the file server is Fiber's own and an argument, the record \<open>router\<close>;
  the locale \<open>fiber\<close> states the one law about it the security of the table rests on.
\<close>

section \<open>The table\<close>

datatype httpMethod = GET | HEAD | POST | DELETE | OPTIONS | OtherMethod string

datatype handler =
    RecoverMiddleware
  | LoggerMiddleware
  | CorsMiddleware
  | StaticFiles string
  | AuthMiddleware
  | LoginEndpoint
  | CallbackEndpoint
  | LogoutEndpoint
  | Endpoint route

text \<open>\<open>Mounted\<close> is a prefix (\<^verbatim>\<open>Use\<close>, \<^verbatim>\<open>Group\<close>, \<^verbatim>\<open>Static\<close>), \<open>At\<close> a route pattern.\<close>

datatype place = Mounted string | At string

record entry =
  enMethods :: "httpMethod list option"
  enPlace :: place
  enHandler :: handler

definition use :: "handler \<Rightarrow> entry" where
  "use h = \<lparr>enMethods = None, enPlace = Mounted ''/'', enHandler = h\<rparr>"

definition static :: "string \<Rightarrow> string \<Rightarrow> entry" where
  "static prefix root = \<lparr>enMethods = Some [GET, HEAD], enPlace = Mounted prefix, enHandler = StaticFiles root\<rparr>"

definition group :: "string \<Rightarrow> handler \<Rightarrow> entry" where
  "group prefix h = \<lparr>enMethods = None, enPlace = Mounted prefix, enHandler = h\<rparr>"

text \<open>\<^verbatim>\<open>app.Get\<close> registers HEAD too.\<close>

definition onGet :: "string \<Rightarrow> handler \<Rightarrow> entry" where
  "onGet pattern h = \<lparr>enMethods = Some [GET, HEAD], enPlace = At pattern, enHandler = h\<rparr>"

definition onPost :: "string \<Rightarrow> handler \<Rightarrow> entry" where
  "onPost pattern h = \<lparr>enMethods = Some [POST], enPlace = At pattern, enHandler = h\<rparr>"

definition onDelete :: "string \<Rightarrow> handler \<Rightarrow> entry" where
  "onDelete pattern h = \<lparr>enMethods = Some [DELETE], enPlace = At pattern, enHandler = h\<rparr>"

definition middlewares :: "entry list" where
  "middlewares = [use RecoverMiddleware, use LoggerMiddleware, use CorsMiddleware,
     static ''/static'' ''./web/dist/static'']"

definition healthRoutes :: "entry list" where
  "healthRoutes = [onGet ''/health'' (Endpoint GetHealth), onGet ''/ready'' (Endpoint GetReady)]"

definition loginRoutes :: "entry list" where
  "loginRoutes = [onGet ''/auth/login'' LoginEndpoint, onGet ''/auth/callback'' CallbackEndpoint,
     onGet ''/auth/logout'' LogoutEndpoint]"

definition openRoutes :: "entry list" where
  "openRoutes = [
     onGet ''/api/ui-config'' (Endpoint GetUIConfig),
     onGet ''/api/environments/available'' (Endpoint GetAvailable),
     onGet ''/run/:env'' (Endpoint GetPage)]"

definition publicRoutes :: "entry list" where
  "publicRoutes = healthRoutes @ loginRoutes @ openRoutes"

text \<open>A group puts its prefix before the patterns of its routes.\<close>

definition groupRoutes :: "entry list" where
  "groupRoutes = [
     onGet (''/api'' @ ''/environments'') (Endpoint (Protected GetEnvironments)),
     onGet (''/api'' @ ''/run/:env'') (Endpoint (Protected GetRun)),
     onGet (''/api'' @ ''/run/:env/status'') (Endpoint (Protected GetRunStatus)),
     onPost (''/api'' @ ''/run/:env/extend'') (Endpoint (Protected PostExtend)),
     onDelete (''/api'' @ ''/run/:env'') (Endpoint (Protected DeleteRun)),
     onGet (''/api'' @ ''/me'') (Endpoint (Protected GetMe)),
     onGet (''/api'' @ ''/admin/instances'') (Endpoint (Protected GetAdminInstances)),
     onGet (''/api'' @ ''/admin/templates'') (Endpoint (Protected GetAdminTemplates))]"

text \<open>The login routes are there if there is a handler for them.\<close>

definition registered :: "bool \<Rightarrow> entry list" where
  "registered oidc = middlewares @ healthRoutes @ (if oidc then loginRoutes else []) @ openRoutes
     @ [group ''/api'' AuthMiddleware] @ groupRoutes @ [onGet ''/*'' (Endpoint GetPage)]"

definition routeTable :: "entry list" where
  "routeTable = registered True"

lemma routeTable_eq: "routeTable = middlewares @ publicRoutes @ [group ''/api'' AuthMiddleware] @ groupRoutes
    @ [onGet ''/*'' (Endpoint GetPage)]"
  by (simp add: routeTable_def registered_def publicRoutes_def)

lemmas public_defs = publicRoutes_def healthRoutes_def loginRoutes_def openRoutes_def

section \<open>A request on its way through it\<close>

record httpRequest =
  rqMethod :: httpMethod
  rqPath :: string
  rqAuthorization :: string
  rqQuery :: "string \<Rightarrow> string"
  rqQueryBool :: "string \<Rightarrow> bool \<Rightarrow> bool"
  rqCookies :: flowCookies

text \<open>\<open>covers\<close> and \<open>matches\<close> decide prefixes and patterns, the latter with the parameters of the
  path; \<open>preflight\<close> is the status with which CORS answers by itself, \<open>staticFile\<close> the file found,
  \<open>unmatched\<close> code and text of the \<^verbatim>\<open>fiber.Error\<close> when nothing else answers.\<close>

record router =
  covers :: "string \<Rightarrow> string \<Rightarrow> bool"
  matches :: "string \<Rightarrow> string \<Rightarrow> smap option"
  preflight :: "httpRequest \<Rightarrow> nat option"
  staticFile :: "string \<Rightarrow> string \<Rightarrow> string option"
  unmatched :: "httpMethod \<Rightarrow> string \<Rightarrow> nat \<times> string"

text \<open>The outside of the login handlers.\<close>

record loginEnv =
  leAuthCodeURL :: "string \<Rightarrow> string \<Rightarrow> string \<Rightarrow> string"
  leState :: "error + string"
  leNonce :: "error + string"
  leVerifier :: string
  leExchange :: "string \<Rightarrow> string \<Rightarrow> error + string option"
  leVerify :: verifier

datatype answer =
    Api outcome
  | Preflight nat
  | File string
  | LoginAnswer loginResponse

definition recoveredAnswer :: "answer \<Rightarrow> answer" where
  "recoveredAnswer a = (case a of Api out \<Rightarrow> Api (recovered out) | _ \<Rightarrow> a)"

text \<open>The error handler of the application, on the error of Fiber.\<close>

definition errorHandler :: "nat \<times> string \<Rightarrow> answer" where
  "errorHandler e = Api (jsonError (fst e) (snd e))"

text \<open>The parameters of the path, if the entry is for this request.\<close>

definition entryMatch :: "router \<Rightarrow> httpRequest \<Rightarrow> entry \<Rightarrow> smap option" where
  "entryMatch F rq e =
     (if (case enMethods e of None \<Rightarrow> False | Some ms \<Rightarrow> rqMethod rq \<notin> set ms) then None
      else (case enPlace e of
          Mounted prefix \<Rightarrow> if covers F prefix (rqPath rq) then Some Map.empty else None
        | At pattern \<Rightarrow> matches F pattern (rqPath rq)))"

definition incomingOf :: "httpRequest \<Rightarrow> smap \<Rightarrow> incoming" where
  "incomingOf rq params = \<lparr>inAuthorization = rqAuthorization rq, inEnv = get params ''env'',
     inQuery = rqQuery rq, inQueryBool = rqQueryBool rq\<rparr>"

text \<open>An endpoint runs with the user and claims the authentication left in the context, if it ran.\<close>

definition runEndpoint ::
  "api \<Rightarrow> verifier \<Rightarrow> Config \<Rightarrow> (string \<times> tokenClaims) option \<Rightarrow> incoming \<Rightarrow> route \<Rightarrow> outcome io" where
  "runEndpoint A verify cfg user i r =
     (case r of
        Protected p \<Rightarrow> serveProtected A cfg
          \<lparr>qUser = map_option fst user, qClaims = map_option snd user, qEnv = inEnv i, qQuery = inQuery i,
           qQueryBool = inQueryBool i\<rparr> p
      | _ \<Rightarrow> dispatch A verify cfg i r)"

fun walk ::
  "router \<Rightarrow> loginEnv \<Rightarrow> api \<Rightarrow> verifier \<Rightarrow> Config \<Rightarrow> httpRequest \<Rightarrow> (string \<times> tokenClaims) option
   \<Rightarrow> entry list \<Rightarrow> answer io" where
  "walk F E A verify cfg rq user [] = give (errorHandler (unmatched F (rqMethod rq) (rqPath rq)))"
| "walk F E A verify cfg rq user (e # es) =
     (case entryMatch F rq e of
        None \<Rightarrow> walk F E A verify cfg rq user es
      | Some params \<Rightarrow>
          (case enHandler e of
             RecoverMiddleware \<Rightarrow> do {
               a \<leftarrow> walk F E A verify cfg rq user es; give (recoveredAnswer a) }
           | LoggerMiddleware \<Rightarrow> walk F E A verify cfg rq user es
           | CorsMiddleware \<Rightarrow> (case preflight F rq of
               Some status \<Rightarrow> give (Preflight status)
             | None \<Rightarrow> walk F E A verify cfg rq user es)
           | StaticFiles root \<Rightarrow> (case staticFile F root (rqPath rq) of
               Some f \<Rightarrow> give (File f)
             | None \<Rightarrow> walk F E A verify cfg rq user es)
           | AuthMiddleware \<Rightarrow> (case Middleware verify (JWTUsernameClaim cfg) (rqAuthorization rq) of
               Inl msg \<Rightarrow> give (Api (jsonError 401 msg))
             | Inr u \<Rightarrow> walk F E A verify cfg rq (Some u) es)
           | LoginEndpoint \<Rightarrow> give (LoginAnswer (snd
               (Login (leAuthCodeURL E) (rqQuery rq ''returnUrl'') (leState E) (leNonce E) (leVerifier E))))
           | CallbackEndpoint \<Rightarrow> give (LoginAnswer
               (Callback (leExchange E) (leVerify E) (rqCookies rq) (rqQuery rq)))
           | LogoutEndpoint \<Rightarrow> give (LoginAnswer Logout)
           | Endpoint r \<Rightarrow> do {
               out \<leftarrow> runEndpoint A verify cfg user (incomingOf rq params) r; give (Api out) }))"

definition handleRequest ::
  "router \<Rightarrow> loginEnv \<Rightarrow> api \<Rightarrow> verifier \<Rightarrow> Config \<Rightarrow> httpRequest \<Rightarrow> answer io" where
  "handleRequest F E A verify cfg rq = walk F E A verify cfg rq None routeTable"

section \<open>The same, decided at once\<close>

text \<open>Which registration answers a request that no middleware stops: the first that matches.\<close>

fun firstMatch :: "router \<Rightarrow> httpRequest \<Rightarrow> entry list \<Rightarrow> (handler \<times> smap) option" where
  "firstMatch F rq [] = None"
| "firstMatch F rq (e # es) = (case entryMatch F rq e of
     None \<Rightarrow> firstMatch F rq es | Some params \<Rightarrow> Some (enHandler e, params))"


definition pageFallback :: "router \<Rightarrow> httpRequest \<Rightarrow> answer" where
  "pageFallback F rq = (case entryMatch F rq (onGet ''/*'' (Endpoint GetPage)) of
     Some params \<Rightarrow> Api (Responded 200 IndexPage)
   | None \<Rightarrow> errorHandler (unmatched F (rqMethod rq) (rqPath rq)))"

text \<open>What answers before any route is tried.\<close>

definition intercepted :: "router \<Rightarrow> httpRequest \<Rightarrow> answer option" where
  "intercepted F rq = (case preflight F rq of
     Some status \<Rightarrow> Some (Preflight status)
   | None \<Rightarrow> (case entryMatch F rq (static ''/static'' ''./web/dist/static'') of
       None \<Rightarrow> None
     | Some params \<Rightarrow> map_option File (staticFile F ''./web/dist/static'' (rqPath rq))))"

definition runHandler ::
  "loginEnv \<Rightarrow> api \<Rightarrow> verifier \<Rightarrow> Config \<Rightarrow> httpRequest \<Rightarrow> handler \<times> smap \<Rightarrow> answer io" where
  "runHandler E A verify cfg rq m = (case fst m of
     LoginEndpoint \<Rightarrow> give (LoginAnswer (snd
       (Login (leAuthCodeURL E) (rqQuery rq ''returnUrl'') (leState E) (leNonce E) (leVerifier E))))
   | CallbackEndpoint \<Rightarrow> give (LoginAnswer (Callback (leExchange E) (leVerify E) (rqCookies rq) (rqQuery rq)))
   | LogoutEndpoint \<Rightarrow> give (LoginAnswer Logout)
   | Endpoint r \<Rightarrow> do { out \<leftarrow> serve A verify cfg (incomingOf rq (snd m)) r; give (Api out) }
   | _ \<Rightarrow> give (Api Panicked))"

definition decided ::
  "router \<Rightarrow> loginEnv \<Rightarrow> api \<Rightarrow> verifier \<Rightarrow> Config \<Rightarrow> httpRequest \<Rightarrow> answer io" where
  "decided F E A verify cfg rq =
     (case intercepted F rq of Some a \<Rightarrow> give a
      | None \<Rightarrow> (case firstMatch F rq publicRoutes of
          Some m \<Rightarrow> runHandler E A verify cfg rq m
        | None \<Rightarrow>
            if \<not> covers F ''/api'' (rqPath rq) then give (pageFallback F rq)
            else (case Middleware verify (JWTUsernameClaim cfg) (rqAuthorization rq) of
                Inl msg \<Rightarrow> give (Api (jsonError 401 msg))
              | Inr u \<Rightarrow> (case firstMatch F rq groupRoutes of
                  Some m \<Rightarrow> runHandler E A verify cfg rq m
                | None \<Rightarrow> give (pageFallback F rq)))))"

text \<open>The law of Fiber the table relies on: \<^verbatim>\<open>Use\<close> at the root sees every request, and a group sees
  every request that a route below its prefix matches.\<close>

locale fiber =
  fixes F :: router
  assumes root_covers: "covers F ''/'' path"
    and group_covers: "matches F (''/api'' @ CHR ''/'' # pattern) path = Some params \<Longrightarrow> covers F ''/api'' path"
begin

lemma api_patterns_covered:
  assumes "\<not> covers F ''/api'' (rqPath rq)"
  shows "entryMatch F rq (onGet (''/api'' @ CHR ''/'' # pattern) h) = None"
    "entryMatch F rq (onPost (''/api'' @ CHR ''/'' # pattern) h) = None"
    "entryMatch F rq (onDelete (''/api'' @ CHR ''/'' # pattern) h) = None"
  using assms group_covers [of pattern "rqPath rq"]
  by (cases "matches F (''/api'' @ CHR ''/'' # pattern) (rqPath rq)";
      auto simp: entryMatch_def onGet_def onPost_def onDelete_def)+

lemma no_group_route:
  assumes "\<not> covers F ''/api'' (rqPath rq)"
  shows "firstMatch F rq groupRoutes = None"
  using api_patterns_covered [OF assms] by (simp add: groupRoutes_def)

end

text \<open>An endpoint of a list answers as \<open>runHandler\<close> does, behind the recover middleware.\<close>

definition recovering :: "answer io \<Rightarrow> answer io" where
  "recovering m = do { a \<leftarrow> m; give (recoveredAnswer a) }"

lemma recovering_give: "recovering (give a) = give (recoveredAnswer a)"
  by (simp add: recovering_def)


text \<open>With the user the middleware accepted, an endpoint is served as its route is.\<close>

lemma runEndpoint_dispatch:
  assumes "case r of Protected p \<Rightarrow> \<exists>u. user = Some u
      \<and> Middleware verify (JWTUsernameClaim cfg) (inAuthorization i) = Inr u | _ \<Rightarrow> True"
  shows "runEndpoint A verify cfg user i r = dispatch A verify cfg i r"
  using assms by (cases r) (auto simp: runEndpoint_def dispatch_def)

definition answersItself :: "handler \<Rightarrow> bool" where
  "answersItself h \<longleftrightarrow> (case h of LoginEndpoint \<Rightarrow> True | CallbackEndpoint \<Rightarrow> True | LogoutEndpoint \<Rightarrow> True
     | Endpoint r \<Rightarrow> True | _ \<Rightarrow> False)"

definition open_to :: "verifier \<Rightarrow> Config \<Rightarrow> httpRequest \<Rightarrow> (string \<times> tokenClaims) option \<Rightarrow> handler \<Rightarrow> bool" where
  "open_to verify cfg rq user h \<longleftrightarrow> (case h of
     Endpoint (Protected p) \<Rightarrow> \<exists>u. user = Some u
       \<and> Middleware verify (JWTUsernameClaim cfg) (rqAuthorization rq) = Inr u | _ \<Rightarrow> True)"

lemma recovering_endpoint:
  assumes "answersItself h" and "open_to verify cfg rq user h" and "entryMatch F rq e = Some params"
    and "enHandler e = h"
  shows "recovering (walk F E A verify cfg rq user (e # es)) = runHandler E A verify cfg rq (h, params)"
proof (cases h)
  case (Endpoint r)
  have "runEndpoint A verify cfg user (incomingOf rq params) r = dispatch A verify cfg (incomingOf rq params) r"
    using assms(2) Endpoint by (intro runEndpoint_dispatch) (auto simp: open_to_def incomingOf_def split: route.splits)
  then show ?thesis
    using assms(3,4) Endpoint by (simp add: recovering_def runHandler_def serve_def recoveredAnswer_def)
qed (use assms in \<open>auto simp: answersItself_def recovering_def runHandler_def recoveredAnswer_def\<close>)

lemma walk_skip: "entryMatch F rq e = None \<Longrightarrow> walk F E A verify cfg rq user (e # es) = walk F E A verify cfg rq user es"
  by simp

lemma walk_endpoints:
  assumes "list_all (\<lambda>e. answersItself (enHandler e) \<and> open_to verify cfg rq user (enHandler e)) es"
  shows "recovering (walk F E A verify cfg rq user (es @ rest)) =
     (case firstMatch F rq es of
        Some m \<Rightarrow> runHandler E A verify cfg rq m
      | None \<Rightarrow> recovering (walk F E A verify cfg rq user rest))"
  using assms
proof (induction es)
  case (Cons e es)
  then show ?case
    by (cases "entryMatch F rq e") (simp_all del: walk.simps add: recovering_endpoint walk_skip)
qed simp


lemma entryMatch_all: "enMethods e = None \<Longrightarrow> enPlace e = Mounted p \<Longrightarrow>
    entryMatch F rq e = (if covers F p (rqPath rq) then Some Map.empty else None)"
  by (simp add: entryMatch_def)

lemma public_open:
  "list_all (\<lambda>e. answersItself (enHandler e) \<and> open_to verify cfg rq user (enHandler e)) publicRoutes"
  by (simp add: public_defs onGet_def answersItself_def open_to_def)

lemma group_open:
  assumes "Middleware verify (JWTUsernameClaim cfg) (rqAuthorization rq) = Inr u"
  shows "list_all (\<lambda>e. answersItself (enHandler e) \<and> open_to verify cfg rq (Some u) (enHandler e)) groupRoutes"
  using assms by (simp add: groupRoutes_def onGet_def onPost_def onDelete_def answersItself_def open_to_def)

lemma walk_fallback:
  "recovering (walk F E A verify cfg rq user [onGet ''/*'' (Endpoint GetPage)]) = give (pageFallback F rq)"
  by (cases "entryMatch F rq (onGet ''/*'' (Endpoint GetPage))")
     (auto simp: pageFallback_def recovering_def onGet_def runEndpoint_def dispatch_def recoveredAnswer_def
       recovered_def errorHandler_def jsonError_def)

text \<open>What the rest of the table does once no public route has answered.\<close>

lemma enHandler_use: "enHandler (use h) = h"
  by (simp add: use_def)

lemma enHandler_static: "enHandler (static prefix root) = StaticFiles root"
  by (simp add: static_def)

context fiber begin

lemma walk_group:
  "recovering (walk F E A verify cfg rq None
       ([group ''/api'' AuthMiddleware] @ groupRoutes @ [onGet ''/*'' (Endpoint GetPage)])) =
     (if \<not> covers F ''/api'' (rqPath rq) then give (pageFallback F rq)
      else (case Middleware verify (JWTUsernameClaim cfg) (rqAuthorization rq) of
          Inl msg \<Rightarrow> give (Api (jsonError 401 msg))
        | Inr u \<Rightarrow> (case firstMatch F rq groupRoutes of
            Some m \<Rightarrow> runHandler E A verify cfg rq m
          | None \<Rightarrow> give (pageFallback F rq))))"
proof (cases "covers F ''/api'' (rqPath rq)")
  case False
  then have "entryMatch F rq (group ''/api'' AuthMiddleware) = None"
    by (simp add: entryMatch_def group_def)
  then have "walk F E A verify cfg rq None
      ([group ''/api'' AuthMiddleware] @ groupRoutes @ [onGet ''/*'' (Endpoint GetPage)])
    = walk F E A verify cfg rq None (groupRoutes @ [onGet ''/*'' (Endpoint GetPage)])"
    by simp
  moreover have "walk F E A verify cfg rq None (groupRoutes @ rest) = walk F E A verify cfg rq None rest" for rest
    using api_patterns_covered [OF False] by (simp add: groupRoutes_def del: walk.simps add: walk_skip)
  ultimately show ?thesis using False by (simp only: walk_fallback if_True simp_thms)
next
  case True
  then have m: "entryMatch F rq (group ''/api'' AuthMiddleware) = Some Map.empty"
    by (simp add: entryMatch_def group_def)
  show ?thesis
  proof (cases "Middleware verify (JWTUsernameClaim cfg) (rqAuthorization rq)")
    case (Inl msg)
    with True m show ?thesis
      by (simp add: group_def recovering_def recoveredAnswer_def recovered_def jsonError_def)
  next
    case (Inr u)
    have "walk F E A verify cfg rq None
        ([group ''/api'' AuthMiddleware] @ groupRoutes @ [onGet ''/*'' (Endpoint GetPage)])
      = walk F E A verify cfg rq (Some u) (groupRoutes @ [onGet ''/*'' (Endpoint GetPage)])"
      using m Inr by (simp add: group_def)
    then show ?thesis
      using True Inr by (simp only: walk_endpoints [OF group_open [OF Inr]] walk_fallback) simp
  qed
qed

lemma use_match: "entryMatch F rq (use h) = Some Map.empty"
  by (simp add: entryMatch_def use_def root_covers)

text \<open>The chain of registrations, and what it decides.\<close>

lemma handleRequest_decided: "handleRequest F E A verify cfg rq = decided F E A verify cfg rq"
proof -
  let ?rest = "publicRoutes @ [group ''/api'' AuthMiddleware] @ groupRoutes @ [onGet ''/*'' (Endpoint GetPage)]"
  have "handleRequest F E A verify cfg rq = (case intercepted F rq of Some a \<Rightarrow> give a
      | None \<Rightarrow> recovering (walk F E A verify cfg rq None ?rest))"
    by (cases "entryMatch F rq (static ''/static'' ''./web/dist/static'')")
      (auto simp: handleRequest_def routeTable_eq middlewares_def use_match intercepted_def recovering_def
        recoveredAnswer_def enHandler_use enHandler_static split: option.split)
  then show ?thesis
    by (simp only: walk_endpoints [OF public_open] walk_group decided_def)
qed

end

section \<open>What a request can do\<close>

lemma logged_give: "logged (give x) h = h"
  by (simp add: logged_def)

lemma logged_answer: "logged (do { out \<leftarrow> m; give (f out) }) h = logged m h"
  by (simp add: logged_def split: prod.split)

lemma serve_no_panic: "returned (serve A verify cfg i r) h \<noteq> Panicked"
  by (simp add: serve_def returned_def recovered_def jsonError_def split: prod.split outcome.split)

text \<open>Every matching endpoint is one of its table.\<close>

lemma firstMatch_in: "firstMatch F rq es = Some m \<Longrightarrow> fst m \<in> enHandler ` set es"
  by (induction es) (auto split: option.splits)

definition withinRights :: "verifier \<Rightarrow> Config \<Rightarrow> httpRequest \<Rightarrow> answer io \<Rightarrow> bool" where
  "withinRights verify cfg rq m \<longleftrightarrow> (\<exists>i r. inAuthorization i = rqAuthorization rq
     \<and> all_steps (servedCall verify cfg i r) [] (logged m []))"

lemma withinRights_give: "withinRights verify cfg rq (give a)"
  unfolding withinRights_def
  by (intro exI [of _ "incomingOf rq Map.empty"] exI) (simp add: incomingOf_def logged_give)

lemma withinRights_endpoint:
  assumes "answersItself (fst m)"
  shows "withinRights verify cfg rq (runHandler E A verify cfg rq m)"
proof (cases "fst m")
  case (Endpoint r)
  have "all_steps (servedCall verify cfg (incomingOf rq (snd m)) r) []
      (logged (serve A verify cfg (incomingOf rq (snd m)) r) [])"
    by (rule api_run.steps)
  then show ?thesis
    unfolding withinRights_def
    by (intro exI [of _ "incomingOf rq (snd m)"] exI [of _ r])
      (simp add: runHandler_def Endpoint logged_answer incomingOf_def)
qed (use assms in \<open>auto simp: answersItself_def runHandler_def withinRights_give\<close>)

lemma decided_cases:
  assumes "\<And>a. P (give a)"
    and "\<And>m. firstMatch F rq publicRoutes = Some m \<Longrightarrow> P (runHandler E A verify cfg rq m)"
    and "\<And>m u. Middleware verify (JWTUsernameClaim cfg) (rqAuthorization rq) = Inr u
        \<Longrightarrow> firstMatch F rq groupRoutes = Some m \<Longrightarrow> P (runHandler E A verify cfg rq m)"
  shows "P (decided F E A verify cfg rq)"
  using assms by (auto simp: decided_def split: option.split sum.split)

lemma public_endpoints: "firstMatch F rq publicRoutes = Some m \<Longrightarrow> answersItself (fst m) \<and> (\<forall>p. fst m \<noteq> Endpoint (Protected p))"
  using firstMatch_in [of F rq publicRoutes m] by (auto simp: public_defs onGet_def answersItself_def)

lemma group_endpoints: "firstMatch F rq groupRoutes = Some m \<Longrightarrow> answersItself (fst m)"
  using firstMatch_in [of F rq groupRoutes m]
  by (auto simp: groupRoutes_def onGet_def onPost_def onDelete_def answersItself_def)

text \<open>Without a token an endpoint of the public table reads the catalog or nothing.\<close>

lemma public_reads_catalog:
  assumes "firstMatch F rq publicRoutes = Some m" and "e \<in> set (logged (runHandler E A verify cfg rq m) [])"
  shows "\<exists>ns reply. e = EListTemplates ns reply"
proof (cases "fst m")
  case (Endpoint r)
  have "all_steps (servedCall verify cfg (incomingOf rq (snd m)) r) []
      (logged (serve A verify cfg (incomingOf rq (snd m)) r) [])"
    by (rule api_run.steps)
  moreover have "r \<noteq> Protected p" for p using public_endpoints [OF assms(1)] Endpoint by blast
  ultimately have "all_steps (\<lambda>_ e. \<exists>ns reply. e = EListTemplates ns reply) []
      (logged (serve A verify cfg (incomingOf rq (snd m)) r) [])"
    by (elim all_steps_mono) (cases r; auto simp: servedCall_def)
  then show ?thesis
    using assms(2) by (simp add: all_steps_const runHandler_def Endpoint logged_answer)
qed (use assms public_endpoints [OF assms(1)] in \<open>auto simp: runHandler_def logged_give answersItself_def\<close>)

section \<open>Matching by segments\<close>

text \<open>Fiber's documented matching, for the examples: a segment \<^verbatim>\<open>:name\<close> binds one segment of the
  path, \<^verbatim>\<open>*\<close> the rest; a prefix is one of the string; a closing slash is ignored.\<close>

fun splitSlash :: "string \<Rightarrow> string list" where
  "splitSlash [] = [[]]"
| "splitSlash (c # s) = (if c = CHR ''/'' then [] # splitSlash s
     else (case splitSlash s of [] \<Rightarrow> [[c]] | x # xs \<Rightarrow> (c # x) # xs))"

fun matchSegments :: "string list \<Rightarrow> string list \<Rightarrow> smap option" where
  "matchSegments [] ss = (if ss = [] \<or> ss = [[]] then Some Map.empty else None)"
| "matchSegments (p # ps) ss =
     (if p = ''*'' then Some Map.empty
      else (case ss of
          [] \<Rightarrow> None
        | s # ss' \<Rightarrow>
            if p \<noteq> [] \<and> hd p = CHR '':'' then
              (if s = [] then None else map_option (\<lambda>m. m(tl p \<mapsto> s)) (matchSegments ps ss'))
            else if p = s then matchSegments ps ss' else None))"

definition segmentRouter :: router where
  "segmentRouter = \<lparr>covers = (\<lambda>prefix path. prefix = ''/'' \<or> hasPrefix prefix path), matches = (\<lambda>pattern path. matchSegments (splitSlash pattern) (splitSlash path)),
     preflight = (\<lambda>rq. if rqMethod rq = OPTIONS then Some 204 else None), staticFile = (\<lambda>root path. None),
     unmatched = (\<lambda>m path. (404, ''Cannot serve '' @ path))\<rparr>"

lemma splitSlash_ne: "splitSlash s \<noteq> []"
  by (induction s) (auto split: list.splits)

text \<open>A path whose second segment is \<^verbatim>\<open>api\<close> begins with it.\<close>

lemma splitSlash_hd: "hasPrefix (hd (splitSlash s)) s"
proof (induction s)
  case (Cons c s)
  then show ?case
    using splitSlash_ne [of s] by (cases "splitSlash s") (auto simp: hasPrefix_def)
qed (simp add: hasPrefix_def)

lemma second_segment:
  assumes "splitSlash path = [] # x # xs"
  shows "hasPrefix (CHR ''/'' # x) path"
proof (cases path)
  case (Cons c s)
  with assms have "c = CHR ''/''" "splitSlash s = x # xs"
    by (auto split: if_splits list.splits)
  then show ?thesis using splitSlash_hd [of s] Cons by (simp add: hasPrefix_def)
qed (use assms in simp)

interpretation segments: fiber segmentRouter
proof
  fix path
  show "covers segmentRouter ''/'' path" by (simp add: segmentRouter_def)
next
  fix pattern path params
  assume "matches segmentRouter (''/api'' @ CHR ''/'' # pattern) path = Some params"
  then obtain xs where "splitSlash path = [] # ''api'' # xs"
    by (auto simp: segmentRouter_def split: list.splits if_splits)
  then show "covers segmentRouter ''/api'' path"
    using second_segment by (simp add: segmentRouter_def)
qed

definition sampleRequest :: "httpMethod \<Rightarrow> string \<Rightarrow> string \<Rightarrow> httpRequest" where
  "sampleRequest m path authorization = \<lparr>rqMethod = m, rqPath = path, rqAuthorization = authorization,
     rqQuery = (\<lambda>_. []), rqQueryBool = (\<lambda>_ b. b),
     rqCookies = \<lparr>ckState = [], ckVerifier = [], ckNonce = [], ckReturn = []\<rparr>\<rparr>"

text \<open>Accepts every token as one whose claims all read \<^verbatim>\<open>alice\<close>.\<close>

definition aliceVerifier :: verifier where
  "aliceVerifier token = Inr \<lparr>idNonce = [], idClaims = Inr (\<lambda>_. Some (JString ''alice''))\<rparr>"

lemmas routing_defs = intercepted_def entryMatch_def segmentRouter_def sampleRequest_def static_def onGet_def
  onPost_def onDelete_def public_defs groupRoutes_def hasPrefix_def

lemma sample_routing:
  "intercepted segmentRouter (sampleRequest GET ''/api/run/web/status'' ''Bearer t'') = None"
  "firstMatch segmentRouter (sampleRequest GET ''/api/run/web/status'' ''Bearer t'') publicRoutes = None"
  "firstMatch segmentRouter (sampleRequest GET ''/api/run/web/status'' ''Bearer t'') groupRoutes
     = Some (Endpoint (Protected GetRunStatus), [''env'' \<mapsto> ''web''])"
  "intercepted segmentRouter (sampleRequest POST ''/api/run/web/extend'' []) = None"
  "firstMatch segmentRouter (sampleRequest POST ''/api/run/web/extend'' []) publicRoutes = None"
  "covers segmentRouter ''/api'' ''/api/run/web/status''" "covers segmentRouter ''/api'' ''/api/run/web/extend''"
  by (simp_all add: routing_defs)

lemma alice_passes:
  "Middleware aliceVerifier claim ''Bearer t'' = Inr (''alice'', \<lambda>_. Some (JString ''alice''))"
proof -
  have "SanitizeUsername ''alice'' = ''alice''" by code_simp
  then show ?thesis by (simp add: Middleware_def trimPrefix_def aliceVerifier_def Validate_def Let_def)
qed

lemma sampleRequest_fields [simp]:
  "rqPath (sampleRequest m p t) = p" "rqAuthorization (sampleRequest m p t) = t"
  "incomingOf (sampleRequest m p t) params = \<lparr>inAuthorization = t, inEnv = get params ''env'',
     inQuery = (\<lambda>_. []), inQueryBool = (\<lambda>_ b. b)\<rparr>"
  by (simp_all add: sampleRequest_def incomingOf_def)

section \<open>Properties\<close>

text \<open>C27. The chain of registrations is the decision it was written for. Whatever the request, it is
  answered by CORS or the file server if they take it; else by the first public route that matches,
  exactly as that route is served; else, under the prefix of the API, with a 401 unless the token is
  valid, and then by the first route of the group that matches, served for the user of that token;
  and by the page otherwise. No registration shadows another in any other way.\<close>

theorem requests_reach_their_route:
  assumes "fiber F"
  shows "handleRequest F E A verify cfg rq = decided F E A verify cfg rq"
  by (rule fiber.handleRequest_decided [OF assms])

theorem requests_reach_their_route_witness:
  "\<forall>E A cfg. handleRequest segmentRouter E A aliceVerifier cfg (sampleRequest GET ''/api/run/web/status'' ''Bearer t'')
     = do { out \<leftarrow> serve A aliceVerifier cfg
              \<lparr>inAuthorization = ''Bearer t'', inEnv = ''web'', inQuery = (\<lambda>_. []), inQueryBool = (\<lambda>_ b. b)\<rparr>
              (Protected GetRunStatus);
            give (Api out) }"
  unfolding requests_reach_their_route [OF segments.fiber_axioms]
  by (simp add: decided_def sample_routing alice_passes runHandler_def)

text \<open>C6. Every request stays within the rights of its token. Whatever path, method and headers it
  comes with, its calls are those that the guard of some route allows with this authorization; a
  request without a valid token reads at most the catalog of templates, and if its path is under the
  prefix of the API and no public route matches, it is answered 401 without a single call.\<close>

theorem no_token_no_access:
  assumes "fiber F"
  shows "(\<exists>i r. inAuthorization i = rqAuthorization rq
        \<and> all_steps (servedCall verify cfg i r) [] (logged (handleRequest F E A verify cfg rq) []))
    \<and> (Middleware verify (JWTUsernameClaim cfg) (rqAuthorization rq) = Inl msg \<longrightarrow>
        (\<forall>e\<in>set (logged (handleRequest F E A verify cfg rq) []). \<exists>ns reply. e = EListTemplates ns reply)
        \<and> (covers F ''/api'' (rqPath rq) \<and> intercepted F rq = None \<and> firstMatch F rq publicRoutes = None \<longrightarrow>
            run_state (handleRequest F E A verify cfg rq) [] = (Api (jsonError 401 msg), [])))"
proof -
  let ?run = "decided F E A verify cfg rq"
  let ?catalog = "\<lambda>m. \<forall>e\<in>set (logged m []). \<exists>ns reply. e = EListTemplates ns reply"
  have "withinRights verify cfg rq ?run"
    by (rule decided_cases) (auto simp: withinRights_give withinRights_endpoint public_endpoints group_endpoints)
  moreover have "?catalog ?run" if "Middleware verify (JWTUsernameClaim cfg) (rqAuthorization rq) = Inl msg"
    by (rule decided_cases) (auto simp: logged_give that dest: public_reads_catalog)
  moreover have "run_state ?run [] = (Api (jsonError 401 msg), [])"
    if "Middleware verify (JWTUsernameClaim cfg) (rqAuthorization rq) = Inl msg"
      "covers F ''/api'' (rqPath rq)" "intercepted F rq = None" "firstMatch F rq publicRoutes = None"
    using that by (simp add: decided_def)
  ultimately show ?thesis
    by (simp add: fiber.handleRequest_decided [OF assms] withinRights_def)
qed

theorem no_token_no_access_witness:
  "\<forall>E A cfg. run_state (handleRequest segmentRouter E A aliceVerifier cfg (sampleRequest POST ''/api/run/web/extend'' [])) []
     = (Api (jsonError 401 ''Missing Authorization header''), [])"
proof (intro allI)
  fix E A cfg
  show "run_state (handleRequest segmentRouter E A aliceVerifier cfg (sampleRequest POST ''/api/run/web/extend'' [])) []
     = (Api (jsonError 401 ''Missing Authorization header''), [])"
    using no_token_no_access [OF segments.fiber_axioms, of "sampleRequest POST ''/api/run/web/extend'' []"
        aliceVerifier cfg E A "''Missing Authorization header''"] sample_routing
    by (simp add: Middleware_def)
qed

end
