(* ===== verification/OidcSetup.thy ===== *)
theory OidcSetup
imports Auth
begin

text \<open>
  The rest of \<^verbatim>\<open>internal/auth/oidc.go\<close>: how the login handler is built from the
  provider's discovery document, with retries and with two addresses of one provider (an in-cluster
  one and a public one), and the random values and cookies of a login flow. Discovery, URL parsing
  of the issuers and the random bytes are arguments; a browser is modelled by what it does with a
  cookie's lifetime and \<^verbatim>\<open>Secure\<close> attribute.
\<close>

section \<open>Discovery\<close>

definition discoveryAttempts :: nat where "discoveryAttempts = 5"

text \<open>\<open>discover i\<close> is the outcome of attempt \<open>i\<close>. The result comes with the delays slept.\<close>

function providerLoop :: "(nat \<Rightarrow> error + 'p) \<Rightarrow> nat \<Rightarrow> Duration \<Rightarrow> (error + 'p) \<times> Duration list" where
  "providerLoop discover i delay =
     (case discover i of
        Inr provider \<Rightarrow> (Inr provider, [])
      | Inl e \<Rightarrow>
          if i \<ge> discoveryAttempts then (Inl e, [])
          else (case providerLoop discover (i + 1) (if delay < 4 * second then delay * 2 else delay) of
              (r, slept) \<Rightarrow> (r, delay # slept)))"
  by pat_completeness auto

termination
  by (relation "measure (\<lambda>(discover, i, delay). discoveryAttempts - i)") auto

declare providerLoop.simps [simp del]

definition newProviderWithRetry :: "(nat \<Rightarrow> error + 'p) \<Rightarrow> (error + 'p) \<times> Duration list" where
  "newProviderWithRetry discover = providerLoop discover 1 (500 * millisecond)"

section \<open>Two addresses of one provider\<close>

text \<open>\<open>parse\<close> yields scheme and host, or the parse error.\<close>

definition extractBaseURL :: "(string \<Rightarrow> (string \<times> string) option) \<Rightarrow> string \<Rightarrow> string" where
  "extractBaseURL parse rawURL =
     (case parse rawURL of None \<Rightarrow> rawURL | Some (scheme, host) \<Rightarrow> scheme @ ''://'' @ host)"

text \<open>\<^verbatim>\<open>strings.Replace(s, old, new, 1)\<close>.\<close>

fun replaceFirst :: "string \<Rightarrow> string \<Rightarrow> string \<Rightarrow> string" where
  "replaceFirst old new s =
     (if hasPrefix old s then new @ drop (length old) s
      else (case s of [] \<Rightarrow> [] | c # t \<Rightarrow> c # replaceFirst old new t))"

declare replaceFirst.simps [simp del]

text \<open>The two addresses of a discovery document that the code looks at.\<close>

record Endpoint =
  AuthURL :: string
  TokenURL :: string

definition rebaseAuth :: "string \<Rightarrow> string \<Rightarrow> string \<Rightarrow> string" where
  "rebaseAuth internalBase publicBase u =
     (if hasPrefix publicBase u then u
      else if hasPrefix internalBase u then replaceFirst internalBase publicBase u
      else u)"

definition rebaseToken :: "string \<Rightarrow> string \<Rightarrow> string \<Rightarrow> string" where
  "rebaseToken internalBase publicBase u =
     (if hasPrefix publicBase u then replaceFirst publicBase internalBase u else u)"

text \<open>An ID token is checked against the discovered keys, or against a key set of its own for an
  issuer; in both cases for a client.\<close>

datatype idTokenVerifier = ProviderVerifier string | KeySetVerifier string string string

record OIDCHandler =
  oauthClientID :: string
  oauthClientSecret :: string
  oauthRedirectURL :: string
  oauthEndpoint :: Endpoint
  oauthScopes :: "string list"
  oidcVerifier :: idTokenVerifier
  secureCookie :: bool

definition splitHorizon :: "Config \<Rightarrow> bool" where
  "splitHorizon cfg \<longleftrightarrow> OIDCPublicIssuer cfg \<noteq> [] \<and> OIDCPublicIssuer cfg \<noteq> OIDCIssuer cfg"

definition expectedIssuer :: "Config \<Rightarrow> string" where
  "expectedIssuer cfg = (if splitHorizon cfg then OIDCPublicIssuer cfg else OIDCIssuer cfg)"

definition handlerEndpoint ::
  "(string \<Rightarrow> (string \<times> string) option) \<Rightarrow> Config \<Rightarrow> Endpoint \<Rightarrow> Endpoint" where
  "handlerEndpoint parse cfg ep =
     (if splitHorizon cfg
      then (let internalBase = extractBaseURL parse (OIDCIssuer cfg);
                publicBase = extractBaseURL parse (OIDCPublicIssuer cfg) in
        \<lparr>AuthURL = rebaseAuth internalBase publicBase (AuthURL ep),
         TokenURL = rebaseToken internalBase publicBase (TokenURL ep)\<rparr>)
      else ep)"

definition handlerVerifier :: "Config \<Rightarrow> idTokenVerifier" where
  "handlerVerifier cfg =
     (if splitHorizon cfg \<and> JWKSUrl cfg \<noteq> []
      then KeySetVerifier (expectedIssuer cfg) (JWKSUrl cfg) (OIDCClientID cfg)
      else ProviderVerifier (OIDCClientID cfg))"

text \<open>\<open>discover issuer url i\<close> fetches the document from \<open>url\<close> and expects it to name \<open>issuer\<close>.\<close>

definition NewOIDCHandler ::
  "(string \<Rightarrow> (string \<times> string) option) \<Rightarrow> (string \<Rightarrow> string \<Rightarrow> nat \<Rightarrow> error + Endpoint) \<Rightarrow> Config
   \<Rightarrow> (error + OIDCHandler) \<times> Duration list" where
  "NewOIDCHandler parse discover cfg =
     (case newProviderWithRetry (discover (expectedIssuer cfg) (OIDCIssuer cfg)) of
        (Inl e, slept) \<Rightarrow> (Inl (wrapErr (''OIDC discovery against '' @ OIDCIssuer cfg) e), slept)
      | (Inr endpoint, slept) \<Rightarrow>
          (Inr \<lparr>oauthClientID = OIDCClientID cfg, oauthClientSecret = OIDCClientSecret cfg,
             oauthRedirectURL = OIDCRedirectURL cfg, oauthEndpoint = handlerEndpoint parse cfg endpoint,
             oauthScopes = OIDCScopes cfg, oidcVerifier = handlerVerifier cfg,
             secureCookie = (\<not> hasPrefix ''http://'' (OIDCRedirectURL cfg))\<rparr>, slept))"

section \<open>Random values and cookies\<close>

text \<open>\<^verbatim>\<open>base64.RawURLEncoding\<close>: three bytes are four characters, and there is no padding.\<close>

definition b64Char :: "nat \<Rightarrow> char" where
  "b64Char n = ''ABCDEFGHIJKLMNOPQRSTUVWXYZabcdefghijklmnopqrstuvwxyz0123456789-_'' ! (n mod 64)"

fun rawURLEncode :: "8 word list \<Rightarrow> string" where
  "rawURLEncode [] = []"
| "rawURLEncode [a] = map b64Char [unat a div 4, unat a mod 4 * 16]"
| "rawURLEncode [a, b] =
     map b64Char [unat a div 4, unat a mod 4 * 16 + unat b div 16, unat b mod 16 * 4]"
| "rawURLEncode (a # b # c # rest) =
     map b64Char [unat a div 4, unat a mod 4 * 16 + unat b div 16, unat b mod 16 * 4 + unat c div 64, unat c mod 64]
     @ rawURLEncode rest"

text \<open>\<open>read\<close> fills a buffer of the given length with random bytes.\<close>

definition randomURLSafe :: "(nat \<Rightarrow> error + 8 word list) \<Rightarrow> nat \<Rightarrow> error + string" where
  "randomURLSafe read n = (case read n of Inl e \<Rightarrow> Inl e | Inr b \<Rightarrow> Inr (rawURLEncode b))"

definition flowCookieMaxAge :: int where "flowCookieMaxAge = 10 * 60"
definition cookieState :: string where "cookieState = ''dploy_oidc_state''"
definition cookieVerifier :: string where "cookieVerifier = ''dploy_oidc_verifier''"
definition cookieNonce :: string where "cookieNonce = ''dploy_oidc_nonce''"
definition cookieReturn :: string where "cookieReturn = ''dploy_oidc_return''"

record Cookie =
  ckName :: string
  ckValue :: string
  ckPath :: string
  ckHTTPOnly :: bool
  ckSecure :: bool
  ckSameSite :: string
  ckMaxAge :: int

definition setFlowCookie :: "OIDCHandler \<Rightarrow> string \<Rightarrow> string \<Rightarrow> Cookie" where
  "setFlowCookie h name val = \<lparr>ckName = name, ckValue = val, ckPath = ''/auth'', ckHTTPOnly = True,
     ckSecure = secureCookie h, ckSameSite = ''Lax'', ckMaxAge = flowCookieMaxAge\<rparr>"

definition clearFlowCookie :: "OIDCHandler \<Rightarrow> string \<Rightarrow> Cookie" where
  "clearFlowCookie h name = \<lparr>ckName = name, ckValue = [], ckPath = ''/auth'', ckHTTPOnly = True,
     ckSecure = secureCookie h, ckSameSite = ''Lax'', ckMaxAge = -1\<rparr>"

text \<open>The cookies a successful Login sets, and the ones every Callback clears first.\<close>

definition loginCookies :: "OIDCHandler \<Rightarrow> flowCookies \<Rightarrow> Cookie list" where
  "loginCookies h ck = [setFlowCookie h cookieState (ckState ck), setFlowCookie h cookieVerifier (ckVerifier ck),
     setFlowCookie h cookieNonce (ckNonce ck), setFlowCookie h cookieReturn (ckReturn ck)]"

definition callbackCookies :: "OIDCHandler \<Rightarrow> Cookie list" where
  "callbackCookies h = map (clearFlowCookie h) [cookieState, cookieVerifier, cookieNonce, cookieReturn]"

section \<open>A browser\<close>

text \<open>A cookie is kept until its age is over, dropped when that is negative, and refused when it is
  \<^verbatim>\<open>Secure\<close> and the page is not (RFC 6265). Times are in seconds.\<close>

type_synonym jar = "string \<Rightarrow> (string \<times> int) option"

definition keepCookie :: "bool \<Rightarrow> int \<Rightarrow> Cookie \<Rightarrow> jar \<Rightarrow> jar" where
  "keepCookie https now c j =
     (if ckSecure c \<and> \<not> https then j
      else if ckMaxAge c < 0 then j(ckName c := None)
      else j(ckName c \<mapsto> (ckValue c, now + ckMaxAge c)))"

definition cookieSent :: "jar \<Rightarrow> int \<Rightarrow> string \<Rightarrow> string" where
  "cookieSent j now name = (case j name of None \<Rightarrow> [] | Some (v, until) \<Rightarrow> if now < until then v else [])"

definition flowSent :: "jar \<Rightarrow> int \<Rightarrow> flowCookies" where
  "flowSent j now = \<lparr>ckState = cookieSent j now cookieState, ckVerifier = cookieSent j now cookieVerifier,
     ckNonce = cookieSent j now cookieNonce, ckReturn = cookieSent j now cookieReturn\<rparr>"

definition afterLogin :: "OIDCHandler \<Rightarrow> bool \<Rightarrow> int \<Rightarrow> flowCookies \<Rightarrow> jar \<Rightarrow> jar" where
  "afterLogin h https t ck = fold (keepCookie https t) (loginCookies h ck)"

definition afterCallback :: "OIDCHandler \<Rightarrow> bool \<Rightarrow> int \<Rightarrow> jar \<Rightarrow> jar" where
  "afterCallback h https t = fold (keepCookie https t) (callbackCookies h)"

section \<open>Lemmas\<close>

lemma length_rawURLEncode: "length (rawURLEncode bs) = (4 * length bs + 2) div 3"
  by (induction bs rule: rawURLEncode.induct) auto

lemma randomURLSafe_length:
  assumes "randomURLSafe read n = Inr s" and "\<And>b. read n = Inr b \<Longrightarrow> length b = n"
  shows "length s = (4 * n + 2) div 3"
  using assms by (auto simp: randomURLSafe_def length_rawURLEncode split: sum.splits)

lemma cookie_names: "distinct [cookieState, cookieVerifier, cookieNonce, cookieReturn]"
  by (simp add: cookieState_def cookieVerifier_def cookieNonce_def cookieReturn_def)

lemma flow_afterLogin:
  assumes "secureCookie h \<longrightarrow> https"
  shows "flowSent (afterLogin h https t ck j) now
    = (if now < t + flowCookieMaxAge then ck else \<lparr>ckState = [], ckVerifier = [], ckNonce = [], ckReturn = []\<rparr>)"
  using assms cookie_names
  by (auto simp: afterLogin_def loginCookies_def flowSent_def cookieSent_def keepCookie_def setFlowCookie_def
      flowCookieMaxAge_def)

lemma flow_afterCallback:
  assumes "secureCookie h \<longrightarrow> https"
  shows "flowSent (afterCallback h https t j) now = \<lparr>ckState = [], ckVerifier = [], ckNonce = [], ckReturn = []\<rparr>"
  using assms cookie_names
  by (auto simp: afterCallback_def callbackCookies_def flowSent_def cookieSent_def keepCookie_def clearFlowCookie_def)

lemma Callback_no_cookies:
  "ckState ck = [] \<Longrightarrow> \<exists>code msg. Callback exchange verify ck query = AuthError code msg"
  by (simp add: Callback_def)

lemma replaceFirst_prefix: "hasPrefix old s \<Longrightarrow> replaceFirst old new s = new @ drop (length old) s"
  by (simp add: replaceFirst.simps)

text \<open>The delays double from half a second, and the loop stops at the first success.\<close>

definition delays :: "Duration list" where
  "delays = map (\<lambda>ms. ms * millisecond) [500, 1000, 2000, 4000]"

lemma newProviderWithRetry_cases:
  "newProviderWithRetry discover =
     (case find (\<lambda>i. \<not> isl (discover i)) [1..<6] of
        None \<Rightarrow> (discover 5, delays)
      | Some i \<Rightarrow> (discover i, take (i - 1) delays))"
proof -
  have five: "discoveryAttempts = 5" by (simp add: discoveryAttempts_def)
  have six: "[1..<6] = [1, 2, 3, 4, 5::nat]" by (simp add: upt_rec)
  show ?thesis
    unfolding newProviderWithRetry_def six
    by (auto simp: providerLoop.simps [of discover] five delays_def second_def millisecond_def
        numeral_eq_Suc split: sum.split)
qed

lemma find_upt:
  assumes "find P [m..<n] = Some i"
  shows "i \<in> set [m..<n] \<and> P i \<and> list_all (\<lambda>j. \<not> P j) [m..<i]"
proof -
  obtain k where k: "k < n - m" "P (m + k)" "i = m + k" "\<forall>j<k. \<not> P (m + j)"
    using assms by (auto simp: find_Some_iff)
  then have "\<not> P j" if "m \<le> j" "j < i" for j
    using that k(3,4) by (metis add_less_cancel_left le_iff_add)
  with k show ?thesis by (auto simp: list_all_iff)
qed

section \<open>Properties\<close>

text \<open>Which addresses a handler ends up with. An address under one of the bases is put under another,
  what comes after the base kept to the letter.\<close>

definition placedUnder :: "string list \<Rightarrow> string \<Rightarrow> string \<Rightarrow> string" where
  "placedUnder bases target url = (case find (\<lambda>b. hasPrefix b url) bases of
      Some b \<Rightarrow> target @ drop (length b) url
    | None \<Rightarrow> url)"

definition servesBoth :: "(string \<Rightarrow> (string \<times> string) option) \<Rightarrow> Config \<Rightarrow> Endpoint \<Rightarrow> Endpoint \<Rightarrow> bool" where
  "servesBoth parse cfg ep ep' =
     (if splitHorizon cfg
      then (let internalBase = extractBaseURL parse (OIDCIssuer cfg);
                publicBase = extractBaseURL parse (OIDCPublicIssuer cfg) in
        AuthURL ep' = placedUnder [publicBase, internalBase] publicBase (AuthURL ep)
        \<and> TokenURL ep' = placedUnder [publicBase, internalBase] internalBase (TokenURL ep))
      else ep' = ep)"

lemma hasPrefix_drop: "hasPrefix b s \<Longrightarrow> b @ drop (length b) s = s"
  unfolding hasPrefix_def by (metis append_take_drop_id)

lemma rebased:
  "rebaseAuth internalBase publicBase u = placedUnder [publicBase, internalBase] publicBase u"
  "rebaseToken internalBase publicBase u = placedUnder [publicBase, internalBase] internalBase u"
  by (auto simp: rebaseAuth_def rebaseToken_def placedUnder_def replaceFirst_prefix hasPrefix_drop)

lemma handlerEndpoint_servesBoth: "servesBoth parse cfg ep (handlerEndpoint parse cfg ep)"
  by (simp add: servesBoth_def handlerEndpoint_def Let_def rebased)

text \<open>C24. The login handler comes up exactly if one of the first five attempts at discovery answers,
  and it takes the first that does, after delays that double from half a second. With two issuers
  (an in-cluster and a public one) the browser is sent to the public address and the code is
  exchanged at the in-cluster one, whichever of the two addresses the provider's document names:
  only the scheme and host are exchanged, the path and the rest of the address are those of the
  document. An address under neither, and every address when there is one issuer, is used as it
  is. Login cookies are marked secure unless the redirect is plain http.\<close>

theorem login_endpoints:
  "case NewOIDCHandler parse discover cfg of
     (Inl e, slept) \<Rightarrow> list_all (\<lambda>i. isl (discover (expectedIssuer cfg) (OIDCIssuer cfg) i)) [1..<6]
       \<and> slept = delays
   | (Inr h, slept) \<Rightarrow> (\<exists>i\<in>set [1..<6]. \<exists>ep.
       discover (expectedIssuer cfg) (OIDCIssuer cfg) i = Inr ep \<and> slept = take (i - 1) delays
       \<and> list_all (\<lambda>j. isl (discover (expectedIssuer cfg) (OIDCIssuer cfg) j)) [1..<i]
       \<and> servesBoth parse cfg ep (oauthEndpoint h)
       \<and> (secureCookie h \<longleftrightarrow> \<not> hasPrefix ''http://'' (OIDCRedirectURL cfg)))"
proof -
  let ?d = "discover (expectedIssuer cfg) (OIDCIssuer cfg)"
  show ?thesis
  proof (cases "find (\<lambda>i. \<not> isl (?d i)) [1..<6]")
    case None
    have "list_all (\<lambda>i. isl (?d i)) [1..<6]"
      unfolding list_all_iff using find_None_iff [THEN iffD1, OF None] by blast
    moreover from this have "isl (?d 5)" by (simp add: list_all_iff)
    ultimately show ?thesis
      unfolding NewOIDCHandler_def newProviderWithRetry_cases None by (cases "?d 5") simp_all
  next
    case (Some i)
    note i = find_upt [OF Some]
    then obtain ep where ep: "?d i = Inr ep" by (cases "?d i") auto
    then show ?thesis
      unfolding NewOIDCHandler_def newProviderWithRetry_cases Some
      using i handlerEndpoint_servesBoth by (auto intro!: exI [of _ ep] bexI [of _ i])
  qed
qed

text \<open>C28. A login ends once, in time, and where it began. A browser that went through Login gets a
  token from Callback exactly if it comes within ten minutes with the state of that login and a
  code that the verifier of that login buys a token for, which verifies and carries the nonce of
  that login; it then goes to the path it had asked for, cleaned, with the token as the only
  fragment. State and nonce are 32 and 22 characters that were drawn for it. Once a Callback has
  answered, whatever it answered, no further one gives that browser a token without a new login.\<close>

theorem login_once_in_time:
  assumes "\<And>n b. read1 n = Inr b \<Longrightarrow> length b = n" and "\<And>n b. read2 n = Inr b \<Longrightarrow> length b = n"
    and "Login authCodeURL requested (randomURLSafe read1 24) (randomURLSafe read2 16) pkce = (Some ck, resp)"
    and "pkce \<noteq> []" and "secureCookie h \<longrightarrow> https"
  shows "(Callback exchange verify (flowSent (afterLogin h https t ck j) now) query = RedirectTo target \<longleftrightarrow>
        now < t + 600 \<and> query ''error'' = [] \<and> query ''state'' = ckState ck \<and> query ''code'' \<noteq> []
        \<and> (\<exists>raw tok. exchange (query ''code'') pkce = Inr (Some raw) \<and> verify raw = Inr tok
             \<and> idNonce tok = ckNonce ck
             \<and> target = cleanReturn (cleanReturn (if requested = [] then ''/'' else requested)) @ ''#token='' @ raw))
     \<and> (\<exists>code msg. Callback exchange verify (flowSent (afterCallback h https t' j') now') query = AuthError code msg)
     \<and> resp = RedirectTo (authCodeURL (ckState ck) pkce (ckNonce ck))
     \<and> length (ckState ck) = 32 \<and> length (ckNonce ck) = 22"
proof -
  obtain s n where sn: "randomURLSafe read1 24 = Inr s" "randomURLSafe read2 16 = Inr n"
    and ck: "ck = \<lparr>ckState = s, ckVerifier = pkce, ckNonce = n,
        ckReturn = cleanReturn (if requested = [] then ''/'' else requested)\<rparr>"
    and resp: "resp = RedirectTo (authCodeURL s pkce n)"
    using assms(3) by (auto simp: Login_def Let_def split: sum.splits)
  have len: "length s = 32" "length n = 22"
    using randomURLSafe_length [OF sn(1) assms(1)] randomURLSafe_length [OF sn(2) assms(2)] by simp_all
  then have "s \<noteq> []" "n \<noteq> []" by auto
  then show ?thesis
    unfolding flow_afterLogin [OF assms(5)] flow_afterCallback [OF assms(5)] Callback_redirects_iff
    using assms(4) ck resp len by (auto simp: flowCookieMaxAge_def Callback_def)
qed

definition demoHandler :: OIDCHandler where
  "demoHandler = \<lparr>oauthClientID = ''dploy'', oauthClientSecret = [], oauthRedirectURL = [],
     oauthEndpoint = \<lparr>AuthURL = [], TokenURL = []\<rparr>, oauthScopes = [], oidcVerifier = ProviderVerifier ''dploy'',
     secureCookie = True\<rparr>"

theorem login_once_in_time_witness:
  "\<exists>ck. Login (\<lambda>s p n. s) ''/run/web'' (randomURLSafe (\<lambda>n. Inr (replicate n 0)) 24)
        (randomURLSafe (\<lambda>n. Inr (replicate n 1)) 16) ''pkce'' = (Some ck, RedirectTo (ckState ck))
     \<and> Callback (\<lambda>c p. Inr (Some ''jwt'')) (\<lambda>raw. Inr \<lparr>idNonce = ckNonce ck, idClaims = Inr Map.empty\<rparr>)
         (flowSent (afterLogin demoHandler True 0 ck (\<lambda>_. None)) 599)
         (get (Map.empty(''state'' \<mapsto> ckState ck, ''code'' \<mapsto> ''x''))) = RedirectTo ''/run/web#token=jwt''"
proof -
  let ?read = "\<lambda>b n. Inr (replicate n b)"
  obtain ck resp where login: "Login (\<lambda>s p n. s) ''/run/web'' (randomURLSafe (?read 0) 24)
      (randomURLSafe (?read 1) 16) ''pkce'' = (Some ck, resp)"
    by (simp add: Login_def randomURLSafe_def)
  have clean: "cleanReturn ''/run/web'' = ''/run/web''" by code_simp
  note fact = login_once_in_time [OF _ _ login, of demoHandler True "\<lambda>c p. Inr (Some ''jwt'')"
      "\<lambda>raw. Inr \<lparr>idNonce = ckNonce ck, idClaims = Inr Map.empty\<rparr>" 0 "\<lambda>_. None" 599
      "get (Map.empty(''state'' \<mapsto> ckState ck, ''code'' \<mapsto> ''x''))" "''/run/web#token=jwt''"]
  have "resp = RedirectTo (ckState ck)" and "Callback (\<lambda>c p. Inr (Some ''jwt''))
      (\<lambda>raw. Inr \<lparr>idNonce = ckNonce ck, idClaims = Inr Map.empty\<rparr>)
      (flowSent (afterLogin demoHandler True 0 ck (\<lambda>_. None)) 599)
      (get (Map.empty(''state'' \<mapsto> ckState ck, ''code'' \<mapsto> ''x''))) = RedirectTo ''/run/web#token=jwt''"
    using fact by (simp_all add: clean)
  with login show ?thesis by blast
qed

end
