(* ===== verification/ApiStart.thy ===== *)
theory ApiStart
imports Logger Routes OidcSetup Scheme
begin

text \<open>
  The start of the API server: \<^verbatim>\<open>cmd/api/main.go\<close>, the construction of the Kubernetes
  client (\<^verbatim>\<open>internal/kube/client.go\<close>) and of the token validator
  (\<^verbatim>\<open>internal/auth/jwt.go\<close>). A start step that fails ends the process, through
  \<^verbatim>\<open>logger.Fatal\<close>, which does so only once the logger is there. What lies outside the
  repository (the environment, the cluster's configuration, discovery, the listening socket) is the
  record \<open>apiEnv\<close>.
\<close>

section \<open>The Kubernetes client\<close>

record 'r kubeEnv =
  inClusterConfig :: "error + 'r"
  kubeconfig :: "error + 'r"
  schemeError :: "error option"
  clientError :: "'r \<Rightarrow> objectType scheme \<Rightarrow> error option"

record 'r kubeClient =
  kcRest :: 'r
  kcScheme :: "objectType scheme"
  kcNamespace :: string
  kcConfig :: Config

definition loadRestConfig :: "'r kubeEnv \<Rightarrow> ('x, error + 'r) run" where
  "loadRestConfig K = (case inClusterConfig K of
     Inr cfg \<Rightarrow> tryE (logDebug ''Using in-cluster config for Kubernetes connection'' []) (\<lambda>_. ok (Inr cfg))
   | Inl e \<Rightarrow> tryE (logDebug ''In-cluster config not available, falling back to kubeconfig'' []) (\<lambda>_.
       case kubeconfig K of
         Inl e \<Rightarrow> ok (Inl (wrapErr ''failed to create kubernetes config'' e))
       | Inr cfg \<Rightarrow> ok (Inr cfg)))"

definition NewClient :: "'r kubeEnv \<Rightarrow> Config \<Rightarrow> ('x, error + 'r kubeClient) run" where
  "NewClient K cfg = tryE (loadRestConfig K) (\<lambda>r. case r of
     Inl e \<Rightarrow> ok (Inl e)
   | Inr restConfig \<Rightarrow>
       (let scheme = AddToScheme Map.empty in
        case schemeError K of
          Some e \<Rightarrow> ok (Inl (wrapErr ''register scheme'' e))
        | None \<Rightarrow> (case clientError K restConfig scheme of
            Some e \<Rightarrow> ok (Inl (wrapErr ''create kubernetes client'' e))
          | None \<Rightarrow> ok (Inr \<lparr>kcRest = restConfig, kcScheme = scheme, kcNamespace = ConfigNamespace cfg,
              kcConfig = cfg\<rparr>))))"

section \<open>The token validator\<close>

record validator =
  vaJWKS :: string
  vaIssuer :: string
  vaClientID :: string
  vaSkipClientIDCheck :: bool
  vaUsernameClaim :: string

definition NewJWTValidator :: "string \<Rightarrow> string \<Rightarrow> string \<Rightarrow> string \<Rightarrow> ('x, validator) run" where
  "NewJWTValidator jwksURL issuer audience usernameClaim =
     tryE (logDebug ''JWT validator using go-oidc RemoteKeySet+IDTokenVerifier''
         [''jwksURL'', jwksURL, ''issuer'', issuer, ''audience'', audience, ''usernameClaim'', usernameClaim])
       (\<lambda>_. ok \<lparr>vaJWKS = jwksURL, vaIssuer = issuer, vaClientID = audience,
          vaSkipClientIDCheck = (audience = []), vaUsernameClaim = usernameClaim\<rparr>)"

definition ValidateToken :: "verifier \<Rightarrow> string \<Rightarrow> string \<Rightarrow> string + string" where
  "ValidateToken verify usernameClaim tokenString = map_sum id fst (Validate verify usernameClaim tokenString)"

section \<open>main\<close>

text \<open>What the server listens with; a nil pointer is \<open>None\<close>.\<close>

record 'r served =
  svAddr :: string
  svConfig :: Config
  svClient :: "'r kubeClient option"
  svValidator :: validator
  svOidc :: "OIDCHandler option"
  svTable :: "entry list"

record 'r apiProcess = process +
  apServed :: "'r served option"
  apSlept :: "Duration list"

record 'r apiEnv =
  aeEnviron :: environ
  aeZap :: zap
  aeKube :: "'r kubeEnv"
  aeParseURL :: "string \<Rightarrow> (string \<times> string) option"
  aeDiscover :: "string \<Rightarrow> string \<Rightarrow> nat \<Rightarrow> error + Endpoint"
  aeListen :: "string \<Rightarrow> error option"

type_synonym ('r, 'a) apiRun = "(\<lparr>apServed :: 'r served option, apSlept :: Duration list\<rparr>, 'a) run"

text \<open>\<^verbatim>\<open>defer\<close> runs on return and on a panic, not on \<^verbatim>\<open>os.Exit\<close>.\<close>

definition deferring :: "('x, unit) run \<Rightarrow> ('x, 'a) run \<Rightarrow> ('x, 'a) run" where
  "deferring d m = do {
     r \<leftarrow> m;
     case r of Inl (Exit n) \<Rightarrow> give r | _ \<Rightarrow> do { _ \<leftarrow> d; give r } }"

definition listenAddr :: "Config \<Rightarrow> string" where
  "listenAddr cfg = ServerHost cfg @ '':'' @ ServerPort cfg"

definition listen :: "'r apiEnv \<Rightarrow> 'r served \<Rightarrow> ('r, unit) apiRun" where
  "listen W s = tryE (change (\<lambda>p. p\<lparr>apServed := Some s\<rparr>)) (\<lambda>_.
     case aeListen W (svAddr s) of
       Some e \<Rightarrow> Fatal ''Failed to start server'' [''error'', errText e]
     | None \<Rightarrow> ok ())"

text \<open>From the configuration to the pieces the routes need. \<^verbatim>\<open>if err != nil { logger.Fatal(...) }\<close>
  goes on where \<open>Fatal\<close> returns.\<close>

definition fatalIf :: "string \<Rightarrow> error + 'a \<Rightarrow> ('x, unit) run" where
  "fatalIf msg r = (case r of Inl e \<Rightarrow> Fatal msg [''error'', errText e] | Inr _ \<Rightarrow> ok ())"

definition pointer :: "error + 'a \<Rightarrow> 'a option" where
  "pointer r = (case r of Inl _ \<Rightarrow> None | Inr x \<Rightarrow> Some x)"

definition startOIDC :: "'r apiEnv \<Rightarrow> Config \<Rightarrow> ('r, error + OIDCHandler) apiRun" where
  "startOIDC W cfg = (case NewOIDCHandler (aeParseURL W) (aeDiscover W) cfg of
     (r, slept) \<Rightarrow> tryE (change (\<lambda>p. p\<lparr>apSlept := apSlept p @ slept\<rparr>)) (\<lambda>_. ok r))"

definition startServer :: "'r apiEnv \<Rightarrow> Config \<Rightarrow> ('r, unit) apiRun" where
  "startServer W cfg =
     tryE (logInfo ''Configuration loaded'' [''namespace'', ConfigNamespace cfg]) (\<lambda>_.
     tryE (NewClient (aeKube W) cfg) (\<lambda>kube.
     tryE (fatalIf ''Failed to create Kubernetes client'' kube) (\<lambda>_.
     tryE (logInfo ''Kubernetes client initialized'' []) (\<lambda>_.
     tryE (NewJWTValidator (JWKSUrl cfg) (JWTIssuer cfg) (JWTAudience cfg) (JWTUsernameClaim cfg)) (\<lambda>validator.
     tryE (logInfo ''JWT validator initialized'' [''jwksURL'', JWKSUrl cfg]) (\<lambda>_.
     tryE (logDebug ''JWT settings'' [''issuer'', JWTIssuer cfg, ''audience'', JWTAudience cfg,
         ''usernameClaim'', JWTUsernameClaim cfg]) (\<lambda>_.
     tryE (startOIDC W cfg) (\<lambda>oidc.
     tryE (fatalIf ''OIDC handler initialization failed after retries; exiting for restart'' oidc) (\<lambda>_.
     tryE (logInfo ''OIDC handler initialized'' [''issuer'', OIDCIssuer cfg]) (\<lambda>_.
     tryE (logDebug ''OIDC settings'' [''clientID'', OIDCClientID cfg, ''redirectURL'', OIDCRedirectURL cfg]) (\<lambda>_.
     tryE (logInfo ''Starting server'' [''addr'', listenAddr cfg]) (\<lambda>_.
     tryE (logDebug ''Server configuration'' [''host'', ServerHost cfg, ''port'', ServerPort cfg,
         ''namespace'', ConfigNamespace cfg]) (\<lambda>_.
     listen W \<lparr>svAddr = listenAddr cfg, svConfig = cfg, svClient = pointer kube, svValidator = validator,
       svOidc = pointer oidc, svTable = registered (pointer oidc \<noteq> None)\<rparr>)))))))))))))"

definition apiMain :: "'r apiEnv \<Rightarrow> ('r, unit) apiRun" where
  "apiMain W = (case Load (aeEnviron W) of
     Inl e \<Rightarrow> throw (Panic (''Failed to load configuration: '' @ e))
   | Inr cfg \<Rightarrow> tryE (Init (aeZap W) (Debug cfg)) (\<lambda>_. deferring Sync (startServer W cfg)))"

definition freshProcess :: "'r apiProcess" where
  "freshProcess = \<lparr>psLogger = None, psOnce = False, psOutput = [], psFlushed = 0, apServed = None, apSlept = []\<rparr>"

section \<open>What is up when the server listens\<close>

lemma served_more: "process.more p = process.more q \<Longrightarrow> apServed p = apServed q"
  by (cases p; cases q) simp

text \<open>Log calls leave the served state alone, and the process a logger.\<close>

lemma log_served [run_simps]:
  "apServed (after (logDebug msg kvs) p) = apServed p" "apServed (after (logInfo msg kvs) p) = apServed p"
  "apServed (after Sync p) = apServed p" "apServed (after (Fatal msg kvs) p) = apServed p"
  "apServed (after (Init Z debug) p) = apServed p"
  by (rule served_more, simp add: run_simps)+

text \<open>The value of \<open>NewClient\<close>.\<close>

definition clientWith :: "'r kubeEnv \<Rightarrow> Config \<Rightarrow> 'r \<Rightarrow> error + 'r kubeClient" where
  "clientWith K cfg rest = (case schemeError K of
     Some e \<Rightarrow> Inl (wrapErr ''register scheme'' e)
   | None \<Rightarrow> (case clientError K rest (AddToScheme Map.empty) of
       Some e \<Rightarrow> Inl (wrapErr ''create kubernetes client'' e)
     | None \<Rightarrow> Inr \<lparr>kcRest = rest, kcScheme = AddToScheme Map.empty, kcNamespace = ConfigNamespace cfg,
         kcConfig = cfg\<rparr>))"

definition clientFor :: "'r kubeEnv \<Rightarrow> Config \<Rightarrow> error + 'r kubeClient" where
  "clientFor K cfg = (case inClusterConfig K of
     Inr rest \<Rightarrow> clientWith K cfg rest
   | Inl _ \<Rightarrow> (case kubeconfig K of
       Inl e \<Rightarrow> Inl (wrapErr ''failed to create kubernetes config'' e)
     | Inr rest \<Rightarrow> clientWith K cfg rest))"

lemma run_NewClient [run_simps]:
  "outcome_of (NewClient K cfg) p = Inr (clientFor K cfg)"
  "psLogger (after (NewClient K cfg) p) = psLogger p"
  "process.more (after (NewClient K cfg) p) = process.more p"
  by (auto simp: NewClient_def loadRestConfig_def clientFor_def clientWith_def run_simps Let_def
      split: sum.split option.split)

lemma run_validator [run_simps]:
  "outcome_of (NewJWTValidator j i a u) p = Inr \<lparr>vaJWKS = j, vaIssuer = i, vaClientID = a,
      vaSkipClientIDCheck = (a = []), vaUsernameClaim = u\<rparr>"
  "psLogger (after (NewJWTValidator j i a u) p) = psLogger p"
  "process.more (after (NewJWTValidator j i a u) p) = process.more p"
  by (simp_all add: NewJWTValidator_def run_simps)

lemma run_startOIDC [run_simps]:
  "outcome_of (startOIDC W cfg) p = Inr (fst (NewOIDCHandler (aeParseURL W) (aeDiscover W) cfg))"
  "psLogger (after (startOIDC W cfg) p) = psLogger p"
  "apServed (after (startOIDC W cfg) p) = apServed p"
  by (simp_all add: startOIDC_def run_simps split: prod.split)

lemma run_fatalIf [run_simps]:
  "outcome_of (fatalIf msg r) p = (case r of Inr _ \<Rightarrow> Inr ()
     | Inl _ \<Rightarrow> (case psLogger p of None \<Rightarrow> Inr () | Some _ \<Rightarrow> Inl (Exit 1)))"
  "psLogger (after (fatalIf msg r) p) = psLogger p"
  "process.more (after (fatalIf msg r) p) = process.more p"
  by (simp_all add: fatalIf_def run_simps split: sum.split)

lemma started_served [run_simps]:
  "apServed (after (NewClient K cfg) p) = apServed p" "apServed (after (NewJWTValidator j i a u) p) = apServed p"
  "apServed (after (fatalIf msg r) p) = apServed p"
  by (rule served_more, simp add: run_simps)+

lemma run_listen [run_simps]:
  "apServed (after (listen W s) p) = Some s"
  "outcome_of (listen W s) p = (case aeListen W (svAddr s) of None \<Rightarrow> Inr ()
     | Some _ \<Rightarrow> (case psLogger p of None \<Rightarrow> Inr () | Some _ \<Rightarrow> Inl (Exit 1)))"
  by (simp_all add: listen_def run_simps split: option.split)

lemma run_deferring [run_simps]:
  "outcome_of (deferring Sync m) p = outcome_of m p"
  "apServed (after (deferring Sync m) p) = apServed (after m p)"
  using log_served(3) [of "after m p"]
  by (auto simp: deferring_def outcome_of_def after_def split: prod.split sum.split ending.split)

text \<open>Everything a listening server has, and that it came from this environment.\<close>

definition servedWith :: "Config \<Rightarrow> 'r kubeClient \<Rightarrow> OIDCHandler \<Rightarrow> 'r served" where
  "servedWith cfg c h = \<lparr>svAddr = ServerHost cfg @ '':'' @ ServerPort cfg, svConfig = cfg, svClient = Some c,
     svValidator = \<lparr>vaJWKS = JWKSUrl cfg, vaIssuer = JWTIssuer cfg, vaClientID = JWTAudience cfg,
       vaSkipClientIDCheck = (JWTAudience cfg = []), vaUsernameClaim = JWTUsernameClaim cfg\<rparr>,
     svOidc = Some h, svTable = routeTable\<rparr>"

definition ready :: "'r apiEnv \<Rightarrow> 'r served \<Rightarrow> bool" where
  "ready W s \<longleftrightarrow> (\<exists>cfg c h. Load (aeEnviron W) = Inr cfg
     \<and> buildError (aeZap W) (zapConfigFor (aeZap W) (Debug cfg)) = None
     \<and> clientFor (aeKube W) cfg = Inr c \<and> fst (NewOIDCHandler (aeParseURL W) (aeDiscover W) cfg) = Inr h
     \<and> s = servedWith cfg c h)"

lemma svAddr_servedWith: "svAddr (servedWith cfg c h) = listenAddr cfg"
  by (simp add: servedWith_def listenAddr_def)

lemma run_startServer:
  assumes "psLogger p = Some zc" and "apServed p = None"
  shows "(apServed (after (startServer W cfg) p), outcome_of (startServer W cfg) p) =
     (case clientFor (aeKube W) cfg of Inl e \<Rightarrow> (None, Inl (Exit 1))
      | Inr c \<Rightarrow> (case fst (NewOIDCHandler (aeParseURL W) (aeDiscover W) cfg) of Inl e \<Rightarrow> (None, Inl (Exit 1))
        | Inr h \<Rightarrow> (Some (servedWith cfg c h),
            case aeListen W (listenAddr cfg) of None \<Rightarrow> Inr () | Some e \<Rightarrow> Inl (Exit 1))))"
  using assms by (simp add: startServer_def run_simps pointer_def routeTable_def servedWith_def listenAddr_def
      split: sum.split option.split)

text \<open>C26. The API server listens exactly when everything it serves with is up. It starts to listen only
  with a loaded configuration, a built logger, a Kubernetes client that knows the types of the API, and
  a login handler of the discovered provider, with the whole table of routes; if one of them is
  missing, the process ends with exit code 1 or a panic and never listens. That it ends there rests
  on the logger, without which \<^verbatim>\<open>logger.Fatal\<close> returns: \<^verbatim>\<open>main\<close> sets it up first.\<close>

theorem api_listens_when_ready:
  "(apServed (after (apiMain W) freshProcess) = Some s \<longleftrightarrow> ready W s)
   \<and> (outcome_of (apiMain W) freshProcess = Inr () \<longleftrightarrow> (\<exists>s. ready W s \<and> aeListen W (svAddr s) = None))
   \<and> outcome_of (apiMain W) freshProcess \<in> {Inr (), Inl (Exit 1)} \<union> range (Inl \<circ> Panic)"
proof (cases "Load (aeEnviron W)")
  case (Inl e)
  then show ?thesis by (simp add: apiMain_def run_simps ready_def freshProcess_def Let_def)
next
  case (Inr cfg)
  let ?zc = "zapConfigFor (aeZap W) (Debug cfg)"
  show ?thesis
  proof (cases "buildError (aeZap W) ?zc")
    case (Some e)
    then show ?thesis using Inr by (auto simp: apiMain_def run_simps ready_def freshProcess_def Let_def)
  next
    case None
    let ?p = "after (Init (aeZap W) (Debug cfg)) freshProcess"
    have "psLogger ?p = Some ?zc" "apServed ?p = None"
      using None by (simp_all add: run_simps freshProcess_def)
    note started = run_startServer [OF this, of W cfg]
    have main: "outcome_of (apiMain W) freshProcess = outcome_of (startServer W cfg) ?p"
      "apServed (after (apiMain W) freshProcess) = apServed (after (startServer W cfg) ?p)"
      using None Inr by (simp_all add: apiMain_def run_simps freshProcess_def)
    have "ready W s \<longleftrightarrow> (\<exists>c h. clientFor (aeKube W) cfg = Inr c
        \<and> fst (NewOIDCHandler (aeParseURL W) (aeDiscover W) cfg) = Inr h \<and> s = servedWith cfg c h)" for s
      using None Inr by (simp add: ready_def)
    then show ?thesis
      using started unfolding main by (auto simp: svAddr_servedWith split: sum.splits option.splits)
  qed
qed

end
