(* ===== verification/OperatorStart.thy ===== *)
theory OperatorStart
imports Logger Scheme ClaimCtrl TemplateCtrl InstanceCtrl Samples
begin

text \<open>
  The start of the operator: \<^verbatim>\<open>cmd/operator/main.go\<close> and the \<^verbatim>\<open>SetupWithManager\<close> of each
  controller, that is, which objects wake which controller. The manager of controller-runtime, flag
  parsing (zap binds flags of its own) and the schemes of other groups are outside the repository;
  the record \<open>managerEnv\<close> holds what they answer.
\<close>

section \<open>What a controller watches\<close>

datatype watchedKind = Dploy objectType | FluxHelmRelease

text \<open>\<open>csFor\<close> wakes a controller with the key of the object itself, \<open>csOwns\<close> with its controlling
  owner, \<open>csWatches\<close> with what a function makes of it. Without an option there is one worker.\<close>

record controllerSpec =
  csName :: string
  csFor :: watchedKind
  csOwns :: "watchedKind list"
  csWatches :: "(watchedKind \<times> (api \<Rightarrow> DployInstance \<Rightarrow> NamespacedName list io)) list"
  csWorkers :: "int option"
  csReconcile :: "api \<Rightarrow> NamespacedName \<Rightarrow> result io"

definition claimMaxConcurrentReconciles :: int where "claimMaxConcurrentReconciles = 4"
definition instanceMaxConcurrentReconciles :: int where "instanceMaxConcurrentReconciles = 4"

definition OperatorConfigSetup :: controllerSpec where
  "OperatorConfigSetup = \<lparr>csName = ''operatorconfig'', csFor = Dploy OperatorConfigObject, csOwns = [],
     csWatches = [], csWorkers = None, csReconcile = reconcileConfig\<rparr>"

definition TemplateSetup :: "reader option \<Rightarrow> controllerSpec" where
  "TemplateSetup R = \<lparr>csName = ''dploytemplate'', csFor = Dploy DployTemplateObject, csOwns = [],
     csWatches = [(Dploy DployInstanceObject, \<lambda>A inst. give (templateForInstance inst))],
     csWorkers = None, csReconcile = (\<lambda>A. reconcileTemplate A R)\<rparr>"

definition InstanceSetup :: "int \<Rightarrow> controllerSpec" where
  "InstanceSetup maxConcurrentReconciles =
     (let workers = (if maxConcurrentReconciles \<le> 0 then instanceMaxConcurrentReconciles
                     else maxConcurrentReconciles) in
      \<lparr>csName = ''dployinstance'', csFor = Dploy DployInstanceObject, csOwns = [FluxHelmRelease],
        csWatches = [], csWorkers = Some workers, csReconcile = reconcileInstance\<rparr>)"

definition ClaimSetup :: "reader option \<Rightarrow> controllerSpec" where
  "ClaimSetup R = \<lparr>csName = ''dployinstanceclaim'', csFor = Dploy DployInstanceClaimObject, csOwns = [],
     csWatches = [(Dploy DployInstanceObject, claimsForInstance)],
     csWorkers = Some claimMaxConcurrentReconciles, csReconcile = (\<lambda>A. Reconcile A R)\<rparr>"

section \<open>Flags\<close>

record operatorFlags =
  metricsAddr :: string
  probeAddr :: string
  instanceConcurrency :: int
  enableLeaderElection :: bool

definition defaultFlags :: operatorFlags where
  "defaultFlags = \<lparr>metricsAddr = '':8443'', probeAddr = '':8081'', instanceConcurrency = 4,
     enableLeaderElection = False\<rparr>"

section \<open>main\<close>

record managerOptions =
  moMetricsBindAddress :: string
  moHealthProbeBindAddress :: string
  moLeaderElection :: bool
  moLeaderElectionID :: string

datatype startEvent =
    EAddScheme string "error option"
  | EConfigOrDie "error option"
  | ENewManager managerOptions "error option"
  | ESetup controllerSpec "error option"
  | EHealthz string "error option"
  | EReadyz string "error option"
  | EStart "error option"
  | ESetupLog string

type_synonym 'a start = "(startEvent, ending + 'a) prog"

text \<open>\<open>meParse\<close> is what \<^verbatim>\<open>flag.Parse\<close> makes of the defaults, or the exit code it ends with.\<close>

record managerEnv =
  meParse :: "operatorFlags \<Rightarrow> nat + operatorFlags"
  meScheme :: "string \<Rightarrow> error option"
  meConfig :: "error option"
  meManager :: "managerOptions \<Rightarrow> error option"
  meSetup :: "startEvent list \<Rightarrow> controllerSpec \<Rightarrow> error option"
  meHealthz :: "string \<Rightarrow> error option"
  meReadyz :: "string \<Rightarrow> error option"
  meStart :: "startEvent list \<Rightarrow> error option"

definition setupLog :: "string \<Rightarrow> 'a \<Rightarrow> 'a start" where
  "setupLog msg x = do { _ \<leftarrow> perform (\<lambda>_. ESetupLog msg) (\<lambda>_. ()); ok x }"

text \<open>\<^verbatim>\<open>utilruntime.Must\<close> panics.\<close>

definition must :: "managerEnv \<Rightarrow> string \<Rightarrow> unit start" where
  "must M grp = do {
     r \<leftarrow> perform (EAddScheme grp) (\<lambda>_. meScheme M grp);
     case r of None \<Rightarrow> ok () | Some e \<Rightarrow> throw (Panic (errText e)) }"

definition initSchemes :: "managerEnv \<Rightarrow> unit start" where
  "initSchemes M = tryE (must M ''clientgoscheme'') (\<lambda>_. tryE (must M ''dployv1alpha1'') (\<lambda>_.
     tryE (must M ''helmv2'') (\<lambda>_. must M ''sourcev1'')))"

text \<open>\<open>if err != nil { setupLog.Error(err, ...); os.Exit(1) }\<close>.\<close>

definition orExit :: "string \<Rightarrow> error option \<Rightarrow> unit start" where
  "orExit msg r = (case r of None \<Rightarrow> ok ()
     | Some e \<Rightarrow> tryE (setupLog msg ()) (\<lambda>_. throw (Exit 1)))"

definition setupController :: "managerEnv \<Rightarrow> controllerSpec \<Rightarrow> unit start" where
  "setupController M spec = do {
     r \<leftarrow> perform (ESetup spec) (\<lambda>h. meSetup M h spec);
     orExit ''unable to create controller'' r }"

definition optionsOf :: "operatorFlags \<Rightarrow> managerOptions" where
  "optionsOf fl = \<lparr>moMetricsBindAddress = metricsAddr fl, moHealthProbeBindAddress = probeAddr fl,
     moLeaderElection = enableLeaderElection fl, moLeaderElectionID = ''dploy-operator.dploy.dev''\<rparr>"

definition newManager :: "managerEnv \<Rightarrow> operatorFlags \<Rightarrow> unit start" where
  "newManager M fl = do {
     c \<leftarrow> perform EConfigOrDie (\<lambda>_. meConfig M);
     if c \<noteq> None then throw (Exit 1)
     else do {
       r \<leftarrow> perform (ENewManager (optionsOf fl)) (\<lambda>_. meManager M (optionsOf fl));
       orExit ''unable to start manager'' r } }"

definition addChecks :: "managerEnv \<Rightarrow> unit start" where
  "addChecks M = tryE (do { r \<leftarrow> perform (EHealthz ''healthz'') (\<lambda>_. meHealthz M ''healthz'');
       orExit ''unable to set up health check'' r }) (\<lambda>_.
     do { r \<leftarrow> perform (EReadyz ''readyz'') (\<lambda>_. meReadyz M ''readyz'');
       orExit ''unable to set up ready check'' r })"

definition startManager :: "managerEnv \<Rightarrow> unit start" where
  "startManager M = tryE (setupLog ''starting dploy operator'' ()) (\<lambda>_. do {
     r \<leftarrow> perform EStart (\<lambda>h. meStart M h);
     orExit ''problem running manager'' r })"

definition operatorMain :: "managerEnv \<Rightarrow> unit start" where
  "operatorMain M = (case meParse M defaultFlags of
     Inl code \<Rightarrow> throw (Exit code)
   | Inr fl \<Rightarrow>
       tryE (newManager M fl) (\<lambda>_.
       tryE (setupController M OperatorConfigSetup) (\<lambda>_.
       tryE (setupController M (TemplateSetup (Some APIServer))) (\<lambda>_.
       tryE (setupController M (InstanceSetup (instanceConcurrency fl))) (\<lambda>_.
       tryE (setupController M (ClaimSetup (Some APIServer))) (\<lambda>_.
       tryE (addChecks M) (\<lambda>_. startManager M)))))))"

text \<open>Go runs \<^verbatim>\<open>init\<close> before \<^verbatim>\<open>main\<close>.\<close>

definition operatorProcess :: "managerEnv \<Rightarrow> unit start" where
  "operatorProcess M = tryE (initSchemes M) (\<lambda>_. operatorMain M)"

section \<open>Waking up\<close>

text \<open>The keys a change of an instance, or of a release, puts into the queue of each controller.\<close>

definition ownerKeys :: "watchedKind \<Rightarrow> ObjectMeta \<Rightarrow> NamespacedName list" where
  "ownerKeys kind m = (case kind of FluxHelmRelease \<Rightarrow> []
     | Dploy t \<Rightarrow> (case filter refController (OwnerReferences m) of [] \<Rightarrow> []
         | r # _ \<Rightarrow> if refKind r = kindOf t then [\<lparr>nnNamespace = Namespace m, nnName = refName r\<rparr>] else []))"

fun mapped :: "api \<Rightarrow> DployInstance \<Rightarrow> (watchedKind \<times> (api \<Rightarrow> DployInstance \<Rightarrow> NamespacedName list io)) list
    \<Rightarrow> NamespacedName list io" where
  "mapped A inst [] = give []"
| "mapped A inst ((kind, f) # ws) = (if kind = Dploy DployInstanceObject then do {
     ks \<leftarrow> f A inst; rest \<leftarrow> mapped A inst ws; give (ks @ rest) } else mapped A inst ws)"

definition wokenByInstance :: "api \<Rightarrow> DployInstance \<Rightarrow> controllerSpec \<Rightarrow> NamespacedName list io" where
  "wokenByInstance A inst spec = do {
     ks \<leftarrow> mapped A inst (csWatches spec);
     give ((if csFor spec = Dploy DployInstanceObject then [objectKey (iMeta inst)] else []) @ ks) }"

definition wokenByRelease :: "HelmRelease \<Rightarrow> controllerSpec \<Rightarrow> NamespacedName list" where
  "wokenByRelease hr spec =
     (if FluxHelmRelease \<in> set (csOwns spec) then ownerKeys (csFor spec) (hrMeta hr) else [])"

section \<open>What runs when the manager runs\<close>

definition controllers :: "operatorFlags \<Rightarrow> controllerSpec list" where
  "controllers fl = [OperatorConfigSetup, TemplateSetup (Some APIServer), InstanceSetup (instanceConcurrency fl),
     ClaimSetup (Some APIServer)]"

fun registeredIn :: "startEvent list \<Rightarrow> controllerSpec list" where
  "registeredIn [] = []"
| "registeredIn (e # h) = (case e of ESetup spec None \<Rightarrow> spec # registeredIn h | _ \<Rightarrow> registeredIn h)"

text \<open>Before it creates a manager the operator knows every type, before it registers a controller it
  has a manager, and before it starts it has all controllers, each once, and both probes.\<close>

definition startGuard :: "managerEnv \<Rightarrow> startEvent list \<Rightarrow> startEvent \<Rightarrow> bool" where
  "startGuard M h e \<longleftrightarrow> (\<exists>g r. e = EAddScheme g r) \<or> (\<exists>fl. meParse M defaultFlags = Inr fl \<and> (case e of
     ENewManager opts r \<Rightarrow> opts = optionsOf fl \<and> EConfigOrDie None \<in> set h
       \<and> (\<forall>g\<in>{''clientgoscheme'', ''dployv1alpha1'', ''helmv2'', ''sourcev1''}. EAddScheme g None \<in> set h)
   | ESetup spec r \<Rightarrow> ENewManager (optionsOf fl) None \<in> set h
   | EStart r \<Rightarrow> registeredIn h = controllers fl \<and> EHealthz ''healthz'' None \<in> set h \<and> EReadyz ''readyz'' None \<in> set h
   | _ \<Rightarrow> True))"

lemma orExit_simps:
  "orExit msg None = ok ()" "orExit msg (Some e) = tryE (setupLog msg ()) (\<lambda>_. throw (Exit 1))"
  by (simp_all add: orExit_def)

lemma wp_setupLog [wp_simps]: "wp (setupLog msg x) Q h = Q (Inr x) (h @ [ESetupLog msg])"
  by (simp add: setupLog_def wp_simps)

lemma wp_orExit [wp_simps]: "wp (orExit msg r) Q h =
    (case r of None \<Rightarrow> Q (Inr ()) h | Some e \<Rightarrow> Q (Inl (Exit 1)) (h @ [ESetupLog msg]))"
  by (simp add: orExit_def wp_simps split: option.split)

text \<open>C25. The operator runs complete or not at all. Whatever flags, schemes and the manager answer, the
  manager is started only after all four controllers were registered with it, each once and with the
  options of the flags, after both probes, and with every type known to the scheme; the process
  returns from \<^verbatim>\<open>main\<close> exactly if the manager ran and stopped without an error, and ends with
  a failing exit code or a panic otherwise.\<close>

theorem operator_starts_complete:
  "all_steps (startGuard M) [] (logged (operatorProcess M) [])
   \<and> (returned (operatorProcess M) [] = Inr () \<longleftrightarrow> EStart None \<in> set (logged (operatorProcess M) []))
   \<and> returned (operatorProcess M) []
       \<in> {Inr (), Inl (Exit 1)} \<union> range (Inl \<circ> Panic) \<union> {Inl (Exit c) |c. meParse M defaultFlags = Inl c}"
proof -
  let ?Q = "\<lambda>r h. all_steps (startGuard M) [] h \<and> (r = Inr () \<longleftrightarrow> EStart None \<in> set h)
    \<and> r \<in> {Inr (), Inl (Exit 1)} \<union> range (Inl \<circ> Panic) \<union> {Inl (Exit c) |c. meParse M defaultFlags = Inl c}"
  have "wp (operatorProcess M) ?Q []"
    by (simp add: operatorProcess_def initSchemes_def must_def operatorMain_def newManager_def setupController_def
        addChecks_def startManager_def wp_simps startGuard_def controllers_def split: option.split sum.split)
  then show ?thesis unfolding wp_def .
qed

section \<open>Who is woken by a change\<close>

text \<open>What apimachinery documents of \<^verbatim>\<open>SetControllerReference\<close>: the object keeps its name and
  labels, and the reference given is its one controller.\<close>

definition setsController :: "api \<Rightarrow> bool" where
  "setsController A \<longleftrightarrow> (\<forall>r m m'. setControllerRef A r m = Inr m' \<longrightarrow> refController r \<longrightarrow>
     Name m' = Name m \<and> Namespace m' = Namespace m \<and> Labels m' = Labels m
     \<and> filter refController (OwnerReferences m') = [r])"

lemma filter_others: "\<not> (\<exists>q\<in>set qs. P q \<and> U q \<noteq> u) \<Longrightarrow> filter P (filter (\<lambda>q. U q \<noteq> u) qs) = []"
  by (auto simp: filter_empty_conv)

lemma setsController_stub: "setControllerRef A = addController \<Longrightarrow> setsController A"
  using filter_others [of _ refController refUID]
  by (auto simp: setsController_def addController_def split: if_splits)

text \<open>The key of a claim, an instance, a template.\<close>

lemma woken_claim:
  "wokenByInstance A inst (ClaimSetup R) = claimsForInstance A inst"
  by (simp add: wokenByInstance_def ClaimSetup_def)

lemma woken_template:
  "wokenByInstance A inst (TemplateSetup R) = give (templateForInstance inst)"
  by (simp add: wokenByInstance_def TemplateSetup_def)

lemma woken_instance:
  "wokenByInstance A inst (InstanceSetup n) = give [objectKey (iMeta inst)]"
  by (simp add: wokenByInstance_def InstanceSetup_def Let_def)

lemma bound_instance:
  assumes "setsController A" and "desiredBinding A claim ttl expiresAt cur = Inr inst"
  shows "objectKey (iMeta inst) = objectKey (iMeta cur)" "templateForInstance inst = templateForInstance cur"
    "get (Labels (iMeta inst)) LabelClaim = Name (cMeta claim)" "Namespace (iMeta inst) = Namespace (iMeta cur)"
proof -
  obtain m where m: "setControllerRef A (ownerRef ''DployInstanceClaim'' (cMeta claim))
      ((iMeta cur)\<lparr>OwnerReferences := []\<rparr>) = Inr m"
    using assms(2) by (auto simp: desiredBinding_def split: sum.splits)
  then have "Name m = Name (iMeta cur)" "Namespace m = Namespace (iMeta cur)"
    using assms(1) by (auto simp: setsController_def ownerRef_def)
  with m assms(2) show "objectKey (iMeta inst) = objectKey (iMeta cur)"
    "templateForInstance inst = templateForInstance cur"
    "get (Labels (iMeta inst)) LabelClaim = Name (cMeta claim)" "Namespace (iMeta inst) = Namespace (iMeta cur)"
    by (auto simp: desiredBinding_def Let_def stampBoundAt_def objectKey_def templateForInstance_def label_defs
        split: option.splits if_splits)
qed

lemma release_owner:
  assumes "setsController A" and "desiredRelease A inst tmpl eff kd src ns values hr = Inr hr'"
    and "Namespace (hrMeta hr) = Namespace (iMeta inst)"
  shows "ownerKeys (Dploy DployInstanceObject) (hrMeta hr') = [objectKey (iMeta inst)]"
  using assms
  by (auto simp: desiredRelease_def setsController_def ownerRef_def ownerKeys_def kindOf_def objectKey_def
      split: sum.splits)

fun wokenAll :: "api \<Rightarrow> DployInstance \<Rightarrow> controllerSpec list \<Rightarrow> (string \<times> NamespacedName list) list io" where
  "wokenAll A inst [] = give []"
| "wokenAll A inst (spec # specs) = do {
     ks \<leftarrow> wokenByInstance A inst spec;
     rest \<leftarrow> wokenAll A inst specs;
     give ((csName spec, ks) # rest) }"

lemma woken_config: "wokenByInstance A inst OperatorConfigSetup = give []"
  by (simp add: wokenByInstance_def OperatorConfigSetup_def)

lemmas woken = woken_config woken_template woken_instance woken_claim

lemmas setups = controllers_def OperatorConfigSetup_def TemplateSetup_def InstanceSetup_def ClaimSetup_def

lemma csNames: "csName OperatorConfigSetup = ''operatorconfig''" "csName (TemplateSetup R) = ''dploytemplate''"
  "csName (InstanceSetup n) = ''dployinstance''" "csName (ClaimSetup R) = ''dployinstanceclaim''"
  by (simp_all add: setups Let_def)

text \<open>C10. No change is missed. Once an instance is bound to a claim, every change of it wakes, without a
  call to the API, its own controller, the controller of its template (so that a pool refills although
  the instance has changed hands) and that claim; a change of its release wakes it and nothing else; and
  a change of a free warm instance wakes exactly the claims that wait for its template.\<close>

theorem changes_wake_their_controllers:
  assumes "setsController A" and "desiredBinding A claim ttl expiresAt cur = Inr inst"
    and "Namespace (iMeta cur) = Namespace (cMeta claim)" and "Name (cMeta claim) \<noteq> []"
  shows "run_state (wokenAll A inst (controllers fl)) h =
      ([(''operatorconfig'', []), (''dploytemplate'', templateForInstance cur),
        (''dployinstance'', [objectKey (iMeta cur)]), (''dployinstanceclaim'', [objectKey (cMeta claim)])], h)
    \<and> (desiredRelease A inst tmpl eff kd src ns values hr = Inr hr' \<and> Namespace (hrMeta hr) = Namespace (iMeta cur)
       \<longrightarrow> map (wokenByRelease hr') (controllers fl) = [[], [], [objectKey (iMeta cur)], []])
    \<and> (iPooled (iSpec free) \<and> iOwner (iSpec free) = [] \<and> get (Labels (iMeta free)) LabelClaim = []
         \<and> reListClaims A h (Namespace (iMeta free)) [(LabelTemplate, iTemplateRef (iSpec free))] = Inr claims
       \<longrightarrow> returned (wokenByInstance A free (ClaimSetup R)) h
           = map (\<lambda>c. objectKey (cMeta c)) (filter (\<lambda>c. cPhase (cStatus c) = ClaimPending) claims))"
proof (intro conjI impI)
  note inst = bound_instance [OF assms(1,2)]
  show "run_state (wokenAll A inst (controllers fl)) h =
      ([(''operatorconfig'', []), (''dploytemplate'', templateForInstance cur),
        (''dployinstance'', [objectKey (iMeta cur)]), (''dployinstanceclaim'', [objectKey (cMeta claim)])], h)"
    using inst assms(3,4) by (simp add: controllers_def woken csNames claimsForInstance_def objectKey_def)
next
  note inst = bound_instance [OF assms(1,2)]
  assume "desiredRelease A inst tmpl eff kd src ns values hr = Inr hr' \<and> Namespace (hrMeta hr) = Namespace (iMeta cur)"
  then have "ownerKeys (Dploy DployInstanceObject) (hrMeta hr') = [objectKey (iMeta cur)]"
    using release_owner [OF assms(1)] inst(1,4) by metis
  then show "map (wokenByRelease hr') (controllers fl) = [[], [], [objectKey (iMeta cur)], []]"
    by (simp add: setups wokenByRelease_def Let_def)
next
  assume "iPooled (iSpec free) \<and> iOwner (iSpec free) = [] \<and> get (Labels (iMeta free)) LabelClaim = []
    \<and> reListClaims A h (Namespace (iMeta free)) [(LabelTemplate, iTemplateRef (iSpec free))] = Inr claims"
  then show "returned (wokenByInstance A free (ClaimSetup R)) h
      = map (\<lambda>c. objectKey (cMeta c)) (filter (\<lambda>c. cPhase (cStatus c) = ClaimPending) claims)"
    by (simp add: woken claimsForInstance_def listClaims_def perform_def returned_def)
qed

definition demoClaim :: "string \<Rightarrow> ClaimPhase \<Rightarrow> DployInstanceClaim" where
  "demoClaim n ph = \<lparr>cMeta = emptyMeta\<lparr>Name := n, Namespace := ''d'', UID := n\<rparr>,
     cSpec = \<lparr>cTemplateRef = ''web'', cOwner = n, cParams = Map.empty, cTTLSeconds = 0, cWaitForPool = True\<rparr>,
     cStatus = emptyClaimStatus\<lparr>cPhase := ph\<rparr>\<rparr>"

definition warmInstance :: DployInstance where
  "warmInstance = emptyInstance\<lparr>iMeta := emptyMeta\<lparr>Name := ''i'', Namespace := ''d''\<rparr>,
     iSpec := (iSpec emptyInstance)\<lparr>iTemplateRef := ''web'', iPooled := True\<rparr>\<rparr>"

definition wakeApi :: api where
  "wakeApi = stubApi\<lparr>reListClaims := (\<lambda>h ns sel. Inr [demoClaim ''a'' ClaimBound, demoClaim ''b'' ClaimPending])\<rparr>"

definition keyInD :: "string \<Rightarrow> NamespacedName" where
  "keyInD n = \<lparr>nnNamespace = ''d'', nnName = n\<rparr>"

theorem changes_wake_their_controllers_witness:
  "\<exists>inst. desiredBinding wakeApi (demoClaim ''a'' ClaimPending) 60 None warmInstance = Inr inst
     \<and> run_state (wokenAll wakeApi inst (controllers defaultFlags)) []
       = ([(''operatorconfig'', []), (''dploytemplate'', [keyInD ''web'']), (''dployinstance'', [keyInD ''i'']),
          (''dployinstanceclaim'', [keyInD ''a''])], [])
     \<and> (\<exists>hr. map (wokenByRelease hr) (controllers defaultFlags) = [[], [], [keyInD ''i''], []])
     \<and> returned (wokenByInstance wakeApi warmInstance (ClaimSetup (Some APIServer))) [] = [keyInD ''b'']"
proof -
  let ?claim = "demoClaim ''a'' ClaimPending" and ?hr = "emptyRelease\<lparr>hrMeta := emptyMeta\<lparr>Namespace := ''d''\<rparr>\<rparr>"
  have A: "setControllerRef wakeApi = addController" by (simp add: wakeApi_def stubApi_def)
  have fields: "Namespace (iMeta warmInstance) = ''d''" "Namespace (cMeta ?claim) = ''d''" "Name (cMeta ?claim) = ''a''"
    "objectKey (iMeta warmInstance) = keyInD ''i''" "objectKey (cMeta ?claim) = keyInD ''a''"
    "templateForInstance warmInstance = [keyInD ''web'']"
    by (simp_all add: warmInstance_def demoClaim_def objectKey_def keyInD_def templateForInstance_def
        emptyInstance_def emptyMeta_def)
  have free: "iPooled (iSpec warmInstance) \<and> iOwner (iSpec warmInstance) = [] \<and> get (Labels (iMeta warmInstance)) LabelClaim = []
      \<and> reListClaims wakeApi [] (Namespace (iMeta warmInstance)) [(LabelTemplate, iTemplateRef (iSpec warmInstance))]
        = Inr [demoClaim ''a'' ClaimBound, demoClaim ''b'' ClaimPending]"
    by (simp add: warmInstance_def wakeApi_def emptyInstance_def emptyMeta_def)
  obtain inst where inst: "desiredBinding wakeApi ?claim 60 None warmInstance = Inr inst"
    by (simp add: desiredBinding_def A addController_def Let_def)
  obtain hr' where hr': "desiredRelease wakeApi inst emptyTemplate fallbacks [] [] [] [] ?hr = Inr hr'
      \<and> Namespace (hrMeta ?hr) = Namespace (iMeta warmInstance)"
    by (simp add: desiredRelease_def A addController_def emptyMeta_def fields)
  have "Namespace (iMeta warmInstance) = Namespace (cMeta ?claim)" "Name (cMeta ?claim) \<noteq> []"
    by (simp_all add: fields)
  note run = changes_wake_their_controllers [OF setsController_stub [OF A] inst this]
  have "run_state (wokenAll wakeApi inst (controllers defaultFlags)) [] = ([(''operatorconfig'', []),
      (''dploytemplate'', [keyInD ''web'']), (''dployinstance'', [keyInD ''i'']), (''dployinstanceclaim'', [keyInD ''a''])], [])"
    using run [THEN conjunct1] by (simp add: fields)
  moreover have "map (wokenByRelease hr') (controllers defaultFlags) = [[], [], [keyInD ''i''], []]"
    using run [THEN conjunct2, THEN conjunct1, rule_format, OF hr'] by (simp only: fields)
  moreover have "returned (wokenByInstance wakeApi warmInstance (ClaimSetup (Some APIServer))) [] = [keyInD ''b'']"
    using run [THEN conjunct2, THEN conjunct2, rule_format, OF free]
    by (simp add: demoClaim_def objectKey_def keyInD_def emptyMeta_def)
  ultimately show ?thesis by (intro exI [of _ inst] conjI exI [of _ hr'] inst)
qed

end
