(* ===== verification/Spec2Isabelle.thy ===== *)
theory Spec2Isabelle
imports Binding ClientProps PoolConverging Delivering DeepCopy ApiStart OperatorStart
begin

text \<open>
  A development of dploy: a Kubernetes operator that hands out environments (Helm releases in
  namespaces of their own) to users, and the HTTP server through which users ask for them.

  \<^bold>\<open>The program.\<close> Three kinds of object carry its state, all stored by the Kubernetes API. A
  \<open>DployTemplate\<close> describes an environment and the pool of warm instances to keep for it; a
  \<open>DployInstance\<close> is one environment; a \<open>DployInstanceClaim\<close> is a user's demand for one. The
  template controller checks the template's chart source and fills or shrinks the pool. The claim
  controller binds a claim to a warm instance or creates one, enforces quotas, capacity and
  lifetimes, and releases what a claim held. The instance controller turns an instance into a
  namespace, a source and a Flux \<open>HelmRelease\<close>, records what Flux reports, and takes the
  environment down. The API server authenticates a request, derives the owner key of its user,
  and creates, reads, extends or deletes the claims under that key. They share no memory: they
  interact through the objects only, with stale reads and writes that can be refused or lost.

  \<^bold>\<open>How effects are modelled.\<close> A function that calls out is a program in the state monad over its
  own call log (theory \<open>Prelude\<close>); a call appends one event with its reply. The replies are a
  parameter, the record \<open>api\<close> (theory \<open>Api\<close>), and may depend on the whole log, so one choice of
  it is one behaviour of the cluster, the clock and the random source, errors and concurrent
  writers included; theorems about one run quantify over it. Errors are values of the sum type.
  Integers are Go's: \<open>int\<close> with the wrap at 64 bits written out (\<open>wrap64\<close>), and \<open>32 word\<close> for the
  FNV hash. Instants are nanoseconds. Maps are HOL maps whose lookup \<open>get\<close> has Go's zero value.

  \<^bold>\<open>Which theory models what.\<close>
  \<^item> \<open>Types\<close>: \<^verbatim>\<open>api/v1alpha1\<close>, a record per struct and a datatype per
    enumeration; \<open>Naming\<close>: \<^verbatim>\<open>internal/controller/naming.go\<close> and the
    normalisers of the API side, behind one locale; \<open>Resolver\<close>:
    \<^verbatim>\<open>internal/operatorconfig/resolver.go\<close> and its controller; \<open>Rfc3339\<close>: the
    timestamps of Go's \<^verbatim>\<open>time\<close> package that the program writes and reads back;
    \<open>Ttl\<close>: lifetimes, anchors and deadlines; \<open>Flux\<close>: \<^verbatim>\<open>internal/controller/flux.go\<close>.
  \<^item> \<open>ClaimOps\<close> and \<open>ClaimCtrl\<close>:
    \<^verbatim>\<open>internal/controller/dployinstanceclaim_controller.go\<close>, the operations and the
    reconcile loop; \<open>TemplateCtrl\<close>: \<^verbatim>\<open>dploytemplate_controller.go\<close>; \<open>InstanceCtrl\<close>:
    \<^verbatim>\<open>dployinstance_controller.go\<close> and \<^verbatim>\<open>internal/templating\<close>;
    \<open>Ordering\<close>: the \<^verbatim>\<open>sort.Slice\<close> calls of all three, behind one locale.
  \<^item> \<open>KubeClient\<close>: \<^verbatim>\<open>internal/kube\<close>; \<open>ApiConfig\<close>: \<^verbatim>\<open>internal/config\<close>;
    \<open>Auth\<close> and \<open>OidcSetup\<close>: \<^verbatim>\<open>internal/auth\<close>; \<open>Handlers\<close>: \<^verbatim>\<open>internal/handlers\<close>,
    \<^verbatim>\<open>internal/models\<close>; \<open>Routes\<close>: the route table, the groups and the
    authentication gates of \<^verbatim>\<open>cmd/api/main.go\<close>, and the chain a request walks.
  \<^item> \<open>Scheme\<close>: the type registration of \<^verbatim>\<open>groupversion_info.go\<close> and the
    \<^verbatim>\<open>init\<close> functions; \<open>Logger\<close>: \<^verbatim>\<open>internal/logger\<close>; \<open>ApiStart\<close>: the start-up
    of \<^verbatim>\<open>cmd/api/main.go\<close> with \<^verbatim>\<open>NewClient\<close>, \<^verbatim>\<open>loadRestConfig\<close> and
    \<^verbatim>\<open>NewJWTValidator\<close>; \<open>OperatorStart\<close>: \<^verbatim>\<open>cmd/operator/main.go\<close> and the
    \<^verbatim>\<open>SetupWithManager\<close> of each controller, with the wake-ups its watches give rise to.
  \<^item> \<open>GoHeap\<close> and \<open>DeepCopy\<close>: \<^verbatim>\<open>zz_generated.deepcopy.go\<close>, the one place where
    aliasing is the subject: pointers, slices and maps there are addresses of an explicit heap;
    everywhere else the code works on copies of its own and the records stand for them.
  \<^item> \<open>ClaimGuarantee\<close>, \<open>ClaimProps\<close>, \<open>TemplateProps\<close>, \<open>InstanceProps\<close>, \<open>ApiProps\<close>,
    \<open>ClientProps\<close>: the properties of each; \<open>Settling\<close>: two runs of the claim controller in
    a row; \<open>Worlds\<close>: one controller run again and again on what it wrote;
    \<open>Provisioning\<close> and \<open>Converging\<close>: the instance controller so run, \<open>PoolRest\<close> and
    \<open>PoolConverging\<close>: the template controller; \<open>Filing\<close> and \<open>Delivering\<close>: a request, from the claim
    the API server files to the environment its owner gets; \<open>Cluster\<close> and \<open>Binding\<close>: all of the actors together;
    \<open>Samples\<close>: a concrete environment for the examples.

  A function has the name it has in the source, but for clashes; a loop body or a branch the source
  writes inline has a name of its own when it is long. Updates of a Go pointer are updated records.
\<close>

text \<open>
  \<^bold>\<open>What is shown of one run.\<close> For each controller and for the API server a guard is defined that
  says, of every call, what the run must have read before it may make it, and the whole run is
  proved to keep it by a calculus of weakest preconditions (\<open>wpe\<close>). The result is one contract, the
  locale \<open>guarded_run\<close>, interpreted for each; the properties are read off it: who may be handed an
  environment, what is released before a status says so, within which bounds the pool moves, when
  a release is applied, in which order an environment is taken down, which status may be recorded,
  on what reading an environment may be deleted (the instance controller deletes without a
  precondition, so for it the reading may be out of date), and what a request can touch. They hold whatever the cluster
  answers, so also under every interleaving, and include that runs end: every definition is total.

  \<^bold>\<open>What is shown of all runs together.\<close> \<open>Cluster\<close> states what the Kubernetes API documents of its
  store, and \<open>Binding\<close> runs any number of actors against it, one call at a time, as an inductive
  step relation. Every kind of actor meets the contract of the locale \<open>actor\<close>, by the guards
  above, and each step keeps the invariant that no instance is bound to two claims and that the
  instant at which an instance was bound never changes once it is recorded. Assumed are:
  optimistic concurrency, fresh UIDs and names, that the owner-reference and finalizer helpers
  leave the rest of the metadata alone (\<open>lawful\<close>), and that nobody else writes instances.

  \<^bold>\<open>What is shown of functions.\<close> Quota ranking picks the same losers from the same list whatever its
  order; a granted lifetime stays in its budget and exactly the budgeted number of extensions
  succeeds across server and operator; the binding anchor survives printing and parsing; owner keys
  of both sides agree; namespaces are DNS labels; claiming a warm instance changes nothing rendered;
  a login ends once, in time and where it began; a configuration that loads or resolves is usable;
  a deep copy equals its original and shares no cell with it.

  \<^bold>\<open>What is shown of the whole processes.\<close> Every method and path reaches the handler the route
  table names, and a request under a guarded prefix reaches none without a validated token. The API
  server listens only with its client, its validator and its login flow in place; the operator
  starts its manager only with every controller set up and both probes registered; a change of a
  bound instance wakes its claim, its template and its own controller, one of its release wakes
  the instance, and a freed warm one the claims that wait for it.

  \<^bold>\<open>What is shown of runs in a row.\<close> The controllers come to rest: a controller whose writes wake
  it again and change something each time would run forever. Once a claim is reconciled and nothing changes,
  the next reconcile writes nothing new (\<open>Settling\<close>). For the other two the statement starts from
  any state that does not end the object. The world after a run is the world before it with what the run wrote (\<open>afterRun\<close>); a
  run is \<open>idle\<close> when each of its writes leaves the object as it was found, by
  which \<^verbatim>\<open>CreateOrUpdate\<close> sends nothing and a merge patch is empty. An instance needs at most
  three reconciles, one for its metadata, one for its identifier and one for all the rest, and is then
  provisioned as its template says; one that is not being deleted and not overdue comes to rest as
  well when its template is gone (recorded Failed), or when template or configuration cannot be
  read (left as it was). A pool needs one. Put together (\<open>Delivering\<close>): a claim filed by the API
  server is served by the claim controller, its instance by the instance controller, and once Flux
  has reported the release ready the claim is Bound, Ready, and carries the connection of its
  instance. There the controllers run one after the other, not interleaved. Assumed of the world (\<open>calm\<close>): reads repeat and
  writes are accepted, an object to create or update is found under its key, an owner reference once set can
  be set again without a change (\<open>referenceAgain\<close>), a finalizer is appended unless it is there already
  (\<open>finalizerLaw\<close>), conditions are set as documented (\<open>conditionLaws\<close>). The clock may advance.

  \<^bold>\<open>Bounds.\<close> Every loop recurs on its data or on a count the code has: the candidates tried
  (at most \<open>claimBindRetries\<close>, eight), the shortfall of the pool, the conflict retries of the client
  library (\<open>conflictRetries\<close>, a parameter). No fuel is used.

  \<^bold>\<open>Not modelled.\<close> The libraries the start-up code drives, as far as it does not itself
  decide what they do: flag parsing, the manager's caches, queues and leader election, the
  matching inside Fiber beyond segments and parameters, its CORS and file-server middleware, the
  encoders of zap, the transport of the REST client, the copy functions of apimachinery; the
  constructors that only fill a struct; and the helpers of \<^verbatim>\<open>test/e2e\<close>.
  Not under the source, and so parameters: the Kubernetes API, Flux,
  \<^verbatim>\<open>text/template\<close>, YAML decoding, OIDC discovery, the token verifier, random bytes;
  and \<^verbatim>\<open>url.Parse\<close> on the issuers, of which only scheme and host are used.
  The cluster store of \<open>Binding\<close> covers instances; claims and templates
  are read there with arbitrary replies, and only that a claim read from it has a UID is assumed.
\<close>

end
